(* ===== verification/Prelude.thy ===== *)
theory Prelude
  imports Main "HOL-Library.AList" "HOL-Library.Word" "HOL-Library.Multiset"
begin

text \<open>
  Shared vocabulary of the development: Rust's integer conversions, orderings and stable sort,
  the memory of reference-counted objects, hash maps as association lists, and the interfaces
  (locales) the component theories interpret.

  Memory. The program shares objects through \<^verbatim>\<open>Arc\<close> and \<^verbatim>\<open>Weak\<close> pointers with interior
  mutability. An arena is a list of cells addressed by position; an address is a pointer, a cell
  holding \<open>None\<close> is an object whose last strong reference is gone. \<^verbatim>\<open>Weak::upgrade\<close> is
  \<open>upgrade\<close>, \<^verbatim>\<open>Arc::new\<close> is \<open>alloc\<close>, a write through a lock or an atomic is \<open>modify\<close> and the
  drop of the last strong reference is \<open>release\<close>.

  Hash maps are association lists with distinct keys whose order is the (arbitrary) iteration
  order; a statement about every such list is a statement about every iteration order.
\<close>

named_theorems conv_simps \<open>integer conversions\<close>
named_theorems cmp_intros \<open>comparators that satisfy the laws of an ordering\<close>

subsection \<open>Integers\<close>

type_synonym u32 = "32 word"
type_synonym u64 = "64 word"
type_synonym timestamp = int  \<comment> \<open>nanoseconds since the epoch\<close>

definition trunc_div :: "int \<Rightarrow> int \<Rightarrow> int" where
  "trunc_div a b = sgn a * sgn b * (\<bar>a\<bar> div \<bar>b\<bar>)"

definition as_second :: "timestamp \<Rightarrow> int" where
  "as_second t = trunc_div t 1000000000"

definition as_millis :: "int \<Rightarrow> int" where
  "as_millis d = trunc_div d 1000000"

definition i32_try_from :: "int \<Rightarrow> int option" where
  [conv_simps]: "i32_try_from n = (if - (2 ^ 31) \<le> n \<and> n < 2 ^ 31 then Some n else None)"

definition i64_try_from :: "int \<Rightarrow> int option" where
  [conv_simps]: "i64_try_from n = (if - (2 ^ 63) \<le> n \<and> n < 2 ^ 63 then Some n else None)"

definition u32_try_from :: "int \<Rightarrow> u32 option" where
  [conv_simps]: "u32_try_from n = (if 0 \<le> n \<and> n < 2 ^ 32 then Some (word_of_int n) else None)"

definition u64_try_from :: "int \<Rightarrow> u64 option" where
  [conv_simps]: "u64_try_from n = (if 0 \<le> n \<and> n < 2 ^ 64 then Some (word_of_int n) else None)"

text \<open>An \<^verbatim>\<open>i64\<close> result of \<^verbatim>\<open>fetch_add\<close> and \<^verbatim>\<open>fetch_sub\<close>: two's complement wrap-around.\<close>

definition wrap_i64 :: "int \<Rightarrow> int" where
  "wrap_i64 n = (n + 2 ^ 63) mod 2 ^ 64 - 2 ^ 63"

definition in_i64 :: "int \<Rightarrow> bool" where
  "in_i64 n \<longleftrightarrow> - (2 ^ 63) \<le> n \<and> n < 2 ^ 63"

lemma wrap_i64_id [simp]: "in_i64 n \<Longrightarrow> wrap_i64 n = n"
  by (simp add: wrap_i64_def in_i64_def mod_pos_pos_trivial)

lemma in_i64_wrap [simp]: "in_i64 (wrap_i64 n)"
  by (simp add: wrap_i64_def in_i64_def)

lemma wrap_i64_wrap_add [simp]: "wrap_i64 (wrap_i64 a + b) = wrap_i64 (a + b)"
proof -
  have "(wrap_i64 a + b + 2 ^ 63) mod 2 ^ 64 = ((a + 2 ^ 63) mod 2 ^ 64 + b) mod 2 ^ 64"
    by (simp add: wrap_i64_def)
  also have "\<dots> = (a + b + 2 ^ 63) mod 2 ^ 64"
    by (subst mod_add_left_eq) (simp add: ac_simps)
  finally show ?thesis
    by (simp only: wrap_i64_def [of "wrap_i64 a + b"] wrap_i64_def [of "a + b"])
qed

lemma wrap_i64_wrap_diff [simp]: "wrap_i64 (wrap_i64 a - b) = wrap_i64 (a - b)"
  using wrap_i64_wrap_add [of a "- b"] by simp

lemma wrap_i64_add_wrap [simp]: "wrap_i64 (a + wrap_i64 b) = wrap_i64 (a + b)"
  using wrap_i64_wrap_add [of b a] by (simp add: add.commute)

lemma unat_u64_of_nat: "n < 2 ^ 64 \<Longrightarrow> unat (of_nat n :: u64) = n"
  by (simp add: unat_of_nat take_bit_nat_eq_self)

text \<open>
  Errors that the fallible operations return (\<^verbatim>\<open>anyhow::Error\<close>, by what raised them). \<open>Diverges\<close>
  and \<open>Panicked\<close> are not errors of the program: they stand for code that never ends and for a task that
  is killed by a panic, and no handler catches them.
\<close>

datatype error =
    Db_Error
  | Int_Conversion
  | Time_Range
  | Parse_Error string
  | Not_Found string
  | Rejected string
  | Channel_Closed
  | Store_Error
  | Diverges
  | Panicked

definition wrap_i32 :: "int \<Rightarrow> int" where
  "wrap_i32 n = (n + 2 ^ 31) mod 2 ^ 32 - 2 ^ 31"

lemma wrap_i32_id [simp]: "- (2 ^ 31) \<le> n \<Longrightarrow> n < 2 ^ 31 \<Longrightarrow> wrap_i32 n = n"
  by (simp add: wrap_i32_def mod_pos_pos_trivial)

subsection \<open>Orderings and the stable sort\<close>

datatype ordering = Less | Equal | Greater

fun reverse_ord :: "ordering \<Rightarrow> ordering" where
  "reverse_ord Less = Greater"
| "reverse_ord Equal = Equal"
| "reverse_ord Greater = Less"

definition cmp :: "'a::linorder \<Rightarrow> 'a \<Rightarrow> ordering" where
  "cmp a b = (if a < b then Less else if a = b then Equal else Greater)"

lemma reverse_ord_simps [simp]:
  "reverse_ord o1 = Less \<longleftrightarrow> o1 = Greater"
  "reverse_ord o1 = Equal \<longleftrightarrow> o1 = Equal"
  "reverse_ord o1 = Greater \<longleftrightarrow> o1 = Less"
  "reverse_ord (reverse_ord o1) = o1"
  by (cases o1; simp)+

lemma cmp_simps [simp]:
  "cmp a b = Less \<longleftrightarrow> a < b"
  "cmp a b = Equal \<longleftrightarrow> a = b"
  "cmp a b = Greater \<longleftrightarrow> b < a"
  by (auto simp: cmp_def)

lemma reverse_cmp [simp]: "reverse_ord (cmp a b) = cmp b a"
  by (auto simp: cmp_def)

text \<open>
  \<^verbatim>\<open>slice::sort_by\<close> is a stable sort. Where the comparator is a total preorder the result does
  not depend on the algorithm, so insertion from the right stands for it.
\<close>

fun insert_by :: "('a \<Rightarrow> 'a \<Rightarrow> ordering) \<Rightarrow> 'a \<Rightarrow> 'a list \<Rightarrow> 'a list" where
  "insert_by c x [] = [x]"
| "insert_by c x (y # ys) = (if c x y = Greater then y # insert_by c x ys else x # y # ys)"

definition sort_by :: "('a \<Rightarrow> 'a \<Rightarrow> ordering) \<Rightarrow> 'a list \<Rightarrow> 'a list" where
  "sort_by c xs = foldr (insert_by c) xs []"

lemma sort_by_simps [simp]:
  "sort_by c [] = []"
  "sort_by c (x # xs) = insert_by c x (sort_by c xs)"
  by (simp_all add: sort_by_def)

lemma mset_insert_by [simp]: "mset (insert_by c x ys) = add_mset x (mset ys)"
  by (induction ys) auto

lemma mset_sort_by [simp]: "mset (sort_by c xs) = mset xs"
  by (induction xs) auto

lemma set_sort_by [simp]: "set (sort_by c xs) = set xs"
  using mset_sort_by by (metis set_mset_mset)

lemma length_sort_by [simp]: "length (sort_by c xs) = length xs"
  using mset_sort_by by (metis size_mset)

locale total_preorder_cmp =
  fixes c :: "'a \<Rightarrow> 'a \<Rightarrow> ordering"
  assumes c_swap: "c y x = reverse_ord (c x y)"
    and c_trans: "c x y \<noteq> Greater \<Longrightarrow> c y z \<noteq> Greater \<Longrightarrow> c x z \<noteq> Greater"
begin

lemma c_refl: "c x x = Equal"
  using c_swap [of x x] by (cases "c x x") auto

lemma c_Greater_iff: "c x y = Greater \<longleftrightarrow> c y x = Less"
  using c_swap [of y x] by simp

lemma c_equiv_left: "c x y = Equal \<Longrightarrow> c x z = c y z"
proof -
  assume eq: "c x y = Equal"
  then have eq': "c y x = Equal" using c_swap [of y x] by simp
  have "c x z \<noteq> Greater \<longleftrightarrow> c y z \<noteq> Greater"
    using c_trans [of x y z] c_trans [of y x z] eq eq' by auto
  moreover have "c z x \<noteq> Greater \<longleftrightarrow> c z y \<noteq> Greater"
    using c_trans [of z x y] c_trans [of z y x] eq eq' by auto
  ultimately show ?thesis
    using c_swap [of z x] c_swap [of z y] by (cases "c x z"; cases "c y z") auto
qed

lemma insert_by_sorted:
  "sorted_wrt (\<lambda>a b. c a b \<noteq> Greater) ys \<Longrightarrow> sorted_wrt (\<lambda>a b. c a b \<noteq> Greater) (insert_by c x ys)"
proof (induction ys)
  case (Cons y ys)
  have set_ins: "set (insert_by c x ys) = insert x (set ys)"
    by (metis mset_insert_by set_mset_add_mset_insert set_mset_mset)
  show ?case
  proof (cases "c x y = Greater")
    case True
    then have "c y x \<noteq> Greater" using c_swap [of x y] by auto
    with True Cons show ?thesis by (auto simp: set_ins)
  next
    case False
    with Cons.prems c_trans show ?thesis by auto
  qed
qed simp

lemma sort_by_sorted: "sorted_wrt (\<lambda>a b. c a b \<noteq> Greater) (sort_by c xs)"
  by (induction xs) (auto simp: insert_by_sorted)

lemma filter_insert_by:
  "filter (\<lambda>y. c a y = Equal) (insert_by c x ys) = filter (\<lambda>y. c a y = Equal) (x # ys)"
proof (induction ys)
  case (Cons y ys)
  have "\<not> (c a x = Equal \<and> c a y = Equal)" if "c x y = Greater"
    using c_equiv_left [of a x y] c_equiv_left [of a y y] that c_refl [of y] by auto
  with Cons show ?case by auto
qed simp

lemma sort_by_stable: "filter (\<lambda>y. c a y = Equal) (sort_by c xs) = filter (\<lambda>y. c a y = Equal) xs"
  by (induction xs) (auto simp: filter_insert_by)

end

lemma total_preorder_cmp_key [cmp_intros]:
  "total_preorder_cmp (\<lambda>x y. cmp (f x :: 'b::linorder) (f y))"
  by unfold_locales auto

lemma total_preorder_cmp_reverse [cmp_intros]:
  assumes "total_preorder_cmp c"
  shows "total_preorder_cmp (\<lambda>x y. reverse_ord (c x y))"
proof -
  note swap = total_preorder_cmp.c_swap [OF assms]
  note trans = total_preorder_cmp.c_trans [OF assms]
  show ?thesis
  proof
    fix x y z
    show "reverse_ord (c y x) = reverse_ord (reverse_ord (c x y))"
      using swap [of y x] by simp
    assume "reverse_ord (c x y) \<noteq> Greater" and "reverse_ord (c y z) \<noteq> Greater"
    then show "reverse_ord (c x z) \<noteq> Greater"
      using swap [of z y] swap [of y x] swap [of z x] trans [of z y x] by simp
  qed
qed

text \<open>A comparison that falls through to a second one on ties, as the chained comparisons do.\<close>

lemma total_preorder_cmp_then [cmp_intros]:
  assumes "total_preorder_cmp c" and "total_preorder_cmp d"
  shows "total_preorder_cmp (\<lambda>x y. if c x y \<noteq> Equal then c x y else d x y)"
proof -
  note c = total_preorder_cmp.c_swap [OF assms(1)] total_preorder_cmp.c_trans [OF assms(1)]
  note d = total_preorder_cmp.c_swap [OF assms(2)] total_preorder_cmp.c_trans [OF assms(2)]
  note eq = total_preorder_cmp.c_equiv_left [OF assms(1)]
  show ?thesis
  proof
    fix x y z
    show "(if c y x \<noteq> Equal then c y x else d y x) =
        reverse_ord (if c x y \<noteq> Equal then c x y else d x y)"
      using c(1) [of y x] d(1) [of y x] by simp
    assume "(if c x y \<noteq> Equal then c x y else d x y) \<noteq> Greater"
      and "(if c y z \<noteq> Equal then c y z else d y z) \<noteq> Greater"
    then show "(if c x z \<noteq> Equal then c x z else d x z) \<noteq> Greater"
      using c(2) [of x y z] d(2) [of x y z] eq [of x y z] eq [of z y x] eq [of x z y]
        c(1) [of z x] c(1) [of z y] c(1) [of y x]
      by (cases "c x y"; cases "c y z"; cases "c x z") auto
  qed
qed

subsection \<open>Hash maps\<close>

abbreviation hm_get :: "('k \<times> 'v) list \<Rightarrow> 'k \<Rightarrow> 'v option" where
  "hm_get m k \<equiv> map_of m k"

abbreviation hm_insert :: "'k \<Rightarrow> 'v \<Rightarrow> ('k \<times> 'v) list \<Rightarrow> ('k \<times> 'v) list" where
  "hm_insert \<equiv> AList.update"

abbreviation hm_remove :: "'k \<Rightarrow> ('k \<times> 'v) list \<Rightarrow> ('k \<times> 'v) list" where
  "hm_remove \<equiv> AList.delete"

definition hm_wf :: "('k \<times> 'v) list \<Rightarrow> bool" where
  "hm_wf m \<longleftrightarrow> distinct (map fst m)"

lemma hm_wf_simps [simp]:
  "hm_wf []" "hm_wf m \<Longrightarrow> hm_wf (hm_insert k v m)" "hm_wf m \<Longrightarrow> hm_wf (hm_remove k m)"
  "hm_wf m \<Longrightarrow> hm_wf (filter P m)"
  by (auto simp: hm_wf_def distinct_update distinct_delete distinct_map_filter)

lemma hm_wf_map_snd [simp]: "hm_wf (map (\<lambda>(k, v). (k, f k v)) m) \<longleftrightarrow> hm_wf m"
  by (simp add: hm_wf_def comp_def case_prod_beta)

lemma hm_get_in: "hm_wf m \<Longrightarrow> (k, v) \<in> set m \<longleftrightarrow> hm_get m k = Some v"
  by (simp add: hm_wf_def)

subsection \<open>Lists\<close>

lemma length_filter_strict:
  assumes "\<And>x. x \<in> set xs \<Longrightarrow> P x \<Longrightarrow> Q x" and "a \<in> set xs" and "Q a" and "\<not> P a"
  shows "length (filter P xs) < length (filter Q xs)"
proof -
  have "filter P xs = filter P (filter Q xs)"
    using assms(1) by (simp add: filter_filter cong: filter_cong) (metis (mono_tags, lifting) filter_cong)
  also have "length \<dots> < length (filter Q xs)"
    using assms(2-4) by (intro length_filter_less [of a]) auto
  finally show ?thesis .
qed

lemma find_first:
  "List.find P xs = Some x \<Longrightarrow> P x \<and> (\<exists>ys zs. xs = ys @ x # zs \<and> (\<forall>y \<in> set ys. \<not> P y))"
proof (induction xs)
  case (Cons y ys)
  show ?case
  proof (cases "P y")
    case True
    with Cons.prems show ?thesis by fastforce
  next
    case False
    with Cons obtain us zs where "P x" "ys = us @ x # zs" "\<forall>u \<in> set us. \<not> P u" by auto
    with False have "y # ys = (y # us) @ x # zs \<and> (\<forall>u \<in> set (y # us). \<not> P u)" by simp
    with \<open>P x\<close> show ?thesis by blast
  qed
qed simp

lemma find_none: "List.find P xs = None \<Longrightarrow> x \<in> set xs \<Longrightarrow> \<not> P x"
  by (induction xs) (auto split: if_splits)

lemma closed_under_rtrancl:
  assumes "(a, b) \<in> R\<^sup>*" and "a \<in> S" and "\<And>x y. x \<in> S \<Longrightarrow> (x, y) \<in> R \<Longrightarrow> y \<in> S"
  shows "b \<in> S"
  using assms by (induction rule: rtrancl_induct) auto

subsection \<open>Strings\<close>

text \<open>
  Strings are lists of bytes. \<open>split_on\<close> is \<^verbatim>\<open>str::split\<close> at a character: it yields the pieces
  between the separators, empty ones included, and one empty piece for the empty string.
\<close>

fun split_on :: "char \<Rightarrow> string \<Rightarrow> string list" where
  "split_on c [] = [[]]"
| "split_on c (x # xs) =
     (if x = c then [] # split_on c xs
      else (case split_on c xs of [] \<Rightarrow> [[x]] | p # ps \<Rightarrow> (x # p) # ps))"

fun join_with :: "char \<Rightarrow> string list \<Rightarrow> string" where
  "join_with c [] = []"
| "join_with c [p] = p"
| "join_with c (p # q # ps) = p @ c # join_with c (q # ps)"

fun strip_prefix :: "string \<Rightarrow> string \<Rightarrow> string option" where
  "strip_prefix [] s = Some s"
| "strip_prefix (p # ps) [] = None"
| "strip_prefix (p # ps) (x # xs) = (if p = x then strip_prefix ps xs else None)"

definition ascii_lower :: "char \<Rightarrow> char" where
  "ascii_lower c = (if of_char c \<in> {65..(90::nat)} then char_of (of_char c + 32 :: nat) else c)"

lemma split_on_not_Nil [simp]: "split_on c s \<noteq> []"
  by (cases s) (auto split: list.splits)

lemma join_split: "join_with c (split_on c s) = s"
proof (induction s)
  case (Cons x xs)
  then show ?case
    by (cases "split_on c xs" rule: list.exhaust; cases "tl (split_on c xs)") auto
qed simp

lemma split_on_pieces: "p \<in> set (split_on c s) \<Longrightarrow> c \<notin> set p"
  by (induction s arbitrary: p) (force split: if_splits list.splits)+

lemma strip_prefix_iff: "strip_prefix p s = Some r \<longleftrightarrow> s = p @ r"
  by (induction p s rule: strip_prefix.induct) auto

lemma strip_prefix_append [simp]: "strip_prefix p (p @ r) = Some r"
  by (simp add: strip_prefix_iff)

subsection \<open>Memory of shared objects\<close>

type_synonym 'a arena = "'a option list"

definition upgrade :: "'a arena \<Rightarrow> nat \<Rightarrow> 'a option" where
  "upgrade h a = (if a < length h then h ! a else None)"

definition modify :: "'a arena \<Rightarrow> nat \<Rightarrow> ('a \<Rightarrow> 'a) \<Rightarrow> 'a arena" where
  "modify h a f = (if a < length h then h[a := map_option f (h ! a)] else h)"

definition alloc :: "'a arena \<Rightarrow> 'a \<Rightarrow> 'a arena \<times> nat" where
  "alloc h v = (h @ [Some v], length h)"

definition release :: "'a arena \<Rightarrow> nat \<Rightarrow> 'a arena" where
  "release h a = (if a < length h then h[a := None] else h)"

locale memory =
  fixes get :: "'h \<Rightarrow> nat \<Rightarrow> 'a option"
    and upd :: "'h \<Rightarrow> nat \<Rightarrow> ('a \<Rightarrow> 'a) \<Rightarrow> 'h"
  assumes get_upd: "get (upd h a f) b = (if b = a then map_option f (get h b) else get h b)"
begin

lemma upd_frame: "(\<And>v. p (f v) = p v) \<Longrightarrow> map_option p (get (upd h a f) b) = map_option p (get h b)"
  by (cases "get h b") (auto simp: get_upd)

lemma upd_live: "get (upd h a f) b = None \<longleftrightarrow> get h b = None"
  by (auto simp: get_upd)

lemma get_fold_upd:
  "distinct as \<Longrightarrow> get (fold (\<lambda>a h. upd h a f) as h) b =
     (if b \<in> set as then map_option f (get h b) else get h b)"
  by (induction as arbitrary: h) (auto simp: get_upd)

lemma fold_upd_frame:
  "(\<And>v. p (f v) = p v) \<Longrightarrow> map_option p (get (fold (\<lambda>a h. upd h a f) as h) b) = map_option p (get h b)"
  by (induction as arbitrary: h) (auto simp: upd_frame)

end

locale owned_memory = memory +
  fixes new :: "'h \<Rightarrow> 'a \<Rightarrow> 'h \<times> nat"
    and free :: "'h \<Rightarrow> nat \<Rightarrow> 'h"
  assumes get_new: "new h v = (h', a) \<Longrightarrow> get h' b = (if b = a then Some v else get h b)"
    and new_fresh: "new h v = (h', a) \<Longrightarrow> get h a = None"
    and get_free: "get (free h a) b = (if b = a then None else get h b)"
begin

lemma new_keeps: "new h v = (h', a) \<Longrightarrow> get h b = Some w \<Longrightarrow> get h' b = Some w"
  using new_fresh [of h v h' a] get_new [of h v h' a b] by auto

lemma free_keeps: "get (free h a) b = Some w \<Longrightarrow> get h b = Some w"
  by (auto simp: get_free split: if_splits)

end

interpretation arena: owned_memory upgrade modify alloc release
  by unfold_locales
    (auto simp: upgrade_def modify_def alloc_def release_def nth_append nth_list_update split: if_splits)

lemmas arena_simps [simp] = arena.get_upd arena.get_free
lemmas arena_frame = arena.upd_frame arena.fold_upd_frame

lemma upgrade_Nil [simp]: "upgrade [] a = None"
  by (simp add: upgrade_def)

lemma upgrade_bound: "upgrade h a = Some v \<Longrightarrow> a < length h"
  by (auto simp: upgrade_def split: if_splits)

lemma length_arena [simp]: "length (modify h a f) = length h" "length (release h a) = length h"
  by (simp_all add: modify_def release_def)

subsection \<open>Invariants of transition systems\<close>

locale invariant_system =
  fixes start :: "'s \<Rightarrow> bool"
    and trans :: "'s \<Rightarrow> 's \<Rightarrow> bool"
    and inv :: "'s \<Rightarrow> bool"
  assumes inv_start: "start s \<Longrightarrow> inv s"
    and inv_trans: "inv s \<Longrightarrow> trans s t \<Longrightarrow> inv t"
begin

lemma inv_steps: "trans\<^sup>*\<^sup>* s t \<Longrightarrow> inv s \<Longrightarrow> inv t"
  by (induction rule: rtranclp_induct) (auto intro: inv_trans)

lemma inv_reachable: "start s \<Longrightarrow> trans\<^sup>*\<^sup>* s t \<Longrightarrow> inv t"
  by (rule inv_steps) (auto intro: inv_start)

end

end
