(* ===== verification/Rust_Float.thy ===== *)
theory Rust_Float
  imports Complex_Main Prelude
begin

text \<open>
  Rust's \<^verbatim>\<open>f32\<close> and \<^verbatim>\<open>f64\<close> as the program uses them: IEEE 754 numbers as a sign and an exact
  rational magnitude, infinities and NaN with their sign, arithmetic that rounds to nearest with
  ties to even at the type's precision, \<^verbatim>\<open>total_cmp\<close>, the partial comparisons and the saturating
  casts. The sign of a NaN that an operation produces is not determined by Rust, so it is an
  argument of the operations that can produce one.
\<close>

datatype rfloat = NaN bool | Inf bool | Fin bool rat

fun float_val :: "rfloat \<Rightarrow> rat" where
  "float_val (Fin s m) = (if s then - m else m)"
| "float_val _ = 0"

fun float_class :: "rfloat \<Rightarrow> int" where
  "float_class (NaN s) = (if s then - 3 else 3)"
| "float_class (Inf s) = (if s then - 2 else 2)"
| "float_class (Fin s m) = (if s then - 1 else 1)"

definition total_cmp :: "rfloat \<Rightarrow> rfloat \<Rightarrow> ordering" where
  "total_cmp a b =
     (if cmp (float_class a) (float_class b) \<noteq> Equal then cmp (float_class a) (float_class b)
      else cmp (float_val a) (float_val b))"

text \<open>The operators \<^verbatim>\<open>\<close>\<open><\<close> and \<open>>\<close>: false when a side is NaN; the two zeros are equal.\<close>

fun float_lt :: "rfloat \<Rightarrow> rfloat \<Rightarrow> bool" where
  "float_lt (NaN _) _ = False"
| "float_lt _ (NaN _) = False"
| "float_lt (Inf s) (Inf t) = (s \<and> \<not> t)"
| "float_lt (Inf s) (Fin _ _) = s"
| "float_lt (Fin _ _) (Inf t) = (\<not> t)"
| "float_lt (Fin s m) (Fin t n) = (float_val (Fin s m) < float_val (Fin t n))"

subsection \<open>Rounding\<close>

function int_log2 :: "int \<Rightarrow> int" where
  "int_log2 n = (if n < 2 then 0 else 1 + int_log2 (n div 2))"
  by pat_completeness auto
termination
  by (relation "measure nat") auto

declare int_log2.simps [simp del]

definition ilog2 :: "rat \<Rightarrow> int" where
  "ilog2 q =
     (let (n, d) = quotient_of q; e = int_log2 n - int_log2 d
      in if q \<ge> 2 powi e then e else e - 1)"

definition round_half_even :: "rat \<Rightarrow> int" where
  "round_half_even q =
     (let f = \<lfloor>q\<rfloor>; r = q - of_int f
      in if r < 1 / 2 then f else if r > 1 / 2 then f + 1 else if even f then f else f + 1)"

definition fround :: "int \<Rightarrow> int \<Rightarrow> int \<Rightarrow> bool \<Rightarrow> rat \<Rightarrow> rfloat" where
  "fround p emin emax s m =
     (if m = 0 then Fin s 0
      else let e = max (ilog2 m - (p - 1)) emin;
               v = of_int (round_half_even (m / 2 powi e)) * 2 powi e
           in if v \<ge> 2 powi emax then Inf s else Fin s v)"

definition f64_round :: "bool \<Rightarrow> rat \<Rightarrow> rfloat" where
  "f64_round = fround 53 (- 1074) 1024"

definition f32_round :: "bool \<Rightarrow> rat \<Rightarrow> rfloat" where
  "f32_round = fround 24 (- 149) 128"

definition f64_of_int :: "int \<Rightarrow> rfloat" where
  "f64_of_int n = f64_round (n < 0) (of_int \<bar>n\<bar>)"

definition f32_of_int :: "int \<Rightarrow> rfloat" where
  "f32_of_int n = f32_round (n < 0) (of_int \<bar>n\<bar>)"

fun f64_div :: "bool \<Rightarrow> rfloat \<Rightarrow> rfloat \<Rightarrow> rfloat" where
  "f64_div ns (NaN s) _ = NaN s"
| "f64_div ns _ (NaN s) = NaN s"
| "f64_div ns (Inf _) (Inf _) = NaN ns"
| "f64_div ns (Inf s) (Fin t _) = Inf (s \<noteq> t)"
| "f64_div ns (Fin s _) (Inf t) = Fin (s \<noteq> t) 0"
| "f64_div ns (Fin s m) (Fin t n) =
     (if n = 0 then (if m = 0 then NaN ns else Inf (s \<noteq> t)) else f64_round (s \<noteq> t) (m / n))"

fun f32_mul :: "bool \<Rightarrow> rfloat \<Rightarrow> rfloat \<Rightarrow> rfloat" where
  "f32_mul ns (NaN s) _ = NaN s"
| "f32_mul ns _ (NaN s) = NaN s"
| "f32_mul ns (Inf s) (Inf t) = Inf (s \<noteq> t)"
| "f32_mul ns (Inf s) (Fin t m) = (if m = 0 then NaN ns else Inf (s \<noteq> t))"
| "f32_mul ns (Fin t m) (Inf s) = (if m = 0 then NaN ns else Inf (s \<noteq> t))"
| "f32_mul ns (Fin s m) (Fin t n) = f32_round (s \<noteq> t) (m * n)"

text \<open>\<^verbatim>\<open>as i64\<close>: towards zero, saturating, NaN to zero.\<close>

fun f_to_i64 :: "rfloat \<Rightarrow> int" where
  "f_to_i64 (NaN _) = 0"
| "f_to_i64 (Inf s) = (if s then - (2 ^ 63) else 2 ^ 63 - 1)"
| "f_to_i64 (Fin s m) =
     max (- (2 ^ 63)) (min (2 ^ 63 - 1) (if s then - \<lfloor>m\<rfloor> else \<lfloor>m\<rfloor>))"

lemma f_to_i64_range: "in_i64 (f_to_i64 x)"
  by (cases x) (auto simp: in_i64_def)

interpretation tcmp: total_preorder_cmp total_cmp
  unfolding total_cmp_def [abs_def] by (intro total_preorder_cmp_then total_preorder_cmp_key)

lemmas total_preorder_total_cmp [cmp_intros] = tcmp.total_preorder_cmp_axioms

lemma total_preorder_total_cmp_key [cmp_intros]:
  "total_preorder_cmp (\<lambda>x y. total_cmp (f x) (f y))"
  unfolding total_cmp_def by (intro total_preorder_cmp_then total_preorder_cmp_key)

lemma round_half_even_int [simp]: "round_half_even (of_int n) = n"
  by (simp add: round_half_even_def)

subsection \<open>Minimum by a comparator\<close>

text \<open>\<^verbatim>\<open>Iterator::min_by\<close>: the first of the least elements.\<close>

fun min_by :: "('a \<Rightarrow> 'a \<Rightarrow> ordering) \<Rightarrow> 'a list \<Rightarrow> 'a option" where
  "min_by c [] = None"
| "min_by c (x # xs) =
     (case min_by c xs of None \<Rightarrow> Some x | Some y \<Rightarrow> Some (if c x y = Greater then y else x))"

lemma min_by_eq_None [simp]: "min_by c xs = None \<longleftrightarrow> xs = []"
  by (cases xs) (auto split: option.splits)

lemma min_by_in: "min_by c xs = Some m \<Longrightarrow> m \<in> set xs"
  by (induction xs arbitrary: m) (auto split: option.splits if_splits)

context total_preorder_cmp
begin

lemma min_by_least: "min_by c xs = Some m \<Longrightarrow> x \<in> set xs \<Longrightarrow> c m x \<noteq> Greater"
proof (induction xs arbitrary: m x)
  case (Cons a xs)
  show ?case
  proof (cases "min_by c xs")
    case None
    with Cons.prems show ?thesis by (auto simp: c_refl)
  next
    case (Some y)
    have m: "m = (if c a y = Greater then y else a)"
      using Cons.prems Some by simp
    have "c m a \<noteq> Greater" and "c m y \<noteq> Greater"
      using m c_Greater_iff [of a y] by (auto simp: c_refl)
    moreover have "c y x \<noteq> Greater" if "x \<in> set xs"
      using Cons.IH [OF Some that] .
    ultimately show ?thesis
      using Cons.prems(2) c_trans [of m y x] by auto
  qed
qed simp

end

end
