(* ===== verification/Jobset.thy ===== *)
theory Jobset
  imports Rust_Float
begin

text \<open>
  Jobsets and the scheduling window (queue-runner/src/state/jobset.rs). A jobset keeps the
  duration of its recent build steps in a map ordered by start time and their total in an atomic
  counter; the share of the builders a jobset used is that total divided by its shares. The
  registry \<open>jobsets\<close> maps (project, name) to the shared jobset object.

  Lemmas: the total agrees with the window as long as start times do not collide, pruning leaves
  exactly the steps inside the window, and where it goes wrong when start times collide.
\<close>

definition SCHEDULING_WINDOW :: int where
  "SCHEDULING_WINDOW = 24 * 60 * 60"

record jobset =
  jid :: int
  project_name :: string
  jname :: string
  seconds :: int
  shares :: u32
  jsteps :: "(int \<times> int) list"

definition jobset_eq :: "jobset \<Rightarrow> jobset \<Rightarrow> bool" where
  "jobset_eq a b \<longleftrightarrow> jid a = jid b \<and> project_name a = project_name b \<and> jname a = jname b"

definition jobset_new :: "int \<Rightarrow> string \<Rightarrow> string \<Rightarrow> jobset" where
  "jobset_new i p n =
     \<lparr>jid = i, project_name = p, jname = n, seconds = 0, shares = 0, jsteps = []\<rparr>"

definition full_name :: "jobset \<Rightarrow> string" where
  "full_name j = project_name j @ '':'' @ jname j"

definition share_used :: "bool \<Rightarrow> jobset \<Rightarrow> rfloat" where
  "share_used ns j = f64_div ns (f64_of_int (seconds j)) (f64_of_int (uint (shares j)))"

definition set_shares :: "int \<Rightarrow> jobset \<Rightarrow> error + jobset" where
  "set_shares n j =
     (case u32_try_from n of None \<Rightarrow> Inl Int_Conversion | Some s \<Rightarrow> Inr (j\<lparr>shares := s\<rparr>))"

text \<open>\<^verbatim>\<open>BTreeMap::insert\<close>: in key order, an existing key keeps its place and takes the new value.\<close>

fun bt_insert :: "int \<Rightarrow> int \<Rightarrow> (int \<times> int) list \<Rightarrow> (int \<times> int) list" where
  "bt_insert k v [] = [(k, v)]"
| "bt_insert k v ((k', v') # m) =
     (if k < k' then (k, v) # (k', v') # m
      else if k = k' then (k, v) # m
      else (k', v') # bt_insert k v m)"

definition add_step :: "int \<Rightarrow> int \<Rightarrow> jobset \<Rightarrow> jobset" where
  "add_step start_time duration j =
     j\<lparr>jsteps := bt_insert start_time duration (jsteps j),
       seconds := wrap_i64 (seconds j + duration)\<rparr>"

text \<open>The loop of \<^verbatim>\<open>prune_steps\<close>: it takes the first entry off while that entry is too old.\<close>

fun prune_loop :: "int \<Rightarrow> int \<Rightarrow> (int \<times> int) list \<Rightarrow> int \<times> (int \<times> int) list" where
  "prune_loop now secs [] = (secs, [])"
| "prune_loop now secs ((start_time, d) # m) =
     (if start_time > now - SCHEDULING_WINDOW then (secs, (start_time, d) # m)
      else prune_loop now (wrap_i64 (secs - d)) m)"

definition prune_steps :: "int \<Rightarrow> jobset \<Rightarrow> jobset" where
  "prune_steps now j =
     (let (secs, m) = prune_loop now (seconds j) (jsteps j) in j\<lparr>seconds := secs, jsteps := m\<rparr>)"

subsection \<open>The registry\<close>

type_synonym jref = nat
type_synonym jobset_name = "string \<times> string"
type_synonym jobsets = "(jobset_name \<times> jref) list"

record jobset_row =
  row_project :: string
  row_name :: string
  row_shares :: int

record build_steps_row =
  starttime :: "int option"
  stoptime :: "int option"

record io_jobset =
  io_id :: int
  io_project :: string
  io_jname :: string
  io_seconds :: int
  io_shares :: u32

definition io_jobset_from :: "jobset \<Rightarrow> io_jobset" where
  "io_jobset_from j =
     \<lparr>io_id = jid j, io_project = project_name j, io_jname = jname j,
      io_seconds = seconds j, io_shares = shares j\<rparr>"

definition jobsets_clone_as_io :: "jobset arena \<Rightarrow> jobsets \<Rightarrow> (string \<times> io_jobset) list" where
  "jobsets_clone_as_io jh reg =
     fold (\<lambda>(_, r) m. case upgrade jh r of None \<Rightarrow> m
                      | Some j \<Rightarrow> hm_insert (full_name j) (io_jobset_from j) m) reg []"

text \<open>\<^verbatim>\<open>Jobsets::prune\<close>; \<open>now r\<close> is the clock (in seconds) when jobset \<open>r\<close> is pruned.\<close>

definition jobsets_prune :: "(jref \<Rightarrow> int) \<Rightarrow> jobsets \<Rightarrow> jobset arena \<Rightarrow> jobset arena" where
  "jobsets_prune now reg jh = fold (\<lambda>(_, r) h. modify h r (prune_steps (now r))) reg jh"

fun add_db_steps :: "build_steps_row list \<Rightarrow> jobset \<Rightarrow> jobset" where
  "add_db_steps [] j = j"
| "add_db_steps (s # ss) j =
     (case starttime s of None \<Rightarrow> add_db_steps ss j
      | Some st \<Rightarrow> (case stoptime s of None \<Rightarrow> add_db_steps ss j
         | Some sp \<Rightarrow> add_db_steps ss (add_step st (wrap_i32 (sp - st)) j)))"

text \<open>
  \<^verbatim>\<open>Jobsets::create\<close>. The two queries it makes are given by their results: the scheduling shares
  of the jobset (if the row exists) and the steps in the window.
\<close>

definition jobsets_create ::
  "(int \<Rightarrow> error + int option) \<Rightarrow> (int \<Rightarrow> int \<Rightarrow> error + build_steps_row list)
   \<Rightarrow> jobset arena \<Rightarrow> jobsets \<Rightarrow> int \<Rightarrow> string \<Rightarrow> string
   \<Rightarrow> error + (jobset arena \<times> jobsets \<times> jref)" where
  "jobsets_create q_shares q_steps jh reg jobset_id project name =
     (case hm_get reg (project, name) of
        Some r \<Rightarrow> Inr (jh, reg, r)
      | None \<Rightarrow>
         (case q_shares jobset_id of
            Inl e \<Rightarrow> Inl e
          | Inr None \<Rightarrow> Inl (Not_Found ''Scheduling Shares'')
          | Inr (Some sh) \<Rightarrow>
             (case set_shares sh (jobset_new jobset_id project name) of
                Inl e \<Rightarrow> Inl e
              | Inr j \<Rightarrow>
                 (case q_steps jobset_id SCHEDULING_WINDOW of
                    Inl e \<Rightarrow> Inl e
                  | Inr rows \<Rightarrow>
                     (let (jh', r) = alloc jh (add_db_steps rows j)
                      in Inr (jh', hm_insert (project, name) r reg, r))))))"

text \<open>\<^verbatim>\<open>Jobsets::handle_change\<close>: rows of unknown jobsets and negative shares are skipped.\<close>

fun handle_change :: "jobset_row list \<Rightarrow> jobsets \<Rightarrow> jobset arena \<Rightarrow> jobset arena" where
  "handle_change [] reg jh = jh"
| "handle_change (row # rows) reg jh =
     handle_change rows reg
       (case hm_get reg (row_project row, row_name row) of
          None \<Rightarrow> jh
        | Some r \<Rightarrow> modify jh r
            (\<lambda>j. case set_shares (row_shares row) j of Inl _ \<Rightarrow> j | Inr j' \<Rightarrow> j'))"

subsection \<open>The window and its total\<close>

definition window_ok :: "jobset \<Rightarrow> bool" where
  "window_ok j \<longleftrightarrow>
     sorted_wrt (<) (map fst (jsteps j)) \<and> seconds j = wrap_i64 (sum_list (map snd (jsteps j)))"

lemma bt_insert_keys: "set (map fst (bt_insert k v m)) = insert k (set (map fst m))"
  by (induction k v m rule: bt_insert.induct) auto

lemma bt_insert_sorted:
  "sorted_wrt (<) (map fst m) \<Longrightarrow> sorted_wrt (<) (map fst (bt_insert k v m))"
proof (induction k v m rule: bt_insert.induct)
  case (2 k v k' v' m)
  then show ?case
    using bt_insert_keys [of k v m] by (auto simp flip: set_map)
qed simp

lemma bt_insert_sum:
  "k \<notin> set (map fst m) \<Longrightarrow> sum_list (map snd (bt_insert k v m)) = v + sum_list (map snd m)"
  by (induction k v m rule: bt_insert.induct) auto

lemma bt_insert_lookup: "map_of (bt_insert k v m) x = (if x = k then Some v else map_of m x)"
  by (induction k v m rule: bt_insert.induct) auto

lemma prune_loop_window:
  "sorted_wrt (<) (map fst m) \<Longrightarrow>
   prune_loop now secs m =
     (wrap_i64 (secs - sum_list (map snd (filter (\<lambda>(t, _). t \<le> now - SCHEDULING_WINDOW) m))),
      filter (\<lambda>(t, _). t > now - SCHEDULING_WINDOW) m)"
  if "in_i64 secs"
  using that
proof (induction now secs m rule: prune_loop.induct)
  case (2 now secs t d m)
  show ?case
  proof (cases "t > now - SCHEDULING_WINDOW")
    case True
    have "\<forall>x \<in> set m. fst x > now - SCHEDULING_WINDOW"
      using 2(2) True by auto
    then have "filter (\<lambda>(t, _). t \<le> now - SCHEDULING_WINDOW) m = []"
      and "filter (\<lambda>(t, _). t > now - SCHEDULING_WINDOW) m = m"
      by (auto simp: filter_empty_conv filter_id_conv)
    with True 2(3) show ?thesis by simp
  next
    case False
    with 2(1) 2(2) show ?thesis
      by (simp add: algebra_simps diff_diff_eq)
  qed
qed simp

lemma prune_steps_window:
  assumes "in_i64 (seconds j)" and "sorted_wrt (<) (map fst (jsteps j))"
  shows "jsteps (prune_steps now j) = filter (\<lambda>(t, _). t > now - SCHEDULING_WINDOW) (jsteps j)"
    and "seconds (prune_steps now j) = wrap_i64 (seconds j -
           sum_list (map snd (filter (\<lambda>(t, _). t \<le> now - SCHEDULING_WINDOW) (jsteps j))))"
  using prune_loop_window [OF assms] by (simp_all add: prune_steps_def)

lemma sum_list_filter_split:
  "sum_list (map f (filter P xs)) + sum_list (map f (filter (\<lambda>x. \<not> P x) xs)) =
     (sum_list (map f xs) :: int)"
  by (induction xs) auto

lemma window_ok_new: "window_ok (jobset_new i p n)"
  by (simp add: window_ok_def jobset_new_def in_i64_def)

lemma window_ok_add_step:
  assumes "window_ok j" and "start_time \<notin> fst ` set (jsteps j)"
  shows "window_ok (add_step start_time duration j)"
  using assms by (simp add: window_ok_def add_step_def bt_insert_sorted bt_insert_sum add.commute)

lemma window_ok_set_shares: "window_ok j \<Longrightarrow> set_shares n j = Inr j' \<Longrightarrow> window_ok j'"
  by (auto simp: window_ok_def set_shares_def split: option.splits)

lemma window_ok_in_i64: "window_ok j \<Longrightarrow> in_i64 (seconds j)"
  by (simp add: window_ok_def)

lemma window_ok_prune:
  assumes "window_ok j"
  shows "window_ok (prune_steps now j)"
proof -
  let ?P = "\<lambda>(t, _::int). t \<le> now - SCHEDULING_WINDOW"
  have eq: "(\<lambda>(t, _::int). t > now - SCHEDULING_WINDOW) = (\<lambda>x. \<not> ?P x)" by auto
  have srt: "sorted_wrt (<) (map fst (jsteps j))" using assms by (simp add: window_ok_def)
  note w = prune_steps_window [OF window_ok_in_i64 [OF assms] srt, of now]
  have "seconds (prune_steps now j) =
      wrap_i64 (sum_list (map snd (jsteps j)) - sum_list (map snd (filter ?P (jsteps j))))"
    using assms w(2) by (simp add: window_ok_def)
  also have "sum_list (map snd (jsteps j)) - sum_list (map snd (filter ?P (jsteps j))) =
      sum_list (map snd (filter (\<lambda>x. \<not> ?P x) (jsteps j)))"
    using sum_list_filter_split [of snd ?P "jsteps j"] by linarith
  finally have "seconds (prune_steps now j) = wrap_i64 (sum_list (map snd (jsteps (prune_steps now j))))"
    by (simp only: w(1) eq)
  moreover have "sorted_wrt (<) (map fst (jsteps (prune_steps now j)))"
    using srt by (simp add: w(1) sorted_wrt_map sorted_wrt_filter)
  ultimately show ?thesis
    by (simp add: window_ok_def)
qed

subsection \<open>The life of a jobset\<close>

text \<open>
  What happens to a jobset after it is created: finished steps are recorded, the window is pruned
  and the shares change. A step is recorded with the time it started, in seconds.
\<close>

inductive jobset_step :: "jobset \<Rightarrow> jobset \<Rightarrow> bool" where
  record_step: "start_time \<notin> fst ` set (jsteps j) \<Longrightarrow> jobset_step j (add_step start_time d j)"
| prune: "jobset_step j (prune_steps now j)"
| new_shares: "set_shares n j = Inr j' \<Longrightarrow> jobset_step j j'"

inductive_cases jobset_stepE: "jobset_step j j'"

interpretation jobset_life: invariant_system "\<lambda>j. \<exists>i p n. j = jobset_new i p n" jobset_step window_ok
  by unfold_locales
    (auto elim!: jobset_stepE intro: window_ok_new window_ok_add_step window_ok_prune window_ok_set_shares)

lemma handle_change_frame:
  "map_option (\<lambda>j. (jid j, project_name j, jname j, seconds j, jsteps j)) (upgrade (handle_change rows reg jh) r) =
   map_option (\<lambda>j. (jid j, project_name j, jname j, seconds j, jsteps j)) (upgrade jh r)"
proof (induction rows reg jh rule: handle_change.induct)
  case (2 row rows reg jh)
  show ?case
    unfolding handle_change.simps "2.IH"
    by (auto simp: set_shares_def option.map_comp comp_def intro!: option.map_cong
        split: option.splits sum.splits)
qed simp

fun recorded_starts :: "build_steps_row list \<Rightarrow> int list" where
  "recorded_starts [] = []"
| "recorded_starts (s # ss) =
     (case (starttime s, stoptime s) of (Some st, Some _) \<Rightarrow> [st] | _ \<Rightarrow> []) @ recorded_starts ss"

lemma add_step_keys: "fst ` set (jsteps (add_step st d j)) = insert st (fst ` set (jsteps j))"
  using bt_insert_keys [of st d "jsteps j"] by (simp add: add_step_def)

lemma window_ok_add_db_steps:
  "window_ok j \<Longrightarrow> distinct (recorded_starts rows) \<Longrightarrow>
   set (recorded_starts rows) \<inter> fst ` set (jsteps j) = {} \<Longrightarrow> window_ok (add_db_steps rows j)"
  by (induction rows j rule: add_db_steps.induct)
    (simp_all add: add_step_keys window_ok_add_step split: option.splits)

subsection \<open>Properties\<close>

text \<open>
  C24: in every state a jobset reaches, if no two recorded steps started in the same second, the
  atomic total \<open>seconds\<close> is the sum of the durations in the scheduling window (at 64 bits).
\<close>

theorem jobset_total_is_window_sum:
  assumes "jobset_step\<^sup>*\<^sup>* (jobset_new i p n) j"
  shows "seconds j = wrap_i64 (sum_list (map snd (jsteps j))) \<and> sorted_wrt (<) (map fst (jsteps j))"
  using jobset_life.inv_reachable [of "jobset_new i p n" j] assms by (auto simp: window_ok_def)

theorem jobset_total_is_window_sum_witness:
  "jobset_step\<^sup>*\<^sup>* (jobset_new 1 ''p'' ''n'') (add_step 100 7 (jobset_new 1 ''p'' ''n'')) \<and>
   seconds (add_step 100 7 (jobset_new 1 ''p'' ''n'')) = 7"
proof -
  have reach: "jobset_step\<^sup>*\<^sup>* (jobset_new 1 ''p'' ''n'') (add_step 100 7 (jobset_new 1 ''p'' ''n''))"
    by (intro r_into_rtranclp jobset_step.record_step) (simp add: jobset_new_def)
  from jobset_total_is_window_sum [OF reach] reach show ?thesis
    by (simp add: add_step_def jobset_new_def in_i64_def)
qed

text \<open>
  pruning at time \<open>now\<close> keeps exactly the steps that started inside the scheduling window and
  subtracts exactly the durations of the steps it drops.
\<close>

theorem prune_steps_exact:
  assumes "window_ok j"
  shows "jsteps (prune_steps now j) = filter (\<lambda>(t, _). t > now - SCHEDULING_WINDOW) (jsteps j) \<and>
         seconds (prune_steps now j) =
           wrap_i64 (sum_list (map snd (filter (\<lambda>(t, _). t > now - SCHEDULING_WINDOW) (jsteps j))))"
  using window_ok_prune [OF assms, of now] assms
    prune_steps_window [OF window_ok_in_i64 [OF assms], of now]
  by (simp_all add: window_ok_def)

theorem prune_steps_exact_witness:
  "window_ok (add_step 10 5 (add_step 100000 7 (jobset_new 1 ''p'' ''n''))) \<and>
   jsteps (prune_steps 90000 (add_step 10 5 (add_step 100000 7 (jobset_new 1 ''p'' ''n'')))) = [(100000, 7)]"
proof -
  have ok: "window_ok (add_step 10 5 (add_step 100000 7 (jobset_new 1 ''p'' ''n'')))"
    by (simp add: window_ok_def add_step_def jobset_new_def in_i64_def)
  from prune_steps_exact [OF ok, of 90000] ok show ?thesis
    by (simp add: add_step_def jobset_new_def SCHEDULING_WINDOW_def)
qed

text \<open>
  two steps of a jobset that start in the same second: the map keeps the second duration only
  while the total adds both, so once the window has passed over them the map is empty and the
  first duration stays in the total for ever.
\<close>

theorem add_step_collision_leaks:
  assumes "in_i64 d1" and "now \<ge> t + SCHEDULING_WINDOW"
  shows "jsteps (prune_steps now (add_step t d2 (add_step t d1 (jobset_new i p n)))) = [] \<and>
         seconds (prune_steps now (add_step t d2 (add_step t d1 (jobset_new i p n)))) = d1"
  using assms by (simp add: prune_steps_def add_step_def jobset_new_def)

theorem add_step_collision_leaks_witness:
  "seconds (prune_steps 200000 (add_step 100 5 (add_step 100 60 (jobset_new 1 ''p'' ''n'')))) = 60"
  using add_step_collision_leaks [of 60 100 200000 5 1 "''p''" "''n''"]
  by (simp add: in_i64_def SCHEDULING_WINDOW_def)

text \<open>
  \<^verbatim>\<open>Jobsets::create\<close> registers one shared object per (project, name): when it succeeds the
  name maps to a live object with that name, every other name maps where it did, the objects
  that were there are unchanged, and a second call returns the same object and changes nothing.
\<close>

theorem jobsets_create_once:
  assumes "jobsets_create q_shares q_steps jh reg jobset_id project name = Inr (jh', reg', r)"
    and "hm_get reg (project, name) = None"
  shows "hm_get reg' = (hm_get reg)((project, name) \<mapsto> r) \<and>
         (\<exists>j. upgrade jh' r = Some j \<and> project_name j = project \<and> jname j = name) \<and>
         (\<forall>r'. r' \<noteq> r \<longrightarrow> upgrade jh' r' = upgrade jh r') \<and>
         jobsets_create q_shares' q_steps' jh' reg' jobset_id' project name = Inr (jh', reg', r)"
proof -
  have names: "project_name (add_db_steps rows j) = project_name j \<and> jname (add_db_steps rows j) = jname j"
    for rows j
    by (induction rows j rule: add_db_steps.induct) (auto simp: add_step_def split: option.splits)
  obtain sh rows j where j: "set_shares sh (jobset_new jobset_id project name) = Inr j"
    and al: "alloc jh (add_db_steps rows j) = (jh', r)" and reg': "reg' = hm_insert (project, name) r reg"
    using assms by (auto simp: jobsets_create_def split: sum.splits option.splits prod.splits)
  have "project_name j = project \<and> jname j = name"
    using j by (auto simp: set_shares_def jobset_new_def split: option.splits)
  with arena.get_new [OF al] names [of rows j] show ?thesis
    by (simp add: jobsets_create_def reg' update_conv fun_upd_def)
qed

theorem jobsets_create_once_witness:
  "\<exists>jh' reg'. jobsets_create (\<lambda>_. Inr (Some 100)) (\<lambda>_ _. Inr []) [] [] 1 ''p'' ''n'' = Inr (jh', reg', 0) \<and>
     hm_get reg' (''p'', ''n'') = Some 0"
proof -
  obtain jh' reg' where c:
    "jobsets_create (\<lambda>_. Inr (Some 100)) (\<lambda>_ _. Inr []) [] [] 1 ''p'' ''n'' = Inr (jh', reg', 0)"
    by (simp add: jobsets_create_def set_shares_def u32_try_from_def alloc_def)
  from c jobsets_create_once [OF c] show ?thesis by auto
qed

end
