(* ===== verification/Derivation.thy ===== *)
theory Derivation
  imports Prelude
begin

text \<open>
  Store paths, derivations and build options of the nix-utils crate
  (crates/nix-utils/src/store_path.rs, drv.rs, hash.rs, realise.rs). A store path is its base
  name; the store directory comes from the nix library and is an argument. Slicing a base name
  that is too short panics, which is \<open>None\<close> here.
\<close>

subsection \<open>Store paths\<close>

type_synonym store_path = string

definition HASH_LEN :: nat where
  "HASH_LEN = 32"

definition STORE_DIR :: "string \<Rightarrow> string" where
  "STORE_DIR dir = (if dir \<noteq> [] \<and> last dir = CHR ''/'' then dir else dir @ ''/'')"

definition store_path_new :: "string \<Rightarrow> string \<Rightarrow> store_path" where
  "store_path_new dir p =
     (case strip_prefix (STORE_DIR dir) p of
        None \<Rightarrow> (case strip_prefix ''/'' p of None \<Rightarrow> p | Some b \<Rightarrow> b)
      | Some postfix \<Rightarrow> (case strip_prefix ''/'' postfix of None \<Rightarrow> postfix | Some b \<Rightarrow> b))"

definition sp_name :: "store_path \<Rightarrow> string option" where
  "sp_name b = (if HASH_LEN + 1 \<le> length b then Some (drop (HASH_LEN + 1) b) else None)"

definition sp_hash_part :: "store_path \<Rightarrow> string option" where
  "sp_hash_part b = (if HASH_LEN \<le> length b then Some (take HASH_LEN b) else None)"

text \<open>\<^verbatim>\<open>Path::extension\<close>: of the last component, what follows its last dot, unless the dot leads.\<close>

definition path_file_name :: "string \<Rightarrow> string option" where
  "path_file_name s =
     (case rev (filter (\<lambda>c. c \<noteq> [] \<and> c \<noteq> ''.'') (split_on (CHR ''/'') s)) of
        [] \<Rightarrow> None
      | c # _ \<Rightarrow> if c = ''..'' then None else Some c)"

definition path_extension :: "string \<Rightarrow> string option" where
  "path_extension s =
     (case path_file_name s of
        None \<Rightarrow> None
      | Some f \<Rightarrow>
          (let ext = rev (takeWhile (\<lambda>c. c \<noteq> CHR ''.'') (rev f))
           in if CHR ''.'' \<in> set f \<and> length ext + 1 < length f then Some ext else None))"

definition is_drv :: "store_path \<Rightarrow> bool" where
  "is_drv b =
     (case path_extension b of None \<Rightarrow> False | Some ext \<Rightarrow> map ascii_lower ext = ''drv'')"

definition print_store_path :: "string \<Rightarrow> store_path \<Rightarrow> string" where
  "print_store_path store_path_prefix path = store_path_prefix @ ''/'' @ path"

subsection \<open>Derivations\<close>

record drv_output =
  out_name :: string
  out_path :: "store_path option"
  out_hash :: "string option"
  out_hash_algo :: "string option"

record ca_output =
  ca_name :: string
  ca_path :: store_path
  ca_hash :: string
  ca_hash_algo :: string

type_synonym derivation_env = "(string \<times> string) list"

record derivation =
  drv_env :: derivation_env
  input_drvs :: "string list"
  outputs :: "drv_output list"
  drv_name :: store_path
  drv_system :: string

definition env_get :: "derivation_env \<Rightarrow> string \<Rightarrow> string option" where
  "env_get env k =
     (case hm_get env k of None \<Rightarrow> None | Some v \<Rightarrow> if v = [] then None else Some v)"

definition env_get_name :: "derivation_env \<Rightarrow> string option" where
  "env_get_name env = env_get env ''name''"

definition get_required_system_features :: "derivation_env \<Rightarrow> string list" where
  "get_required_system_features env =
     filter (\<lambda>v. v \<noteq> [])
       (split_on (CHR '' '') (case env_get env ''requiredSystemFeatures'' of None \<Rightarrow> [] | Some v \<Rightarrow> v))"

definition get_output_hash :: "derivation_env \<Rightarrow> string option" where
  "get_output_hash env = env_get env ''outputHash''"

definition get_output_hash_algo :: "derivation_env \<Rightarrow> string option" where
  "get_output_hash_algo env = env_get env ''outputHashAlgo''"

definition get_output_hash_mode :: "derivation_env \<Rightarrow> string option" where
  "get_output_hash_mode env = env_get env ''outputHashMode''"

definition is_ca :: "derivation \<Rightarrow> bool" where
  "is_ca d = list_ex (\<lambda>o'. out_hash o' \<noteq> None \<and> out_hash_algo o' \<noteq> None) (outputs d)"

fun find_map :: "('a \<Rightarrow> 'b option) \<Rightarrow> 'a list \<Rightarrow> 'b option" where
  "find_map f [] = None"
| "find_map f (x # xs) = (case f x of None \<Rightarrow> find_map f xs | Some y \<Rightarrow> Some y)"

definition get_ca_output :: "derivation \<Rightarrow> ca_output option" where
  "get_ca_output d =
     find_map (\<lambda>o'. case (out_path o', out_hash o', out_hash_algo o') of
         (Some p, Some h, Some a) \<Rightarrow>
           Some \<lparr>ca_name = out_name o', ca_path = p, ca_hash = h, ca_hash_algo = a\<rparr>
       | _ \<Rightarrow> None) (outputs d)"

subsection \<open>Hash algorithms\<close>

datatype hash_algorithm = MD5 | SHA1 | SHA256 | SHA512 | BLAKE3
datatype hash_format = Base64 | Nix32 | Base16 | SRI

definition hash_algorithm_from_str :: "string \<Rightarrow> error + hash_algorithm" where
  "hash_algorithm_from_str s =
     (if s = ''md5'' then Inr MD5
      else if s = ''sha1'' then Inr SHA1
      else if s = ''sha256'' then Inr SHA256
      else if s = ''sha512'' then Inr SHA512
      else if s = ''blake3'' then Inr BLAKE3
      else Inl (Parse_Error s))"

text \<open>\<^verbatim>\<open>get_sri_hash\<close>; the conversion itself is the nix library's and an argument.\<close>

definition get_sri_hash ::
  "(string \<Rightarrow> hash_algorithm option \<Rightarrow> hash_format \<Rightarrow> error + string) \<Rightarrow> ca_output \<Rightarrow> error + string" where
  "get_sri_hash convert_hash o' =
     (case hash_algorithm_from_str
        (case strip_prefix ''r:'' (ca_hash_algo o') of None \<Rightarrow> ca_hash_algo o' | Some a \<Rightarrow> a) of
        Inl e \<Rightarrow> Inl e
      | Inr algo \<Rightarrow> convert_hash (ca_hash o') (Some algo) SRI)"

subsection \<open>Build options\<close>

record build_options =
  max_log_size :: u64
  bo_max_silent_time :: int
  bo_build_timeout :: int
  bo_check :: bool

definition build_options_new :: "u64 option \<Rightarrow> build_options" where
  "build_options_new m =
     \<lparr>max_log_size = (case m of None \<Rightarrow> push_bit 20 64 | Some v \<Rightarrow> v),
      bo_max_silent_time = 0, bo_build_timeout = 0, bo_check = False\<rparr>"

definition build_options_complete :: "u64 \<Rightarrow> int \<Rightarrow> int \<Rightarrow> build_options" where
  "build_options_complete m s t =
     \<lparr>max_log_size = m, bo_max_silent_time = s, bo_build_timeout = t, bo_check = False\<rparr>"

definition enable_check_build :: "build_options \<Rightarrow> build_options" where
  "enable_check_build b = b\<lparr>bo_check := True\<rparr>"

subsection \<open>Properties\<close>

lemma find_map_Some: "find_map f xs = Some y \<Longrightarrow> \<exists>x \<in> set xs. f x = Some y"
  by (induction xs) (auto split: option.splits)

text \<open>
  the printed form of a store path reads back as the same store path, for any store
  directory that does not end in a slash and any base name that does not start with one; and a
  base name that is itself given to the constructor is kept.
\<close>

theorem store_path_round_trip:
  assumes "dir = [] \<or> last dir \<noteq> CHR ''/''" and "b = [] \<or> hd b \<noteq> CHR ''/''"
  shows "store_path_new dir (print_store_path dir b) = b \<and>
         (strip_prefix (STORE_DIR dir) b = None \<longrightarrow> store_path_new dir b = b)"
proof -
  have no_slash: "strip_prefix ''/'' b = None"
    using assms(2) by (cases b) auto
  have "print_store_path dir b = STORE_DIR dir @ b"
    using assms(1) by (auto simp: print_store_path_def STORE_DIR_def)
  with no_slash show ?thesis
    by (simp add: store_path_new_def del: strip_prefix.simps)
qed

theorem store_path_round_trip_witness:
  "store_path_new ''/nix/store'' (print_store_path ''/nix/store'' ''aaaa-foo.drv'') = ''aaaa-foo.drv''"
  using store_path_round_trip [of "''/nix/store''" "''aaaa-foo.drv''"] by simp

text \<open>
  splitting a base name into hash part and name loses only the separator: the two slices
  exist exactly when the base name has at least 33 bytes, and around byte 32 they give it back.
\<close>

theorem store_path_slices:
  "(sp_name b = None \<longleftrightarrow> length b < 33) \<and> (sp_hash_part b = None \<longleftrightarrow> length b < 32) \<and>
   (\<forall>h n. sp_hash_part b = Some h \<longrightarrow> sp_name b = Some n \<longrightarrow> b = h @ [b ! 32] @ n \<and> length h = 32)"
proof -
  have "b = take 32 b @ b ! 32 # drop 33 b" if "33 \<le> length b"
    using id_take_nth_drop [of 32 b] that by simp
  then show ?thesis
    by (auto simp: sp_name_def sp_hash_part_def HASH_LEN_def)
qed

theorem store_path_slices_witness:
  "sp_hash_part ''aaaaaaaaaaaaaaaaaaaaaaaaaaaaaaaa-x'' = Some ''aaaaaaaaaaaaaaaaaaaaaaaaaaaaaaaa'' \<and>
   sp_name ''aaaaaaaaaaaaaaaaaaaaaaaaaaaaaaaa-x'' = Some ''x'' \<and>
   ''aaaaaaaaaaaaaaaaaaaaaaaaaaaaaaaa-x'' = ''aaaaaaaaaaaaaaaaaaaaaaaaaaaaaaaa'' @ ''-'' @ ''x''"
  using store_path_slices [of "''aaaaaaaaaaaaaaaaaaaaaaaaaaaaaaaa-x''"]
  by (simp add: sp_hash_part_def sp_name_def HASH_LEN_def)

text \<open>A content-addressed output is found only in a derivation that is content addressed.\<close>

lemma get_ca_output_is_ca: "get_ca_output d = Some o' \<Longrightarrow> is_ca d"
  unfolding get_ca_output_def is_ca_def list_ex_iff
  by (drule find_map_Some) (force split: option.splits)

text \<open>Required features are never empty strings and never contain a blank.\<close>

lemma required_features_nonempty:
  "f \<in> set (get_required_system_features env) \<Longrightarrow> f \<noteq> [] \<and> CHR '' '' \<notin> set f"
  using split_on_pieces by (auto simp: get_required_system_features_def)

end
