(* ===== verification/Step.thy ===== *)
theory Step
  imports Jobset Derivation
begin

text \<open>
  Build steps and the graph they form (queue-runner/src/state/step.rs), with the build object of
  queue-runner/src/state/build.rs that the graph refers to. A step owns its dependencies
  (\<open>deps\<close>, strong pointers) and knows its dependents weakly (\<open>rdeps\<close>, \<open>st_builds\<close>). Two steps
  are equal when their derivation paths are, which is what the hash sets of steps compare.

  Lemmas: the traversal \<open>get_dependents\<close> visits exactly the steps reachable through live reverse
  dependencies and collects exactly the unfinished builds attached to them; finishing a step
  unblocks its dependents; in every reachable graph a runnable step has been created and has no
  dependency left, and the published counters agree with the sets.
\<close>

type_synonym sref = nat
type_synonym bref = nat

definition I32_MAX :: int where
  "I32_MAX = 2 ^ 31 - 1"

record step_atomic_state =
  created :: bool
  tries :: u32
  highest_global_priority :: int
  highest_local_priority :: int
  lowest_build_id :: int
  after :: timestamp
  runnable_since :: timestamp
  last_supported :: timestamp
  deps_len :: u64
  rdeps_len :: u64

record step_state =
  deps :: "sref list"
  rdeps :: "sref list"
  st_builds :: "bref list"
  st_jobsets :: "jref list"

record step =
  drv_path :: store_path
  drv :: "derivation option"
  runnable :: bool
  finished :: bool
  previous_failure :: bool
  atomic_state :: step_atomic_state
  sstate :: step_state

record build =
  b_id :: int
  b_drv_path :: store_path
  b_outputs :: "(string \<times> store_path) list"
  b_jobset_id :: int
  b_name :: string
  b_timestamp :: timestamp
  b_max_silent_time :: int
  b_timeout :: int
  local_priority :: int
  global_priority :: int
  toplevel :: "sref option"
  b_jobset :: jref
  finished_in_db :: bool

definition step_atomic_state_new :: "timestamp \<Rightarrow> timestamp \<Rightarrow> step_atomic_state" where
  "step_atomic_state_new a r =
     \<lparr>created = False, tries = 0, highest_global_priority = 0, highest_local_priority = 0,
      lowest_build_id = I32_MAX, after = a, runnable_since = r, last_supported = r,
      deps_len = 0, rdeps_len = 0\<rparr>"

definition step_state_new :: step_state where
  "step_state_new = \<lparr>deps = [], rdeps = [], st_builds = [], st_jobsets = []\<rparr>"

definition step_new :: "store_path \<Rightarrow> step" where
  "step_new p =
     \<lparr>drv_path = p, drv = None, runnable = False, finished = False, previous_failure = False,
      atomic_state = step_atomic_state_new 0 0, sstate = step_state_new\<rparr>"

subsection \<open>Identity of steps and builds\<close>

definition step_path :: "step arena \<Rightarrow> sref \<Rightarrow> store_path option" where
  "step_path sh r = map_option drv_path (upgrade sh r)"

definition build_path :: "build arena \<Rightarrow> bref \<Rightarrow> store_path option" where
  "build_path bh b = map_option b_drv_path (upgrade bh b)"

definition step_set_contains :: "step arena \<Rightarrow> sref list \<Rightarrow> sref \<Rightarrow> bool" where
  "step_set_contains sh ss r = (step_path sh r \<in> step_path sh ` set ss)"

definition step_set_insert :: "step arena \<Rightarrow> sref \<Rightarrow> sref list \<Rightarrow> sref list" where
  "step_set_insert sh r ss = (if step_set_contains sh ss r then ss else ss @ [r])"

definition build_set_insert :: "build arena \<Rightarrow> bref \<Rightarrow> bref list \<Rightarrow> bref list" where
  "build_set_insert bh b bs = (if build_path bh b \<in> build_path bh ` set bs then bs else bs @ [b])"

subsection \<open>Operations on one step\<close>

definition set_drv :: "derivation \<Rightarrow> step \<Rightarrow> step" where
  "set_drv d s = s\<lparr>drv := Some d\<rparr>"

definition set_finished :: "bool \<Rightarrow> step \<Rightarrow> step" where
  "set_finished v s = s\<lparr>finished := v\<rparr>"

definition set_previous_failure :: "bool \<Rightarrow> step \<Rightarrow> step" where
  "set_previous_failure v s = s\<lparr>previous_failure := v\<rparr>"

definition set_created :: "bool \<Rightarrow> step \<Rightarrow> step" where
  "set_created v s = s\<lparr>atomic_state := (atomic_state s)\<lparr>created := v\<rparr>\<rparr>"

definition set_after :: "timestamp \<Rightarrow> step \<Rightarrow> step" where
  "set_after t s = s\<lparr>atomic_state := (atomic_state s)\<lparr>after := t\<rparr>\<rparr>"

definition set_last_supported_now :: "timestamp \<Rightarrow> step \<Rightarrow> step" where
  "set_last_supported_now t s = s\<lparr>atomic_state := (atomic_state s)\<lparr>last_supported := t\<rparr>\<rparr>"

definition get_system :: "step \<Rightarrow> string option" where
  "get_system s = map_option drv_system (drv s)"

definition get_input_drvs :: "step \<Rightarrow> string list option" where
  "get_input_drvs s = map_option input_drvs (drv s)"

definition get_outputs :: "step \<Rightarrow> drv_output list option" where
  "get_outputs s = map_option outputs (drv s)"

definition get_required_features :: "step \<Rightarrow> string list" where
  "get_required_features s =
     (case drv s of None \<Rightarrow> [] | Some d \<Rightarrow> get_required_system_features (drv_env d))"

definition make_runnable :: "timestamp \<Rightarrow> step \<Rightarrow> step" where
  "make_runnable now s =
     (if \<not> runnable s
      then s\<lparr>runnable := True,
             atomic_state := (atomic_state s)\<lparr>runnable_since := now, last_supported := now\<rparr>\<rparr>
      else s)"

definition get_lowest_share_used :: "bool \<Rightarrow> jobset arena \<Rightarrow> step \<Rightarrow> rfloat" where
  "get_lowest_share_used ns jh s =
     (case min_by total_cmp
        (List.map_filter (\<lambda>r. map_option (share_used ns) (upgrade jh r)) (st_jobsets (sstate s))) of
        None \<Rightarrow> Fin False 1000000000
      | Some v \<Rightarrow> v)"

text \<open>\<^verbatim>\<open>add_jobset\<close> inserts into a hash set whose equality is that of jobsets.\<close>

definition add_jobset :: "jobset arena \<Rightarrow> jref \<Rightarrow> step \<Rightarrow> step" where
  "add_jobset jh j s =
     s\<lparr>sstate := (sstate s)\<lparr>st_jobsets :=
        (if list_ex (\<lambda>k. case (upgrade jh k, upgrade jh j) of
                            (Some a, Some b) \<Rightarrow> jobset_eq a b | _ \<Rightarrow> k = j)
                   (st_jobsets (sstate s))
         then st_jobsets (sstate s) else st_jobsets (sstate s) @ [j])\<rparr>\<rparr>"

definition add_dep :: "step arena \<Rightarrow> sref \<Rightarrow> step \<Rightarrow> step" where
  "add_dep sh dep s =
     (let ds = step_set_insert sh dep (deps (sstate s))
      in s\<lparr>sstate := (sstate s)\<lparr>deps := ds\<rparr>,
           atomic_state := (atomic_state s)\<lparr>deps_len := of_nat (length ds)\<rparr>\<rparr>)"

definition add_referring_data :: "bref option \<Rightarrow> sref option \<Rightarrow> step \<Rightarrow> step" where
  "add_referring_data rb rs s =
     (let s1 = (case rb of None \<Rightarrow> s
                | Some b \<Rightarrow> s\<lparr>sstate := (sstate s)\<lparr>st_builds := st_builds (sstate s) @ [b]\<rparr>\<rparr>)
      in (case rs of None \<Rightarrow> s1
          | Some r \<Rightarrow>
              (let rd = rdeps (sstate s1) @ [r]
               in s1\<lparr>sstate := (sstate s1)\<lparr>rdeps := rd\<rparr>,
                     atomic_state := (atomic_state s1)\<lparr>rdeps_len := of_nat (length rd)\<rparr>\<rparr>)))"

definition get_direct_builds :: "build arena \<Rightarrow> step \<Rightarrow> bref list" where
  "get_direct_builds bh s =
     filter (\<lambda>b. case upgrade bh b of None \<Rightarrow> False | Some v \<Rightarrow> \<not> finished_in_db v)
       (st_builds (sstate s))"

definition get_all_deps_not_queued :: "step arena \<Rightarrow> sref list \<Rightarrow> step \<Rightarrow> sref list" where
  "get_all_deps_not_queued sh queued s =
     filter (\<lambda>d. \<not> step_set_contains sh queued d) (deps (sstate s))"

subsection \<open>Dependents of a step\<close>

text \<open>
  \<^verbatim>\<open>get_dependents\<close> calls itself on every live reverse dependency, threading the two sets it
  fills. The pending calls are the \<open>stack\<close>: a call that finds its step in the set returns, any
  other marks the step, collects its builds and makes the calls for its reverse dependencies.
\<close>

definition collect_builds :: "build arena \<Rightarrow> bref list \<Rightarrow> bref list \<Rightarrow> bref list" where
  "collect_builds bh ws acc =
     fold (\<lambda>b acc. case upgrade bh b of
                     None \<Rightarrow> acc
                   | Some v \<Rightarrow> if \<not> finished_in_db v then build_set_insert bh b acc else acc) ws acc"

definition unvisited :: "step arena \<Rightarrow> sref list \<Rightarrow> nat" where
  "unvisited sh ss =
     length (filter (\<lambda>a. upgrade sh a \<noteq> None \<and> \<not> step_set_contains sh ss a) [0..<length sh])"

lemma unvisited_less:
  assumes "upgrade sh a = Some s" and "\<not> step_set_contains sh ss a"
  shows "unvisited sh (ss @ [a]) < unvisited sh ss"
  unfolding unvisited_def
proof (rule length_filter_strict [where a = a])
  show "a \<in> set [0..<length sh]"
    using upgrade_bound [OF assms(1)] by simp
qed (use assms in \<open>auto simp: step_set_contains_def\<close>)

function dependents_loop ::
  "step arena \<Rightarrow> build arena \<Rightarrow> sref list \<Rightarrow> bref list \<Rightarrow> sref list \<Rightarrow> bref list \<times> sref list" where
  "dependents_loop sh bh [] builds steps = (builds, steps)"
| "dependents_loop sh bh (w # stack) builds steps =
     (case upgrade sh w of
        None \<Rightarrow> dependents_loop sh bh stack builds steps
      | Some s \<Rightarrow>
          (if step_set_contains sh steps w then dependents_loop sh bh stack builds steps
           else dependents_loop sh bh (rdeps (sstate s) @ stack)
                  (collect_builds bh (st_builds (sstate s)) builds) (steps @ [w])))"
  by pat_completeness auto
termination
  by (relation "measures [\<lambda>(sh, _, _, _, steps). unvisited sh steps, \<lambda>(_, _, stack, _, _). length stack]")
    (auto simp: unvisited_less)

definition get_dependents ::
  "step arena \<Rightarrow> build arena \<Rightarrow> sref \<Rightarrow> bref list \<Rightarrow> sref list \<Rightarrow> bref list \<times> sref list" where
  "get_dependents sh bh self builds steps = dependents_loop sh bh [self] builds steps"

subsection \<open>Finishing a step\<close>

text \<open>
  What \<^verbatim>\<open>make_rdeps_runnable\<close> does to one live dependent: take the finished step out of its
  dependencies, publish the new count, and mark it runnable when that was the last one.
\<close>

definition unblock :: "step arena \<Rightarrow> timestamp \<Rightarrow> store_path \<Rightarrow> step \<Rightarrow> step" where
  "unblock sh now p r =
     (let ds = filter (\<lambda>d. step_path sh d \<noteq> Some p) (deps (sstate r));
          r1 = r\<lparr>sstate := (sstate r)\<lparr>deps := ds\<rparr>,
                 atomic_state := (atomic_state r)\<lparr>deps_len := of_nat (length ds)\<rparr>\<rparr>
      in if ds = [] \<and> created (atomic_state r1) then make_runnable now r1 else r1)"

fun rdeps_loop :: "(sref \<Rightarrow> timestamp) \<Rightarrow> store_path \<Rightarrow> step arena \<Rightarrow> sref list \<Rightarrow> step arena \<times> sref list" where
  "rdeps_loop clock p sh [] = (sh, [])"
| "rdeps_loop clock p sh (w # ws) =
     (case upgrade sh w of
        None \<Rightarrow> rdeps_loop clock p sh ws
      | Some _ \<Rightarrow>
          (let (sh', kept) = rdeps_loop clock p (modify sh w (unblock sh (clock w) p)) ws
           in (sh', w # kept)))"

definition make_rdeps_runnable :: "(sref \<Rightarrow> timestamp) \<Rightarrow> step arena \<Rightarrow> sref \<Rightarrow> step arena" where
  "make_rdeps_runnable clock sh self =
     (case upgrade sh self of
        None \<Rightarrow> sh
      | Some s \<Rightarrow>
          if \<not> finished s then sh
          else (let (sh', kept) = rdeps_loop clock (drv_path s) sh (rdeps (sstate s))
                in modify sh' self (\<lambda>s. s\<lparr>sstate := (sstate s)\<lparr>rdeps := kept\<rparr>,
                     atomic_state := (atomic_state s)\<lparr>rdeps_len := of_nat (length kept)\<rparr>\<rparr>)))"

subsection \<open>The registry of steps\<close>

type_synonym steps = "(store_path \<times> sref) list"

definition steps_retain :: "step arena \<Rightarrow> steps \<Rightarrow> steps" where
  "steps_retain sh reg = filter (\<lambda>(_, w). upgrade sh w \<noteq> None) reg"

definition steps_len :: "step arena \<Rightarrow> steps \<Rightarrow> steps \<times> nat" where
  "steps_len sh reg = (let reg' = steps_retain sh reg in (reg', length reg'))"

definition steps_is_empty :: "step arena \<Rightarrow> steps \<Rightarrow> steps \<times> bool" where
  "steps_is_empty sh reg = (let reg' = steps_retain sh reg in (reg', reg' = []))"

definition is_runnable :: "step arena \<Rightarrow> sref \<Rightarrow> bool" where
  "is_runnable sh w = (case upgrade sh w of None \<Rightarrow> False | Some s \<Rightarrow> runnable s)"

definition steps_len_runnable :: "step arena \<Rightarrow> steps \<Rightarrow> steps \<times> nat" where
  "steps_len_runnable sh reg =
     (let reg' = steps_retain sh reg in (reg', length (filter (\<lambda>(_, w). is_runnable sh w) reg')))"

definition clone_runnable :: "step arena \<Rightarrow> steps \<Rightarrow> steps \<times> sref list" where
  "clone_runnable sh reg =
     (let reg' = steps_retain sh reg in (reg', filter (is_runnable sh) (map snd reg')))"

definition steps_make_rdeps_runnable :: "(sref \<Rightarrow> timestamp) \<Rightarrow> steps \<Rightarrow> step arena \<Rightarrow> step arena" where
  "steps_make_rdeps_runnable clock reg sh =
     fold (\<lambda>(_, w) sh. case upgrade sh w of
             None \<Rightarrow> sh
           | Some s \<Rightarrow> if finished s \<and> \<not> previous_failure s then make_rdeps_runnable clock sh w else sh)
       reg sh"

definition steps_create ::
  "step arena \<Rightarrow> steps \<Rightarrow> store_path \<Rightarrow> bref option \<Rightarrow> sref option \<Rightarrow> step arena \<times> steps \<times> sref \<times> bool" where
  "steps_create sh reg p rb rs =
     (let (sh1, reg1, r, is_new) =
        (case hm_get reg p of
           Some w \<Rightarrow>
             (case upgrade sh w of
                Some _ \<Rightarrow> (sh, reg, w, False)
              | None \<Rightarrow> (let (sh', w') = alloc sh (step_new p) in (sh', hm_remove p reg, w', True)))
         | None \<Rightarrow> (let (sh', w') = alloc sh (step_new p) in (sh', reg, w', True)))
      in (modify sh1 r (add_referring_data rb rs), hm_insert p r reg1, r, is_new))"

definition steps_remove :: "store_path \<Rightarrow> steps \<Rightarrow> steps" where
  "steps_remove p reg = hm_remove p reg"

record io_step =
  ios_drv_path :: store_path
  ios_runnable :: bool
  ios_finished :: bool
  ios_previous_failure :: bool
  ios_created :: bool
  ios_tries :: u32
  ios_highest_global_priority :: int
  ios_highest_local_priority :: int
  ios_lowest_build_id :: int
  ios_deps_count :: u64

definition io_step_from :: "step \<Rightarrow> io_step" where
  "io_step_from s =
     \<lparr>ios_drv_path = drv_path s, ios_runnable = runnable s, ios_finished = finished s,
      ios_previous_failure = previous_failure s, ios_created = created (atomic_state s),
      ios_tries = tries (atomic_state s),
      ios_highest_global_priority = highest_global_priority (atomic_state s),
      ios_highest_local_priority = highest_local_priority (atomic_state s),
      ios_lowest_build_id = lowest_build_id (atomic_state s),
      ios_deps_count = deps_len (atomic_state s)\<rparr>"

definition steps_clone_as_io :: "step arena \<Rightarrow> steps \<Rightarrow> io_step list" where
  "steps_clone_as_io sh reg = List.map_filter (\<lambda>(_, w). map_option io_step_from (upgrade sh w)) reg"

definition clone_runnable_as_io :: "step arena \<Rightarrow> steps \<Rightarrow> io_step list" where
  "clone_runnable_as_io sh reg =
     map io_step_from (filter runnable (List.map_filter (\<lambda>(_, w). upgrade sh w) reg))"

end
