(* ===== verification/Step_Graph.thy ===== *)
theory Step_Graph
  imports Step
begin

text \<open>
  What the operations on the step graph guarantee (queue-runner/src/state/step.rs): the reverse
  traversal, unblocking of dependents, the registry, and the invariant of the graph over every
  sequence of operations.
\<close>

subsection \<open>The reverse traversal\<close>

definition unique_paths :: "step arena \<Rightarrow> bool" where
  "unique_paths sh \<longleftrightarrow>
     (\<forall>a < length sh. \<forall>b < length sh. upgrade sh a \<noteq> None \<longrightarrow> step_path sh a = step_path sh b \<longrightarrow> a = b)"

definition refers :: "step arena \<Rightarrow> (sref \<times> sref) set" where
  "refers sh = {(a, b). \<exists>s. upgrade sh a = Some s \<and> b \<in> set (rdeps (sstate s)) \<and> upgrade sh b \<noteq> None}"

definition pending_build :: "build arena \<Rightarrow> bref \<Rightarrow> bool" where
  "pending_build bh b = (case upgrade bh b of None \<Rightarrow> False | Some v \<Rightarrow> \<not> finished_in_db v)"

definition builds_of :: "step arena \<Rightarrow> build arena \<Rightarrow> sref \<Rightarrow> bref set" where
  "builds_of sh bh a =
     (case upgrade sh a of None \<Rightarrow> {} | Some s \<Rightarrow> {b \<in> set (st_builds (sstate s)). pending_build bh b})"

lemma step_path_eq_iff:
  assumes "unique_paths sh" and "upgrade sh a = Some s"
  shows "step_path sh a = step_path sh b \<longleftrightarrow> a = b"
proof
  assume eq: "step_path sh a = step_path sh b"
  then obtain t where "upgrade sh b = Some t"
    using assms(2) by (cases "upgrade sh b") (auto simp: step_path_def)
  with assms(2) have "a < length sh" and "b < length sh"
    by (auto intro: upgrade_bound)
  with assms eq show "a = b"
    by (simp add: unique_paths_def)
qed simp

lemma step_set_contains_iff:
  "unique_paths sh \<Longrightarrow> upgrade sh a = Some s \<Longrightarrow> step_set_contains sh ss a \<longleftrightarrow> a \<in> set ss"
  by (auto simp: step_set_contains_def step_path_eq_iff)

lemma build_set_insert_paths:
  "build_path bh ` set (build_set_insert bh b bs) = insert (build_path bh b) (build_path bh ` set bs)"
  by (auto simp: build_set_insert_def)

lemma collect_builds_paths:
  "build_path bh ` set (collect_builds bh ws acc) =
     build_path bh ` set acc \<union> build_path bh ` {b \<in> set ws. pending_build bh b}"
proof (induction ws arbitrary: acc)
  case (Cons w ws)
  then show ?case
    by (cases "upgrade bh w")
      (auto simp: collect_builds_def pending_build_def build_set_insert_paths)
qed (simp add: collect_builds_def)

lemma collect_builds_subset:
  "set acc \<subseteq> set (collect_builds bh ws acc) \<and>
   set (collect_builds bh ws acc) \<subseteq> set acc \<union> {b \<in> set ws. pending_build bh b}"
proof (induction ws arbitrary: acc)
  case (Cons w ws)
  have eq: "collect_builds bh (w # ws) acc = collect_builds bh ws
      (if pending_build bh w then build_set_insert bh w acc else acc)"
    by (simp add: collect_builds_def pending_build_def split: option.splits)
  show ?case
    using Cons [of "if pending_build bh w then build_set_insert bh w acc else acc"]
    unfolding eq by (auto simp: build_set_insert_def split: if_splits)
qed (simp add: collect_builds_def)

text \<open>The loop rule of the traversal: what its moves keep holds of its result.\<close>

lemma dependents_loop_rule [consumes 2, case_names dead seen visit]:
  assumes "dependents_loop sh bh stack builds steps = (builds', steps')"
    and "P stack builds steps"
    and "\<And>w st bs ss. P (w # st) bs ss \<Longrightarrow> upgrade sh w = None \<Longrightarrow> P st bs ss"
    and "\<And>w st bs ss s. P (w # st) bs ss \<Longrightarrow> upgrade sh w = Some s \<Longrightarrow>
           step_set_contains sh ss w \<Longrightarrow> P st bs ss"
    and "\<And>w st bs ss s. P (w # st) bs ss \<Longrightarrow> upgrade sh w = Some s \<Longrightarrow>
           \<not> step_set_contains sh ss w \<Longrightarrow>
           P (rdeps (sstate s) @ st) (collect_builds bh (st_builds (sstate s)) bs) (ss @ [w])"
  shows "P [] builds' steps'"
  using assms
proof (induction sh bh stack builds steps rule: dependents_loop.induct)
  case (1 sh bh builds steps)
  from 1(1) have "builds' = builds" and "steps' = steps" by simp_all
  with 1(2) show ?case by (simp only:)
next
  case (2 sh bh w stack builds steps)
  note rules = "2.prems"(3-5) and start = "2.prems"(2)
  show ?case
  proof (cases "upgrade sh w")
    case None
    then have "dependents_loop sh bh stack builds steps = (builds', steps')"
      using "2.prems"(1) by simp
    from "2.IH"(1) [OF None this rules(1) [OF start None] rules] show ?thesis .
  next
    case (Some s)
    show ?thesis
    proof (cases "step_set_contains sh steps w")
      case True
      then have "dependents_loop sh bh stack builds steps = (builds', steps')"
        using "2.prems"(1) Some by simp
      from "2.IH"(2) [OF Some True this rules(2) [OF start Some True] rules] show ?thesis .
    next
      case False
      then have "dependents_loop sh bh (rdeps (sstate s) @ stack)
          (collect_builds bh (st_builds (sstate s)) builds) (steps @ [w]) = (builds', steps')"
        using "2.prems"(1) Some by simp
      from "2.IH"(3) [OF Some False this rules(3) [OF start Some False] rules] show ?thesis .
    qed
  qed
qed

definition traversal_inv ::
  "step arena \<Rightarrow> build arena \<Rightarrow> sref \<Rightarrow> sref list \<Rightarrow> bref list \<Rightarrow> sref list \<Rightarrow> bool" where
  "traversal_inv sh bh self stack builds steps \<longleftrightarrow>
     self \<in> set steps \<union> set stack \<and>
     (\<forall>a \<in> set steps. (self, a) \<in> (refers sh)\<^sup>*) \<and>
     (\<forall>a \<in> set stack. upgrade sh a \<noteq> None \<longrightarrow> (self, a) \<in> (refers sh)\<^sup>*) \<and>
     (\<forall>a \<in> set steps. \<forall>b. (a, b) \<in> refers sh \<longrightarrow> b \<in> set steps \<union> set stack) \<and>
     (\<forall>b \<in> set builds. \<exists>a \<in> set steps. b \<in> builds_of sh bh a) \<and>
     (\<forall>a \<in> set steps. build_path bh ` builds_of sh bh a \<subseteq> build_path bh ` set builds)"

lemma refers_live: "(a, b) \<in> refers sh \<Longrightarrow> upgrade sh b \<noteq> None"
  by (auto simp: refers_def)

lemma traversal_inv_skip:
  assumes "traversal_inv sh bh self (w # st) bs ss"
    and "upgrade sh w = None \<and> w \<noteq> self \<or> w \<in> set ss"
  shows "traversal_inv sh bh self st bs ss"
proof -
  have "b \<in> set ss \<union> set st" if "a \<in> set ss" "(a, b) \<in> refers sh" for a b
  proof -
    have "b = w \<or> b \<in> set ss \<union> set st"
      using assms(1) that by (auto simp: traversal_inv_def)
    with assms(2) refers_live [OF that(2)] show ?thesis by auto
  qed
  with assms show ?thesis
    by (auto simp: traversal_inv_def)
qed

lemma traversal_inv_visit:
  assumes inv: "traversal_inv sh bh self (w # st) bs ss" and w: "upgrade sh w = Some s"
  shows "traversal_inv sh bh self (rdeps (sstate s) @ st)
           (collect_builds bh (st_builds (sstate s)) bs) (ss @ [w])"
proof -
  let ?new = "collect_builds bh (st_builds (sstate s)) bs"
  have succ: "(w, b) \<in> refers sh \<longleftrightarrow> b \<in> set (rdeps (sstate s)) \<and> upgrade sh b \<noteq> None" for b
    using w by (auto simp: refers_def)
  have reach: "(self, w) \<in> (refers sh)\<^sup>*"
    using inv w by (auto simp: traversal_inv_def)
  have bo: "{b \<in> set (st_builds (sstate s)). pending_build bh b} = builds_of sh bh w"
    using w by (simp add: builds_of_def)
  have paths: "build_path bh ` set ?new = build_path bh ` set bs \<union> build_path bh ` builds_of sh bh w"
    and new: "set ?new \<subseteq> set bs \<union> builds_of sh bh w"
    using collect_builds_paths [of bh "st_builds (sstate s)" bs]
      collect_builds_subset [of bs bh "st_builds (sstate s)"] by (simp_all only: bo)
  have "\<forall>a \<in> set (rdeps (sstate s)). upgrade sh a \<noteq> None \<longrightarrow> (self, a) \<in> (refers sh)\<^sup>*"
    using reach succ by (meson rtrancl.rtrancl_into_rtrancl)
  moreover have "\<exists>a \<in> set (ss @ [w]). b \<in> builds_of sh bh a" if "b \<in> set ?new" for b
  proof (cases "b \<in> set bs")
    case True
    then obtain a where "a \<in> set ss" "b \<in> builds_of sh bh a"
      using inv unfolding traversal_inv_def by blast
    then show ?thesis by auto
  qed (use new that in auto)
  moreover have "build_path bh ` builds_of sh bh a \<subseteq> build_path bh ` set ?new"
    if "a \<in> set (ss @ [w])" for a
  proof (cases "a = w")
    case False
    then have "build_path bh ` builds_of sh bh a \<subseteq> build_path bh ` set bs"
      using inv that unfolding traversal_inv_def by simp
    then show ?thesis unfolding paths by blast
  qed (simp add: paths)
  moreover have "b \<in> set (ss @ [w]) \<union> set (rdeps (sstate s) @ st)"
    if "a \<in> set (ss @ [w])" "(a, b) \<in> refers sh" for a b
  proof (cases "a = w")
    case False
    then have "b \<in> set ss \<union> set (w # st)"
      using inv that unfolding traversal_inv_def by simp
    then show ?thesis by auto
  qed (use that succ in auto)
  moreover have "self \<in> set (ss @ [w]) \<union> set (rdeps (sstate s) @ st)"
    and "\<forall>a \<in> set (ss @ [w]). (self, a) \<in> (refers sh)\<^sup>*"
    and "\<forall>a \<in> set st. upgrade sh a \<noteq> None \<longrightarrow> (self, a) \<in> (refers sh)\<^sup>*"
    using inv reach unfolding traversal_inv_def by auto
  ultimately show ?thesis
    unfolding traversal_inv_def set_append by blast
qed

lemma get_dependents_spec:
  assumes uniq: "unique_paths sh" and self: "upgrade sh self = Some s"
    and res: "get_dependents sh bh self [] [] = (builds, steps)"
  shows "set steps = (refers sh)\<^sup>* `` {self}"
    and "set builds \<subseteq> (\<Union>a \<in> set steps. builds_of sh bh a)"
    and "build_path bh ` set builds = build_path bh ` (\<Union>a \<in> set steps. builds_of sh bh a)"
proof -
  have loop: "dependents_loop sh bh [self] [] [] = (builds, steps)"
    using res by (simp add: get_dependents_def)
  have start: "traversal_inv sh bh self [self] [] []"
    by (simp add: traversal_inv_def)
  have inv: "traversal_inv sh bh self [] builds steps"
    using loop start
  proof (rule dependents_loop_rule)
    show "traversal_inv sh bh self st bs ss"
      if "traversal_inv sh bh self (w # st) bs ss" "upgrade sh w = None" for w st bs ss
      using traversal_inv_skip [OF that(1)] that(2) self by (cases "w = self") simp_all
    show "traversal_inv sh bh self st bs ss"
      if "traversal_inv sh bh self (w # st) bs ss" "upgrade sh w = Some s" "step_set_contains sh ss w"
      for w st bs ss s
      using traversal_inv_skip [OF that(1)] that(2,3) uniq by (simp add: step_set_contains_iff)
  qed (rule traversal_inv_visit)
  show "set steps = (refers sh)\<^sup>* `` {self}"
  proof (intro equalityI subsetI)
    fix b assume "b \<in> (refers sh)\<^sup>* `` {self}"
    then have "(self, b) \<in> (refers sh)\<^sup>*" by simp
    then show "b \<in> set steps"
      by (rule closed_under_rtrancl) (use inv in \<open>auto simp: traversal_inv_def\<close>)
  qed (use inv in \<open>auto simp: traversal_inv_def\<close>)
  show "set builds \<subseteq> (\<Union>a \<in> set steps. builds_of sh bh a)"
    using inv by (auto simp: traversal_inv_def)
  moreover have "build_path bh ` (\<Union>a \<in> set steps. builds_of sh bh a) \<subseteq> build_path bh ` set builds"
    using inv unfolding traversal_inv_def by blast
  ultimately show "build_path bh ` set builds = build_path bh ` (\<Union>a \<in> set steps. builds_of sh bh a)"
    by blast
qed

subsection \<open>Unblocking dependents\<close>

lemma step_path_modify:
  "(\<And>s. drv_path (f s) = drv_path s) \<Longrightarrow> step_path (modify sh a f) = step_path sh"
  by (rule ext) (simp add: step_path_def option.map_comp comp_def)

lemma make_runnable_simps [simp]:
  "drv_path (make_runnable now s) = drv_path s"
  "sstate (make_runnable now s) = sstate s"
  "runnable (make_runnable now s)"
  "created (atomic_state (make_runnable now s)) = created (atomic_state s)"
  "finished (make_runnable now s) = finished s"
  "deps_len (atomic_state (make_runnable now s)) = deps_len (atomic_state s)"
  "rdeps_len (atomic_state (make_runnable now s)) = rdeps_len (atomic_state s)"
  "runnable s \<Longrightarrow> make_runnable now s = s"
  by (simp_all add: make_runnable_def)

lemma unblock_simps [simp]:
  "drv_path (unblock sh now p r) = drv_path r"
  "deps (sstate (unblock sh now p r)) = filter (\<lambda>d. step_path sh d \<noteq> Some p) (deps (sstate r))"
  "rdeps (sstate (unblock sh now p r)) = rdeps (sstate r)"
  "created (atomic_state (unblock sh now p r)) = created (atomic_state r)"
  "finished (unblock sh now p r) = finished r"
  "rdeps_len (atomic_state (unblock sh now p r)) = rdeps_len (atomic_state r)"
  "deps_len (atomic_state (unblock sh now p r)) =
     of_nat (length (filter (\<lambda>d. step_path sh d \<noteq> Some p) (deps (sstate r))))"
  by (simp_all add: unblock_def Let_def)

lemma unblock_runnable:
  "runnable (unblock sh now p r) \<longleftrightarrow>
     runnable r \<or> deps (sstate (unblock sh now p r)) = [] \<and> created (atomic_state r)"
  by (auto simp: unblock_def Let_def)

lemma unblock_idem: "unblock sh now p (unblock sh now' p r) = unblock sh now' p r"
  by (simp add: unblock_def Let_def)

lemma rdeps_loop_spec:
  "rdeps_loop clock p sh ws = (sh', kept) \<Longrightarrow>
   kept = filter (\<lambda>w. upgrade sh w \<noteq> None) ws \<and> step_path sh' = step_path sh \<and>
   (\<forall>a. upgrade sh' a =
      (if a \<in> set ws then map_option (unblock sh (clock a) p) (upgrade sh a) else upgrade sh a))"
proof (induction clock p sh ws arbitrary: sh' kept rule: rdeps_loop.induct)
  case (2 clock p sh w ws)
  show ?case
  proof (cases "upgrade sh w")
    case None
    with 2 show ?thesis by auto
  next
    case (Some r)
    let ?sh1 = "modify sh w (unblock sh (clock w) p)"
    have path: "step_path ?sh1 = step_path sh"
      by (rule step_path_modify) simp
    then have un: "unblock ?sh1 = unblock sh"
      by (intro ext) (simp add: unblock_def)
    obtain kept' where rec: "rdeps_loop clock p ?sh1 ws = (sh', kept')" and kept: "kept = w # kept'"
      using "2.prems" Some by (auto split: prod.splits)
    from "2.IH"(2) [OF Some rec]
    have IH: "kept' = filter (\<lambda>w. upgrade ?sh1 w \<noteq> None) ws" "step_path sh' = step_path ?sh1"
      "\<And>a. upgrade sh' a = (if a \<in> set ws then map_option (unblock ?sh1 (clock a) p) (upgrade ?sh1 a)
           else upgrade ?sh1 a)" by auto
    have "kept' = filter (\<lambda>w. upgrade sh w \<noteq> None) ws"
      unfolding IH(1) by (rule filter_cong [OF refl]) (simp only: arena.upd_live)
    moreover have "upgrade sh' a = (if a \<in> set (w # ws) then
        map_option (unblock sh (clock a) p) (upgrade sh a) else upgrade sh a)" for a
      using IH(3) [of a] by (auto simp: un option.map_comp comp_def unblock_idem)
    ultimately show ?thesis
      using IH(2) Some by (simp add: kept path)
  qed
qed simp

lemma make_rdeps_runnable_cells:
  assumes "upgrade sh self = Some s" and "finished s"
  shows "upgrade (make_rdeps_runnable clock sh self) a =
    (let touched = (if a \<in> set (rdeps (sstate s))
                    then map_option (unblock sh (clock a) (drv_path s)) (upgrade sh a)
                    else upgrade sh a);
         kept = filter (\<lambda>w. upgrade sh w \<noteq> None) (rdeps (sstate s))
     in if a = self then map_option (\<lambda>s. s\<lparr>sstate := (sstate s)\<lparr>rdeps := kept\<rparr>,
            atomic_state := (atomic_state s)\<lparr>rdeps_len := of_nat (length kept)\<rparr>\<rparr>) touched
        else touched)"
proof -
  obtain sh' kept where loop: "rdeps_loop clock (drv_path s) sh (rdeps (sstate s)) = (sh', kept)"
    by fastforce
  show ?thesis
    using assms loop rdeps_loop_spec [OF loop] by (simp add: make_rdeps_runnable_def Let_def)
qed

lemma make_rdeps_runnable_unfinished:
  "upgrade sh self = Some s \<Longrightarrow> \<not> finished s \<Longrightarrow> make_rdeps_runnable clock sh self = sh"
  by (simp add: make_rdeps_runnable_def)

subsection \<open>The invariant of the graph\<close>

definition step_ok :: "step \<Rightarrow> bool" where
  "step_ok s \<longleftrightarrow>
     deps_len (atomic_state s) = of_nat (length (deps (sstate s))) \<and>
     rdeps_len (atomic_state s) = of_nat (length (rdeps (sstate s))) \<and>
     (runnable s \<longrightarrow> created (atomic_state s) \<and> deps (sstate s) = [])"

definition graph_ok :: "step arena \<Rightarrow> bool" where
  "graph_ok sh \<longleftrightarrow> (\<forall>a s. upgrade sh a = Some s \<longrightarrow> step_ok s)"

text \<open>
  The operations the runner applies to the graph, with the guards of their callers
  (\<^verbatim>\<open>create_step\<close> adds dependencies only before it marks the step created, and a step becomes
  runnable directly only when it is created with no dependency).
\<close>

inductive graph_step :: "step arena \<Rightarrow> step arena \<Rightarrow> bool" where
  new: "alloc sh (step_new p) = (sh', r) \<Longrightarrow> graph_step sh sh'"
| refer: "graph_step sh (modify sh r (add_referring_data rb rs))"
| drv_known: "graph_step sh (modify sh r (set_drv d))"
| previous_failure: "graph_step sh (modify sh r (set_previous_failure v))"
| finish: "graph_step sh (modify sh r (set_finished v))"
| dep: "upgrade sh r = Some s \<Longrightarrow> \<not> created (atomic_state s) \<Longrightarrow>
    graph_step sh (modify sh r (add_dep sh dep))"
| creation_done: "graph_step sh (modify sh r (set_created True))"
| ready: "upgrade sh r = Some s \<Longrightarrow> created (atomic_state s) \<Longrightarrow> deps (sstate s) = [] \<Longrightarrow>
    graph_step sh (modify sh r (make_runnable now))"
| unblock_rdeps: "graph_step sh (make_rdeps_runnable clock sh r)"
| retry_later: "graph_step sh (modify sh r (set_after t))"
| supported: "graph_step sh (modify sh r (set_last_supported_now t))"
| drop: "graph_step sh (release sh r)"

inductive_cases graph_stepE: "graph_step sh sh'"

lemma graph_ok_modify:
  "graph_ok sh \<Longrightarrow> (\<And>s. upgrade sh r = Some s \<Longrightarrow> step_ok s \<Longrightarrow> step_ok (f s)) \<Longrightarrow> graph_ok (modify sh r f)"
  by (auto simp: graph_ok_def split: if_splits)

lemma graph_ok_release: "graph_ok sh \<Longrightarrow> graph_ok (release sh r)"
  by (auto simp: graph_ok_def split: if_splits)

lemma step_ok_ops:
  "step_ok (step_new p)"
  "step_ok s \<Longrightarrow> step_ok (add_referring_data rb rs s)"
  "step_ok s \<Longrightarrow> step_ok (set_drv d s)"
  "step_ok s \<Longrightarrow> step_ok (set_previous_failure v s)"
  "step_ok s \<Longrightarrow> step_ok (set_finished v s)"
  "step_ok s \<Longrightarrow> step_ok (set_created True s)"
  "step_ok s \<Longrightarrow> step_ok (set_after t s)"
  "step_ok s \<Longrightarrow> step_ok (set_last_supported_now t s)"
  "step_ok s \<Longrightarrow> \<not> created (atomic_state s) \<Longrightarrow> step_ok (add_dep sh dep s)"
  "step_ok s \<Longrightarrow> created (atomic_state s) \<Longrightarrow> deps (sstate s) = [] \<Longrightarrow> step_ok (make_runnable now s)"
  by (auto simp: step_ok_def step_new_def step_atomic_state_new_def step_state_new_def
      add_referring_data_def set_drv_def set_previous_failure_def set_finished_def set_created_def
      set_after_def set_last_supported_now_def add_dep_def Let_def split: option.splits)

lemma step_ok_unblock: "step_ok s \<Longrightarrow> step_ok (unblock sh now p s)"
  by (auto simp: step_ok_def unblock_runnable)

lemma graph_ok_unblock_rdeps: "graph_ok sh \<Longrightarrow> graph_ok (make_rdeps_runnable clock sh r)"
proof (cases "upgrade sh r")
  case (Some s)
  assume ok: "graph_ok sh"
  show ?thesis
  proof (cases "finished s")
    case True
    have kept_ok: "step_ok (s\<lparr>sstate := (sstate s)\<lparr>rdeps := ws\<rparr>,
        atomic_state := (atomic_state s)\<lparr>rdeps_len := of_nat (length ws)\<rparr>\<rparr>)" if "step_ok s" for s ws
      using that by (simp add: step_ok_def)
    have "step_ok t" if t: "upgrade (make_rdeps_runnable clock sh r) a = Some t" for a t
    proof (cases "upgrade sh a")
      case None
      with t show ?thesis
        by (simp add: make_rdeps_runnable_cells [OF Some True] Let_def split: if_splits)
    next
      case (Some u)
      then have "step_ok u" using ok by (simp add: graph_ok_def)
      with t Some show ?thesis
        by (auto simp: make_rdeps_runnable_cells [OF \<open>upgrade sh r = Some s\<close> True] Let_def
            intro!: kept_ok step_ok_unblock split: if_splits)
    qed
    then show ?thesis by (simp add: graph_ok_def)
  qed (use ok Some in \<open>simp add: make_rdeps_runnable_unfinished\<close>)
qed (simp add: make_rdeps_runnable_def)

lemma graph_ok_step: "graph_ok sh \<Longrightarrow> graph_step sh sh' \<Longrightarrow> graph_ok sh'"
proof (erule graph_stepE)
  fix p r assume "graph_ok sh" "alloc sh (step_new p) = (sh', r)"
  then show "graph_ok sh'"
    using arena.get_new [of sh "step_new p" sh' r] step_ok_ops(1) by (auto simp: graph_ok_def)
qed (auto intro!: graph_ok_modify graph_ok_unblock_rdeps step_ok_ops intro: graph_ok_release)

interpretation step_graph_life: invariant_system "\<lambda>sh. sh = []" graph_step graph_ok
proof
  show "graph_ok s" if "s = []" for s
    using that by (simp add: graph_ok_def)
qed (rule graph_ok_step)


subsection \<open>Properties of the graph\<close>


definition ex_graph :: "step arena" where
  "ex_graph =
     [Some ((step_new ''a'')\<lparr>finished := True, sstate := step_state_new\<lparr>rdeps := [1, 2]\<rparr>\<rparr>),
      Some (set_created True ((step_new ''b'')\<lparr>sstate := step_state_new\<lparr>deps := [0]\<rparr>\<rparr>)), None]"


text \<open>
  C9: when a finished step releases its dependents, every live dependent loses exactly that
  dependency, and it becomes runnable precisely when it already was, or when its creation is
  complete and no dependency is left; every other step is untouched and the step itself only
  forgets the dependents that are gone.
\<close>

theorem make_rdeps_runnable_exact:
  assumes "upgrade sh self = Some s" and "finished s" and "self \<notin> set (rdeps (sstate s))"
    and "upgrade sh a = Some r"
  shows "\<exists>r'. upgrade (make_rdeps_runnable clock sh self) a = Some r' \<and>
    (if a \<in> set (rdeps (sstate s))
     then deps (sstate r') = filter (\<lambda>d. step_path sh d \<noteq> Some (drv_path s)) (deps (sstate r)) \<and>
          (runnable r' \<longleftrightarrow> runnable r \<or> deps (sstate r') = [] \<and> created (atomic_state r)) \<and>
          rdeps (sstate r') = rdeps (sstate r) \<and> finished r' = finished r
     else if a = self
     then r' = r\<lparr>sstate := (sstate r)\<lparr>rdeps := filter (\<lambda>w. upgrade sh w \<noteq> None) (rdeps (sstate r))\<rparr>,
                  atomic_state := atomic_state r'\<rparr>
     else r' = r)"
proof -
  note cells = make_rdeps_runnable_cells [OF assms(1,2), of clock a, unfolded Let_def]
  consider (dep) "a \<in> set (rdeps (sstate s))" "a \<noteq> self" | (self) "a = self" "a \<notin> set (rdeps (sstate s))"
    | (other) "a \<noteq> self" "a \<notin> set (rdeps (sstate s))"
    using assms(3) by auto
  then show ?thesis
  proof cases
    case dep
    with cells assms(4) show ?thesis
      by (simp only: if_True if_False option.map) (simp add: unblock_runnable)
  next
    case self
    with assms have "r = s" by simp
    with cells assms self show ?thesis by simp
  next
    case other
    with cells assms(4) show ?thesis by simp
  qed
qed

theorem make_rdeps_runnable_exact_witness:
  "\<exists>r'. upgrade (make_rdeps_runnable (\<lambda>_. 7) ex_graph 0) 1 = Some r' \<and> runnable r' \<and> deps (sstate r') = []"
proof -
  let ?s = "(step_new ''a'')\<lparr>finished := True, sstate := step_state_new\<lparr>rdeps := [1, 2]\<rparr>\<rparr>"
  let ?r = "set_created True ((step_new ''b'')\<lparr>sstate := step_state_new\<lparr>deps := [0]\<rparr>\<rparr>)"
  have s: "upgrade ex_graph 0 = Some ?s" and r: "upgrade ex_graph 1 = Some ?r"
    by (simp_all add: ex_graph_def upgrade_def)
  have "step_path ex_graph 0 = Some ''a''"
    by (simp add: step_path_def s step_new_def)
  then show ?thesis
    using make_rdeps_runnable_exact [OF s _ _ r, of "\<lambda>_. 7"]
    by (auto simp: step_new_def step_state_new_def set_created_def)
qed

text \<open>
  C10: in every graph the runner can build, a step that is marked runnable has been created
  completely and has no dependency left, and the counters published for monitoring agree with
  the sets of dependencies and dependents (modulo the width of the counter).
\<close>

theorem reachable_graph_ok:
  assumes "graph_step\<^sup>*\<^sup>* [] sh" and "upgrade sh a = Some s"
  shows "(runnable s \<longrightarrow> created (atomic_state s) \<and> deps (sstate s) = []) \<and>
    deps_len (atomic_state s) = of_nat (length (deps (sstate s))) \<and>
    rdeps_len (atomic_state s) = of_nat (length (rdeps (sstate s)))"
  using step_graph_life.inv_reachable [OF refl assms(1)] assms(2)
  by (auto simp: graph_ok_def step_ok_def)

theorem reachable_graph_ok_witness:
  "\<exists>sh s. graph_step\<^sup>*\<^sup>* [] sh \<and> upgrade sh 0 = Some s \<and> runnable s \<and>
    created (atomic_state s) \<and> deps (sstate s) = []"
proof -
  let ?s0 = "step_new ''a''" and ?s1 = "set_created True (step_new ''a'')"
  have "graph_step [] [Some ?s0]"
    by (rule graph_step.new [of _ "''a''" _ 0]) (simp add: alloc_def)
  moreover have "graph_step [Some ?s0] [Some ?s1]"
    using graph_step.creation_done [of "[Some ?s0]" 0] by (simp add: modify_def)
  moreover have "graph_step [Some ?s1] [Some (make_runnable 5 ?s1)]"
    using graph_step.ready [of "[Some ?s1]" 0 ?s1 5]
    by (simp add: modify_def upgrade_def set_created_def step_new_def step_state_new_def)
  ultimately have "graph_step\<^sup>*\<^sup>* [] [Some (make_runnable 5 ?s1)]"
    by (meson converse_rtranclp_into_rtranclp r_into_rtranclp)
  moreover have "upgrade [Some (make_runnable 5 ?s1)] 0 = Some (make_runnable 5 ?s1)"
    by (simp add: upgrade_def)
  ultimately show ?thesis
    using reachable_graph_ok by (metis make_runnable_simps(3))
qed

text \<open>
  C16: \<^verbatim>\<open>Steps::create\<close> always leaves a live step registered under the requested path, reports it
  as new exactly when no live step was registered there, keeps the weak reference table free of
  duplicates, adds the referring build and step, and leaves every other live step alone.
\<close>

definition registry_ok :: "step arena \<Rightarrow> steps \<Rightarrow> bool" where
  "registry_ok sh reg \<longleftrightarrow> hm_wf reg \<and>
     (\<forall>p w s. hm_get reg p = Some w \<longrightarrow> upgrade sh w = Some s \<longrightarrow> drv_path s = p)"

lemma add_referring_data_simps [simp]:
  "drv_path (add_referring_data rb rs s) = drv_path s"
  "deps (sstate (add_referring_data rb rs s)) = deps (sstate s)"
  "rdeps (sstate (add_referring_data rb rs s)) = rdeps (sstate s) @ (case rs of None \<Rightarrow> [] | Some r \<Rightarrow> [r])"
  "st_builds (sstate (add_referring_data rb rs s)) =
     st_builds (sstate s) @ (case rb of None \<Rightarrow> [] | Some b \<Rightarrow> [b])"
  by (simp_all add: add_referring_data_def Let_def split: option.splits)

lemma steps_create_cases:
  assumes "steps_create sh reg p rb rs = (sh', reg', r, is_new)"
  obtains (found) s where "hm_get reg p = Some r" "upgrade sh r = Some s" "\<not> is_new"
      "sh' = modify sh r (add_referring_data rb rs)" "reg' = hm_insert p r reg"
  | (fresh) sh1 reg1 where "\<And>w. hm_get reg p = Some w \<Longrightarrow> upgrade sh w = None" "is_new"
      "alloc sh (step_new p) = (sh1, r)" "sh' = modify sh1 r (add_referring_data rb rs)"
      "reg' = hm_insert p r reg1" "reg1 = reg \<or> reg1 = hm_remove p reg"
  using assms by (auto simp: steps_create_def Let_def split: option.splits prod.splits)

theorem steps_create_spec:
  assumes "steps_create sh reg p rb rs = (sh', reg', r, is_new)" and "registry_ok sh reg"
    and "\<And>q w. hm_get reg q = Some w \<Longrightarrow> w < length sh"
  shows "hm_get reg' p = Some r \<and> map_option drv_path (upgrade sh' r) = Some p \<and>
    (is_new \<longleftrightarrow> (\<forall>w. hm_get reg p = Some w \<longrightarrow> upgrade sh w = None)) \<and> registry_ok sh' reg' \<and>
    (\<forall>s. upgrade sh' r = Some s \<longrightarrow>
       (\<forall>b. rb = Some b \<longrightarrow> b \<in> set (st_builds (sstate s))) \<and>
       (\<forall>d. rs = Some d \<longrightarrow> d \<in> set (rdeps (sstate s)))) \<and>
    (\<forall>a s. a \<noteq> r \<longrightarrow> upgrade sh a = Some s \<longrightarrow> upgrade sh' a = Some s)"
  using assms(1)
proof (cases rule: steps_create_cases)
  case (found s)
  have p: "drv_path s = p" using assms(2) found(1,2) by (simp add: registry_ok_def)
  have get: "hm_get reg' = hm_get reg" using found(1,5) by (auto simp: update_conv)
  have "registry_ok sh' reg'"
    using assms(2) found(4,5) get by (auto simp: registry_ok_def split: if_splits)
  moreover have "upgrade sh' r = Some (add_referring_data rb rs s)"
    using found(2,4) by simp
  moreover have "\<forall>a. a \<noteq> r \<longrightarrow> upgrade sh' a = upgrade sh a" using found(4) by simp
  ultimately show ?thesis
    using found(1-3) p get by simp
next
  case (fresh sh1 reg1)
  have r: "r = length sh" using fresh(3) by (simp add: alloc_def)
  have cell: "upgrade sh1 a = (if a = r then Some (step_new p) else upgrade sh a)" for a
    by (rule arena.get_new [OF fresh(3)])
  have keys: "hm_get reg1 q = hm_get reg q" if "q \<noteq> p" for q
    using fresh(6) that by (auto simp: delete_conv)
  have wf: "hm_wf reg1" using fresh(6) assms(2) by (auto simp: registry_ok_def)
  have old: "hm_get reg q \<noteq> Some r" for q using assms(3) [of q r] r by auto
  have path: "drv_path (step_new p) = p" by (simp add: step_new_def)
  have "registry_ok sh' reg'"
    unfolding registry_ok_def fresh(4,5)
    using assms(2) wf keys old path by (auto simp: cell update_conv registry_ok_def)
  moreover have "upgrade sh' r = Some (add_referring_data rb rs (step_new p))"
    and "\<forall>a. a \<noteq> r \<longrightarrow> upgrade sh' a = upgrade sh a" and "hm_get reg' p = Some r"
    using fresh(4,5) by (simp_all add: cell update_conv)
  ultimately show ?thesis
    using fresh(1,2) path by simp
qed

theorem steps_create_spec_witness:
  "\<exists>sh' reg' r. steps_create [None] [(''a'', 0)] ''a'' (Some 3) (Some 4) = (sh', reg', r, True) \<and>
     hm_get reg' ''a'' = Some r \<and> r \<noteq> 0"
proof -
  obtain sh' reg' r n where run: "steps_create [None] [(''a'', 0)] ''a'' (Some 3) (Some 4) = (sh', reg', r, n)"
    by (metis prod.exhaust)
  have n: "n" and r: "r \<noteq> 0"
    using run by (auto simp: steps_create_def upgrade_def alloc_def)
  have "registry_ok [None] [(''a'', 0)]"
    by (auto simp: registry_ok_def hm_wf_def upgrade_def)
  moreover have "w < length [None]" if "hm_get [(''a'', 0)] q = Some w" for q and w :: nat
    using that by (simp split: if_splits)
  ultimately show ?thesis
    using steps_create_spec [OF run] run n r by auto
qed

end
