(* ===== verification/Step_Info.thy ===== *)
theory Step_Info
  imports Step_Graph
begin

text \<open>
  The queue's view of a runnable step (queue-runner/src/state/step_info.rs): a step with its
  resolved derivation, two flags and a cached share, and the two orders the queues can be sorted
  by. Both are total preorders, so sorting a queue by them has one stable result; the lemmas say
  which step comes first.
\<close>

record step_info =
  si_step :: sref
  resolved_drv_path :: "store_path option"
  already_scheduled :: bool
  cancelled :: bool
  si_runnable_since :: timestamp
  lowest_share_used :: rfloat

text \<open>
  The step of a \<^verbatim>\<open>StepInfo\<close> is a strong pointer, so its cell is never empty; \<open>deref\<close> reads it.
\<close>

definition deref :: "step arena \<Rightarrow> sref \<Rightarrow> step" where
  "deref sh r = (case upgrade sh r of Some s \<Rightarrow> s | None \<Rightarrow> step_new [])"

lemma deref_live [simp]: "upgrade sh r = Some s \<Longrightarrow> deref sh r = s"
  by (simp add: deref_def)

text \<open>\<open>try_resolve_drv\<close> asks the local Nix store for the resolved form of a derivation.\<close>

definition step_info_new ::
  "(store_path \<Rightarrow> store_path option) \<Rightarrow> bool \<Rightarrow> jobset arena \<Rightarrow> step arena \<Rightarrow> sref \<Rightarrow> step_info" where
  "step_info_new try_resolve_drv ns jh sh r =
     (let s = deref sh r
      in \<lparr>si_step = r, resolved_drv_path = try_resolve_drv (drv_path s), already_scheduled = False,
          cancelled = False, si_runnable_since = runnable_since (atomic_state s),
          lowest_share_used = get_lowest_share_used ns jh s\<rparr>)"

definition update_internal_stats :: "bool \<Rightarrow> jobset arena \<Rightarrow> step arena \<Rightarrow> step_info \<Rightarrow> step_info" where
  "update_internal_stats ns jh sh i =
     i\<lparr>lowest_share_used := get_lowest_share_used ns jh (deref sh (si_step i))\<rparr>"

definition get_highest_global_priority :: "step arena \<Rightarrow> step_info \<Rightarrow> int" where
  "get_highest_global_priority sh i = highest_global_priority (atomic_state (deref sh (si_step i)))"

definition get_highest_local_priority :: "step arena \<Rightarrow> step_info \<Rightarrow> int" where
  "get_highest_local_priority sh i = highest_local_priority (atomic_state (deref sh (si_step i)))"

definition get_lowest_build_id :: "step arena \<Rightarrow> step_info \<Rightarrow> int" where
  "get_lowest_build_id sh i = lowest_build_id (atomic_state (deref sh (si_step i)))"

definition get_rdeps_len :: "step arena \<Rightarrow> step_info \<Rightarrow> u64" where
  "get_rdeps_len sh i = rdeps_len (atomic_state (deref sh (si_step i)))"

definition set_already_scheduled :: "bool \<Rightarrow> step_info \<Rightarrow> step_info" where
  "set_already_scheduled v i = i\<lparr>already_scheduled := v\<rparr>"

definition set_cancelled :: "bool \<Rightarrow> step_info \<Rightarrow> step_info" where
  "set_cancelled v i = i\<lparr>cancelled := v\<rparr>"

subsection \<open>The two orders\<close>

definition legacy_compare :: "step arena \<Rightarrow> step_info \<Rightarrow> step_info \<Rightarrow> ordering" where
  "legacy_compare sh self other = reverse_ord
     (let c1 = cmp (get_highest_global_priority sh self) (get_highest_global_priority sh other)
      in if c1 \<noteq> Equal then c1
      else let c2 = total_cmp (lowest_share_used other) (lowest_share_used self)
      in if c2 \<noteq> Equal then c2
      else let c3 = cmp (get_highest_local_priority sh self) (get_highest_local_priority sh other)
      in if c3 \<noteq> Equal then c3
      else cmp (get_lowest_build_id sh other) (get_lowest_build_id sh self))"

definition compare_with_rdeps :: "step arena \<Rightarrow> step_info \<Rightarrow> step_info \<Rightarrow> ordering" where
  "compare_with_rdeps sh self other = reverse_ord
     (let c1 = cmp (get_highest_global_priority sh self) (get_highest_global_priority sh other)
      in if c1 \<noteq> Equal then c1
      else let c2 = total_cmp (lowest_share_used other) (lowest_share_used self)
      in if c2 \<noteq> Equal then c2
      else let c3 = cmp (get_rdeps_len sh self) (get_rdeps_len sh other)
      in if c3 \<noteq> Equal then c3
      else let c4 = cmp (get_highest_local_priority sh self) (get_highest_local_priority sh other)
      in if c4 \<noteq> Equal then c4
      else cmp (get_lowest_build_id sh other) (get_lowest_build_id sh self))"

record io_step_info =
  iosi_drv_path :: store_path
  iosi_already_scheduled :: bool
  iosi_runnable :: bool
  iosi_finished :: bool
  iosi_cancelled :: bool
  iosi_runnable_since :: timestamp
  iosi_tries :: u32
  iosi_lowest_share_used :: rfloat
  iosi_highest_global_priority :: int
  iosi_highest_local_priority :: int
  iosi_lowest_build_id :: int

definition io_step_info_from :: "step arena \<Rightarrow> step_info \<Rightarrow> io_step_info" where
  "io_step_info_from sh i =
     \<lparr>iosi_drv_path = drv_path (deref sh (si_step i)), iosi_already_scheduled = already_scheduled i,
      iosi_runnable = runnable (deref sh (si_step i)), iosi_finished = finished (deref sh (si_step i)),
      iosi_cancelled = cancelled i, iosi_runnable_since = si_runnable_since i,
      iosi_tries = tries (atomic_state (deref sh (si_step i))),
      iosi_lowest_share_used = lowest_share_used i,
      iosi_highest_global_priority = get_highest_global_priority sh i,
      iosi_highest_local_priority = get_highest_local_priority sh i,
      iosi_lowest_build_id = get_lowest_build_id sh i\<rparr>"

lemma total_preorder_cmp_flip [cmp_intros]:
  assumes "total_preorder_cmp c"
  shows "total_preorder_cmp (\<lambda>x y. c y x)"
proof -
  have "(\<lambda>x y. c y x) = (\<lambda>x y. reverse_ord (c x y))"
    by (intro ext) (rule total_preorder_cmp.c_swap [OF assms])
  with total_preorder_cmp_reverse [OF assms] show ?thesis by (simp only:)
qed

interpretation legacy: total_preorder_cmp "legacy_compare sh" for sh
  unfolding legacy_compare_def [abs_def] Let_def
  by (intro total_preorder_cmp_reverse total_preorder_cmp_then total_preorder_cmp_key
      total_preorder_cmp_flip [of "\<lambda>x y. total_cmp (lowest_share_used x) (lowest_share_used y)"]
      total_preorder_cmp_flip [of "\<lambda>x y. cmp (get_lowest_build_id sh x) (get_lowest_build_id sh y)"]
      total_preorder_total_cmp_key)

interpretation with_rdeps: total_preorder_cmp "compare_with_rdeps sh" for sh
  unfolding compare_with_rdeps_def [abs_def] Let_def
  by (intro total_preorder_cmp_reverse total_preorder_cmp_then total_preorder_cmp_key
      total_preorder_cmp_flip [of "\<lambda>x y. total_cmp (lowest_share_used x) (lowest_share_used y)"]
      total_preorder_cmp_flip [of "\<lambda>x y. cmp (get_lowest_build_id sh x) (get_lowest_build_id sh y)"]
      total_preorder_total_cmp_key)

lemma compare_raised_global:
  "get_highest_global_priority sh a > get_highest_global_priority sh b \<Longrightarrow>
     legacy_compare sh a b = Less \<and> compare_with_rdeps sh a b = Less"
  by (simp add: legacy_compare_def compare_with_rdeps_def)

end
