(* ===== verification/Models.thy ===== *)
theory Models
  imports Rust_Float Derivation
begin

text \<open>
  The rows the queue runner exchanges with the database (crates/db/src/models.rs): the status
  enumerations with their stored numbers, and the records that the statements of
  crates/db/src/connection.rs take and return. Columns of type \<^verbatim>\<open>integer\<close> and \<^verbatim>\<open>bigint\<close> are
  integers; a nullable column is an option.
\<close>

datatype build_status =
    Success | Failed | DepFailed | Aborted | Cancelled | FailedWithOutput | TimedOut
  | CachedFailure | Unsupported | LogLimitExceeded | NarSizeLimitExceeded | NotDeterministic | Busy

text \<open>The discriminants of the enumeration, which \<^verbatim>\<open>as i32\<close> reads.\<close>

fun build_status_as_i32 :: "build_status \<Rightarrow> int" where
  "build_status_as_i32 Success = 0"
| "build_status_as_i32 Failed = 1"
| "build_status_as_i32 DepFailed = 2"
| "build_status_as_i32 Aborted = 3"
| "build_status_as_i32 Cancelled = 4"
| "build_status_as_i32 FailedWithOutput = 6"
| "build_status_as_i32 TimedOut = 7"
| "build_status_as_i32 CachedFailure = 8"
| "build_status_as_i32 Unsupported = 9"
| "build_status_as_i32 LogLimitExceeded = 10"
| "build_status_as_i32 NarSizeLimitExceeded = 11"
| "build_status_as_i32 NotDeterministic = 12"
| "build_status_as_i32 Busy = 100"

definition build_status_from_i32 :: "int \<Rightarrow> build_status option" where
  "build_status_from_i32 v =
     (if v = 0 then Some Success else if v = 1 then Some Failed else if v = 2 then Some DepFailed
      else if v = 3 then Some Aborted else if v = 4 then Some Cancelled
      else if v = 6 then Some FailedWithOutput else if v = 7 then Some TimedOut
      else if v = 8 then Some CachedFailure else if v = 9 then Some Unsupported
      else if v = 10 then Some LogLimitExceeded else if v = 11 then Some NarSizeLimitExceeded
      else if v = 12 then Some NotDeterministic else if v = 100 then Some Busy else None)"

datatype step_status =
  Preparing | Connecting | SendingInputs | Building | WaitingForLocalSlot | ReceivingOutputs
| PostProcessing

fun step_status_as_i32 :: "step_status \<Rightarrow> int" where
  "step_status_as_i32 Preparing = 1"
| "step_status_as_i32 Connecting = 10"
| "step_status_as_i32 SendingInputs = 20"
| "step_status_as_i32 Building = 30"
| "step_status_as_i32 WaitingForLocalSlot = 35"
| "step_status_as_i32 ReceivingOutputs = 40"
| "step_status_as_i32 PostProcessing = 50"

datatype build_type = Build_Type_Build | Build_Type_Substitution

fun build_type_as_i32 :: "build_type \<Rightarrow> int" where
  "build_type_as_i32 Build_Type_Build = 0"
| "build_type_as_i32 Build_Type_Substitution = 1"

record build_small =
  bs_id :: int
  bs_globalpriority :: int

record db_build =
  db_id :: int
  db_jobset_id :: int
  db_project :: string
  db_jobset :: string
  db_job :: string
  db_drvpath :: string
  db_maxsilent :: "int option"
  db_timeout :: "int option"
  db_timestamp :: int
  db_globalpriority :: int
  db_priority :: int

record update_build =
  ub_status :: build_status
  ub_start_time :: int
  ub_stop_time :: int
  ub_size :: int
  ub_closure_size :: int
  ub_release_name :: "string option"
  ub_is_cached_build :: bool

record insert_build_step =
  is_build_id :: int
  is_step_nr :: int
  is_type :: build_type
  is_drv_path :: string
  is_status :: build_status
  is_busy :: bool
  is_start_time :: "int option"
  is_stop_time :: "int option"
  is_platform :: "string option"
  is_propagated_from :: "int option"
  is_error_msg :: "string option"
  is_machine :: string

record insert_build_step_output =
  io_build_id :: int
  io_step_nr :: int
  io_name :: string
  io_path :: "string option"

record update_build_step =
  us_build_id :: int
  us_step_nr :: int
  us_status :: step_status

record update_build_step_in_finish =
  uf_build_id :: int
  uf_step_nr :: int
  uf_status :: build_status
  uf_error_msg :: "string option"
  uf_start_time :: int
  uf_stop_time :: int
  uf_machine :: "string option"
  uf_overhead :: "int option"
  uf_times_built :: "int option"
  uf_is_non_deterministic :: "bool option"

record insert_build_product =
  ip_build_id :: int
  ip_product_nr :: int
  ip_type :: string
  ip_subtype :: string
  ip_file_size :: "int option"
  ip_sha256hash :: "string option"
  ip_path :: string
  ip_name :: string
  ip_default_path :: string

record insert_build_metric =
  im_build_id :: int
  im_name :: string
  im_unit :: "string option"
  im_value :: rfloat
  im_project :: string
  im_jobset :: string
  im_job :: string
  im_timestamp :: int

record db_build_output =
  dbo_id :: int
  dbo_buildstatus :: "int option"
  dbo_releasename :: "string option"
  dbo_closuresize :: "int option"
  dbo_size :: "int option"

record db_build_product =
  dbp_type :: string
  dbp_subtype :: string
  dbp_filesize :: "int option"
  dbp_sha256hash :: "string option"
  dbp_path :: "string option"
  dbp_name :: string
  dbp_defaultpath :: "string option"

record db_build_metric =
  dbm_name :: string
  dbm_unit :: "string option"
  dbm_value :: rfloat

record mark_build_success_data =
  ms_id :: int
  ms_name :: string
  ms_project_name :: string
  ms_jobset_name :: string
  ms_finished_in_db :: bool
  ms_timestamp :: int
  ms_failed :: bool
  ms_closure_size :: u64
  ms_size :: u64
  ms_release_name :: "string option"
  ms_outputs :: "(string \<times> string) list"
  ms_products :: "db_build_product list"
  ms_metrics :: "db_build_metric list"

text \<open>
  the stored number of a build status determines it: \<^verbatim>\<open>from_i32\<close> reads back exactly the
  numbers \<^verbatim>\<open>as i32\<close> writes, and rejects every other number.
\<close>

theorem build_status_round_trip:
  "build_status_from_i32 v = Some s \<longleftrightarrow> build_status_as_i32 s = v"
  by (cases s) (auto simp: build_status_from_i32_def)

end
