(* ===== verification/Build.thy ===== *)
theory Build
  imports Step_Info Models
begin

text \<open>
  Builds and the results of building (queue-runner/src/state/build.rs, io/build.rs): the build
  object and the propagation of its priorities to the steps below it, the bookkeeping of one
  remote build, the result a builder reports and its conversions, and the registry of builds.

  Lemmas: \<open>propagate_priorities\<close> terminates and raises exactly the steps reachable from the
  toplevel step through dependencies; raising the priority of a registered build does so for that
  build and drops the builds that are gone from the database.
\<close>

definition build_new_debug :: "store_path \<Rightarrow> timestamp \<Rightarrow> jref \<Rightarrow> build" where
  "build_new_debug p now j =
     \<lparr>b_id = I32_MAX, b_drv_path = p, b_outputs = [], b_jobset_id = I32_MAX, b_name = ''debug'',
      b_timestamp = now, b_max_silent_time = I32_MAX, b_timeout = I32_MAX, local_priority = 1000,
      global_priority = 1000, toplevel = None, b_jobset = j, finished_in_db = False\<rparr>"

text \<open>
  \<^verbatim>\<open>jiff::Timestamp::from_second\<close> accepts the seconds of the years -9999 to 9999
  (its documented \<^verbatim>\<open>MIN\<close> and \<^verbatim>\<open>MAX\<close>); \<open>bounds\<close> is that pair of bounds.
\<close>

definition from_second :: "int \<times> int \<Rightarrow> int \<Rightarrow> error + timestamp" where
  "from_second bounds s =
     (if fst bounds \<le> s \<and> s \<le> snd bounds then Inr (s * 1000000000) else Inl Time_Range)"

definition build_new :: "int \<times> int \<Rightarrow> string \<Rightarrow> db_build \<Rightarrow> jref \<Rightarrow> error + build" where
  "build_new bounds nix_dir v j =
     (case from_second bounds (db_timestamp v) of
        Inl e \<Rightarrow> Inl e
      | Inr t \<Rightarrow> Inr
          \<lparr>b_id = db_id v, b_drv_path = store_path_new nix_dir (db_drvpath v), b_outputs = [],
           b_jobset_id = db_jobset_id v, b_name = db_job v, b_timestamp = t,
           b_max_silent_time = (case db_maxsilent v of None \<Rightarrow> 3600 | Some m \<Rightarrow> m),
           b_timeout = (case db_timeout v of None \<Rightarrow> 36000 | Some m \<Rightarrow> m),
           local_priority = db_priority v, global_priority = db_globalpriority v, toplevel = None,
           b_jobset = j, finished_in_db = False\<rparr>)"

definition full_job_name :: "jobset arena \<Rightarrow> build \<Rightarrow> string" where
  "full_job_name jh b =
     (case upgrade jh (b_jobset b) of
        Some j \<Rightarrow> project_name j @ '':'' @ jname j @ '':'' @ b_name b
      | None \<Rightarrow> b_name b)"

definition set_finished_in_db :: "bool \<Rightarrow> build \<Rightarrow> build" where
  "set_finished_in_db v b = b\<lparr>finished_in_db := v\<rparr>"

definition set_toplevel_step :: "sref \<Rightarrow> build \<Rightarrow> build" where
  "set_toplevel_step r b = b\<lparr>toplevel := Some r\<rparr>"

subsection \<open>Propagating priorities\<close>

text \<open>What the loop of \<^verbatim>\<open>propagate_priorities\<close> does to the step it takes from its work list.\<close>

definition raise_step :: "jobset arena \<Rightarrow> build \<Rightarrow> step \<Rightarrow> step" where
  "raise_step jh b s =
     add_jobset jh (b_jobset b)
       (s\<lparr>atomic_state := (atomic_state s)\<lparr>
            highest_global_priority := max (highest_global_priority (atomic_state s)) (global_priority b),
            highest_local_priority := max (highest_local_priority (atomic_state s)) (local_priority b),
            lowest_build_id := min (lowest_build_id (atomic_state s)) (b_id b)\<rparr>\<rparr>)"

lemma raise_step_simps [simp]:
  "drv_path (raise_step jh b s) = drv_path s"
  "deps (sstate (raise_step jh b s)) = deps (sstate s)"
  "rdeps (sstate (raise_step jh b s)) = rdeps (sstate s)"
  "runnable (raise_step jh b s) = runnable s"
  "highest_global_priority (atomic_state (raise_step jh b s)) =
     max (highest_global_priority (atomic_state s)) (global_priority b)"
  "highest_local_priority (atomic_state (raise_step jh b s)) =
     max (highest_local_priority (atomic_state s)) (local_priority b)"
  "lowest_build_id (atomic_state (raise_step jh b s)) = min (lowest_build_id (atomic_state s)) (b_id b)"
  by (simp_all add: raise_step_def add_jobset_def)

lemma add_jobset_idem: "add_jobset jh j (add_jobset jh j s) = add_jobset jh j s"
proof -
  have "(case (upgrade jh j, upgrade jh j) of (Some a, Some b) \<Rightarrow> jobset_eq a b | _ \<Rightarrow> j = j)"
    by (simp add: jobset_eq_def split: option.splits)
  then show ?thesis by (simp add: add_jobset_def)
qed

lemma raise_step_idem: "raise_step jh b (raise_step jh b s) = raise_step jh b s"
proof -
  have swap: "raise_step jh b (add_jobset jh (b_jobset b) s) = add_jobset jh (b_jobset b) (raise_step jh b s)"
    for s by (simp add: raise_step_def add_jobset_def)
  show ?thesis
    unfolding raise_step_def [of jh b s] swap
    by (simp add: raise_step_def add_jobset_idem max.assoc min.assoc)
qed

definition unqueued :: "step arena \<Rightarrow> sref list \<Rightarrow> nat" where
  "unqueued sh queued =
     length (filter (\<lambda>p. p \<notin> step_path sh ` set queued) (None # map (step_path sh) [0..<length sh]))"

lemma step_path_in_range: "step_path sh d \<in> set (None # map (step_path sh) [0..<length sh])"
proof (cases "upgrade sh d")
  case (Some s)
  then show ?thesis using upgrade_bound [OF Some] by auto
qed (simp add: step_path_def)

lemma unqueued_less:
  assumes "d \<in> set ds" and "\<not> step_set_contains sh queued d"
    and "step_path sh ` set queued' = step_path sh ` (set queued \<union> set ds)"
  shows "unqueued sh queued' < unqueued sh queued"
  unfolding unqueued_def
  by (rule length_filter_strict [where a = "step_path sh d"])
    (use assms step_path_in_range in \<open>auto simp: step_set_contains_def\<close>)

lemma step_set_insert_paths:
  "step_path sh ` set (fold (step_set_insert sh) ds queued) = step_path sh ` (set queued \<union> set ds)"
  by (induction ds arbitrary: queued) (auto simp: step_set_insert_def step_set_contains_def)

lemma unqueued_modify:
  "(\<And>s. drv_path (f s) = drv_path s) \<Longrightarrow> unqueued (modify sh a f) = unqueued sh"
  by (rule ext) (simp add: unqueued_def step_path_modify)

function propagate_loop :: "jobset arena \<Rightarrow> build \<Rightarrow> step arena \<Rightarrow> sref list \<Rightarrow> sref list \<Rightarrow> step arena" where
  "propagate_loop jh b sh queued [] = sh"
| "propagate_loop jh b sh queued (w # todo) =
     (case upgrade sh w of
        None \<Rightarrow> propagate_loop jh b sh queued todo
      | Some s \<Rightarrow>
          (let new = get_all_deps_not_queued sh queued s
           in propagate_loop jh b (modify sh w (raise_step jh b))
                (fold (step_set_insert sh) new queued) (todo @ new)))"
  by pat_completeness auto
termination
proof (relation "measures [\<lambda>(_, _, sh, queued, _). unqueued sh queued, \<lambda>(_, _, _, _, todo). length todo]",
    goal_cases)
  case (3 jh b sh queued w todo s new)
  have sh: "unqueued (modify sh w (raise_step jh b)) = unqueued sh"
    by (rule unqueued_modify) simp
  show ?case
  proof (cases "new = []")
    case False
    then obtain d where "d \<in> set new" by (cases new) auto
    moreover from this have "\<not> step_set_contains sh queued d"
      by (simp add: 3(2) get_all_deps_not_queued_def)
    ultimately show ?thesis
      using unqueued_less [OF _ _ step_set_insert_paths] by (simp add: sh)
  qed (simp add: sh)
qed simp_all

definition propagate_priorities :: "jobset arena \<Rightarrow> build \<Rightarrow> step arena \<Rightarrow> step arena" where
  "propagate_priorities jh b sh =
     propagate_loop jh b sh [] (case toplevel b of None \<Rightarrow> [] | Some t \<Rightarrow> [t])"

text \<open>
  The steps a build depends on, through live dependencies. \<open>raised\<close> describes a graph in which
  exactly the steps of a set have been raised.
\<close>

definition depends :: "step arena \<Rightarrow> (sref \<times> sref) set" where
  "depends sh = {(a, d). \<exists>s. upgrade sh a = Some s \<and> d \<in> set (deps (sstate s)) \<and> upgrade sh d \<noteq> None}"

definition raised :: "jobset arena \<Rightarrow> build \<Rightarrow> step arena \<Rightarrow> sref set \<Rightarrow> step arena \<Rightarrow> bool" where
  "raised jh b sh0 P sh \<longleftrightarrow>
     (\<forall>a. upgrade sh a = (if a \<in> P then map_option (raise_step jh b) (upgrade sh0 a) else upgrade sh0 a))"

definition propagate_inv ::
  "step arena \<Rightarrow> sref \<Rightarrow> sref set \<Rightarrow> sref list \<Rightarrow> sref list \<Rightarrow> bool" where
  "propagate_inv sh0 top_step P queued todo \<longleftrightarrow>
     (let live = {a. upgrade sh0 a \<noteq> None}
      in top_step \<in> P \<union> set todo \<and> P \<union> (set todo \<inter> live) \<subseteq> (depends sh0)\<^sup>* `` {top_step} \<and>
         set queued \<inter> live \<subseteq> P \<union> set todo \<and> depends sh0 `` P \<subseteq> P \<union> set todo)"

lemma raised_path: "raised jh b sh0 P sh \<Longrightarrow> step_path sh = step_path sh0"
  by (rule ext) (simp add: raised_def step_path_def option.map_comp comp_def)

lemma raised_live: "raised jh b sh0 P sh \<Longrightarrow> upgrade sh a = None \<longleftrightarrow> upgrade sh0 a = None"
  by (simp add: raised_def)

lemma raised_deps:
  "raised jh b sh0 P sh \<Longrightarrow> upgrade sh a = Some s \<Longrightarrow>
     \<exists>s0. upgrade sh0 a = Some s0 \<and> deps (sstate s) = deps (sstate s0)"
  by (auto simp: raised_def split: if_splits)

lemma raised_step:
  "raised jh b sh0 P sh \<Longrightarrow> raised jh b sh0 (insert w P) (modify sh w (raise_step jh b))"
  by (auto simp: raised_def option.map_comp comp_def raise_step_idem)

lemma propagate_inv_skip:
  assumes "propagate_inv sh0 top_step P queued (w # todo)" "upgrade sh0 w = None" "upgrade sh0 top_step \<noteq> None"
  shows "propagate_inv sh0 top_step P queued todo"
proof -
  have "w \<noteq> top_step" using assms(2,3) by auto
  moreover have "w \<notin> depends sh0 `` P" using assms(2) by (auto simp: depends_def)
  ultimately show ?thesis
    using assms(1,2) by (auto simp: propagate_inv_def Let_def)
qed

lemma propagate_inv_visit:
  assumes inv: "propagate_inv sh0 top_step P queued (w # todo)" and w: "upgrade sh0 w = Some s0"
    and uniq: "unique_paths sh0" and s: "deps (sstate s) = deps (sstate s0)"
    and path: "step_path sh = step_path sh0"
    and new: "new = get_all_deps_not_queued sh queued s"
  shows "propagate_inv sh0 top_step (insert w P) (fold (step_set_insert sh) new queued) (todo @ new)"
proof -
  let ?live = "{a. upgrade sh0 a \<noteq> None}"
  have contains: "step_set_contains sh q d \<longleftrightarrow> d \<in> set q" if d: "upgrade sh0 d \<noteq> None" for d q
  proof -
    from d obtain t where "upgrade sh0 d = Some t" by blast
    from step_set_contains_iff [OF uniq this] show ?thesis
      by (simp add: step_set_contains_def path)
  qed
  have succ: "depends sh0 `` {w} = set (deps (sstate s)) \<inter> ?live"
    using w by (auto simp: depends_def s)
  have new_set: "set new \<inter> ?live = (set (deps (sstate s)) - set queued) \<inter> ?live"
    using contains by (auto simp: new get_all_deps_not_queued_def)
  have queued: "set (fold (step_set_insert sh) ds q) \<subseteq> set q \<union> set ds" for ds q
  proof (induction ds arbitrary: q)
    case (Cons d ds)
    have "set (step_set_insert sh d q) \<subseteq> insert d (set q)" by (auto simp: step_set_insert_def)
    with Cons [of "step_set_insert sh d q"] show ?case by auto
  qed simp
  have reach_w: "(top_step, w) \<in> (depends sh0)\<^sup>*"
    using inv w by (auto simp: propagate_inv_def Let_def)
  have "depends sh0 `` {w} \<subseteq> (depends sh0)\<^sup>* `` {top_step}"
    using reach_w by (auto intro: rtrancl.rtrancl_into_rtrancl)
  then have "set new \<inter> ?live \<subseteq> (depends sh0)\<^sup>* `` {top_step}"
    unfolding succ new_set by blast
  moreover have "depends sh0 `` insert w P \<subseteq> insert w P \<union> set (todo @ new)"
  proof -
    have "depends sh0 `` {w} \<subseteq> (set queued \<inter> ?live) \<union> (set new \<inter> ?live)"
      unfolding succ new_set by blast
    then show ?thesis using inv by (auto simp: propagate_inv_def Let_def)
  qed
  moreover have "set (fold (step_set_insert sh) new queued) \<inter> ?live \<subseteq> insert w P \<union> set (todo @ new)"
    using queued [of new queued] inv by (auto simp: propagate_inv_def Let_def)
  moreover have "top_step \<in> insert w P \<union> set (todo @ new)"
    "insert w P \<union> (set todo \<inter> ?live) \<subseteq> (depends sh0)\<^sup>* `` {top_step}"
    using inv reach_w by (auto simp: propagate_inv_def Let_def)
  ultimately show ?thesis
    unfolding propagate_inv_def Let_def set_append by blast
qed

lemma propagate_loop_spec:
  assumes "unique_paths sh0" and "upgrade sh0 top_step \<noteq> None"
    and "raised jh b sh0 P sh" and "propagate_inv sh0 top_step P queued todo"
  shows "\<exists>P'. raised jh b sh0 P' (propagate_loop jh b sh queued todo) \<and>
           propagate_inv sh0 top_step P' [] []"
  using assms(3,4)
proof (induction jh b sh queued todo arbitrary: P rule: propagate_loop.induct)
  case (1 jh b sh queued)
  then have "propagate_inv sh0 top_step P [] []" by (simp add: propagate_inv_def Let_def)
  with 1 show ?case by auto
next
  case (2 jh b sh queued w todo)
  show ?case
  proof (cases "upgrade sh w")
    case None
    then have "upgrade sh0 w = None" using 2(3) by (simp add: raised_live)
    from propagate_inv_skip [OF 2(4) this assms(2)] None 2(1,3) show ?thesis by simp
  next
    case (Some s)
    then obtain s0 where s0: "upgrade sh0 w = Some s0" "deps (sstate s) = deps (sstate s0)"
      using raised_deps [OF 2(3)] by blast
    let ?new = "get_all_deps_not_queued sh queued s"
    have inv: "propagate_inv sh0 top_step (insert w P) (fold (step_set_insert sh) ?new queued) (todo @ ?new)"
      using propagate_inv_visit [OF 2(4) s0(1) assms(1) s0(2) raised_path [OF 2(3)] refl] .
    from 2(2) [OF Some refl raised_step [OF 2(3)] inv] Some show ?thesis
      by (simp add: Let_def)
  qed
qed

lemma propagate_priorities_raised:
  assumes "unique_paths sh" and "toplevel b = Some t" and "upgrade sh t \<noteq> None"
  shows "raised jh b sh ((depends sh)\<^sup>* `` {t}) (propagate_priorities jh b sh)"
proof -
  have "raised jh b sh {} sh" and "propagate_inv sh t {} [] [t]"
    by (auto simp: raised_def propagate_inv_def)
  from propagate_loop_spec [OF assms(1,3) this] obtain P
    where P: "raised jh b sh P (propagate_loop jh b sh [] [t])" "propagate_inv sh t P [] []"
    by blast
  have "b \<in> P" if "(t, b) \<in> (depends sh)\<^sup>*" for b
    using that by (rule closed_under_rtrancl) (use P(2) in \<open>auto simp: propagate_inv_def Let_def\<close>)
  then have "P = (depends sh)\<^sup>* `` {t}"
    using P(2) by (auto simp: propagate_inv_def Let_def)
  with P(1) assms(2) show ?thesis by (simp add: propagate_priorities_def)
qed

lemma propagate_priorities_none [simp]: "toplevel b = None \<Longrightarrow> propagate_priorities jh b sh = sh"
  by (simp add: propagate_priorities_def)

subsection \<open>Results of building\<close>

datatype build_result_state =
  RSuccess | BuildFailure | PreparingFailure | ImportFailure | UploadFailure
| PostProcessingFailure | RAborted | RCancelled

text \<open>The enumeration of the wire protocol (proto/v1/streaming.proto).\<close>

datatype proto_result_state =
  PBuildFailure | PSuccess | PPreparingFailure | PImportFailure | PUploadFailure | PPostProcessingFailure

fun build_result_state_from :: "proto_result_state \<Rightarrow> build_result_state" where
  "build_result_state_from PBuildFailure = BuildFailure"
| "build_result_state_from PSuccess = RSuccess"
| "build_result_state_from PPreparingFailure = PreparingFailure"
| "build_result_state_from PImportFailure = ImportFailure"
| "build_result_state_from PUploadFailure = UploadFailure"
| "build_result_state_from PPostProcessingFailure = PostProcessingFailure"

record remote_build =
  rb_step_status :: build_status
  can_retry :: bool
  is_cached :: bool
  can_cache :: bool
  error_msg :: "string option"
  times_built :: int
  is_non_deterministic :: bool
  start_time :: "timestamp option"
  stop_time :: "timestamp option"
  overhead :: int
  log_file :: string

definition remote_build_new :: remote_build where
  "remote_build_new =
     \<lparr>rb_step_status = Aborted, can_retry = False, is_cached = False, can_cache = False,
      error_msg = None, times_built = 0, is_non_deterministic = False, start_time = None,
      stop_time = None, overhead = 0, log_file = []\<rparr>"

text \<open>
  \<open>total_ms start stop\<close> is what \<^verbatim>\<open>jiff::Span::total\<close> returns for the difference in milliseconds;
  \<^verbatim>\<open>abs() as u64\<close> truncates and saturates.
\<close>

fun f_abs_to_u64 :: "rfloat \<Rightarrow> u64" where
  "f_abs_to_u64 (NaN _) = 0"
| "f_abs_to_u64 (Inf _) = - 1"
| "f_abs_to_u64 (Fin _ m) = word_of_int (min (2 ^ 64 - 1) \<lfloor>m\<rfloor>)"

definition get_total_step_time_ms ::
  "(timestamp \<Rightarrow> timestamp \<Rightarrow> rfloat option) \<Rightarrow> remote_build \<Rightarrow> u64" where
  "get_total_step_time_ms total_ms r =
     (case (start_time r, stop_time r) of
        (Some a, Some z) \<Rightarrow>
          f_abs_to_u64 (case total_ms a z of None \<Rightarrow> Fin False 0 | Some v \<Rightarrow> v)
      | _ \<Rightarrow> 0)"

fun update_with_result_state :: "build_result_state \<Rightarrow> remote_build \<Rightarrow> remote_build" where
  "update_with_result_state BuildFailure r = r\<lparr>can_retry := False\<rparr>"
| "update_with_result_state RSuccess r = r"
| "update_with_result_state PreparingFailure r = r\<lparr>can_retry := True\<rparr>"
| "update_with_result_state ImportFailure r = r\<lparr>can_retry := True\<rparr>"
| "update_with_result_state UploadFailure r = r\<lparr>can_retry := True\<rparr>"
| "update_with_result_state PostProcessingFailure r = r\<lparr>can_retry := True\<rparr>"
| "update_with_result_state RAborted r = r\<lparr>can_retry := True, rb_step_status := Aborted\<rparr>"
| "update_with_result_state RCancelled r = r\<lparr>can_retry := True, rb_step_status := Cancelled\<rparr>"

definition set_start_and_stop :: "timestamp \<Rightarrow> remote_build \<Rightarrow> remote_build" where
  "set_start_and_stop v r = r\<lparr>start_time := Some v, stop_time := Some v\<rparr>"

definition set_start_time_now :: "timestamp \<Rightarrow> remote_build \<Rightarrow> remote_build" where
  "set_start_time_now now r = r\<lparr>start_time := Some now\<rparr>"

definition set_stop_time_now :: "timestamp \<Rightarrow> remote_build \<Rightarrow> remote_build" where
  "set_stop_time_now now r = r\<lparr>stop_time := Some now\<rparr>"

definition has_start_time :: "remote_build \<Rightarrow> bool" where
  "has_start_time r = (start_time r \<noteq> None)"

definition has_stop_time :: "remote_build \<Rightarrow> bool" where
  "has_stop_time r = (stop_time r \<noteq> None)"

definition get_start_time_as_i32 :: "remote_build \<Rightarrow> int option" where
  "get_start_time_as_i32 r =
     i32_try_from (case start_time r of None \<Rightarrow> 0 | Some t \<Rightarrow> as_second t)"

definition get_stop_time_as_i32 :: "remote_build \<Rightarrow> int option" where
  "get_stop_time_as_i32 r =
     i32_try_from (case stop_time r of None \<Rightarrow> 0 | Some t \<Rightarrow> as_second t)"

definition get_overhead :: "remote_build \<Rightarrow> int option" where
  "get_overhead r = (if overhead r \<noteq> 0 then Some (overhead r) else None)"

definition get_times_built :: "remote_build \<Rightarrow> int option" where
  "get_times_built r = (if times_built r \<noteq> 0 then Some (times_built r) else None)"

definition get_is_non_deterministic :: "remote_build \<Rightarrow> bool option" where
  "get_is_non_deterministic r = (if times_built r \<noteq> 0 then Some (is_non_deterministic r) else None)"

definition set_overhead :: "nat \<Rightarrow> remote_build \<Rightarrow> error + remote_build" where
  "set_overhead v r =
     (case i32_try_from (int v) of None \<Rightarrow> Inl Int_Conversion | Some o1 \<Rightarrow> Inr (r\<lparr>overhead := o1\<rparr>))"

record build_product =
  bp_path :: "store_path option"
  bp_default_path :: "string option"
  bp_type :: string
  bp_subtype :: string
  bp_name :: string
  bp_is_regular :: bool
  bp_sha256hash :: "string option"
  bp_file_size :: "u64 option"

definition build_product_from_db :: "string \<Rightarrow> db_build_product \<Rightarrow> build_product" where
  "build_product_from_db nix_dir v =
     \<lparr>bp_path = map_option (store_path_new nix_dir) (dbp_path v), bp_default_path = dbp_defaultpath v,
      bp_type = dbp_type v, bp_subtype = dbp_subtype v, bp_name = dbp_name v,
      bp_is_regular = (dbp_filesize v \<noteq> None), bp_sha256hash = dbp_sha256hash v,
      bp_file_size = map_option word_of_int (dbp_filesize v)\<rparr>"

text \<open>A product as the wire protocol and \<^verbatim>\<open>shared::BuildProduct\<close> carry it (the same fields).\<close>

record wire_product =
  wp_path :: string
  wp_default_path :: string
  wp_type :: string
  wp_subtype :: string
  wp_name :: string
  wp_is_regular :: bool
  wp_sha256hash :: "string option"
  wp_file_size :: "u64 option"

definition build_product_from_wire :: "string \<Rightarrow> wire_product \<Rightarrow> build_product" where
  "build_product_from_wire nix_dir v =
     \<lparr>bp_path = Some (store_path_new nix_dir (wp_path v)), bp_default_path = Some (wp_default_path v),
      bp_type = wp_type v, bp_subtype = wp_subtype v, bp_name = wp_name v,
      bp_is_regular = wp_is_regular v, bp_sha256hash = wp_sha256hash v,
      bp_file_size = wp_file_size v\<rparr>"

record build_metric =
  bm_name :: string
  bm_unit :: "string option"
  bm_value :: rfloat

definition build_metric_from_db :: "db_build_metric \<Rightarrow> build_metric" where
  "build_metric_from_db v = \<lparr>bm_name = dbm_name v, bm_unit = dbm_unit v, bm_value = dbm_value v\<rparr>"

text \<open>Durations are whole milliseconds here: they are only built by \<^verbatim>\<open>Duration::from_millis\<close>.\<close>

record build_timings =
  import_elapsed :: nat
  build_elapsed :: nat
  upload_elapsed :: nat

definition build_timings_new :: "u64 \<Rightarrow> u64 \<Rightarrow> u64 \<Rightarrow> build_timings" where
  "build_timings_new i b u =
     \<lparr>import_elapsed = unat i, build_elapsed = unat b, upload_elapsed = unat u\<rparr>"

definition timings_get_overhead :: "build_timings \<Rightarrow> nat" where
  "timings_get_overhead t = import_elapsed t + upload_elapsed t"

record build_output =
  bo_failed :: bool
  bo_timings :: build_timings
  bo_release_name :: "string option"
  bo_closure_size :: u64
  bo_size :: u64
  bo_products :: "build_product list"
  bo_outputs :: "(string \<times> store_path) list"
  bo_metrics :: "build_metric list"

definition build_output_from_db :: "db_build_output \<Rightarrow> error + build_output" where
  "build_output_from_db v =
     (case dbo_buildstatus v of
        None \<Rightarrow> Inl (Not_Found ''buildstatus missing'')
      | Some n \<Rightarrow>
          (case build_status_from_i32 n of
             None \<Rightarrow> Inl (Not_Found ''buildstatus did not map'')
           | Some st \<Rightarrow> Inr
               \<lparr>bo_failed = (st \<noteq> Success), bo_timings = build_timings_new 0 0 0,
                bo_release_name = dbo_releasename v,
                bo_closure_size = word_of_int (case dbo_closuresize v of None \<Rightarrow> 0 | Some c \<Rightarrow> c),
                bo_size = word_of_int (case dbo_size v of None \<Rightarrow> 0 | Some c \<Rightarrow> c),
                bo_products = [], bo_outputs = [], bo_metrics = []\<rparr>))"

text \<open>The result message of a builder (\<^verbatim>\<open>BuildResultInfo\<close> of the wire protocol).\<close>

record output_with_path =
  owp_name :: string
  owp_path :: string
  owp_closure_size :: u64
  owp_nar_size :: u64
  owp_nar_hash :: string

datatype wire_output = Nameonly string | Withpath output_with_path

record nix_support =
  ns_failed :: bool
  ns_release_name :: "string option"
  ns_metrics :: "build_metric list"
  ns_products :: "wire_product list"

record build_result_info =
  bri_build_id :: string
  bri_machine_id :: string
  bri_import_time_ms :: u64
  bri_build_time_ms :: u64
  bri_upload_time_ms :: u64
  bri_result_state :: proto_result_state
  bri_nix_support :: "nix_support option"
  bri_outputs :: "wire_output option list"

definition fold_outputs ::
  "string \<Rightarrow> wire_output option list \<Rightarrow> (string \<times> store_path) list \<times> u64 \<times> u64 \<Rightarrow>
   (string \<times> store_path) list \<times> u64 \<times> u64" where
  "fold_outputs nix_dir os start =
     fold (\<lambda>o1 (outs, cs, sz). case o1 of
             Some (Withpath p) \<Rightarrow>
               (hm_insert (owp_name p) (store_path_new nix_dir (owp_path p)) outs,
                cs + owp_closure_size p, sz + owp_nar_size p)
           | _ \<Rightarrow> (outs, cs, sz)) os start"

definition build_output_from_result :: "string \<Rightarrow> build_result_info \<Rightarrow> build_output" where
  "build_output_from_result nix_dir v =
     (let (outs, cs, sz) = fold_outputs nix_dir (bri_outputs v) ([], 0, 0);
          (failed, release_name, products, metrics) =
            (case bri_nix_support v of
               Some n \<Rightarrow> (ns_failed n, ns_release_name n, ns_products n, ns_metrics n)
             | None \<Rightarrow> (False, None, [], []))
      in \<lparr>bo_failed = failed,
          bo_timings = build_timings_new (bri_import_time_ms v) (bri_build_time_ms v) (bri_upload_time_ms v),
          bo_release_name = release_name, bo_closure_size = cs, bo_size = sz,
          bo_products = map (build_product_from_wire nix_dir) products, bo_outputs = outs,
          bo_metrics = metrics\<rparr>)"

text \<open>
  \<^verbatim>\<open>BuildOutput::new\<close> reads the outputs of a step back from the local store: \<open>path_nar_size\<close> is the
  size in the path info of a path (\<open>None\<close> for a path the store does not have), \<open>closure_size\<close> the
  size of its closure, and \<open>parse_nix_support\<close> what reading the support files of the outputs gives.
\<close>

definition build_output_new ::
  "(store_path \<Rightarrow> u64 option) \<Rightarrow> (store_path \<Rightarrow> u64) \<Rightarrow> (drv_output list \<Rightarrow> error + nix_support) \<Rightarrow>
   string \<Rightarrow> drv_output list \<Rightarrow> error + build_output" where
  "build_output_new path_nar_size closure_size parse_nix_support nix_dir os =
     (case parse_nix_support os of
        Inl e \<Rightarrow> Inl e
      | Inr n \<Rightarrow>
          (let (outs, cs, sz) =
             fold (\<lambda>o1 (outs, cs, sz). case out_path o1 of
                     None \<Rightarrow> (outs, cs, sz)
                   | Some p \<Rightarrow>
                       (case path_nar_size p of
                          None \<Rightarrow> (outs, cs, sz)
                        | Some nar \<Rightarrow> (hm_insert (out_name o1) p outs, cs + closure_size p, sz + nar)))
               os ([], 0, 0)
           in Inr \<lparr>bo_failed = ns_failed n, bo_timings = build_timings_new 0 0 0,
                   bo_release_name = ns_release_name n, bo_closure_size = cs, bo_size = sz,
                   bo_products = map (build_product_from_wire nix_dir) (ns_products n),
                   bo_outputs = outs, bo_metrics = ns_metrics n\<rparr>))"

definition mark_product :: "string \<Rightarrow> build_product \<Rightarrow> db_build_product" where
  "mark_product nix_dir v =
     \<lparr>dbp_type = bp_type v, dbp_subtype = bp_subtype v,
      dbp_filesize = (case bp_file_size v of None \<Rightarrow> None | Some n \<Rightarrow> i64_try_from (uint n)),
      dbp_sha256hash = bp_sha256hash v, dbp_path = map_option (print_store_path nix_dir) (bp_path v),
      dbp_name = bp_name v, dbp_defaultpath = bp_default_path v\<rparr>"

definition get_mark_build_sccuess_data ::
  "string \<Rightarrow> jobset arena \<Rightarrow> build \<Rightarrow> build_output \<Rightarrow> mark_build_success_data" where
  "get_mark_build_sccuess_data nix_dir jh b res =
     (let j = (case upgrade jh (b_jobset b) of Some j \<Rightarrow> j | None \<Rightarrow> jobset_new 0 [] [])
      in \<lparr>ms_id = b_id b, ms_name = b_name b, ms_project_name = project_name j,
          ms_jobset_name = jname j, ms_finished_in_db = finished_in_db b,
          ms_timestamp = as_second (b_timestamp b), ms_failed = bo_failed res,
          ms_closure_size = bo_closure_size res, ms_size = bo_size res,
          ms_release_name = bo_release_name res,
          ms_outputs = map (\<lambda>(n, p). (n, print_store_path nix_dir p)) (bo_outputs res),
          ms_products = map (mark_product nix_dir) (bo_products res),
          ms_metrics = map (\<lambda>m. \<lparr>dbm_name = bm_name m, dbm_unit = bm_unit m, dbm_value = bm_value m\<rparr>)
                         (bo_metrics res)\<rparr>)"

subsection \<open>The registry of builds\<close>

type_synonym builds = "(int \<times> bref) list"

text \<open>
  \<^verbatim>\<open>update_priorities\<close>: drop the builds that are no longer queued in the database, then raise the
  priority of the others where the database has a higher one and propagate it.
\<close>

definition update_priority ::
  "jobset arena \<Rightarrow> (int \<times> int) list \<Rightarrow> int \<times> bref \<Rightarrow> build arena \<times> step arena \<Rightarrow> build arena \<times> step arena" where
  "update_priority jh curr_ids = (\<lambda>(i, r) (bh, sh).
     case (hm_get curr_ids i, upgrade bh r) of
       (Some new_priority, Some b) \<Rightarrow>
         if global_priority b < new_priority
         then (let b' = b\<lparr>global_priority := new_priority\<rparr>
               in (modify bh r (\<lambda>_. b'), propagate_priorities jh b' sh))
         else (bh, sh)
     | _ \<Rightarrow> (bh, sh))"

definition update_priorities ::
  "jobset arena \<Rightarrow> (int \<times> int) list \<Rightarrow> builds \<Rightarrow> build arena \<Rightarrow> step arena \<Rightarrow>
   builds \<times> build arena \<times> step arena" where
  "update_priorities jh curr_ids reg bh sh =
     (let reg' = filter (\<lambda>(k, _). hm_get curr_ids k \<noteq> None) reg;
          (bh', sh') = fold (update_priority jh curr_ids) reg' (bh, sh)
      in (reg', bh', sh'))"

definition insert_new_build :: "build arena \<Rightarrow> bref \<Rightarrow> builds \<Rightarrow> builds" where
  "insert_new_build bh r reg =
     (case upgrade bh r of None \<Rightarrow> reg | Some b \<Rightarrow> hm_insert (b_id b) r reg)"

definition remove_by_id :: "int \<Rightarrow> builds \<Rightarrow> builds" where
  "remove_by_id i reg = hm_remove i reg"

record io_build =
  iob_id :: int
  iob_drv_path :: store_path
  iob_jobset_id :: int
  iob_name :: string
  iob_timestamp :: timestamp
  iob_max_silent_time :: int
  iob_timeout :: int
  iob_local_priority :: int
  iob_global_priority :: int
  iob_finished_in_db :: bool

definition io_build_from :: "build \<Rightarrow> io_build" where
  "io_build_from b =
     \<lparr>iob_id = b_id b, iob_drv_path = b_drv_path b, iob_jobset_id = b_jobset_id b, iob_name = b_name b,
      iob_timestamp = b_timestamp b, iob_max_silent_time = b_max_silent_time b, iob_timeout = b_timeout b,
      iob_local_priority = local_priority b, iob_global_priority = global_priority b,
      iob_finished_in_db = finished_in_db b\<rparr>"

definition builds_clone_as_io :: "build arena \<Rightarrow> builds \<Rightarrow> io_build list" where
  "builds_clone_as_io bh reg = List.map_filter (\<lambda>(_, r). map_option io_build_from (upgrade bh r)) reg"

subsection \<open>Priorities never drop\<close>

definition shape :: "step arena \<Rightarrow> sref \<Rightarrow> (store_path \<times> sref list) option" where
  "shape sh a = map_option (\<lambda>s. (drv_path s, deps (sstate s))) (upgrade sh a)"

definition prio_le :: "step arena \<Rightarrow> step arena \<Rightarrow> bool" where
  "prio_le sh sh' \<longleftrightarrow> length sh' = length sh \<and> shape sh' = shape sh \<and>
     (\<forall>a s s'. upgrade sh a = Some s \<longrightarrow> upgrade sh' a = Some s' \<longrightarrow>
        highest_global_priority (atomic_state s) \<le> highest_global_priority (atomic_state s'))"

lemma shape_None_iff: "shape sh a = None \<longleftrightarrow> upgrade sh a = None"
  by (simp add: shape_def)

lemma step_path_shape: "step_path sh a = map_option fst (shape sh a)"
  by (simp add: step_path_def shape_def option.map_comp comp_def)

lemma depends_shape:
  "depends sh = {(a, d). \<exists>p ds. shape sh a = Some (p, ds) \<and> d \<in> set ds \<and> shape sh d \<noteq> None}"
  by (auto simp: depends_def shape_def)

lemma prio_le_refl [simp]: "prio_le sh sh"
  by (simp add: prio_le_def)

lemma prio_le_trans: "prio_le sh sh1 \<Longrightarrow> prio_le sh1 sh2 \<Longrightarrow> prio_le sh sh2"
proof -
  assume le: "prio_le sh sh1" "prio_le sh1 sh2"
  have "highest_global_priority (atomic_state s) \<le> highest_global_priority (atomic_state s2)"
    if "upgrade sh a = Some s" "upgrade sh2 a = Some s2" for a s s2
  proof -
    have "shape sh1 a \<noteq> None" using le(1) that(1) by (simp add: prio_le_def shape_None_iff)
    then obtain s1 where "upgrade sh1 a = Some s1" by (auto simp: shape_None_iff)
    with le that show ?thesis by (meson order_trans prio_le_def)
  qed
  with le show ?thesis by (simp add: prio_le_def)
qed

lemma prio_le_depends: "prio_le sh sh' \<Longrightarrow> depends sh' = depends sh"
  by (simp add: prio_le_def depends_shape)

lemma prio_le_unique: "prio_le sh sh' \<Longrightarrow> unique_paths sh' \<longleftrightarrow> unique_paths sh"
  by (simp add: prio_le_def unique_paths_def step_path_shape flip: shape_None_iff)

lemma length_propagate_loop [simp]: "length (propagate_loop jh b sh queued todo) = length sh"
  by (induction jh b sh queued todo rule: propagate_loop.induct) (auto simp: Let_def split: option.splits)

lemma raised_prio_le:
  assumes "raised jh b sh P sh'" and "length sh' = length sh"
  shows "prio_le sh sh'"
proof -
  have "shape sh' = shape sh"
    using assms(1) by (intro ext) (simp add: raised_def shape_def option.map_comp comp_def)
  with assms show ?thesis by (auto simp: prio_le_def raised_def split: if_splits)
qed

lemma propagate_prio_le:
  assumes "unique_paths sh" and "\<And>t. toplevel b = Some t \<Longrightarrow> upgrade sh t \<noteq> None"
  shows "prio_le sh (propagate_priorities jh b sh)"
proof (cases "toplevel b")
  case (Some t)
  have "length (propagate_priorities jh b sh) = length sh"
    by (simp only: propagate_priorities_def length_propagate_loop)
  with raised_prio_le propagate_priorities_raised [OF assms(1) Some assms(2) [OF Some]] show ?thesis
    by blast
qed simp

text \<open>One entry of the loop: the graph only gains priority, and other builds are left alone.\<close>

definition live_toplevels :: "step arena \<Rightarrow> build arena \<Rightarrow> bool" where
  "live_toplevels sh bh \<longleftrightarrow>
     (\<forall>r b t. upgrade bh r = Some b \<longrightarrow> toplevel b = Some t \<longrightarrow> upgrade sh t \<noteq> None)"

lemma update_priority_cases:
  assumes "update_priority jh cids (i, r) (bh, sh) = (bh', sh')"
  obtains (raise) np b where "hm_get cids i = Some np" "upgrade bh r = Some b" "global_priority b < np"
      "bh' = modify bh r (\<lambda>_. b\<lparr>global_priority := np\<rparr>)"
      "sh' = propagate_priorities jh (b\<lparr>global_priority := np\<rparr>) sh"
  | (keep) "\<And>np b. hm_get cids i = Some np \<Longrightarrow> upgrade bh r = Some b \<Longrightarrow> np \<le> global_priority b"
      "bh' = bh" "sh' = sh"
  using assms
  by (cases "hm_get cids i"; cases "upgrade bh r")
    (auto simp: update_priority_def Let_def not_less split: if_splits)

lemma update_priority_keeps:
  assumes "update_priority jh cids (i, r) (bh, sh) = (bh', sh')"
    and "unique_paths sh" and "live_toplevels sh bh"
  shows "prio_le sh sh' \<and> live_toplevels sh' bh' \<and> (\<forall>q. q \<noteq> r \<longrightarrow> upgrade bh' q = upgrade bh q)"
  using assms(1)
proof (cases rule: update_priority_cases)
  case (raise np b)
  have le: "prio_le sh sh'"
    unfolding raise(5) using assms(2,3) raise(2)
    by (intro propagate_prio_le) (auto simp: live_toplevels_def)
  then have "upgrade sh' t = None \<longleftrightarrow> upgrade sh t = None" for t
    by (simp add: prio_le_def flip: shape_None_iff)
  with assms(3) raise have "live_toplevels sh' bh'"
    by (auto simp: live_toplevels_def split: if_splits)
  with le show ?thesis by (simp add: raise(4))
qed (use assms(3) in auto)

lemma update_priorities_fold:
  assumes "fold (update_priority jh cids) reg (bh, sh) = (bh', sh')"
    and "unique_paths sh" and "live_toplevels sh bh"
  shows "prio_le sh sh' \<and> (\<forall>q. q \<notin> snd ` set reg \<longrightarrow> upgrade bh' q = upgrade bh q)"
  using assms
proof (induction reg arbitrary: bh sh)
  case (Cons e reg)
  obtain i r bh1 sh1 where e: "e = (i, r)" and one: "update_priority jh cids (i, r) (bh, sh) = (bh1, sh1)"
    by (metis surj_pair)
  note k = update_priority_keeps [OF one Cons.prems(2,3)]
  then have "unique_paths sh1" using Cons.prems(2) prio_le_unique by blast
  with Cons.IH [of bh1 sh1] Cons.prems(1) k one e show ?case
    by (auto intro: prio_le_trans)
qed simp

subsection \<open>Properties of builds\<close>

text \<open>
  C20: \<^verbatim>\<open>propagate_priorities\<close> terminates on every graph and changes exactly the steps the toplevel
  step depends on, directly or not: each of them gets the maximum of its priorities and the
  build's, the minimum of its lowest build id and the build's, and the build's jobset; every other
  step keeps its state.
\<close>

theorem propagate_priorities_exact:
  assumes "unique_paths sh" and "toplevel b = Some t" and "upgrade sh t \<noteq> None"
  shows "upgrade (propagate_priorities jh b sh) a =
    (if (t, a) \<in> (depends sh)\<^sup>* then map_option (raise_step jh b) (upgrade sh a) else upgrade sh a)"
  using propagate_priorities_raised [OF assms] by (simp add: raised_def)

definition ex_deps :: "step arena" where
  "ex_deps =
     [Some ((step_new ''a'')\<lparr>sstate := step_state_new\<lparr>deps := [1]\<rparr>\<rparr>),
      Some ((step_new ''b'')\<lparr>sstate := step_state_new\<lparr>deps := [0]\<rparr>\<rparr>), Some (step_new ''c'')]"

definition ex_build :: build where
  "ex_build = (build_new_debug ''a'' 0 0)\<lparr>b_id := 7, global_priority := 5, toplevel := Some 0\<rparr>"

theorem propagate_priorities_exact_witness:
  "upgrade (propagate_priorities [] ex_build ex_deps) 1 = map_option (raise_step [] ex_build) (upgrade ex_deps 1) \<and>
   upgrade (propagate_priorities [] ex_build ex_deps) 2 = upgrade ex_deps 2"
proof -
  have uniq: "unique_paths ex_deps"
    by (simp add: unique_paths_def ex_deps_def upgrade_def step_path_def step_new_def
        less_Suc_eq all_conj_distrib)
  have top: "toplevel ex_build = Some 0" by (simp add: ex_build_def)
  have live: "upgrade ex_deps 0 \<noteq> None" by (simp add: ex_deps_def upgrade_def)
  have dep: "(a, b) \<in> depends ex_deps \<longleftrightarrow> (a, b) = (0, 1) \<or> (a, b) = (1, 0)" for a b
    by (cases "a < 3") (auto simp: depends_def ex_deps_def upgrade_def step_state_new_def step_new_def
        less_Suc_eq numeral_3_eq_3)
  have "(0, 1) \<in> (depends ex_deps)\<^sup>*" using dep by (intro r_into_rtrancl) simp
  moreover have "(0, 2) \<notin> (depends ex_deps)\<^sup>*"
  proof
    assume "(0, 2) \<in> (depends ex_deps)\<^sup>*"
    then have "(2::nat) \<in> {0, 1}" by (rule closed_under_rtrancl) (use dep in auto)
    then show False by simp
  qed
  ultimately show ?thesis
    using propagate_priorities_exact [OF uniq top live, of "[]"] by simp
qed

text \<open>
  \<^verbatim>\<open>update_priorities\<close> keeps exactly the registered builds the database still has queued. A
  kept build ends with the higher of its priority and the database's, no step loses priority, and
  where the database's priority was higher every step below the build now has at least that
  priority.
\<close>

lemma update_priorities_loop:
  assumes "fold (update_priority jh cids) reg (bh, sh) = (bh', sh')"
    and "unique_paths sh" and "live_toplevels sh bh" and "distinct (map snd reg)"
    and "(i, r) \<in> set reg" and "hm_get cids i = Some np" and "upgrade bh r = Some b"
  shows "upgrade bh' r = Some (b\<lparr>global_priority := max (global_priority b) np\<rparr>) \<and>
    (global_priority b < np \<longrightarrow> (\<forall>t a s'. toplevel b = Some t \<longrightarrow> (t, a) \<in> (depends sh)\<^sup>* \<longrightarrow>
       upgrade sh' a = Some s' \<longrightarrow> np \<le> highest_global_priority (atomic_state s')))"
  using assms
proof (induction reg arbitrary: bh sh)
  case (Cons e reg)
  obtain k q bh1 sh1 where e: "e = (k, q)" and one: "update_priority jh cids (k, q) (bh, sh) = (bh1, sh1)"
    by (metis surj_pair)
  have rest: "fold (update_priority jh cids) reg (bh1, sh1) = (bh', sh')"
    using Cons.prems(1) one e by simp
  note keeps = update_priority_keeps [OF one Cons.prems(2,3)]
  have uniq: "unique_paths sh1" using keeps Cons.prems(2) prio_le_unique by blast
  have dep: "depends sh1 = depends sh" using keeps prio_le_depends by blast
  show ?case
  proof (cases "q = r")
    case False
    then have "upgrade bh1 r = Some b" and "(i, r) \<in> set reg"
      using keeps Cons.prems(5,7) e by auto
    with Cons.IH [OF rest uniq] keeps Cons.prems(4,6) dep show ?thesis by auto
  next
    case True
    then have "r \<notin> snd ` set reg" and k: "k = i"
      using Cons.prems(4,5) e by (auto simp: image_iff)
    with update_priorities_fold [OF rest uniq] keeps
    have after: "upgrade bh' r = upgrade bh1 r" and le: "prio_le sh1 sh'" by auto
    from one [unfolded True k] show ?thesis
    proof (cases rule: update_priority_cases)
      case (raise np' b')
      then have eq: "np' = np" "b' = b" using Cons.prems(6,7) by simp_all
      have "np \<le> highest_global_priority (atomic_state s')"
        if "toplevel b = Some t" "(t, a) \<in> (depends sh)\<^sup>*" "upgrade sh' a = Some s'" for t a s'
      proof -
        let ?b = "b\<lparr>global_priority := np\<rparr>"
        have t: "upgrade sh t \<noteq> None"
          using Cons.prems(3,7) that(1) by (simp add: live_toplevels_def)
        have "raised jh ?b sh ((depends sh)\<^sup>* `` {t}) sh1"
          unfolding raise(5) eq using propagate_priorities_raised [OF Cons.prems(2) _ t] that(1) by simp
        then have cell: "upgrade sh1 a = map_option (raise_step jh ?b) (upgrade sh a)"
          using that(2) by (simp add: raised_def)
        have "shape sh1 a \<noteq> None"
          using le that(3) by (metis prio_le_def shape_None_iff option.discI)
        then obtain s1 where s1: "upgrade sh1 a = Some s1" by (auto simp: shape_None_iff)
        have "np \<le> highest_global_priority (atomic_state s1)"
          using cell [unfolded s1] by (cases "upgrade sh a") simp_all
        also have "\<dots> \<le> highest_global_priority (atomic_state s')"
          using le s1 that(3) by (simp add: prio_le_def)
        finally show ?thesis .
      qed
      with raise eq after Cons.prems(7) show ?thesis by auto
    next
      case keep
      with Cons.prems(6,7) after show ?thesis by fastforce
    qed
  qed
qed simp

theorem update_priorities_spec:
  assumes "update_priorities jh cids reg bh sh = (reg', bh', sh')"
    and "unique_paths sh" and "live_toplevels sh bh" and "distinct (map snd reg)"
  shows "(\<forall>i r. (i, r) \<in> set reg' \<longleftrightarrow> (i, r) \<in> set reg \<and> hm_get cids i \<noteq> None) \<and> prio_le sh sh' \<and>
    (\<forall>i r np b. (i, r) \<in> set reg' \<longrightarrow> hm_get cids i = Some np \<longrightarrow> upgrade bh r = Some b \<longrightarrow>
       upgrade bh' r = Some (b\<lparr>global_priority := max (global_priority b) np\<rparr>) \<and>
       (global_priority b < np \<longrightarrow> (\<forall>t a s'. toplevel b = Some t \<longrightarrow> (t, a) \<in> (depends sh)\<^sup>* \<longrightarrow>
          upgrade sh' a = Some s' \<longrightarrow> np \<le> highest_global_priority (atomic_state s'))))"
proof -
  let ?kept = "filter (\<lambda>(k, _). hm_get cids k \<noteq> None) reg"
  have reg': "reg' = ?kept" and loop: "fold (update_priority jh cids) ?kept (bh, sh) = (bh', sh')"
    using assms(1) by (auto simp: update_priorities_def Let_def split: prod.splits)
  have dist: "distinct (map snd ?kept)" using assms(4) by (simp add: distinct_map_filter)
  have "(\<forall>i r. (i, r) \<in> set reg' \<longleftrightarrow> (i, r) \<in> set reg \<and> hm_get cids i \<noteq> None)"
    by (auto simp: reg')
  with update_priorities_fold [OF loop assms(2,3)] update_priorities_loop [OF loop assms(2,3) dist] reg'
  show ?thesis by blast
qed

theorem update_priorities_spec_witness:
  "\<exists>bh' sh'. update_priorities [] [(7, 9)] [(7, 0), (8, 1)] [Some ex_build, Some ex_build] ex_deps =
     ([(7, 0)], bh', sh') \<and> map_option global_priority (upgrade bh' 0) = Some 9"
proof -
  obtain reg' bh' sh' where run:
    "update_priorities [] [(7, 9)] [(7, 0), (8, 1)] [Some ex_build, Some ex_build] ex_deps = (reg', bh', sh')"
    by (metis prod.exhaust)
  have reg': "reg' = [(7, 0)]"
    using run by (auto simp: update_priorities_def Let_def split: prod.splits)
  have uniq: "unique_paths ex_deps"
    by (simp add: unique_paths_def ex_deps_def upgrade_def step_path_def step_new_def
        less_Suc_eq all_conj_distrib)
  have live: "live_toplevels ex_deps [Some ex_build, Some ex_build]"
    by (auto simp: live_toplevels_def upgrade_def ex_build_def ex_deps_def less_Suc_eq split: if_splits)
  have "upgrade [Some ex_build, Some ex_build] 0 = Some ex_build" by (simp add: upgrade_def)
  with update_priorities_spec [OF run uniq live] reg' have "upgrade bh' 0 =
      Some (ex_build\<lparr>global_priority := max (global_priority ex_build) 9\<rparr>)"
    by simp
  then show ?thesis
    using run reg' by (simp add: ex_build_def)
qed

text \<open>
  which results may be retried: after the result of a builder is recorded, a step may be
  retried exactly when the failure was not the build itself (preparing, importing, uploading or
  post-processing failed, or the build was aborted or cancelled), and only an abort or a
  cancellation overwrites the status of the step.
\<close>

theorem update_with_result_state_spec:
  "can_retry (update_with_result_state st r) =
     (if st = RSuccess then can_retry r else st \<noteq> BuildFailure) \<and>
   rb_step_status (update_with_result_state st r) =
     (if st = RAborted then Aborted else if st = RCancelled then Cancelled else rb_step_status r) \<and>
   update_with_result_state st (update_with_result_state st r) = update_with_result_state st r"
  by (cases st) simp_all

end
