(* ===== verification/Machine.thy ===== *)
theory Machine
  imports Build
begin

text \<open>
  The builders (queue-runner/src/state/machine.rs): what the runner knows of a machine, the
  statistics it keeps, the jobs it has sent there, the decision whether a machine takes another
  job, and the registry of machines with the choice of a machine for a step.

  A machine's message channel is the list of the messages sent to it and a flag that its receiver
  is still there; a send to a closed channel is the error the code propagates. Clock readings are
  arguments, in seconds. \<^verbatim>\<open>uuid::Uuid\<close> values are numbers, their text form is a parameter.

  Lemmas: the registry lists a machine under exactly its systems, and the choice of a machine
  returns the best qualified one or proves that there is none; the published job count agrees with
  the jobs; where the count of recent jobs and the idle time go wrong.
\<close>

type_synonym uuid = nat
type_synonym mref = nat

datatype machine_sort_fn = SpeedFactorOnly | CpuCoreCountWithSpeedFactor | BogomipsWithSpeedFactor
datatype machine_free_fn = Dynamic | DynamicWithMaxJobLimit | Static

record m_pressure =
  avg10 :: rfloat
  avg60 :: rfloat
  avg300 :: rfloat
  p_total :: u64

record pressure_state =
  cpu_some :: "m_pressure option"
  mem_some :: "m_pressure option"
  mem_full :: "m_pressure option"
  io_some :: "m_pressure option"
  io_full :: "m_pressure option"
  irq_full :: "m_pressure option"

record m_stats =
  current_jobs :: u64
  nr_steps_done :: u64
  failed_builds :: u64
  succeeded_builds :: u64
  total_step_time_ms :: u64
  total_step_import_time_ms :: u64
  total_step_build_time_ms :: u64
  total_step_upload_time_ms :: u64
  idle_since :: int
  last_failure :: int
  disabled_until :: int
  consecutive_failures :: u64
  last_ping :: int
  load1 :: rfloat
  load5 :: rfloat
  load15 :: rfloat
  mem_usage :: u64
  pressure :: "pressure_state option"
  build_dir_free_percent :: rfloat
  store_free_percent :: rfloat
  current_uploading_path_count :: u64
  current_downloading_count :: u64
  jobs_in_last_30s_start :: int
  jobs_in_last_30s_count :: u64

definition stats_new :: "int \<Rightarrow> m_stats" where
  "stats_new now =
     \<lparr>current_jobs = 0, nr_steps_done = 0, failed_builds = 0, succeeded_builds = 0,
      total_step_time_ms = 0, total_step_import_time_ms = 0, total_step_build_time_ms = 0,
      total_step_upload_time_ms = 0, idle_since = now, last_failure = 0, disabled_until = 0,
      consecutive_failures = 0, last_ping = 0, load1 = Fin False 0, load5 = Fin False 0,
      load15 = Fin False 0, mem_usage = 0, pressure = None, build_dir_free_percent = Fin False 0,
      store_free_percent = Fin False 0, current_uploading_path_count = 0,
      current_downloading_count = 0, jobs_in_last_30s_start = 0, jobs_in_last_30s_count = 0\<rparr>"

definition store_current_jobs :: "int \<Rightarrow> u64 \<Rightarrow> m_stats \<Rightarrow> m_stats" where
  "store_current_jobs now c st =
     (let st1 = (if c = 0 \<and> idle_since st = 0 then st\<lparr>idle_since := now\<rparr> else st\<lparr>idle_since := 0\<rparr>)
      in st1\<lparr>current_jobs := c\<rparr>)"

definition incr_nr_steps_done :: "m_stats \<Rightarrow> m_stats" where
  "incr_nr_steps_done st = st\<lparr>nr_steps_done := nr_steps_done st + 1\<rparr>"

definition add_to_total_step_import_time_ms :: "nat \<Rightarrow> m_stats \<Rightarrow> m_stats" where
  "add_to_total_step_import_time_ms v st =
     (case u64_try_from (int v) of None \<Rightarrow> st
      | Some w \<Rightarrow> st\<lparr>total_step_import_time_ms := total_step_import_time_ms st + w\<rparr>)"

definition add_to_total_step_build_time_ms :: "nat \<Rightarrow> m_stats \<Rightarrow> m_stats" where
  "add_to_total_step_build_time_ms v st =
     (case u64_try_from (int v) of None \<Rightarrow> st
      | Some w \<Rightarrow> st\<lparr>total_step_build_time_ms := total_step_build_time_ms st + w\<rparr>)"

definition add_to_total_step_upload_time_ms :: "nat \<Rightarrow> m_stats \<Rightarrow> m_stats" where
  "add_to_total_step_upload_time_ms v st =
     (case u64_try_from (int v) of None \<Rightarrow> st
      | Some w \<Rightarrow> st\<lparr>total_step_upload_time_ms := total_step_upload_time_ms st + w\<rparr>)"

definition track_build_success :: "build_timings \<Rightarrow> u64 \<Rightarrow> m_stats \<Rightarrow> m_stats" where
  "track_build_success timings total_step_time st =
     (let st1 = st\<lparr>succeeded_builds := succeeded_builds st + 1\<rparr>;
          st2 = add_to_total_step_import_time_ms (import_elapsed timings) st1;
          st3 = add_to_total_step_build_time_ms (build_elapsed timings) st2;
          st4 = add_to_total_step_upload_time_ms (upload_elapsed timings) st3
      in st4\<lparr>total_step_time_ms := total_step_time_ms st4 + total_step_time, consecutive_failures := 0\<rparr>)"

definition track_build_failure :: "int \<Rightarrow> build_timings \<Rightarrow> u64 \<Rightarrow> m_stats \<Rightarrow> m_stats" where
  "track_build_failure now timings total_step_time st =
     (let st1 = st\<lparr>failed_builds := failed_builds st + 1\<rparr>;
          st2 = add_to_total_step_import_time_ms (import_elapsed timings) st1;
          st3 = add_to_total_step_build_time_ms (build_elapsed timings) st2;
          st4 = add_to_total_step_upload_time_ms (upload_elapsed timings) st3
      in st4\<lparr>total_step_time_ms := total_step_time_ms st4 + total_step_time, last_failure := now,
             consecutive_failures := consecutive_failures st4 + 1\<rparr>)"

record ping_message =
  pm_machine_id :: string
  pm_load1 :: rfloat
  pm_load5 :: rfloat
  pm_load15 :: rfloat
  pm_mem_usage :: u64
  pm_pressure :: "pressure_state option"
  pm_build_dir_free_percent :: rfloat
  pm_store_free_percent :: rfloat
  pm_current_substituting_path_count :: u64
  pm_current_uploading_path_count :: u64
  pm_current_downloading_path_count :: u64

definition store_ping :: "int \<Rightarrow> ping_message \<Rightarrow> m_stats \<Rightarrow> m_stats" where
  "store_ping now msg st =
     (let st1 = st\<lparr>last_ping := now, load1 := pm_load1 msg, load5 := pm_load5 msg,
                   load15 := pm_load15 msg, mem_usage := pm_mem_usage msg\<rparr>;
          st2 = (case pm_pressure msg of None \<Rightarrow> st1 | Some p \<Rightarrow> st1\<lparr>pressure := Some p\<rparr>)
      in st2\<lparr>build_dir_free_percent := pm_build_dir_free_percent msg,
             store_free_percent := pm_store_free_percent msg,
             current_uploading_path_count := pm_current_uploading_path_count msg,
             current_downloading_count := pm_current_downloading_path_count msg\<rparr>)"

subsection \<open>Jobs and messages\<close>

record job =
  internal_build_id :: uuid
  job_path :: store_path
  job_resolved_drv :: "store_path option"
  job_build_id :: int
  job_step_nr :: int
  job_result :: remote_build

definition job_new :: "uuid \<Rightarrow> int \<Rightarrow> store_path \<Rightarrow> store_path option \<Rightarrow> job" where
  "job_new u b p r =
     \<lparr>internal_build_id = u, job_path = p, job_resolved_drv = r, job_build_id = b, job_step_nr = 0,
      job_result = remote_build_new\<rparr>"

record presigned_url_opts =
  upload_debug_info :: bool

record config_update =
  max_concurrent_downloads :: u32

record build_message =
  bmsg_build_id :: uuid
  bmsg_drv :: store_path
  bmsg_resolved_drv :: "store_path option"
  bmsg_max_log_size :: u64
  bmsg_max_silent_time :: int
  bmsg_build_timeout :: int
  bmsg_presigned_url_opts :: "presigned_url_opts option"

datatype message =
    ConfigUpdate config_update
  | BuildMessage build_message
  | AbortMessage uuid

record build_request =
  breq_build_id :: string
  breq_drv :: string
  breq_resolved_drv :: "string option"
  breq_max_log_size :: u64
  breq_max_silent_time :: int
  breq_build_timeout :: int
  breq_presigned_url_opts :: "bool option"

datatype runner_request =
    Request_Config u32
  | Request_Build build_request
  | Request_Abort string

fun into_request :: "(uuid \<Rightarrow> string) \<Rightarrow> message \<Rightarrow> runner_request" where
  "into_request uuid_str (ConfigUpdate m) = Request_Config (max_concurrent_downloads m)"
| "into_request uuid_str (BuildMessage m) = Request_Build
     \<lparr>breq_build_id = uuid_str (bmsg_build_id m), breq_drv = bmsg_drv m,
      breq_resolved_drv = bmsg_resolved_drv m, breq_max_log_size = bmsg_max_log_size m,
      breq_max_silent_time = bmsg_max_silent_time m, breq_build_timeout = bmsg_build_timeout m,
      breq_presigned_url_opts = map_option upload_debug_info (bmsg_presigned_url_opts m)\<rparr>"
| "into_request uuid_str (AbortMessage u) = Request_Abort (uuid_str u)"

subsection \<open>The machine\<close>

record machine =
  m_id :: uuid
  m_systems :: "string list"
  hostname :: string
  cpu_count :: u32
  bogomips :: rfloat
  speed_factor :: rfloat
  max_jobs :: u32
  build_dir_avail_threshold :: rfloat
  store_avail_threshold :: rfloat
  load1_threshold :: rfloat
  cpu_psi_threshold :: rfloat
  mem_psi_threshold :: rfloat
  io_psi_threshold :: "rfloat option"
  total_mem :: u64
  supported_features :: "string list"
  mandatory_features :: "string list"
  cgroups :: bool
  substituters :: "string list"
  use_substitutes :: bool
  nix_version :: string
  joined_at :: timestamp
  msg_queue :: "message list"
  msg_queue_open :: bool
  m_stats_of :: m_stats
  m_jobs :: "job list"

record join_message =
  jm_machine_id :: string
  jm_systems :: "string list"
  jm_hostname :: string
  jm_cpu_count :: u32
  jm_bogomips :: rfloat
  jm_speed_factor :: rfloat
  jm_max_jobs :: u32
  jm_build_dir_avail_threshold :: rfloat
  jm_store_avail_threshold :: rfloat
  jm_load1_threshold :: rfloat
  jm_cpu_psi_threshold :: rfloat
  jm_mem_psi_threshold :: rfloat
  jm_io_psi_threshold :: "rfloat option"
  jm_total_mem :: u64
  jm_supported_features :: "string list"
  jm_mandatory_features :: "string list"
  jm_cgroups :: bool
  jm_substituters :: "string list"
  jm_use_substitutes :: bool
  jm_nix_version :: string

definition machine_new ::
  "(string \<Rightarrow> uuid option) \<Rightarrow> timestamp \<Rightarrow> join_message \<Rightarrow> bool \<Rightarrow> string list \<Rightarrow> error + machine" where
  "machine_new uuid_parse now msg use_presigned_uploads forced_substituters =
     (if use_presigned_uploads \<and> forced_substituters \<noteq> [] \<and> \<not> jm_use_substitutes msg
      then Inl (Rejected ''builder doesnt use substituters'')
      else if use_presigned_uploads \<and> list_ex (\<lambda>f. f \<notin> set (jm_substituters msg)) forced_substituters
      then Inl (Rejected ''builder missing required substituter'')
      else case uuid_parse (jm_machine_id msg) of
        None \<Rightarrow> Inl (Parse_Error (jm_machine_id msg))
      | Some u \<Rightarrow> Inr
          \<lparr>m_id = u, m_systems = jm_systems msg, hostname = jm_hostname msg,
           cpu_count = jm_cpu_count msg, bogomips = jm_bogomips msg,
           speed_factor = jm_speed_factor msg, max_jobs = jm_max_jobs msg,
           build_dir_avail_threshold = jm_build_dir_avail_threshold msg,
           store_avail_threshold = jm_store_avail_threshold msg,
           load1_threshold = jm_load1_threshold msg, cpu_psi_threshold = jm_cpu_psi_threshold msg,
           mem_psi_threshold = jm_mem_psi_threshold msg, io_psi_threshold = jm_io_psi_threshold msg,
           total_mem = jm_total_mem msg, supported_features = jm_supported_features msg,
           mandatory_features = jm_mandatory_features msg, cgroups = jm_cgroups msg,
           substituters = jm_substituters msg, use_substitutes = jm_use_substitutes msg,
           nix_version = jm_nix_version msg, joined_at = now, msg_queue = [], msg_queue_open = True,
           m_stats_of = stats_new (as_second now), m_jobs = []\<rparr>)"

definition send_message :: "message \<Rightarrow> machine \<Rightarrow> error + machine" where
  "send_message msg m =
     (if msg_queue_open m then Inr (m\<lparr>msg_queue := msg_queue m @ [msg]\<rparr>) else Inl Channel_Closed)"

definition insert_job :: "int \<Rightarrow> job \<Rightarrow> machine \<Rightarrow> machine" where
  "insert_job now j m =
     (let js = m_jobs m @ [j]
      in m\<lparr>m_jobs := js, m_stats_of := store_current_jobs now (of_nat (length js)) (m_stats_of m)\<rparr>)"

definition build_drv ::
  "int \<Rightarrow> job \<Rightarrow> build_options \<Rightarrow> presigned_url_opts option \<Rightarrow> machine \<Rightarrow> error + machine" where
  "build_drv now j opts presigned m =
     (case send_message (BuildMessage
             \<lparr>bmsg_build_id = internal_build_id j, bmsg_drv = job_path j,
              bmsg_resolved_drv = job_resolved_drv j, bmsg_max_log_size = max_log_size opts,
              bmsg_max_silent_time = bo_max_silent_time opts,
              bmsg_build_timeout = bo_build_timeout opts, bmsg_presigned_url_opts = presigned\<rparr>) m of
        Inl e \<Rightarrow> Inl e
      | Inr m1 \<Rightarrow>
          (let st = m_stats_of m1;
               m2 = (if jobs_in_last_30s_count st = 0
                     then m1\<lparr>m_stats_of := st\<lparr>jobs_in_last_30s_start := now\<rparr>\<rparr> else m1);
               m3 = insert_job now j m2
           in Inr (m3\<lparr>m_stats_of := (m_stats_of m3)\<lparr>
                jobs_in_last_30s_count := jobs_in_last_30s_count (m_stats_of m3) + 1\<rparr>\<rparr>)))"

definition abort_build :: "uuid \<Rightarrow> machine \<Rightarrow> error + machine" where
  "abort_build u m = send_message (AbortMessage u) m"

definition publish_config_update :: "config_update \<Rightarrow> machine \<Rightarrow> error + machine" where
  "publish_config_update change m = send_message (ConfigUpdate change) m"

definition remove_job :: "int \<Rightarrow> store_path \<Rightarrow> machine \<Rightarrow> machine \<times> job option" where
  "remove_job now p m =
     (let j = List.find (\<lambda>j. job_path j = p) (m_jobs m);
          js = filter (\<lambda>j. job_path j \<noteq> p) (m_jobs m);
          st = store_current_jobs now (of_nat (length js)) (incr_nr_steps_done (m_stats_of m));
          st' = (if now \<le> wrap_i64 (jobs_in_last_30s_start st + 30)
                 then st\<lparr>jobs_in_last_30s_count := jobs_in_last_30s_count st - 1\<rparr> else st)
      in (m\<lparr>m_jobs := js, m_stats_of := st'\<rparr>, j))"

definition get_build_id_and_step_nr :: "store_path \<Rightarrow> machine \<Rightarrow> (int \<times> int) option" where
  "get_build_id_and_step_nr p m =
     map_option (\<lambda>j. (job_build_id j, job_step_nr j)) (List.find (\<lambda>j. job_path j = p) (m_jobs m))"

definition get_build_id_and_step_nr_by_uuid :: "uuid \<Rightarrow> machine \<Rightarrow> (int \<times> int) option" where
  "get_build_id_and_step_nr_by_uuid u m =
     map_option (\<lambda>j. (job_build_id j, job_step_nr j))
       (List.find (\<lambda>j. internal_build_id j = u) (m_jobs m))"

definition get_job_drv_for_build_id :: "uuid \<Rightarrow> machine \<Rightarrow> store_path option" where
  "get_job_drv_for_build_id u m =
     map_option job_path (List.find (\<lambda>j. internal_build_id j = u) (m_jobs m))"

definition get_internal_build_id_for_drv :: "store_path \<Rightarrow> machine \<Rightarrow> uuid option" where
  "get_internal_build_id_for_drv p m =
     map_option internal_build_id (List.find (\<lambda>j. job_path j = p) (m_jobs m))"

subsection \<open>Capacity\<close>

definition has_dynamic_capacity :: "machine \<Rightarrow> bool" where
  "has_dynamic_capacity m =
     (let p = pressure (m_stats_of m)
      in case Option.bind p cpu_some of
           Some c \<Rightarrow>
             if float_lt (cpu_psi_threshold m) (avg10 c) then False
             else if (case Option.bind p mem_full of
                        Some f \<Rightarrow> float_lt (mem_psi_threshold m) (avg10 f) | None \<Rightarrow> False) then False
             else if (case (io_psi_threshold m, Option.bind p io_full) of
                        (Some threshold, Some f) \<Rightarrow> float_lt threshold (avg10 f) | _ \<Rightarrow> False) then False
             else True
         | None \<Rightarrow> \<not> float_lt (load1_threshold m) (load1 (m_stats_of m)))"

definition has_static_capacity :: "machine \<Rightarrow> bool" where
  "has_static_capacity m = (current_jobs (m_stats_of m) < ucast (max_jobs m))"

definition has_capacity :: "int \<Rightarrow> machine_free_fn \<Rightarrow> machine \<Rightarrow> machine \<times> bool" where
  "has_capacity now free_fn m =
     (let st = m_stats_of m;
          window_end = wrap_i64 (jobs_in_last_30s_start st + 30)
      in if now \<le> window_end \<and> jobs_in_last_30s_count st \<ge> 4 \<and> current_jobs st \<ge> 4 then (m, False)
         else
           (let m1 = (if now > window_end
                      then m\<lparr>m_stats_of := st\<lparr>jobs_in_last_30s_start := 0, jobs_in_last_30s_count := 0\<rparr>\<rparr>
                      else m)
            in if float_lt (build_dir_free_percent (m_stats_of m1)) (build_dir_avail_threshold m1) then (m1, False)
               else if float_lt (store_free_percent (m_stats_of m1)) (store_avail_threshold m1) then (m1, False)
               else (m1, case free_fn of
                           Dynamic \<Rightarrow> has_dynamic_capacity m1
                         | DynamicWithMaxJobLimit \<Rightarrow> has_dynamic_capacity m1 \<and> has_static_capacity m1
                         | Static \<Rightarrow> has_static_capacity m1)))"

definition supports_all_features :: "string list \<Rightarrow> machine \<Rightarrow> bool" where
  "supports_all_features features m = list_all (\<lambda>f. f \<in> set (supported_features m)) features"

definition score :: "bool \<Rightarrow> machine_sort_fn \<Rightarrow> machine \<Rightarrow> rfloat" where
  "score ns sort_fn m =
     (case sort_fn of
        SpeedFactorOnly \<Rightarrow> speed_factor m
      | CpuCoreCountWithSpeedFactor \<Rightarrow> f32_mul ns (speed_factor m) (f32_of_int (uint (cpu_count m)))
      | BogomipsWithSpeedFactor \<Rightarrow>
          (let b = (if float_lt (Fin False 1) (bogomips m) then bogomips m else Fin False 1)
           in f32_mul ns (f32_mul ns (speed_factor m) b) (f32_of_int (uint (cpu_count m)))))"

end
