(* ===== verification/Machine_Life.thy ===== *)
theory Machine_Life
  imports Machine
begin

text \<open>
  What the runner may rely on about one builder: its job list and the counters published for it,
  over every sequence of the operations of \<^verbatim>\<open>Machine\<close> and \<^verbatim>\<open>Stats\<close>.
\<close>

definition machine_ok :: "machine \<Rightarrow> bool" where
  "machine_ok m \<longleftrightarrow>
     current_jobs (m_stats_of m) = of_nat (length (m_jobs m)) \<and>
     (idle_since (m_stats_of m) \<noteq> 0 \<longrightarrow> current_jobs (m_stats_of m) = 0)"

inductive machine_step :: "machine \<Rightarrow> machine \<Rightarrow> bool" where
  send_build: "build_drv now j opts presigned m = Inr m' \<Longrightarrow> machine_step m m'"
| send_abort: "abort_build u m = Inr m' \<Longrightarrow> machine_step m m'"
| send_config: "publish_config_update c m = Inr m' \<Longrightarrow> machine_step m m'"
| job_done: "remove_job now p m = (m', j) \<Longrightarrow> machine_step m m'"
| asked: "has_capacity now f m = (m', b) \<Longrightarrow> machine_step m m'"
| ping: "machine_step m (m\<lparr>m_stats_of := store_ping now msg (m_stats_of m)\<rparr>)"
| build_ok: "machine_step m (m\<lparr>m_stats_of := track_build_success t d (m_stats_of m)\<rparr>)"
| build_bad: "machine_step m (m\<lparr>m_stats_of := track_build_failure now t d (m_stats_of m)\<rparr>)"
| delivered: "msg_queue m = x # xs \<Longrightarrow> machine_step m (m\<lparr>msg_queue := xs\<rparr>)"
| disconnected: "machine_step m (m\<lparr>msg_queue_open := False\<rparr>)"

inductive_cases machine_stepE: "machine_step m m'"

lemma store_current_jobs_simps [simp]:
  "current_jobs (store_current_jobs now c st) = c"
  "idle_since (store_current_jobs now c st) = (if c = 0 \<and> idle_since st = 0 then now else 0)"
  "jobs_in_last_30s_start (store_current_jobs now c st) = jobs_in_last_30s_start st"
  "jobs_in_last_30s_count (store_current_jobs now c st) = jobs_in_last_30s_count st"
  "nr_steps_done (store_current_jobs now c st) = nr_steps_done st"
  by (simp_all add: store_current_jobs_def)

lemma stats_frame [simp]:
  "current_jobs (store_ping now msg st) = current_jobs st"
  "idle_since (store_ping now msg st) = idle_since st"
  "current_jobs (track_build_success t d st) = current_jobs st"
  "idle_since (track_build_success t d st) = idle_since st"
  "current_jobs (track_build_failure now t d st) = current_jobs st"
  "idle_since (track_build_failure now t d st) = idle_since st"
  by (simp_all add: store_ping_def track_build_success_def track_build_failure_def Let_def
      add_to_total_step_import_time_ms_def add_to_total_step_build_time_ms_def
      add_to_total_step_upload_time_ms_def split: option.splits)

lemma send_message_cases:
  assumes "send_message msg m = Inr m'"
  obtains "msg_queue_open m" "m' = m\<lparr>msg_queue := msg_queue m @ [msg]\<rparr>"
  using assms by (auto simp: send_message_def split: if_splits)

lemma machine_ok_frame:
  "machine_ok m \<Longrightarrow> m_jobs m' = m_jobs m \<Longrightarrow> current_jobs (m_stats_of m') = current_jobs (m_stats_of m) \<Longrightarrow>
   idle_since (m_stats_of m') = idle_since (m_stats_of m) \<Longrightarrow> machine_ok m'"
  unfolding machine_ok_def by metis

lemma send_message_ok: "send_message msg m = Inr m' \<Longrightarrow> machine_ok m \<Longrightarrow> machine_ok m'"
  by (erule send_message_cases) (auto elim!: machine_ok_frame)

lemma machine_ok_insert_job: "machine_ok (insert_job now j m)"
  by (simp add: machine_ok_def insert_job_def Let_def)

lemma build_drv_ok: "build_drv now j opts presigned m = Inr m' \<Longrightarrow> machine_ok m'"
  by (auto simp: build_drv_def Let_def intro: machine_ok_frame [OF machine_ok_insert_job] split: sum.splits if_splits)

lemma remove_job_ok: "remove_job now p m = (m', j) \<Longrightarrow> machine_ok m'"
  by (auto simp: remove_job_def Let_def machine_ok_def split: if_splits)

lemma has_capacity_frame:
  "has_capacity now f m = (m', b) \<Longrightarrow>
     m' = m \<or> m' = m\<lparr>m_stats_of := (m_stats_of m)\<lparr>jobs_in_last_30s_start := 0, jobs_in_last_30s_count := 0\<rparr>\<rparr>"
  by (auto simp: has_capacity_def Let_def split: if_splits)

lemma has_capacity_ok: "has_capacity now f m = (m', b) \<Longrightarrow> machine_ok m \<Longrightarrow> machine_ok m'"
  by (drule has_capacity_frame) (auto elim: machine_ok_frame)

lemma machine_ok_step: "machine_ok m \<Longrightarrow> machine_step m m' \<Longrightarrow> machine_ok m'"
  by (erule machine_stepE)
    (auto simp: abort_build_def publish_config_update_def
      intro: build_drv_ok remove_job_ok send_message_ok has_capacity_ok elim: machine_ok_frame)

lemma machine_ok_new: "machine_new parse now msg up fs = Inr m \<Longrightarrow> machine_ok m"
  by (auto simp: machine_new_def machine_ok_def stats_new_def split: if_splits option.splits)

interpretation machine_life:
  invariant_system "\<lambda>m. \<exists>parse now msg up fs. machine_new parse now msg up fs = Inr m" machine_step machine_ok
  by unfold_locales (auto intro: machine_ok_new machine_ok_step)

subsection \<open>Properties of a builder\<close>

text \<open>
  C23: over every sequence of operations on a builder, the published number of current jobs is the
  number of jobs in its list (modulo the width of the counter), and a builder that is reported
  idle has none.
\<close>

theorem reachable_machine_ok:
  assumes "machine_new parse now msg up fs = Inr m0" and "machine_step\<^sup>*\<^sup>* m0 m"
  shows "current_jobs (m_stats_of m) = of_nat (length (m_jobs m)) \<and>
    (idle_since (m_stats_of m) \<noteq> 0 \<longrightarrow> current_jobs (m_stats_of m) = 0)"
proof -
  have "machine_ok m" using machine_life.inv_reachable [OF _ assms(2)] assms(1) by blast
  then show ?thesis unfolding machine_ok_def .
qed

definition ex_join :: join_message where
  "ex_join =
     \<lparr>jm_machine_id = ''1'', jm_systems = [''x86_64-linux''], jm_hostname = ''b'', jm_cpu_count = 4,
      jm_bogomips = Fin False 1, jm_speed_factor = Fin False 1, jm_max_jobs = 4,
      jm_build_dir_avail_threshold = Fin False 0, jm_store_avail_threshold = Fin False 0,
      jm_load1_threshold = Fin False 8, jm_cpu_psi_threshold = Fin False 75,
      jm_mem_psi_threshold = Fin False 80, jm_io_psi_threshold = None, jm_total_mem = 0,
      jm_supported_features = [], jm_mandatory_features = [], jm_cgroups = True,
      jm_substituters = [], jm_use_substitutes = True, jm_nix_version = ''2''\<rparr>"

definition ex_machine :: machine where
  "ex_machine = (case machine_new (\<lambda>_. Some 1) 0 ex_join False [] of Inr m \<Rightarrow> m)"

lemma ex_machine_new: "machine_new (\<lambda>_. Some 1) 0 ex_join False [] = Inr ex_machine"
  by (simp add: ex_machine_def machine_new_def)

lemma ex_machine_simps:
  "jobs_in_last_30s_count (m_stats_of ex_machine) = 0" "m_jobs ex_machine = []" "msg_queue_open ex_machine"
  by (simp_all add: ex_machine_def machine_new_def stats_new_def)

lemma build_drv_sends:
  "msg_queue_open m \<Longrightarrow> \<exists>m'. build_drv now j opts presigned m = Inr m' \<and> m_jobs m' = m_jobs m @ [j]"
  by (simp add: build_drv_def send_message_def insert_job_def Let_def)

theorem reachable_machine_ok_witness:
  "\<exists>m. machine_step\<^sup>*\<^sup>* ex_machine m \<and> length (m_jobs m) = 1 \<and> current_jobs (m_stats_of m) = 1"
proof -
  let ?j = "job_new 7 1 ''a.drv'' None"
  obtain m where m: "build_drv 5 ?j (build_options_new None) None ex_machine = Inr m"
    and len: "length (m_jobs m) = 1"
    using build_drv_sends [OF ex_machine_simps(3)] ex_machine_simps(2) by fastforce
  have run: "machine_step\<^sup>*\<^sup>* ex_machine m"
    using m by (intro r_into_rtranclp machine_step.send_build)
  from reachable_machine_ok [OF ex_machine_new run] have "current_jobs (m_stats_of m) = 1"
    by (simp add: len)
  with run len show ?thesis by blast
qed

text \<open>
  \<^verbatim>\<open>remove_job\<close> returns the oldest job of the derivation and takes every job of it off the
  builder; the other jobs keep their order, and the number of finished steps goes up by one.
\<close>

theorem remove_job_exact:
  assumes "remove_job now p m = (m', j)"
  shows "m_jobs m' = filter (\<lambda>k. job_path k \<noteq> p) (m_jobs m) \<and>
    (case j of
       None \<Rightarrow> m_jobs m' = m_jobs m
     | Some k \<Rightarrow> job_path k = p \<and> (\<exists>ps qs. m_jobs m = ps @ k # qs \<and> (\<forall>i \<in> set ps. job_path i \<noteq> p))) \<and>
    nr_steps_done (m_stats_of m') = nr_steps_done (m_stats_of m) + 1 \<and>
    current_jobs (m_stats_of m') = of_nat (length (m_jobs m')) \<and> m_id m' = m_id m"
proof -
  have j: "j = List.find (\<lambda>k. job_path k = p) (m_jobs m)"
    and jobs: "m_jobs m' = filter (\<lambda>k. job_path k \<noteq> p) (m_jobs m)"
    and rest: "nr_steps_done (m_stats_of m') = nr_steps_done (m_stats_of m) + 1"
      "current_jobs (m_stats_of m') = of_nat (length (m_jobs m'))" "m_id m' = m_id m"
    using assms by (auto simp: remove_job_def Let_def incr_nr_steps_done_def)
  have "case j of None \<Rightarrow> m_jobs m' = m_jobs m
     | Some k \<Rightarrow> job_path k = p \<and> (\<exists>ps qs. m_jobs m = ps @ k # qs \<and> (\<forall>i \<in> set ps. job_path i \<noteq> p))"
  proof (cases j)
    case None
    have "\<forall>k \<in> set (m_jobs m). job_path k \<noteq> p" using find_none [OF j [symmetric, unfolded None]] by blast
    with None jobs show ?thesis by (simp add: filter_id_conv)
  next
    case (Some k)
    with find_first [OF j [symmetric, unfolded Some]] show ?thesis by simp
  qed
  with jobs rest show ?thesis by blast
qed

theorem remove_job_exact_witness:
  "m_jobs (fst (remove_job 9 ''a.drv'' (insert_job 5 (job_new 7 1 ''a.drv'' None) ex_machine))) = []"
proof -
  let ?m = "insert_job 5 (job_new 7 1 ''a.drv'' None) ex_machine"
  have "m_jobs ?m = [job_new 7 1 ''a.drv'' None]"
    by (simp add: insert_job_def Let_def ex_machine_def machine_new_def)
  with remove_job_exact [of 9 "''a.drv''" ?m] show ?thesis
    by (cases "remove_job 9 ''a.drv'' ?m") (simp add: job_new_def)
qed

text \<open>
  \<^verbatim>\<open>build_drv\<close> fails exactly when the builder's channel is closed, and then nothing changes
  (no value is returned). Otherwise the build message for the job is the last one queued, the job
  is the last one of the list, and the count of recent jobs goes up by one, its window starting now
  if it was empty.
\<close>

theorem build_drv_spec:
  "case build_drv now j opts presigned m of
     Inl e \<Rightarrow> \<not> msg_queue_open m \<and> e = Channel_Closed
   | Inr m' \<Rightarrow> msg_queue_open m \<and> m_jobs m' = m_jobs m @ [j] \<and>
       (\<exists>b. msg_queue m' = msg_queue m @ [BuildMessage b] \<and> bmsg_build_id b = internal_build_id j \<and>
            bmsg_drv b = job_path j \<and> bmsg_max_silent_time b = bo_max_silent_time opts \<and>
            bmsg_build_timeout b = bo_build_timeout opts) \<and>
       jobs_in_last_30s_count (m_stats_of m') = jobs_in_last_30s_count (m_stats_of m) + 1 \<and>
       jobs_in_last_30s_start (m_stats_of m') =
         (if jobs_in_last_30s_count (m_stats_of m) = 0 then now else jobs_in_last_30s_start (m_stats_of m))"
  by (simp add: build_drv_def send_message_def insert_job_def Let_def)

text \<open>
  the count of jobs sent in the last 30 seconds can wrap around: a job that outlives its window
  still subtracts one when it ends inside the window of a later job. With two jobs the count is
  the largest 64-bit number while the builder has no job at all, and the limit on new jobs then
  applies to a builder that was sent none.
\<close>

theorem recent_jobs_count_wraps:
  "\<exists>m. machine_step\<^sup>*\<^sup>* ex_machine m \<and> m_jobs m = [] \<and> jobs_in_last_30s_count (m_stats_of m) = 2 ^ 64 - 1"
proof -
  let ?a = "job_new 7 1 ''a.drv'' None" and ?b = "job_new 8 2 ''b.drv'' None"
  let ?o = "build_options_new None"
  note ops = build_drv_def send_message_def insert_job_def remove_job_def has_capacity_def Let_def
    store_current_jobs_def incr_nr_steps_done_def job_new_def
  define m1 where "m1 = projr (build_drv 1000 ?a ?o None ex_machine)"
  define m2 where "m2 = fst (has_capacity 1040 Static m1)"
  define m3 where "m3 = projr (build_drv 1041 ?b ?o None m2)"
  define m4 where "m4 = fst (remove_job 1042 ''a.drv'' m3)"
  define m5 where "m5 = fst (remove_job 1043 ''b.drv'' m4)"
  note new = ex_machine_simps
  have s1: "build_drv 1000 ?a ?o None ex_machine = Inr m1"
    and f1: "jobs_in_last_30s_start (m_stats_of m1) = 1000" "m_jobs m1 = [?a]" "msg_queue_open m1"
      "current_jobs (m_stats_of m1) = 1"
    using new by (simp_all add: m1_def ops)
  have f2: "jobs_in_last_30s_count (m_stats_of m2) = 0" "m_jobs m2 = [?a]" "msg_queue_open m2"
    using f1 by (auto simp: m2_def ops wrap_i64_def)
  have s3: "build_drv 1041 ?b ?o None m2 = Inr m3"
    and f3: "jobs_in_last_30s_start (m_stats_of m3) = 1041" "m_jobs m3 = [?a, ?b]"
      "jobs_in_last_30s_count (m_stats_of m3) = 1"
    using f2 by (simp_all add: m3_def ops)
  have f4: "jobs_in_last_30s_start (m_stats_of m4) = 1041" "m_jobs m4 = [?b]"
      "jobs_in_last_30s_count (m_stats_of m4) = 0"
    using f3 by (simp_all add: m4_def ops wrap_i64_def)
  have f5: "m_jobs m5 = []" "jobs_in_last_30s_count (m_stats_of m5) = - 1"
    using f4 by (simp_all add: m5_def ops wrap_i64_def)
  have steps: "machine_step ex_machine m1" "machine_step m1 m2" "machine_step m2 m3"
    "machine_step m3 m4" "machine_step m4 m5"
    by (rule machine_step.send_build [OF s1], unfold m2_def m4_def m5_def)
      (rule machine_step.asked, rule prod.collapse [symmetric],
       rule machine_step.send_build [OF s3 [unfolded m2_def]],
       (rule machine_step.job_done, rule prod.collapse [symmetric])+)
  from steps have "machine_step\<^sup>*\<^sup>* ex_machine m5"
    by (meson converse_rtranclp_into_rtranclp rtranclp.rtrancl_refl)
  moreover have "(2 ^ 64 - 1 :: u64) = - 1" by simp
  ultimately show ?thesis using f5 by metis
qed

end
