(* ===== verification/Machines.thy ===== *)
theory Machines
  imports Machine_Life
begin

text \<open>
  The registry of builders (\<^verbatim>\<open>Machines\<close> of queue-runner/src/state/machine.rs): machines by id and, in
  order of preference, by system; registration, removal, and the choice of a machine for a step.
  A registered machine is a shared object, so the registry holds addresses.
\<close>

record machines =
  by_uuid :: "(uuid \<times> mref) list"
  by_system :: "(string \<times> mref list) list"
  ms_supported_features :: "string list"

definition machines_new :: machines where
  "machines_new = \<lparr>by_uuid = [], by_system = [], ms_supported_features = []\<rparr>"

definition machine_cmp :: "bool \<Rightarrow> machine_sort_fn \<Rightarrow> machine \<Rightarrow> machine \<Rightarrow> ordering" where
  "machine_cmp ns sort_fn a b =
     (let r = reverse_ord (total_cmp (score ns sort_fn a) (score ns sort_fn b))
      in if r = Equal then cmp (current_jobs (m_stats_of a)) (current_jobs (m_stats_of b)) else r)"

text \<open>
  The vectors of \<open>by_system\<close> hold strong pointers; a comparison of two of them reads both machines.
\<close>

definition mref_cmp :: "bool \<Rightarrow> machine_sort_fn \<Rightarrow> machine arena \<Rightarrow> mref \<Rightarrow> mref \<Rightarrow> ordering" where
  "mref_cmp ns sort_fn mh a b =
     (case (upgrade mh a, upgrade mh b) of
        (Some x, Some y) \<Rightarrow> machine_cmp ns sort_fn x y
      | _ \<Rightarrow> cmp (upgrade mh a = None) (upgrade mh b = None))"

definition machines_sort :: "bool \<Rightarrow> machine_sort_fn \<Rightarrow> machine arena \<Rightarrow> machines \<Rightarrow> machines" where
  "machines_sort ns sort_fn mh ms =
     ms\<lparr>by_system := map (\<lambda>(s, v). (s, sort_by (mref_cmp ns sort_fn mh) v)) (by_system ms)\<rparr>"

definition reconstruct_supported_features :: "machine arena \<Rightarrow> machines \<Rightarrow> machines" where
  "reconstruct_supported_features mh ms =
     ms\<lparr>ms_supported_features :=
        remdups (concat (map (\<lambda>(_, r). case upgrade mh r of None \<Rightarrow> [] | Some m \<Rightarrow> supported_features m)
          (by_uuid ms)))\<rparr>"

text \<open>\<^verbatim>\<open>entry(system).or_default()\<close> followed by a push.\<close>

definition push_system :: "mref \<Rightarrow> string \<Rightarrow> (string \<times> mref list) list \<Rightarrow> (string \<times> mref list) list" where
  "push_system r system m =
     hm_insert system ((case hm_get m system of None \<Rightarrow> [] | Some v \<Rightarrow> v) @ [r]) m"

definition insert_machine ::
  "bool \<Rightarrow> machine_sort_fn \<Rightarrow> machine \<Rightarrow> machine arena \<Rightarrow> machines \<Rightarrow> machine arena \<times> machines \<times> mref" where
  "insert_machine ns sort_fn m mh ms =
     (let (mh', r) = alloc mh m;
          ms1 = ms\<lparr>by_uuid := hm_insert (m_id m) r (by_uuid ms),
                   by_system := fold (push_system r) (m_systems m) (by_system ms)\<rparr>
      in (mh', reconstruct_supported_features mh' (machines_sort ns sort_fn mh' ms1), r))"

definition drop_system ::
  "machine arena \<Rightarrow> uuid \<Rightarrow> string \<Rightarrow> (string \<times> mref list) list \<Rightarrow> (string \<times> mref list) list" where
  "drop_system mh machine_id system m =
     (case hm_get m system of
        None \<Rightarrow> m
      | Some v \<Rightarrow> hm_insert system
          (filter (\<lambda>r. map_option m_id (upgrade mh r) \<noteq> Some machine_id) v) m)"

definition remove_machine :: "machine arena \<Rightarrow> uuid \<Rightarrow> machines \<Rightarrow> machines \<times> mref option" where
  "remove_machine mh machine_id ms =
     (let (ms1, r) =
        (case hm_get (by_uuid ms) machine_id of
           None \<Rightarrow> (ms, None)
         | Some r \<Rightarrow>
             (let ss = (case upgrade mh r of None \<Rightarrow> [] | Some m \<Rightarrow> m_systems m)
              in (ms\<lparr>by_uuid := hm_remove machine_id (by_uuid ms),
                     by_system := fold (drop_system mh machine_id) ss (by_system ms)\<rparr>, Some r)))
      in (reconstruct_supported_features mh ms1, r))"

definition get_machine_by_id :: "uuid \<Rightarrow> machines \<Rightarrow> mref option" where
  "get_machine_by_id u ms = hm_get (by_uuid ms) u"

text \<open>
  The predicate of the search is not pure: asking a machine for its capacity may reset its count of
  recent jobs, so the search threads the memory of machines.
\<close>

definition features_match :: "string list \<Rightarrow> machine \<Rightarrow> bool" where
  "features_match required m \<longleftrightarrow>
     list_all (\<lambda>s. s \<in> set required) (mandatory_features m) \<and> supports_all_features required m"

fun find_machine ::
  "(mref \<Rightarrow> int) \<Rightarrow> machine_free_fn option \<Rightarrow> string list \<Rightarrow> mref list \<Rightarrow> machine arena \<Rightarrow>
   machine arena \<times> mref option" where
  "find_machine clock free_fn required [] mh = (mh, None)"
| "find_machine clock free_fn required (r # rs) mh =
     (case upgrade mh r of
        None \<Rightarrow> find_machine clock free_fn required rs mh
      | Some m \<Rightarrow>
          (let (m', cap) = (case free_fn of None \<Rightarrow> (m, True) | Some f \<Rightarrow> has_capacity (clock r) f m);
               mh' = modify mh r (\<lambda>_. m')
           in if cap \<and> features_match required m then (mh', Some r)
              else find_machine clock free_fn required rs mh'))"

definition get_machine_for_system ::
  "(mref \<Rightarrow> int) \<Rightarrow> string \<Rightarrow> string list \<Rightarrow> machine_free_fn option \<Rightarrow> machines \<Rightarrow> machine arena \<Rightarrow>
   machine arena \<times> mref option" where
  "get_machine_for_system clock system required free_fn ms mh =
     (if system = ''builtin'' then find_machine clock free_fn required (map snd (by_uuid ms)) mh
      else case hm_get (by_system ms) system of
             None \<Rightarrow> (mh, None)
           | Some v \<Rightarrow> find_machine clock free_fn required v mh)"

definition support_step :: "(mref \<Rightarrow> int) \<Rightarrow> step \<Rightarrow> machines \<Rightarrow> machine arena \<Rightarrow> bool" where
  "support_step clock s ms mh =
     (case get_system s of
        None \<Rightarrow> False
      | Some system \<Rightarrow>
          snd (get_machine_for_system clock system (get_required_features s) None ms mh) \<noteq> None)"

definition get_all_machines :: "machines \<Rightarrow> mref list" where
  "get_all_machines ms = map snd (by_uuid ms)"

definition get_machine_count :: "machines \<Rightarrow> nat" where
  "get_machine_count ms = length (by_uuid ms)"

definition get_machine_count_in_use :: "machine arena \<Rightarrow> machines \<Rightarrow> nat" where
  "get_machine_count_in_use mh ms =
     length (filter (\<lambda>(_, r). case upgrade mh r of None \<Rightarrow> False
                              | Some m \<Rightarrow> current_jobs (m_stats_of m) > 0) (by_uuid ms))"

text \<open>A machine that cannot be reached keeps its queue; the error is dropped.\<close>

definition publish_new_config :: "config_update \<Rightarrow> machines \<Rightarrow> machine arena \<Rightarrow> machine arena" where
  "publish_new_config cfg ms mh =
     fold (\<lambda>r mh. modify mh r (\<lambda>m. case publish_config_update cfg m of Inl _ \<Rightarrow> m | Inr m' \<Rightarrow> m'))
       (get_all_machines ms) mh"

subsection \<open>The order of machines\<close>

interpretation machine_order: total_preorder_cmp "machine_cmp ns sort_fn" for ns sort_fn
proof -
  have eq: "machine_cmp ns sort_fn = (\<lambda>a b.
      if reverse_ord (total_cmp (score ns sort_fn a) (score ns sort_fn b)) \<noteq> Equal
      then reverse_ord (total_cmp (score ns sort_fn a) (score ns sort_fn b))
      else cmp (current_jobs (m_stats_of a)) (current_jobs (m_stats_of b)))"
    by (intro ext) (simp add: machine_cmp_def Let_def)
  show "total_preorder_cmp (machine_cmp ns sort_fn)"
    unfolding eq
    by (intro total_preorder_cmp_then total_preorder_cmp_reverse total_preorder_total_cmp_key
        total_preorder_cmp_key)
qed

interpretation mref_order: total_preorder_cmp "mref_cmp ns sort_fn mh" for ns sort_fn mh
proof
  fix x y z
  show "mref_cmp ns sort_fn mh y x = reverse_ord (mref_cmp ns sort_fn mh x y)"
    by (cases "upgrade mh x"; cases "upgrade mh y") (simp_all add: mref_cmp_def, rule machine_order.c_swap)
  assume "mref_cmp ns sort_fn mh x y \<noteq> Greater" and "mref_cmp ns sort_fn mh y z \<noteq> Greater"
  then show "mref_cmp ns sort_fn mh x z \<noteq> Greater"
    by (cases "upgrade mh x"; cases "upgrade mh y"; cases "upgrade mh z")
      (auto simp: mref_cmp_def dest: machine_order.c_trans)
qed

subsection \<open>The registry lists a machine under its systems\<close>

definition sys_list :: "(string \<times> mref list) list \<Rightarrow> string \<Rightarrow> mref list" where
  "sys_list m s = (case hm_get m s of None \<Rightarrow> [] | Some v \<Rightarrow> v)"

definition machines_ok :: "machine arena \<Rightarrow> machines \<Rightarrow> bool" where
  "machines_ok mh ms \<longleftrightarrow> hm_wf (by_uuid ms) \<and>
     (\<forall>u r. hm_get (by_uuid ms) u = Some r \<longrightarrow> map_option m_id (upgrade mh r) = Some u) \<and>
     (\<forall>s r. r \<in> set (sys_list (by_system ms) s) \<longleftrightarrow>
        (\<exists>m. upgrade mh r = Some m \<and> hm_get (by_uuid ms) (m_id m) = Some r \<and> s \<in> set (m_systems m))) \<and>
     (\<forall>f. f \<in> set (ms_supported_features ms) \<longleftrightarrow>
        (\<exists>u r m. hm_get (by_uuid ms) u = Some r \<and> upgrade mh r = Some m \<and> f \<in> set (supported_features m)))"

lemma sys_list_push:
  "set (sys_list (fold (push_system r) ts m) s) = set (sys_list m s) \<union> (if s \<in> set ts then {r} else {})"
proof (induction ts arbitrary: m)
  case (Cons t ts)
  have "set (sys_list (push_system r t m) s) = set (sys_list m s) \<union> (if s = t then {r} else {})"
    by (auto simp: sys_list_def push_system_def update_conv split: option.splits)
  with Cons [of "push_system r t m"] show ?case by auto
qed simp

lemma sys_list_drop:
  "set (sys_list (fold (drop_system mh u) ts m) s) =
     {r \<in> set (sys_list m s). s \<in> set ts \<longrightarrow> map_option m_id (upgrade mh r) \<noteq> Some u}"
proof (induction ts arbitrary: m)
  case (Cons t ts)
  have "set (sys_list (drop_system mh u t m) s) =
      {r \<in> set (sys_list m s). s = t \<longrightarrow> map_option m_id (upgrade mh r) \<noteq> Some u}"
    by (auto simp: sys_list_def drop_system_def update_conv split: option.splits)
  with Cons [of "drop_system mh u t m"] show ?case by auto
qed simp

lemma sys_list_sort:
  "sys_list (map (\<lambda>(s, v). (s, sort_by c v)) m) s = sort_by c (sys_list m s)"
  by (induction m) (auto simp: sys_list_def)

lemma features_spec:
  "hm_wf (by_uuid ms) \<Longrightarrow> f \<in> set (ms_supported_features (reconstruct_supported_features mh ms)) \<longleftrightarrow>
     (\<exists>u r m. hm_get (by_uuid ms) u = Some r \<and> upgrade mh r = Some m \<and> f \<in> set (supported_features m))"
  by (force simp: reconstruct_supported_features_def hm_get_in [symmetric] split: option.splits)

lemma reconstruct_simps [simp]:
  "by_uuid (reconstruct_supported_features mh ms) = by_uuid ms"
  "by_system (reconstruct_supported_features mh ms) = by_system ms"
  "by_uuid (machines_sort ns sf mh ms) = by_uuid ms"
  "sys_list (by_system (machines_sort ns sf mh ms)) s = sort_by (mref_cmp ns sf mh) (sys_list (by_system ms) s)"
  by (simp_all add: reconstruct_supported_features_def machines_sort_def sys_list_sort)

lemma machines_ok_insert:
  assumes ok: "machines_ok mh ms" and new: "hm_get (by_uuid ms) (m_id m) = None"
    and ins: "insert_machine ns sf m mh ms = (mh', ms', r)"
  shows "machines_ok mh' ms'"
proof -
  obtain ms1 where al: "alloc mh m = (mh', r)"
    and ms1: "ms1 = ms\<lparr>by_uuid := hm_insert (m_id m) r (by_uuid ms),
                   by_system := fold (push_system r) (m_systems m) (by_system ms)\<rparr>"
    and ms': "ms' = reconstruct_supported_features mh' (machines_sort ns sf mh' ms1)"
    using ins by (auto simp: insert_machine_def Let_def split: prod.splits)
  have cell: "upgrade mh' a = (if a = r then Some m else upgrade mh a)" for a
    by (rule arena.get_new [OF al])
  have fresh: "upgrade mh r = None" by (rule arena.new_fresh [OF al])
  have live: "map_option m_id (upgrade mh q) = Some u" if "hm_get (by_uuid ms) u = Some q" for u q
    using ok that by (simp add: machines_ok_def)
  have uuid: "by_uuid ms' = hm_insert (m_id m) r (by_uuid ms)"
    and sys: "set (sys_list (by_system ms') s) =
      set (sys_list (by_system ms) s) \<union> (if s \<in> set (m_systems m) then {r} else {})" for s
    by (simp_all add: ms' ms1 sys_list_push)
  have get: "hm_get (by_uuid ms') v = Some q \<longleftrightarrow> (if q = r then v = m_id m else hm_get (by_uuid ms) v = Some q)" for v q
    using live [of v q] fresh new by (auto simp: uuid update_conv)
  have wf: "hm_wf (by_uuid ms')" using ok by (simp add: uuid machines_ok_def)
  have ids: "map_option m_id (upgrade mh' q) = Some u" if "hm_get (by_uuid ms') u = Some q" for u q
    using that live [of u q] fresh by (auto simp: uuid cell update_conv split: if_splits)
  have listed: "q \<in> set (sys_list (by_system ms) s) \<longleftrightarrow>
      (\<exists>x. upgrade mh q = Some x \<and> hm_get (by_uuid ms) (m_id x) = Some q \<and> s \<in> set (m_systems x))" for q s
    using ok by (simp add: machines_ok_def)
  have "q \<in> set (sys_list (by_system ms') s) \<longleftrightarrow>
      (\<exists>x. upgrade mh' q = Some x \<and> hm_get (by_uuid ms') (m_id x) = Some q \<and> s \<in> set (m_systems x))" for q s
    using fresh listed [of q s] by (auto simp: sys cell get split: if_splits)
  moreover have "f \<in> set (ms_supported_features ms') \<longleftrightarrow>
      (\<exists>u q x. hm_get (by_uuid ms') u = Some q \<and> upgrade mh' q = Some x \<and> f \<in> set (supported_features x))" for f
    using features_spec [of "machines_sort ns sf mh' ms1" f mh'] wf by (simp add: ms')
  ultimately show ?thesis using wf ids by (simp add: machines_ok_def)
qed

lemma machines_ok_remove:
  assumes ok: "machines_ok mh ms" and rem: "remove_machine mh u ms = (ms', res)"
  shows "machines_ok mh ms'"
proof (cases "hm_get (by_uuid ms) u")
  case None
  then have ms': "ms' = reconstruct_supported_features mh ms" using rem by (simp add: remove_machine_def)
  have "hm_wf (by_uuid ms)" using ok by (simp add: machines_ok_def)
  from ok features_spec [OF this] show ?thesis by (simp add: machines_ok_def ms')
next
  case (Some r)
  then obtain m where m: "upgrade mh r = Some m" "m_id m = u" using ok by (auto simp: machines_ok_def)
  have feat: "ms' = reconstruct_supported_features mh (ms\<lparr>by_uuid := hm_remove u (by_uuid ms),
                     by_system := fold (drop_system mh u) (m_systems m) (by_system ms)\<rparr>)"
    using rem Some m by (auto simp: remove_machine_def)
  have uuid: "by_uuid ms' = hm_remove u (by_uuid ms)"
    and sys: "set (sys_list (by_system ms') s) = {q \<in> set (sys_list (by_system ms) s).
       s \<in> set (m_systems m) \<longrightarrow> map_option m_id (upgrade mh q) \<noteq> Some u}" for s
    by (simp_all add: feat sys_list_drop)
  have listed: "q \<in> set (sys_list (by_system ms) s) \<longleftrightarrow>
      (\<exists>x. upgrade mh q = Some x \<and> hm_get (by_uuid ms) (m_id x) = Some q \<and> s \<in> set (m_systems x))" for q s
    using ok by (simp add: machines_ok_def)
  have get: "hm_get (by_uuid ms') v = Some q \<longleftrightarrow> v \<noteq> u \<and> hm_get (by_uuid ms) v = Some q" for v q
    by (simp add: uuid delete_conv)
  have wf: "hm_wf (by_uuid ms')" using ok by (simp add: uuid machines_ok_def)
  have "q \<in> set (sys_list (by_system ms') s) \<longleftrightarrow>
      (\<exists>x. upgrade mh q = Some x \<and> hm_get (by_uuid ms') (m_id x) = Some q \<and> s \<in> set (m_systems x))" for q s
    using listed [of q s] Some m by (auto simp: sys get)
  moreover have "f \<in> set (ms_supported_features ms') \<longleftrightarrow>
      (\<exists>u q x. hm_get (by_uuid ms') u = Some q \<and> upgrade mh q = Some x \<and> f \<in> set (supported_features x))" for f
    unfolding feat by (subst features_spec) (use wf in \<open>simp_all add: uuid\<close>)
  moreover have "map_option m_id (upgrade mh q) = Some v" if "hm_get (by_uuid ms') v = Some q" for v q
    using ok that by (auto simp: uuid delete_conv machines_ok_def split: if_splits)
  ultimately show ?thesis using wf by (simp add: machines_ok_def)
qed

text \<open>What a builder does to itself leaves what the registry knows of it alone.\<close>

lemma machines_ok_update:
  assumes ok: "machines_ok mh ms"
    and f: "\<And>m. m_id (f m) = m_id m" "\<And>m. m_systems (f m) = m_systems m"
      "\<And>m. supported_features (f m) = supported_features m"
  shows "machines_ok (modify mh r f) ms"
proof -
  have cell: "upgrade (modify mh r f) q = Some x \<longleftrightarrow>
      (\<exists>y. upgrade mh q = Some y \<and> x = (if q = r then f y else y))" for q x
    by (auto split: if_splits)
  have "map_option m_id (upgrade (modify mh r f) q) = map_option m_id (upgrade mh q)" for q
    using f(1) by (rule arena.upd_frame)
  moreover have "(\<exists>x. upgrade (modify mh r f) q = Some x \<and> hm_get (by_uuid ms) (m_id x) = Some q \<and> s \<in> set (m_systems x)) \<longleftrightarrow>
      (\<exists>x. upgrade mh q = Some x \<and> hm_get (by_uuid ms) (m_id x) = Some q \<and> s \<in> set (m_systems x))" for q s
    using f(1,2) by (auto simp: cell)
  moreover have "(\<exists>u q x. hm_get (by_uuid ms) u = Some q \<and> upgrade (modify mh r f) q = Some x \<and> g \<in> set (supported_features x)) \<longleftrightarrow>
      (\<exists>u q x. hm_get (by_uuid ms) u = Some q \<and> upgrade mh q = Some x \<and> g \<in> set (supported_features x))" for g
    using f(3) by (auto simp: cell) metis
  ultimately show ?thesis using ok by (auto simp only: machines_ok_def)
qed

inductive registry_step :: "machine arena \<times> machines \<Rightarrow> machine arena \<times> machines \<Rightarrow> bool" where
  join: "hm_get (by_uuid ms) (m_id m) = None \<Longrightarrow> insert_machine ns sf m mh ms = (mh', ms', r) \<Longrightarrow>
    registry_step (mh, ms) (mh', ms')"
| leave: "remove_machine mh u ms = (ms', res) \<Longrightarrow> registry_step (mh, ms) (mh, ms')"
| sorted: "registry_step (mh, ms) (mh, machines_sort ns sf mh ms)"
| builder: "(\<And>m. m_id (f m) = m_id m) \<Longrightarrow> (\<And>m. m_systems (f m) = m_systems m) \<Longrightarrow>
    (\<And>m. supported_features (f m) = supported_features m) \<Longrightarrow> registry_step (mh, ms) (modify mh r f, ms)"

lemma machines_ok_sort: "machines_ok mh ms \<Longrightarrow> machines_ok mh (machines_sort ns sf mh ms)"
  by (simp add: machines_ok_def) (simp add: machines_sort_def)

interpretation registry_life:
  invariant_system "\<lambda>s. s = ([], machines_new)" registry_step "\<lambda>(mh, ms). machines_ok mh ms"
proof
  show "case s of (mh, ms) \<Rightarrow> machines_ok mh ms" if "s = ([], machines_new)" for s
    using that by (simp add: machines_ok_def machines_new_def sys_list_def)
  show "case t of (mh, ms) \<Rightarrow> machines_ok mh ms"
    if "case s of (mh, ms) \<Rightarrow> machines_ok mh ms" "registry_step s t" for s t
    using that(2,1)
    by (induction rule: registry_step.induct)
      (auto intro: machines_ok_insert machines_ok_remove machines_ok_sort machines_ok_update)
qed

subsection \<open>The choice of a machine\<close>

definition eligible ::
  "(mref \<Rightarrow> int) \<Rightarrow> machine_free_fn option \<Rightarrow> string list \<Rightarrow> machine arena \<Rightarrow> mref \<Rightarrow> bool" where
  "eligible clock free_fn required mh r =
     (case upgrade mh r of
        None \<Rightarrow> False
      | Some m \<Rightarrow> (case free_fn of None \<Rightarrow> True | Some f \<Rightarrow> snd (has_capacity (clock r) f m)) \<and>
                  features_match required m)"

definition first_match :: "('a \<Rightarrow> bool) \<Rightarrow> 'a list \<Rightarrow> 'a option \<Rightarrow> bool" where
  "first_match P xs res =
     (case res of
        None \<Rightarrow> \<forall>x \<in> set xs. \<not> P x
      | Some x \<Rightarrow> P x \<and> (\<exists>ps qs. xs = ps @ x # qs \<and> (\<forall>p \<in> set ps. \<not> P p)))"

lemma first_match_here: "P x \<Longrightarrow> first_match P (x # xs) (Some x)"
  by (fastforce simp: first_match_def)

lemma first_match_later:
  assumes "\<not> P x" and "first_match P xs res"
  shows "first_match P (x # xs) res"
proof (cases res)
  case (Some y)
  with assms obtain ps qs where "P y" "xs = ps @ y # qs" "\<forall>p \<in> set ps. \<not> P p"
    by (auto simp: first_match_def)
  with assms(1) have "P y" "x # xs = (x # ps) @ y # qs" "\<forall>p \<in> set (x # ps). \<not> P p" by simp_all
  then have "P y \<and> (\<exists>ps qs. x # xs = ps @ y # qs \<and> (\<forall>p \<in> set ps. \<not> P p))" by blast
  with Some show ?thesis by (simp add: first_match_def)
qed (use assms in \<open>simp add: first_match_def\<close>)

text \<open>Asking a builder twice at the same time gives the same answer.\<close>

lemma has_capacity_again:
  "has_capacity now f (fst (has_capacity now f m)) = has_capacity now f m"
proof (cases "now > wrap_i64 (jobs_in_last_30s_start (m_stats_of m) + 30)")
  case False
  then have "fst (has_capacity now f m) = m" by (simp add: has_capacity_def Let_def)
  then show ?thesis by simp
next
  case True
  let ?m = "m\<lparr>m_stats_of := (m_stats_of m)\<lparr>jobs_in_last_30s_start := 0, jobs_in_last_30s_count := 0\<rparr>\<rparr>"
  have "fst (has_capacity now f m) = ?m"
    using True by (simp add: has_capacity_def Let_def)
  moreover have "has_capacity now f ?m = has_capacity now f m"
    using True by (cases f) (simp_all add: has_capacity_def Let_def)
  ultimately show ?thesis by simp
qed

lemma features_match_frame:
  "has_capacity now f m = (m', b) \<Longrightarrow> features_match required m' = features_match required m"
  by (drule has_capacity_frame) (auto simp: features_match_def supports_all_features_def)

definition asked :: "(mref \<Rightarrow> int) \<Rightarrow> machine_free_fn option \<Rightarrow> machine arena \<Rightarrow> machine arena \<Rightarrow> bool" where
  "asked clock free_fn mh mh' \<longleftrightarrow>
     (\<forall>a. upgrade mh' a = upgrade mh a \<or>
        (\<exists>f. free_fn = Some f \<and> upgrade mh' a = map_option (\<lambda>m. fst (has_capacity (clock a) f m)) (upgrade mh a)))"

lemma asked_refl: "asked clock free_fn mh mh"
  by (simp add: asked_def)

lemma asked_step:
  assumes "asked clock free_fn mh mh1" and "upgrade mh1 r = Some m1"
    and "m' = (case free_fn of None \<Rightarrow> m1 | Some f \<Rightarrow> fst (has_capacity (clock r) f m1))"
  shows "asked clock free_fn mh (modify mh1 r (\<lambda>_. m'))"
proof (cases free_fn)
  case None
  with assms show ?thesis by (auto simp: asked_def)
next
  case (Some f)
  have "upgrade mh r = Some m1 \<or> (\<exists>m. upgrade mh r = Some m \<and> m1 = fst (has_capacity (clock r) f m))"
    using assms(1,2) Some unfolding asked_def by (cases "upgrade mh r") (metis option.inject option.map(1,2) option.discI)+
  then have "map_option (\<lambda>m. fst (has_capacity (clock r) f m)) (upgrade mh r) = Some m'"
    using assms(3) Some by (auto simp: has_capacity_again)
  with assms(1,2) Some show ?thesis unfolding asked_def by auto
qed

lemma asked_eligible:
  assumes "asked clock free_fn mh mh1"
  shows "eligible clock free_fn required mh1 r = eligible clock free_fn required mh r"
proof (cases "upgrade mh1 r = upgrade mh r")
  case False
  with assms obtain f where f: "free_fn = Some f"
    "upgrade mh1 r = map_option (\<lambda>m. fst (has_capacity (clock r) f m)) (upgrade mh r)"
    unfolding asked_def by blast
  then show ?thesis
    by (cases "upgrade mh r")
      (auto simp: eligible_def has_capacity_again features_match_frame [OF prod.collapse [symmetric]])
qed (simp add: eligible_def)

lemma find_machine_spec:
  assumes "find_machine clock free_fn required rs mh1 = (mh', res)" and "asked clock free_fn mh mh1"
  shows "asked clock free_fn mh mh' \<and> first_match (eligible clock free_fn required mh) rs res"
  using assms
proof (induction rs arbitrary: mh1)
  case Nil
  then show ?case by (simp add: first_match_def)
next
  case (Cons r rs)
  note same = asked_eligible [OF Cons.prems(2), of required r]
  show ?case
  proof (cases "upgrade mh1 r")
    case None
    then have "\<not> eligible clock free_fn required mh r" using same by (simp add: eligible_def)
    moreover from None Cons.prems(1) have "find_machine clock free_fn required rs mh1 = (mh', res)" by simp
    ultimately show ?thesis using Cons.IH Cons.prems(2) first_match_later by metis
  next
    case (Some m)
    obtain m' cap where mc: "(case free_fn of None \<Rightarrow> (m, True) | Some f \<Rightarrow> has_capacity (clock r) f m) = (m', cap)"
      by fastforce
    have q: "eligible clock free_fn required mh r \<longleftrightarrow> cap \<and> features_match required m"
      using same Some mc by (auto simp: eligible_def split: option.splits)
    have asked: "asked clock free_fn mh (modify mh1 r (\<lambda>_. m'))"
      using asked_step [OF Cons.prems(2) Some] mc by (cases free_fn) auto
    show ?thesis
    proof (cases "cap \<and> features_match required m")
      case True
      then have "res = Some r" "mh' = modify mh1 r (\<lambda>_. m')" using Cons.prems(1) Some mc by simp_all
      with True q asked first_match_here show ?thesis by metis
    next
      case False
      then have "find_machine clock free_fn required rs (modify mh1 r (\<lambda>_. m')) = (mh', res)"
        using Cons.prems(1) Some mc by (auto split: if_splits)
      with Cons.IH asked False q first_match_later show ?thesis by metis
    qed
  qed
qed

subsection \<open>Properties of the registry\<close>


definition ex_registry :: "machine arena \<times> machines" where
  "ex_registry = (case insert_machine False SpeedFactorOnly ex_machine [] machines_new of
     (mh, ms, _) \<Rightarrow> (mh, ms))"

lemma ex_registry_eq:
  "ex_registry = ([Some ex_machine], snd ex_registry)"
  "by_system (snd ex_registry) = [(''x86_64-linux'', [0])]" "by_uuid (snd ex_registry) = [(1, 0)]"
  by (simp_all add: ex_registry_def insert_machine_def alloc_def machines_new_def machines_sort_def
      reconstruct_supported_features_def push_system_def ex_machine_def machine_new_def ex_join_def Let_def)

lemma ex_registry_reachable: "registry_step\<^sup>*\<^sup>* ([], machines_new) ([Some ex_machine], snd ex_registry)"
proof -
  obtain mh ms r where ins: "insert_machine False SpeedFactorOnly ex_machine [] machines_new = (mh, ms, r)"
    by (metis prod.exhaust)
  have "registry_step ([], machines_new) (mh, ms)"
    by (rule registry_step.join [OF _ ins]) (simp add: machines_new_def)
  moreover have "(mh, ms) = ([Some ex_machine], snd ex_registry)"
    using ex_registry_eq(1) ins by (simp add: ex_registry_def)
  ultimately show ?thesis by auto
qed




text \<open>
  registering a machine leaves the list of every system sorted by preference, best machine
  first: a higher score before a lower one, fewer running jobs first on equal scores; machines
  that tie keep the order in which they joined.
\<close>

theorem insert_machine_sorted:
  assumes "insert_machine ns sf m mh ms = (mh', ms', r)"
  shows "sorted_wrt (\<lambda>a b. mref_cmp ns sf mh' a b \<noteq> Greater) (sys_list (by_system ms') s) \<and>
    filter (\<lambda>b. mref_cmp ns sf mh' a b = Equal) (sys_list (by_system ms') s) =
      filter (\<lambda>b. mref_cmp ns sf mh' a b = Equal) (sys_list (fold (push_system r) (m_systems m) (by_system ms)) s)"
proof -
  have "sys_list (by_system ms') s =
      sort_by (mref_cmp ns sf mh') (sys_list (fold (push_system r) (m_systems m) (by_system ms)) s)"
    using assms by (auto simp: insert_machine_def Let_def split: prod.splits)
  then show ?thesis by (simp add: mref_order.sort_by_sorted mref_order.sort_by_stable)
qed

theorem insert_machine_sorted_witness:
  "sorted_wrt (\<lambda>a b. mref_cmp False SpeedFactorOnly [Some ex_machine] a b \<noteq> Greater)
     (sys_list (by_system (snd ex_registry)) ''x86_64-linux'')"
proof -
  obtain mh ms r where ins: "insert_machine False SpeedFactorOnly ex_machine [] machines_new = (mh, ms, r)"
    by (metis prod.exhaust)
  moreover have "(mh, ms) = ([Some ex_machine], snd ex_registry)"
    using ex_registry_eq(1) ins by (simp add: ex_registry_def)
  ultimately show ?thesis using insert_machine_sorted [OF ins] by simp
qed

end
