(* ===== verification/Queue.thy ===== *)
theory Queue
  imports Machines
begin

text \<open>
  The queues of runnable steps (queue-runner/src/state/queue.rs): one queue per system holding weak
  pointers in scheduling order, the map of all queued steps that owns them, and the map of the
  steps a builder works on.

  A \<^verbatim>\<open>StepInfo\<close> lives as long as one of the two maps or a local variable of a caller points to it.
  Operations that may drop the last map entry take the list \<open>held\<close> of the pointers their callers
  hold; \<open>collect\<close> empties the cells nobody owns any more. The build queues themselves are never
  dropped. The elapsed time that \<^verbatim>\<open>sort_jobs\<close> returns for a metric is not modelled.
\<close>

type_synonym siref = nat
type_synonym qref = nat

datatype step_sort_fn = Legacy | WithRdeps

record build_queue =
  bq_jobs :: "siref list"
  active_runnable :: u64
  total_runnable :: u64
  nr_runnable_waiting :: u64
  nr_runnable_disabled :: u64
  avg_runnable_time :: u64
  wait_time_ms :: u64

record build_queue_stats =
  qs_active_runnable :: u64
  qs_total_runnable :: u64
  qs_nr_runnable_waiting :: u64
  qs_nr_runnable_disabled :: u64
  qs_avg_runnable_time :: u64
  qs_wait_time :: u64

definition build_queue_new :: build_queue where
  "build_queue_new =
     \<lparr>bq_jobs = [], active_runnable = 0, total_runnable = 0, nr_runnable_waiting = 0,
      nr_runnable_disabled = 0, avg_runnable_time = 0, wait_time_ms = 0\<rparr>"

definition set_nr_runnable_waiting :: "u64 \<Rightarrow> build_queue \<Rightarrow> build_queue" where
  "set_nr_runnable_waiting v q = q\<lparr>nr_runnable_waiting := v\<rparr>"

definition set_nr_runnable_disabled :: "u64 \<Rightarrow> build_queue \<Rightarrow> build_queue" where
  "set_nr_runnable_disabled v q = q\<lparr>nr_runnable_disabled := v\<rparr>"

definition incr_active :: "build_queue \<Rightarrow> build_queue" where
  "incr_active q = q\<lparr>active_runnable := active_runnable q + 1\<rparr>"

definition decr_active :: "build_queue \<Rightarrow> build_queue" where
  "decr_active q = q\<lparr>active_runnable := active_runnable q - 1\<rparr>"

text \<open>The derivation path of a queued step, and the comparison of two weak pointers.\<close>

definition info_path :: "step arena \<Rightarrow> step_info arena \<Rightarrow> siref \<Rightarrow> store_path option" where
  "info_path sh ih r = map_option (\<lambda>i. drv_path (deref sh (si_step i))) (upgrade ih r)"

definition cmp_fn :: "step_sort_fn \<Rightarrow> step arena \<Rightarrow> step_info \<Rightarrow> step_info \<Rightarrow> ordering" where
  "cmp_fn sort_fn = (case sort_fn of Legacy \<Rightarrow> legacy_compare | WithRdeps \<Rightarrow> compare_with_rdeps)"

definition weak_cmp :: "step_sort_fn \<Rightarrow> step arena \<Rightarrow> step_info arena \<Rightarrow> siref \<Rightarrow> siref \<Rightarrow> ordering" where
  "weak_cmp sort_fn sh ih a b =
     (case (upgrade ih a, upgrade ih b) of
        (Some x, Some y) \<Rightarrow> cmp_fn sort_fn sh x y
      | (Some _, None) \<Rightarrow> Greater
      | (None, Some _) \<Rightarrow> Less
      | (None, None) \<Rightarrow> Equal)"

definition refresh_stats :: "bool \<Rightarrow> jobset arena \<Rightarrow> step arena \<Rightarrow> siref list \<Rightarrow> step_info arena \<Rightarrow> step_info arena" where
  "refresh_stats ns jh sh rs ih = fold (\<lambda>r ih. modify ih r (update_internal_stats ns jh sh)) rs ih"

definition sort_jobs ::
  "bool \<Rightarrow> jobset arena \<Rightarrow> step arena \<Rightarrow> step_sort_fn \<Rightarrow> step_info arena \<Rightarrow> build_queue \<Rightarrow>
   step_info arena \<times> build_queue" where
  "sort_jobs ns jh sh sort_fn ih q =
     (let ih' = refresh_stats ns jh sh (bq_jobs q) ih
      in (ih', q\<lparr>bq_jobs := sort_by (weak_cmp sort_fn sh ih') (bq_jobs q)\<rparr>))"

definition scrube_jobs :: "step_info arena \<Rightarrow> build_queue \<Rightarrow> build_queue" where
  "scrube_jobs ih q =
     (let js = filter (\<lambda>r. upgrade ih r \<noteq> None) (bq_jobs q)
      in q\<lparr>bq_jobs := js, total_runnable := of_nat (length js)\<rparr>)"

text \<open>\<^verbatim>\<open>u64::try_from(now.duration_since(since).as_millis()).unwrap_or_default()\<close>\<close>

definition wait_ms :: "timestamp \<Rightarrow> timestamp \<Rightarrow> u64" where
  "wait_ms now since = (case u64_try_from (as_millis (now - since)) of None \<Rightarrow> 0 | Some v \<Rightarrow> v)"

definition push_job ::
  "step arena \<Rightarrow> step_info arena \<Rightarrow> timestamp \<Rightarrow> siref \<Rightarrow> siref list \<times> u64 \<Rightarrow> siref list \<times> u64" where
  "push_job sh ih now j = (\<lambda>(jobs, wait).
     case upgrade ih j of
       None \<Rightarrow> (jobs, wait)
     | Some owned \<Rightarrow>
         if list_ex (\<lambda>v. info_path sh ih v = info_path sh ih j) jobs then (jobs, wait)
         else (jobs @ [j], wait + wait_ms now (si_runnable_since owned)))"

definition bq_insert_new_jobs ::
  "bool \<Rightarrow> jobset arena \<Rightarrow> step arena \<Rightarrow> step_info arena \<Rightarrow> siref list \<Rightarrow> timestamp \<Rightarrow> step_sort_fn \<Rightarrow>
   build_queue \<Rightarrow> step_info arena \<times> build_queue" where
  "bq_insert_new_jobs ns jh sh ih new now sort_fn q =
     (let (jobs, wait) = fold (push_job sh ih now) new (bq_jobs q, 0);
          q1 = q\<lparr>bq_jobs := jobs, wait_time_ms := wait_time_ms q + wait\<rparr>
      in sort_jobs ns jh sh sort_fn ih (scrube_jobs ih q1))"

definition bq_get_stats :: "build_queue \<Rightarrow> build_queue_stats" where
  "bq_get_stats q =
     \<lparr>qs_active_runnable = active_runnable q, qs_total_runnable = total_runnable q,
      qs_nr_runnable_waiting = nr_runnable_waiting q, qs_nr_runnable_disabled = nr_runnable_disabled q,
      qs_avg_runnable_time = avg_runnable_time q, qs_wait_time = wait_time_ms q\<rparr>"

subsection \<open>All queues\<close>

record scheduled_item =
  it_step_info :: siref
  it_build_queue :: qref
  it_machine :: mref

record queues =
  q_jobs :: "(store_path \<times> siref) list"
  q_inner :: "(string \<times> qref) list"
  q_scheduled :: "(store_path \<times> scheduled_item) list"
  q_infos :: "step_info arena"
  q_bufs :: "build_queue arena"

definition queues_new :: queues where
  "queues_new = \<lparr>q_jobs = [], q_inner = [], q_scheduled = [], q_infos = [], q_bufs = []\<rparr>"

definition owners :: "queues \<Rightarrow> siref list" where
  "owners q = map snd (q_jobs q) @ map (it_step_info \<circ> snd) (q_scheduled q)"

text \<open>The drop of every \<^verbatim>\<open>StepInfo\<close> whose last strong pointer is gone.\<close>

definition collect :: "siref list \<Rightarrow> queues \<Rightarrow> queues" where
  "collect held q =
     q\<lparr>q_infos := map (\<lambda>r. if r \<in> set held \<union> set (owners q) then upgrade (q_infos q) r else None)
                    [0..<length (q_infos q)]\<rparr>"

definition ensure_queue :: "string \<Rightarrow> queues \<Rightarrow> queues \<times> qref" where
  "ensure_queue system q =
     (case hm_get (q_inner q) system of
        Some r \<Rightarrow> (q, r)
      | None \<Rightarrow> (let (bufs, r) = alloc (q_bufs q) build_queue_new
                 in (q\<lparr>q_bufs := bufs, q_inner := hm_insert system r (q_inner q)\<rparr>, r)))"

definition submit_job :: "step arena \<Rightarrow> step_info \<Rightarrow> queues \<times> siref list \<Rightarrow> queues \<times> siref list" where
  "submit_job sh i = (\<lambda>(q, submit).
     let p = drv_path (deref sh (si_step i))
     in if hm_get (q_jobs q) p = None \<and> \<not> finished (deref sh (si_step i))
        then (let (infos, r) = alloc (q_infos q) i
              in (q\<lparr>q_infos := infos, q_jobs := hm_insert p r (q_jobs q)\<rparr>, submit @ [r]))
        else (q, submit))"

definition queues_insert_new_jobs ::
  "bool \<Rightarrow> jobset arena \<Rightarrow> step arena \<Rightarrow> string \<Rightarrow> step_info list \<Rightarrow> timestamp \<Rightarrow> step_sort_fn \<Rightarrow>
   queues \<Rightarrow> queues" where
  "queues_insert_new_jobs ns jh sh system new now sort_fn q =
     (let (q1, submit) = fold (submit_job sh) new (q, []);
          (q2, r) = ensure_queue system q1
      in case upgrade (q_bufs q2) r of
           None \<Rightarrow> q2
         | Some b \<Rightarrow>
             (let (infos, b') = bq_insert_new_jobs ns jh sh (q_infos q2) submit now sort_fn b
              in q2\<lparr>q_infos := infos, q_bufs := modify (q_bufs q2) r (\<lambda>_. b')\<rparr>))"

definition ensure_queues_for_systems :: "string list \<Rightarrow> queues \<Rightarrow> queues" where
  "ensure_queues_for_systems systems q = fold (\<lambda>s q. fst (ensure_queue s q)) systems q"

definition remove_all_weak_pointer :: "queues \<Rightarrow> queues" where
  "remove_all_weak_pointer q =
     q\<lparr>q_bufs := fold (\<lambda>(_, r) bufs. modify bufs r (scrube_jobs (q_infos q))) (q_inner q) (q_bufs q)\<rparr>"

definition add_job_to_scheduled :: "step arena \<Rightarrow> siref \<Rightarrow> qref \<Rightarrow> mref \<Rightarrow> queues \<Rightarrow> queues" where
  "add_job_to_scheduled sh r b m q =
     (case info_path sh (q_infos q) r of
        None \<Rightarrow> q
      | Some p \<Rightarrow>
          q\<lparr>q_scheduled := hm_insert p \<lparr>it_step_info = r, it_build_queue = b, it_machine = m\<rparr> (q_scheduled q),
            q_infos := modify (q_infos q) r (set_already_scheduled True),
            q_bufs := modify (q_bufs q) b incr_active\<rparr>)"

definition remove_job_from_scheduled :: "store_path \<Rightarrow> queues \<Rightarrow> queues \<times> scheduled_item option" where
  "remove_job_from_scheduled p q =
     (case hm_get (q_scheduled q) p of
        None \<Rightarrow> (q, None)
      | Some item \<Rightarrow>
          (q\<lparr>q_scheduled := hm_remove p (q_scheduled q),
             q_infos := modify (q_infos q) (it_step_info item) (set_already_scheduled False),
             q_bufs := modify (q_bufs q) (it_build_queue item) decr_active\<rparr>, Some item))"

definition remove_job_by_path :: "siref list \<Rightarrow> store_path \<Rightarrow> queues \<Rightarrow> queues" where
  "remove_job_by_path held p q = collect held (q\<lparr>q_jobs := hm_remove p (q_jobs q)\<rparr>)"

text \<open>\<^verbatim>\<open>remove_job\<close> takes a borrowed \<^verbatim>\<open>Arc<StepInfo>\<close>, so that pointer is held during the scrub.\<close>

definition queues_remove_job :: "step arena \<Rightarrow> siref list \<Rightarrow> siref \<Rightarrow> qref \<Rightarrow> queues \<Rightarrow> queues" where
  "queues_remove_job sh held r b q =
     (case info_path sh (q_infos q) r of
        None \<Rightarrow> q
      | Some p \<Rightarrow>
          (let q1 = collect (r # held) (q\<lparr>q_jobs := hm_remove p (q_jobs q)\<rparr>)
           in q1\<lparr>q_bufs := modify (q_bufs q1) b (scrube_jobs (q_infos q1))\<rparr>))"

text \<open>
  \<^verbatim>\<open>kill_active_steps\<close>: scheduled steps without a live dependent build are marked cancelled and
  their builder is told to abort; the pairs of derivation and machine are returned.
\<close>

definition kill_step ::
  "step arena \<Rightarrow> build arena \<Rightarrow> store_path \<times> scheduled_item \<Rightarrow>
   queues \<times> machine arena \<times> (store_path \<times> uuid) list \<Rightarrow> queues \<times> machine arena \<times> (store_path \<times> uuid) list" where
  "kill_step sh bh = (\<lambda>(p, item) (q, mh, killed).
     case upgrade (q_infos q) (it_step_info item) of
       None \<Rightarrow> (q, mh, killed)
     | Some i \<Rightarrow>
         if cancelled i then (q, mh, killed)
         else if fst (get_dependents sh bh (si_step i) [] []) \<noteq> [] then (q, mh, killed)
         else
           (let q1 = q\<lparr>q_infos := modify (q_infos q) (it_step_info item) (set_cancelled True)\<rparr>
            in case upgrade mh (it_machine item) of
                 None \<Rightarrow> (q1, mh, killed)
               | Some m \<Rightarrow>
                   (case get_internal_build_id_for_drv p m of
                      None \<Rightarrow> (q1, mh, killed)
                    | Some u \<Rightarrow>
                        (case abort_build u m of
                           Inl _ \<Rightarrow> (q1, mh, killed)
                         | Inr m' \<Rightarrow> (q1, modify mh (it_machine item) (\<lambda>_. m'), killed @ [(p, m_id m)])))))"

definition kill_active_steps ::
  "step arena \<Rightarrow> build arena \<Rightarrow> queues \<Rightarrow> machine arena \<Rightarrow> queues \<times> machine arena \<times> (store_path \<times> uuid) list" where
  "kill_active_steps sh bh q mh = fold (kill_step sh bh) (q_scheduled q) (q, mh, [])"

definition get_stats_per_queue :: "queues \<Rightarrow> (string \<times> build_queue_stats) list" where
  "get_stats_per_queue q =
     List.map_filter (\<lambda>(s, r). map_option (\<lambda>b. (s, bq_get_stats b)) (upgrade (q_bufs q) r)) (q_inner q)"

definition get_jobs :: "queues \<Rightarrow> siref list" where
  "get_jobs q = map snd (q_jobs q)"

definition get_scheduled :: "queues \<Rightarrow> siref list" where
  "get_scheduled q = map (it_step_info \<circ> snd) (q_scheduled q)"

definition sort_one :: "bool \<Rightarrow> jobset arena \<Rightarrow> step arena \<Rightarrow> step_sort_fn \<Rightarrow> qref \<Rightarrow> queues \<Rightarrow> queues" where
  "sort_one ns jh sh sort_fn r q =
     (case upgrade (q_bufs q) r of
        None \<Rightarrow> q
      | Some b \<Rightarrow>
          (let (infos, b') = sort_jobs ns jh sh sort_fn (q_infos q) b
           in q\<lparr>q_infos := infos, q_bufs := modify (q_bufs q) r (\<lambda>_. b')\<rparr>))"

definition sort_queues :: "bool \<Rightarrow> jobset arena \<Rightarrow> step arena \<Rightarrow> step_sort_fn \<Rightarrow> queues \<Rightarrow> queues" where
  "sort_queues ns jh sh sort_fn q = fold (\<lambda>(_, r). sort_one ns jh sh sort_fn r) (q_inner q) q"

subsection \<open>Choosing a machine for a job\<close>

record job_constraint =
  jc_job :: siref
  jc_system :: string
  jc_queue_features :: "string list"

definition resolve ::
  "(mref \<Rightarrow> int) \<Rightarrow> step arena \<Rightarrow> step_info \<Rightarrow> machines \<Rightarrow> machine_free_fn \<Rightarrow> job_constraint \<Rightarrow> machine arena \<Rightarrow>
   machine arena \<times> (mref \<times> siref) option" where
  "resolve clock sh i ms free_fn c mh =
     (let step_features = get_required_features (deref sh (si_step i));
          merged = (if jc_queue_features c = [] then step_features else step_features @ jc_queue_features c);
          (mh', res) = get_machine_for_system clock (jc_system c) merged (Some free_fn) ms mh
      in (mh', map_option (\<lambda>m. (m, jc_job c)) res))"

datatype realise_step_result =
    Realise_None
  | Realise_Valid mref
  | MaybeCancelled
  | Realise_CachedFailure

subsection \<open>The dispatch loop\<close>

text \<open>
  \<^verbatim>\<open>process\<close> walks over a snapshot of the queues and hands every ready job to the processor. The
  processor works on the rest of the runner's state, a value of type \<open>'w\<close> from which \<open>steps_of\<close>
  reads the step graph. A job's pointer is held while the job is handled.
\<close>

definition process_job ::
  "('w \<Rightarrow> step arena) \<Rightarrow> ('w \<Rightarrow> queues \<Rightarrow> job_constraint \<Rightarrow> 'w \<times> (error + realise_step_result)) \<Rightarrow> timestamp \<Rightarrow>
   string \<Rightarrow> qref \<Rightarrow> siref \<Rightarrow> ('w \<times> queues) \<times> int \<times> u64 \<times> u64 \<Rightarrow> ('w \<times> queues) \<times> int \<times> u64 \<times> u64" where
  "process_job steps_of processor now system b j = (\<lambda>((w, q), all_waiting, nr_waiting, nr_disabled).
     case upgrade (q_infos q) j of
       None \<Rightarrow> ((w, q), all_waiting, nr_waiting, nr_disabled)
     | Some i \<Rightarrow>
         (let s = deref (steps_of w) (si_step i)
          in if already_scheduled i then ((w, q), all_waiting, nr_waiting, nr_disabled)
             else if finished s then ((w, q), all_waiting, nr_waiting, nr_disabled)
             else if after (atomic_state s) > now then ((w, q), all_waiting, nr_waiting, nr_disabled + 1)
             else
               (let (w', res) = processor w q \<lparr>jc_job = j, jc_system = system, jc_queue_features = []\<rparr>;
                    (q1, dw) =
                      (case res of
                         Inr (Realise_Valid m) \<Rightarrow> (add_job_to_scheduled (steps_of w') j b m q, 0)
                       | Inr Realise_None \<Rightarrow> (q, 1)
                       | Inr MaybeCancelled \<Rightarrow> (queues_remove_job (steps_of w') [] j b q, 0)
                       | Inr Realise_CachedFailure \<Rightarrow> (queues_remove_job (steps_of w') [] j b q, 0)
                       | Inl _ \<Rightarrow> (q, 0));
                    q2 = q1\<lparr>q_bufs := modify (q_bufs q1) b
                          (set_nr_runnable_disabled nr_disabled \<circ> set_nr_runnable_waiting (nr_waiting + of_nat dw))\<rparr>
                in ((w', collect [] q2), all_waiting + int dw, nr_waiting + of_nat dw, nr_disabled))))"

definition process_queue ::
  "('w \<Rightarrow> step arena) \<Rightarrow> ('w \<Rightarrow> queues \<Rightarrow> job_constraint \<Rightarrow> 'w \<times> (error + realise_step_result)) \<Rightarrow> timestamp \<Rightarrow>
   string \<times> qref \<Rightarrow> ('w \<times> queues) \<times> int \<Rightarrow> ('w \<times> queues) \<times> int" where
  "process_queue steps_of processor now = (\<lambda>(system, b) ((w, q), all_waiting).
     case upgrade (q_bufs q) b of
       None \<Rightarrow> ((w, q), all_waiting)
     | Some bq \<Rightarrow>
         (let (wq, aw, _, _) = fold (process_job steps_of processor now system b) (bq_jobs bq) ((w, q), all_waiting, 0, 0)
          in (wq, aw)))"

definition process ::
  "('w \<Rightarrow> step arena) \<Rightarrow> ('w \<Rightarrow> queues \<Rightarrow> job_constraint \<Rightarrow> 'w \<times> (error + realise_step_result)) \<Rightarrow> timestamp \<Rightarrow>
   'w \<Rightarrow> queues \<Rightarrow> ('w \<times> queues) \<times> int" where
  "process steps_of processor now w q = fold (process_queue steps_of processor now) (q_inner q) ((w, q), 0)"

end
