(* ===== verification/Queue_Inv.thy ===== *)
theory Queue_Inv
  imports Queue
begin

text \<open>
  Consistency of the queues (queue-runner/src/state/queue.rs): the two maps, the flags of the
  queued steps and the counters of the queues agree in every state the runner's operations reach,
  no queue holds a step twice, and every queue is in scheduling order after it was sorted.
\<close>

subsection \<open>Association lists\<close>

lemma hm_insert_new: "hm_get m k = None \<Longrightarrow> hm_insert k v m = m @ [(k, v)]"
  by (induction m) (auto split: if_splits)

lemma hm_remove_count:
  assumes "hm_wf m" and "hm_get m k = Some v"
  shows "length (filter P m) = length (filter P (hm_remove k m)) + (if P (k, v) then 1 else 0)"
  using assms
proof (induction m)
  case (Cons e m)
  obtain k' v' where e: "e = (k', v')" by (cases e)
  have wf: "hm_wf m" "k' \<notin> fst ` set m" using Cons.prems(1) e by (auto simp: hm_wf_def)
  show ?case
  proof (cases "k' = k")
    case True
    with Cons.prems(2) wf e have "v' = v" and "hm_remove k m = m"
      by (auto simp: delete_id)
    with True e show ?thesis by simp
  next
    case False
    with Cons wf e show ?thesis by auto
  qed
qed simp

subsection \<open>The invariant\<close>

text \<open>
  What the invariant reads of a queue state, besides the three maps: the path of a queued step, its
  flag, and the entries and the active count of a queue.
\<close>

definition flag_of :: "step_info arena \<Rightarrow> siref \<Rightarrow> bool option" where
  "flag_of ih r = map_option already_scheduled (upgrade ih r)"

definition entries_of :: "build_queue arena \<Rightarrow> qref \<Rightarrow> siref list option" where
  "entries_of bufs b = map_option bq_jobs (upgrade bufs b)"

definition active_of :: "build_queue arena \<Rightarrow> qref \<Rightarrow> u64 option" where
  "active_of bufs b = map_option active_runnable (upgrade bufs b)"

definition scheduled_on :: "qref \<Rightarrow> (store_path \<times> scheduled_item) list \<Rightarrow> nat" where
  "scheduled_on b sched = length (filter (\<lambda>(_, it). it_build_queue it = b) sched)"

definition jobs_inv :: "(store_path \<times> siref) list \<Rightarrow> (siref \<Rightarrow> store_path option) \<Rightarrow> bool" where
  "jobs_inv jobs path \<longleftrightarrow> hm_wf jobs \<and>
     (\<forall>p r. hm_get jobs p = Some r \<longrightarrow> path r = Some p) \<and>
     (\<forall>r. path r \<noteq> None \<longrightarrow> (\<exists>p. hm_get jobs p = Some r))"

definition sched_inv ::
  "(store_path \<times> siref) list \<Rightarrow> (store_path \<times> scheduled_item) list \<Rightarrow> (siref \<Rightarrow> bool option) \<Rightarrow>
   (qref \<Rightarrow> u64 option) \<Rightarrow> bool" where
  "sched_inv jobs sched flag active \<longleftrightarrow> hm_wf sched \<and>
     (\<forall>p it. hm_get sched p = Some it \<longrightarrow> hm_get jobs p = Some (it_step_info it) \<and> active (it_build_queue it) \<noteq> None) \<and>
     (\<forall>r v. flag r = Some v \<longrightarrow> (v \<longleftrightarrow> (\<exists>p it. hm_get sched p = Some it \<and> it_step_info it = r))) \<and>
     (\<forall>b n. active b = Some n \<longrightarrow> n = of_nat (scheduled_on b sched))"

definition once :: "(siref \<Rightarrow> store_path option) \<Rightarrow> siref list \<Rightarrow> bool" where
  "once path rs \<longleftrightarrow> distinct (map path (filter (\<lambda>r. path r \<noteq> None) rs))"

definition bufs_inv ::
  "(string \<times> qref) list \<Rightarrow> (siref \<Rightarrow> store_path option) \<Rightarrow> (qref \<Rightarrow> siref list option) \<Rightarrow> bool" where
  "bufs_inv inner path entries \<longleftrightarrow> hm_wf inner \<and>
     (\<forall>s b. hm_get inner s = Some b \<longrightarrow> entries b \<noteq> None) \<and>
     (\<forall>b rs. entries b = Some rs \<longrightarrow> once path rs)"

definition queues_ok :: "step arena \<Rightarrow> queues \<Rightarrow> bool" where
  "queues_ok sh q \<longleftrightarrow>
     jobs_inv (q_jobs q) (info_path sh (q_infos q)) \<and>
     sched_inv (q_jobs q) (q_scheduled q) (flag_of (q_infos q)) (active_of (q_bufs q)) \<and>
     bufs_inv (q_inner q) (info_path sh (q_infos q)) (entries_of (q_bufs q)) \<and>
     (\<forall>b rs. entries_of (q_bufs q) b = Some rs \<longrightarrow> (\<forall>r \<in> set rs. r < length (q_infos q)))"

lemma queues_ok_new: "queues_ok sh queues_new"
  by (simp add: queues_ok_def jobs_inv_def sched_inv_def bufs_inv_def queues_new_def flag_of_def
      active_of_def entries_of_def info_path_def)

lemma info_path_None: "info_path sh ih r = None \<longleftrightarrow> upgrade ih r = None"
  by (simp add: info_path_def)

lemma flag_of_None: "flag_of ih r = None \<longleftrightarrow> info_path sh ih r = None"
  by (simp add: info_path_None flag_of_def)

lemma active_of_None: "active_of bufs b = None \<longleftrightarrow> entries_of bufs b = None"
  by (simp add: active_of_def entries_of_def)

lemma queues_okD:
  assumes "queues_ok sh q"
  shows "hm_get (q_jobs q) p = Some r \<Longrightarrow> info_path sh (q_infos q) r = Some p"
    and "info_path sh (q_infos q) r = Some p \<Longrightarrow> hm_get (q_jobs q) p = Some r"
    and "hm_get (q_scheduled q) p = Some it \<Longrightarrow> hm_get (q_jobs q) p = Some (it_step_info it)"
    and "hm_get (q_scheduled q) p = Some it \<Longrightarrow> active_of (q_bufs q) (it_build_queue it) \<noteq> None"
    and "flag_of (q_infos q) r = Some v \<Longrightarrow> v \<longleftrightarrow> (\<exists>p it. hm_get (q_scheduled q) p = Some it \<and> it_step_info it = r)"
    and "active_of (q_bufs q) b = Some n \<Longrightarrow> n = of_nat (scheduled_on b (q_scheduled q))"
    and "entries_of (q_bufs q) b = Some rs \<Longrightarrow> once (info_path sh (q_infos q)) rs"
  using assms unfolding queues_ok_def jobs_inv_def sched_inv_def bufs_inv_def
  by (blast, metis option.discI option.inject, blast, blast, blast, blast, blast)

text \<open>Updates of one queued step or one queue, in these terms.\<close>

lemma info_path_modify [simp]:
  "(\<And>i. si_step (f i) = si_step i) \<Longrightarrow> info_path sh (modify ih r f) = info_path sh ih"
  by (rule ext) (simp add: info_path_def option.map_comp comp_def)

lemma flag_of_modify:
  "(\<And>i. already_scheduled (f i) = g (already_scheduled i)) \<Longrightarrow>
   flag_of (modify ih r f) = (flag_of ih)(r := map_option g (flag_of ih r))"
  by (rule ext) (simp add: flag_of_def option.map_comp comp_def)

lemma active_of_modify:
  "(\<And>b. active_runnable (f b) = g (active_runnable b)) \<Longrightarrow>
   active_of (modify bufs r f) = (active_of bufs)(r := map_option g (active_of bufs r))"
  by (rule ext) (simp add: active_of_def option.map_comp comp_def)

lemma entries_of_modify:
  "(\<And>b. bq_jobs (f b) = g (bq_jobs b)) \<Longrightarrow>
   entries_of (modify bufs r f) = (entries_of bufs)(r := map_option g (entries_of bufs r))"
  by (rule ext) (simp add: entries_of_def option.map_comp comp_def)

lemma map_option_id_upd [simp]: "f(r := map_option (\<lambda>x. x) (f r)) = f"
  by (simp add: option.map_ident)

lemmas flag_of_same = flag_of_modify [where g = "\<lambda>x. x", simplified]
lemmas active_of_same = active_of_modify [where g = "\<lambda>x. x", simplified]
lemmas entries_of_same = entries_of_modify [where g = "\<lambda>x. x", simplified]

lemma queues_ok_info:
  "queues_ok sh q \<Longrightarrow> (\<And>i. si_step (f i) = si_step i) \<Longrightarrow> (\<And>i. already_scheduled (f i) = already_scheduled i) \<Longrightarrow>
   queues_ok sh (q\<lparr>q_infos := modify (q_infos q) r f\<rparr>)"
  by (simp add: queues_ok_def flag_of_same)

lemma queues_ok_buf:
  "queues_ok sh q \<Longrightarrow> (\<And>b. bq_jobs (f b) = bq_jobs b) \<Longrightarrow> (\<And>b. active_runnable (f b) = active_runnable b) \<Longrightarrow>
   queues_ok sh (q\<lparr>q_bufs := modify (q_bufs q) r f\<rparr>)"
  by (simp add: queues_ok_def active_of_same entries_of_same)

subsection \<open>Scheduling and unscheduling\<close>

lemma not_yet_scheduled:
  assumes "queues_ok sh q" and "info_path sh (q_infos q) r = Some p" and "flag_of (q_infos q) r = Some False"
  shows "hm_get (q_scheduled q) p = None"
proof (rule ccontr)
  assume "hm_get (q_scheduled q) p \<noteq> None"
  then obtain it where it: "hm_get (q_scheduled q) p = Some it" by auto
  then have "it_step_info it = r"
    using queues_okD(2,3) [OF assms(1)] assms(2) by (metis option.inject)
  with it queues_okD(5) [OF assms(1,3)] show False by blast
qed

text \<open>Adding an entry to the scheduled steps, and taking one out.\<close>

lemma sched_inv_add:
  assumes inv: "sched_inv jobs sched flag active" and none: "hm_get sched p = None"
    and job: "hm_get jobs p = Some (it_step_info it)" and buf: "active (it_build_queue it) \<noteq> None"
  shows "sched_inv jobs (sched @ [(p, it)]) (flag(it_step_info it := Some True))
           (active(it_build_queue it := map_option (\<lambda>n. n + 1) (active (it_build_queue it))))"
proof -
  have get: "hm_get (sched @ [(p, it)]) p' = Some it' \<longleftrightarrow>
      (if p' = p then it' = it else hm_get sched p' = Some it')" for p' it'
    using none by (auto simp: map_add_Some_iff)
  have wf: "hm_wf (sched @ [(p, it)])"
    using inv none by (auto simp: sched_inv_def hm_wf_def map_of_eq_None_iff)
  have "v \<longleftrightarrow> (\<exists>p' it'. hm_get (sched @ [(p, it)]) p' = Some it' \<and> it_step_info it' = r)"
    if "(flag(it_step_info it := Some True)) r = Some v" for r v
  proof (cases "r = it_step_info it")
    case True
    with that have "v" by simp
    with True show ?thesis unfolding get by auto
  next
    case False
    with that inv have "v \<longleftrightarrow> (\<exists>p' it'. hm_get sched p' = Some it' \<and> it_step_info it' = r)"
      by (simp add: sched_inv_def)
    with False none show ?thesis unfolding get by (metis option.discI)
  qed
  moreover have "n = of_nat (scheduled_on b (sched @ [(p, it)]))"
    if "(active(it_build_queue it := map_option (\<lambda>n. n + 1) (active (it_build_queue it)))) b = Some n" for b n
    using that inv by (auto simp: sched_inv_def scheduled_on_def split: if_splits)
  ultimately show ?thesis
    using inv wf job buf unfolding sched_inv_def get by auto
qed

lemma sched_inv_remove:
  assumes inv: "sched_inv jobs sched flag active" and it: "hm_get sched p = Some it"
    and one: "\<And>p' it'. hm_get sched p' = Some it' \<Longrightarrow> it_step_info it' = it_step_info it \<Longrightarrow> p' = p"
  shows "sched_inv jobs (hm_remove p sched) (flag(it_step_info it := map_option (\<lambda>_. False) (flag (it_step_info it))))
           (active(it_build_queue it := map_option (\<lambda>n. n - 1) (active (it_build_queue it))))"
proof -
  have wf: "hm_wf sched" using inv by (simp add: sched_inv_def)
  have get: "hm_get (hm_remove p sched) p' = Some it' \<longleftrightarrow> p' \<noteq> p \<and> hm_get sched p' = Some it'" for p' it'
    by (simp add: delete_conv)
  have cnt: "scheduled_on b sched = scheduled_on b (hm_remove p sched) + (if it_build_queue it = b then 1 else 0)" for b
    using hm_remove_count [OF wf it] by (simp add: scheduled_on_def)
  have "v \<longleftrightarrow> (\<exists>p' it'. hm_get (hm_remove p sched) p' = Some it' \<and> it_step_info it' = r)"
    if "(flag(it_step_info it := map_option (\<lambda>_. False) (flag (it_step_info it)))) r = Some v" for r v
  proof (cases "r = it_step_info it")
    case True
    with that have "\<not> v" by auto
    with True one show ?thesis unfolding get by blast
  next
    case False
    with that inv have "v \<longleftrightarrow> (\<exists>p' it'. hm_get sched p' = Some it' \<and> it_step_info it' = r)"
      by (simp add: sched_inv_def)
    with False it show ?thesis unfolding get by (metis option.inject)
  qed
  moreover have "n = of_nat (scheduled_on b (hm_remove p sched))"
    if "(active(it_build_queue it := map_option (\<lambda>n. n - 1) (active (it_build_queue it)))) b = Some n" for b n
  proof -
    have old: "active b = Some z \<Longrightarrow> z = of_nat (scheduled_on b sched)" for z
      using inv by (simp add: sched_inv_def)
    show ?thesis
      using that cnt [of b] old by (cases "b = it_build_queue it") auto
  qed
  moreover obtain z where "active (it_build_queue it) = Some z"
    using inv it unfolding sched_inv_def by blast
  ultimately show ?thesis
    using inv wf unfolding sched_inv_def get by auto
qed

lemma queues_ok_schedule:
  assumes ok: "queues_ok sh q" and idle: "flag_of (q_infos q) r = Some False" and buf: "entries_of (q_bufs q) b \<noteq> None"
  shows "queues_ok sh (add_job_to_scheduled sh r b m q)"
proof -
  obtain p where p: "info_path sh (q_infos q) r = Some p"
    using idle flag_of_None [of "q_infos q" r sh] by (cases "info_path sh (q_infos q) r") auto
  let ?it = "\<lparr>it_step_info = r, it_build_queue = b, it_machine = m\<rparr>"
  have none: "hm_get (q_scheduled q) p = None" by (rule not_yet_scheduled [OF ok p idle])
  have flag: "flag_of (modify (q_infos q) r (set_already_scheduled True)) = (flag_of (q_infos q))(r := Some True)"
    using idle by (simp add: set_already_scheduled_def flag_of_modify [where g = "\<lambda>_. True"])
  have "sched_inv (q_jobs q) (q_scheduled q @ [(p, ?it)]) ((flag_of (q_infos q))(r := Some True))
      ((active_of (q_bufs q))(b := map_option (\<lambda>n. n + 1) (active_of (q_bufs q) b)))"
    using sched_inv_add [of "q_jobs q" "q_scheduled q" _ _ p ?it] ok none queues_okD(2) [OF ok p]
      buf [folded active_of_None] by (simp only: queues_ok_def scheduled_item.select_convs simp_thms)
  with ok p none flag show ?thesis
    by (simp add: add_job_to_scheduled_def hm_insert_new queues_ok_def set_already_scheduled_def incr_active_def
        entries_of_same active_of_modify [where g = "\<lambda>n. n + 1"])
qed

lemma queues_ok_unschedule:
  assumes ok: "queues_ok sh q" and rem: "remove_job_from_scheduled p q = (q', res)"
  shows "queues_ok sh q'"
proof (cases "hm_get (q_scheduled q) p")
  case None
  with rem ok show ?thesis by (simp add: remove_job_from_scheduled_def)
next
  case (Some it)
  have one: "p' = p" if "hm_get (q_scheduled q) p' = Some it'" "it_step_info it' = it_step_info it" for p' it'
    using queues_okD(1,3) [OF ok] that Some by (metis option.inject)
  from sched_inv_remove [OF _ Some one] ok Some rem show ?thesis
    by (auto simp: remove_job_from_scheduled_def queues_ok_def set_already_scheduled_def decr_active_def
        flag_of_modify [where g = "\<lambda>_. False"] entries_of_same active_of_modify [where g = "\<lambda>n. n - 1"])
qed

subsection \<open>Dropping, scrubbing and sorting\<close>

lemma once_weaken: "(\<And>r. path' r = path r \<or> path' r = None) \<Longrightarrow> once path rs \<Longrightarrow> once path' rs"
proof -
  assume sub: "\<And>r. path' r = path r \<or> path' r = None" and o1: "once path rs"
  have "filter (\<lambda>r. path' r \<noteq> None) rs = filter (\<lambda>r. path' r \<noteq> None) (filter (\<lambda>r. path r \<noteq> None) rs)"
    unfolding filter_filter by (rule filter_cong [OF refl]) (use sub in metis)
  then have "distinct (map path (filter (\<lambda>r. path' r \<noteq> None) rs))"
    using o1 unfolding once_def by (simp only: distinct_map_filter)
  moreover have "map path' (filter (\<lambda>r. path' r \<noteq> None) rs) = map path (filter (\<lambda>r. path' r \<noteq> None) rs)"
    using sub by (intro map_cong) (auto, metis option.discI)
  ultimately show ?thesis by (simp only: once_def)
qed

lemma once_filter: "once path rs \<Longrightarrow> once path (filter P rs)"
proof -
  assume "once path rs"
  then have "distinct (map path (filter P (filter (\<lambda>r. path r \<noteq> None) rs)))"
    by (simp only: once_def distinct_map_filter)
  then show ?thesis by (simp only: once_def filter_filter conj_commute)
qed

lemma once_mset: "mset rs' = mset rs \<Longrightarrow> once path rs' = once path rs"
proof -
  assume "mset rs' = mset rs"
  then have "mset (map path (filter (\<lambda>r. path r \<noteq> None) rs')) = mset (map path (filter (\<lambda>r. path r \<noteq> None) rs))"
    by (simp add: mset_filter)
  then show ?thesis unfolding once_def by (rule mset_eq_imp_distinct_iff)
qed

lemma upgrade_collect [simp]:
  "upgrade (q_infos (collect held q)) r = (if r \<in> set held \<union> set (owners q) then upgrade (q_infos q) r else None)"
  by (auto simp: collect_def upgrade_def)

lemma collect_simps [simp]:
  "q_jobs (collect held q) = q_jobs q" "q_scheduled (collect held q) = q_scheduled q"
  "q_inner (collect held q) = q_inner q" "q_bufs (collect held q) = q_bufs q"
  "owners (collect held q) = owners q" "length (q_infos (collect held q)) = length (q_infos q)"
  "collect held (q\<lparr>q_bufs := bufs\<rparr>) = (collect held q)\<lparr>q_bufs := bufs\<rparr>"
  by (simp_all add: collect_def owners_def)

lemma arena_eqI: "length h = length h' \<Longrightarrow> (\<And>r. upgrade h r = upgrade h' r) \<Longrightarrow> h = h'"
  by (rule nth_equalityI) (auto simp: upgrade_def split: if_splits, metis)

lemma collect_collect [simp]: "collect [] (collect held q) = collect [] q"
proof -
  have "q_infos (collect [] (collect held q)) = q_infos (collect [] q)"
    by (rule arena_eqI) (simp only: collect_simps, simp)
  then show ?thesis by (intro queues.equality) simp_all
qed

lemma queues_ok_drop:
  assumes ok: "queues_ok sh q" and none: "hm_get (q_scheduled q) p = None"
  shows "queues_ok sh (collect [] (q\<lparr>q_jobs := hm_remove p (q_jobs q)\<rparr>))"
proof -
  let ?q1 = "q\<lparr>q_jobs := hm_remove p (q_jobs q)\<rparr>" and ?jobs = "hm_remove p (q_jobs q)"
  let ?q = "collect [] ?q1"
  have wf: "hm_wf (q_jobs q)" using ok by (simp add: queues_ok_def jobs_inv_def)
  have get: "hm_get ?jobs p' = Some r \<longleftrightarrow> p' \<noteq> p \<and> hm_get (q_jobs q) p' = Some r" for p' r
    by (simp add: delete_conv)
  have wf': "hm_wf ?jobs" using wf by simp
  have owner: "r \<in> set (owners ?q1) \<longleftrightarrow> (\<exists>p'. hm_get ?jobs p' = Some r)" for r
  proof -
    have "r \<in> snd ` set ?jobs \<longleftrightarrow> (\<exists>p'. hm_get ?jobs p' = Some r)"
      using hm_get_in [OF wf'] by force
    moreover have "\<exists>p'. hm_get ?jobs p' = Some (it_step_info it)" if "(p', it) \<in> set (q_scheduled q)" for p' it
    proof -
      have "hm_get (q_scheduled q) p' = Some it"
        using that ok hm_get_in [of "q_scheduled q"] by (simp add: queues_ok_def sched_inv_def)
      with none queues_okD(3) [OF ok] show ?thesis unfolding get by (metis option.discI)
    qed
    ultimately show ?thesis by (auto simp: owners_def)
  qed
  have path: "info_path sh (q_infos ?q) r = (if \<exists>p'. hm_get ?jobs p' = Some r then info_path sh (q_infos q) r else None)"
    and flag: "flag_of (q_infos ?q) r = (if \<exists>p'. hm_get ?jobs p' = Some r then flag_of (q_infos q) r else None)" for r
    unfolding info_path_def flag_of_def upgrade_collect by (simp_all add: owner)
  have "jobs_inv (q_jobs ?q) (info_path sh (q_infos ?q))"
    unfolding jobs_inv_def path using wf' queues_okD(1) [OF ok] by (auto simp: get)
  moreover have "sched_inv (q_jobs ?q) (q_scheduled ?q) (flag_of (q_infos ?q)) (active_of (q_bufs ?q))"
  proof -
    have "hm_get ?jobs p' = Some (it_step_info it)" if "hm_get (q_scheduled q) p' = Some it" for p' it
      using that none queues_okD(3) [OF ok] unfolding get by (metis option.discI)
    with ok show ?thesis unfolding sched_inv_def flag queues_ok_def by (simp split: if_splits)
  qed
  moreover have "bufs_inv (q_inner ?q) (info_path sh (q_infos ?q)) (entries_of (q_bufs ?q))"
    using ok once_weaken [of "info_path sh (q_infos ?q)" "info_path sh (q_infos q)"]
    unfolding queues_ok_def bufs_inv_def by (simp add: path)
  ultimately show ?thesis using ok by (simp add: queues_ok_def)
qed

lemma queues_ok_entries:
  assumes ok: "queues_ok sh q"
    and f: "\<And>x. active_runnable (f x) = active_runnable x" "\<And>x. bq_jobs (f x) = g (bq_jobs x)"
    and g: "\<And>rs. once (info_path sh (q_infos q)) rs \<Longrightarrow> once (info_path sh (q_infos q)) (g rs)" "\<And>rs. set (g rs) \<subseteq> set rs"
  shows "queues_ok sh (q\<lparr>q_bufs := modify (q_bufs q) b f\<rparr>)"
proof -
  have "entries_of (modify (q_bufs q) b f) c = Some rs \<longleftrightarrow>
      (\<exists>rs0. entries_of (q_bufs q) c = Some rs0 \<and> rs = (if c = b then g rs0 else rs0))" for c rs
    by (auto simp: entries_of_modify [of f g, OF f(2)])
  with ok g show ?thesis
    by (auto simp: queues_ok_def bufs_inv_def active_of_same [of f, OF f(1)]) (blast dest: subsetD)+
qed

lemma queues_ok_scrub:
  "queues_ok sh q \<Longrightarrow> queues_ok sh (q\<lparr>q_bufs := modify (q_bufs q) b (scrube_jobs ih)\<rparr>)"
  by (rule queues_ok_entries [where g = "filter (\<lambda>r. upgrade ih r \<noteq> None)"])
    (auto simp: scrube_jobs_def Let_def once_filter)

lemma queues_ok_scrub_all: "queues_ok sh q \<Longrightarrow> queues_ok sh (remove_all_weak_pointer q)"
proof -
  have "queues_ok sh q \<Longrightarrow> queues_ok sh (q\<lparr>q_bufs := fold (\<lambda>(_, r) bufs. modify bufs r (scrube_jobs ih)) qs (q_bufs q)\<rparr>)"
    for qs :: "(string \<times> qref) list" and q ih
  proof (induction qs arbitrary: q)
    case (Cons e qs)
    obtain s r where e: "e = (s, r)" by (cases e)
    from Cons.IH [OF queues_ok_scrub [OF Cons.prems, of r ih]] show ?case by (simp add: e)
  qed simp
  then show "queues_ok sh q \<Longrightarrow> queues_ok sh (remove_all_weak_pointer q)"
    by (simp add: remove_all_weak_pointer_def)
qed

lemma collect_same:
  assumes ok: "queues_ok sh q"
  shows "collect [] q = q"
proof -
  have wf: "hm_wf (q_jobs q)" using ok by (simp add: queues_ok_def jobs_inv_def)
  have "a \<in> set (owners q)" if live: "upgrade (q_infos q) a \<noteq> None" for a
  proof -
    obtain p where "info_path sh (q_infos q) a = Some p"
      using live unfolding info_path_None [of sh, symmetric] by blast
    then have "(p, a) \<in> set (q_jobs q)" using queues_okD(2) [OF ok] hm_get_in [OF wf] by blast
    then show ?thesis by (force simp: owners_def)
  qed
  then have "q_infos (collect [] q) = q_infos q"
    by (intro arena_eqI) (simp, metis Un_iff upgrade_collect)
  then show ?thesis by (intro queues.equality) simp_all
qed

lemma queues_ok_remove_job:
  assumes ok: "queues_ok sh q" and free: "\<And>p. info_path sh (q_infos q) r = Some p \<Longrightarrow> hm_get (q_scheduled q) p = None"
  shows "queues_ok sh (collect [] (queues_remove_job sh held r b q))"
proof (cases "info_path sh (q_infos q) r")
  case None
  then have "queues_remove_job sh held r b q = q" by (simp add: queues_remove_job_def)
  with collect_same [OF ok] ok show ?thesis by simp
next
  case (Some p)
  from queues_ok_scrub [OF queues_ok_drop [OF ok free [OF Some]]] Some show ?thesis
    by (simp add: queues_remove_job_def Let_def)
qed

lemma refresh_stats_keeps:
  "info_path sh' (refresh_stats ns jh sh rs ih) = info_path sh' ih \<and> flag_of (refresh_stats ns jh sh rs ih) = flag_of ih \<and>
   length (refresh_stats ns jh sh rs ih) = length ih"
  by (induction rs arbitrary: ih)
    (simp_all add: refresh_stats_def update_internal_stats_def flag_of_same)

lemma sort_jobs_entries:
  assumes "sort_jobs ns jh sh fn ih bq = (ih', bq')"
  shows "info_path sh' ih' = info_path sh' ih \<and> flag_of ih' = flag_of ih \<and> length ih' = length ih \<and>
    active_runnable bq' = active_runnable bq \<and> mset (bq_jobs bq') = mset (bq_jobs bq)"
  using assms refresh_stats_keeps by (auto simp: sort_jobs_def Let_def)

lemma queues_ok_replace:
  assumes ok: "queues_ok sh q" and bq: "upgrade (q_bufs q) b = Some bq"
    and infos: "info_path sh ih' = info_path sh (q_infos q)" "flag_of ih' = flag_of (q_infos q)" "length ih' = length (q_infos q)"
    and act: "active_runnable bq' = active_runnable bq"
    and jobs: "once (info_path sh (q_infos q)) (bq_jobs bq')" "\<forall>r \<in> set (bq_jobs bq'). r < length (q_infos q)"
  shows "queues_ok sh (q\<lparr>q_infos := ih', q_bufs := modify (q_bufs q) b (\<lambda>_. bq')\<rparr>)"
proof -
  have "entries_of (modify (q_bufs q) b (\<lambda>_. bq')) = (entries_of (q_bufs q))(b := Some (bq_jobs bq'))"
    using bq by (intro ext) (simp add: entries_of_def)
  moreover have "active_of (modify (q_bufs q) b (\<lambda>_. bq')) = active_of (q_bufs q)"
    using bq act by (intro ext) (simp add: active_of_def)
  ultimately show ?thesis using ok infos jobs
    by (auto simp: queues_ok_def bufs_inv_def)
qed

lemma queues_ok_sort_one: "queues_ok sh q \<Longrightarrow> queues_ok sh (sort_one ns jh sh' fn b q)"
proof (cases "upgrade (q_bufs q) b")
  case (Some bq)
  assume ok: "queues_ok sh q"
  obtain ih' bq' where sj: "sort_jobs ns jh sh' fn (q_infos q) bq = (ih', bq')" by fastforce
  note e = sort_jobs_entries [OF sj, of sh]
  have "entries_of (q_bufs q) b = Some (bq_jobs bq)" using Some by (simp add: entries_of_def)
  with ok e have "once (info_path sh (q_infos q)) (bq_jobs bq')" "\<forall>r \<in> set (bq_jobs bq'). r < length (q_infos q)"
    using once_mset [of "bq_jobs bq'" "bq_jobs bq"] mset_eq_setD [of "bq_jobs bq'" "bq_jobs bq"]
    by (auto simp: queues_ok_def bufs_inv_def)
  with queues_ok_replace [OF ok Some] e sj Some show ?thesis by (simp add: sort_one_def)
qed (simp add: sort_one_def)

lemma queues_ok_sort: "queues_ok sh q \<Longrightarrow> queues_ok sh (sort_queues ns jh sh' fn q)"
proof -
  have "queues_ok sh q \<Longrightarrow> queues_ok sh (fold (\<lambda>(_, r). sort_one ns jh sh' fn r) qs q)" for qs :: "(string \<times> qref) list" and q
    by (induction qs arbitrary: q) (auto simp: queues_ok_sort_one)
  then show "queues_ok sh q \<Longrightarrow> queues_ok sh (sort_queues ns jh sh' fn q)"
    by (simp add: sort_queues_def)
qed

subsection \<open>New jobs\<close>

lemma queues_ok_ensure:
  assumes ok: "queues_ok sh q" and en: "ensure_queue s q = (q', b)"
  shows "queues_ok sh q' \<and> entries_of (q_bufs q') b \<noteq> None \<and> q_infos q' = q_infos q \<and> q_jobs q' = q_jobs q \<and>
    q_scheduled q' = q_scheduled q"
proof (cases "hm_get (q_inner q) s")
  case (Some r)
  with ok en show ?thesis by (auto simp: ensure_queue_def queues_ok_def bufs_inv_def)
next
  case None
  then obtain bufs where al: "alloc (q_bufs q) build_queue_new = (bufs, b)"
    and q': "q' = q\<lparr>q_bufs := bufs, q_inner := hm_insert s b (q_inner q)\<rparr>"
    using en by (auto simp: ensure_queue_def split: prod.splits)
  note cell = arena.get_new [OF al] and fresh = arena.new_fresh [OF al]
  have ent: "entries_of bufs = (entries_of (q_bufs q))(b := Some [])"
    and act: "active_of bufs = (active_of (q_bufs q))(b := Some 0)"
    by (auto simp: entries_of_def active_of_def cell build_queue_new_def)
  have "it_build_queue it \<noteq> b" if "(p, it) \<in> set (q_scheduled q)" for p it
  proof -
    have "hm_get (q_scheduled q) p = Some it"
      using that ok hm_get_in [of "q_scheduled q"] by (simp add: queues_ok_def sched_inv_def)
    then have "active_of (q_bufs q) (it_build_queue it) \<noteq> None" by (rule queues_okD(4) [OF ok])
    with fresh show ?thesis by (auto simp: active_of_def)
  qed
  then have zero: "scheduled_on b (q_scheduled q) = 0"
    by (auto simp: scheduled_on_def filter_empty_conv)
  have "sched_inv (q_jobs q) (q_scheduled q) (flag_of (q_infos q)) (active_of bufs)"
    using ok zero unfolding queues_ok_def sched_inv_def act by auto
  moreover have "bufs_inv (q_inner q') (info_path sh (q_infos q)) (entries_of bufs)"
    using ok None unfolding queues_ok_def bufs_inv_def q' ent
    by (auto simp: update_conv once_def split: if_splits)
  ultimately show ?thesis
    using ok by (auto simp: queues_ok_def q' ent split: if_splits)
qed

lemma queues_ok_submit:
  assumes ok: "queues_ok sh q" and new: "\<not> already_scheduled i"
    and sub: "submit_job sh i (q, submit) = (q', submit')"
    and bound: "\<forall>r \<in> set submit. r < length (q_infos q)"
  shows "queues_ok sh q' \<and> (\<forall>r \<in> set submit'. r < length (q_infos q'))"
proof (cases "hm_get (q_jobs q) (drv_path (deref sh (si_step i))) = None \<and> \<not> finished (deref sh (si_step i))")
  case False
  with sub ok bound show ?thesis by (auto simp: submit_job_def Let_def)
next
  case True
  let ?p = "drv_path (deref sh (si_step i))"
  obtain infos r where al: "alloc (q_infos q) i = (infos, r)"
    and q': "q' = q\<lparr>q_infos := infos, q_jobs := hm_insert ?p r (q_jobs q)\<rparr>" and s': "submit' = submit @ [r]"
    using sub True by (auto simp: submit_job_def Let_def split: prod.splits)
  note cell = arena.get_new [OF al] and fresh = arena.new_fresh [OF al]
  have len: "r = length (q_infos q)" "length infos = Suc r" using al by (auto simp: alloc_def)
  have path: "info_path sh infos = (info_path sh (q_infos q))(r := Some ?p)"
    and flag: "flag_of infos = (flag_of (q_infos q))(r := Some False)"
    using new by (auto simp: info_path_def flag_of_def cell)
  have none: "info_path sh (q_infos q) r = None" using fresh by (simp add: info_path_def)
  have get: "hm_get (hm_insert ?p r (q_jobs q)) p' = Some r' \<longleftrightarrow>
      (if r' = r then p' = ?p else hm_get (q_jobs q) p' = Some r')" for p' r'
    using True queues_okD(1) [OF ok, of p' r] none by (auto simp: update_conv)
  have "jobs_inv (hm_insert ?p r (q_jobs q)) (info_path sh infos)"
    using ok unfolding jobs_inv_def path get by (auto simp: queues_ok_def jobs_inv_def)
  moreover have "sched_inv (hm_insert ?p r (q_jobs q)) (q_scheduled q) (flag_of infos) (active_of (q_bufs q))"
  proof -
    have ne: "it_step_info it \<noteq> r" if "hm_get (q_scheduled q) p' = Some it" for p' it
      using queues_okD(1,3) [OF ok] that none by (metis option.discI)
    then show ?thesis
      using ok unfolding sched_inv_def flag get queues_ok_def by auto
  qed
  moreover have "bufs_inv (q_inner q) (info_path sh infos) (entries_of (q_bufs q))"
  proof -
    have "once (info_path sh infos) rs" if "entries_of (q_bufs q) b = Some rs" for b rs
    proof -
      have "r \<notin> set rs" using ok that len unfolding queues_ok_def by blast
      then have "\<forall>x \<in> set rs. info_path sh infos x = info_path sh (q_infos q) x" by (auto simp: path)
      then have "map (info_path sh infos) (filter (\<lambda>x. info_path sh infos x \<noteq> None) rs) =
          map (info_path sh (q_infos q)) (filter (\<lambda>x. info_path sh (q_infos q) x \<noteq> None) rs)"
        by (intro map_cong filter_cong) auto
      with queues_okD(7) [OF ok that] show ?thesis by (simp only: once_def)
    qed
    with ok show ?thesis by (simp add: queues_ok_def bufs_inv_def)
  qed
  ultimately show ?thesis
    using ok bound len by (fastforce simp: queues_ok_def q' s')
qed

lemma push_job_once:
  assumes "once (info_path sh ih) jobs" and "push_job sh ih now j (jobs, wait) = (jobs', wait')"
  shows "once (info_path sh ih) jobs' \<and> set jobs' \<subseteq> insert j (set jobs)"
proof (cases "upgrade ih j = None \<or> list_ex (\<lambda>v. info_path sh ih v = info_path sh ih j) jobs")
  case True
  with assms show ?thesis by (auto simp: push_job_def split: option.splits)
next
  case False
  then have j: "jobs' = jobs @ [j]" using assms(2) by (auto simp: push_job_def split: option.splits)
  have "info_path sh ih j \<notin> info_path sh ih ` set jobs"
    using False by (auto simp: list_ex_iff)
  with assms(1) show ?thesis unfolding j once_def by auto
qed

lemma push_jobs_once:
  "once (info_path sh ih) jobs \<Longrightarrow> fold (push_job sh ih now) js (jobs, wait) = (jobs', wait') \<Longrightarrow>
   once (info_path sh ih) jobs' \<and> set jobs' \<subseteq> set js \<union> set jobs"
proof (induction js arbitrary: jobs wait)
  case (Cons j js)
  obtain jobs1 wait1 where one: "push_job sh ih now j (jobs, wait) = (jobs1, wait1)" by fastforce
  from Cons.IH [of jobs1 wait1] push_job_once [OF Cons.prems(1) one] Cons.prems(2) one show ?case
    by auto
qed simp

lemma queues_ok_submits:
  "queues_ok sh q \<Longrightarrow> list_all (\<lambda>i. \<not> already_scheduled i) is \<Longrightarrow> \<forall>r \<in> set submit. r < length (q_infos q) \<Longrightarrow>
   fold (submit_job sh) is (q, submit) = (q', submit') \<Longrightarrow>
   queues_ok sh q' \<and> (\<forall>r \<in> set submit'. r < length (q_infos q'))"
proof (induction "is" arbitrary: q submit)
  case (Cons i is')
  obtain q1 s1 where one: "submit_job sh i (q, submit) = (q1, s1)" by fastforce
  from queues_ok_submit [OF Cons.prems(1) _ one Cons.prems(3)] Cons.prems(2)
  have "queues_ok sh q1 \<and> (\<forall>r \<in> set s1. r < length (q_infos q1))" by simp
  with Cons.IH [of q1 s1] Cons.prems(2,4) one show ?case by simp
qed simp

lemma queues_ok_insert:
  assumes ok: "queues_ok sh q" and new: "list_all (\<lambda>i. \<not> already_scheduled i) is"
  shows "queues_ok sh (queues_insert_new_jobs ns jh sh s is now fn q)"
proof -
  obtain q1 submit where s1: "fold (submit_job sh) is (q, []) = (q1, submit)" by fastforce
  have ok1: "queues_ok sh q1" "\<forall>r \<in> set submit. r < length (q_infos q1)"
    using queues_ok_submits [OF ok new _ s1] by simp_all
  obtain q2 b where s2: "ensure_queue s q1 = (q2, b)" by fastforce
  note e = queues_ok_ensure [OF ok1(1) s2]
  then obtain bq where bq: "upgrade (q_bufs q2) b = Some bq" by (auto simp: entries_of_def)
  obtain jobs wait where pj: "fold (push_job sh (q_infos q2) now) submit (bq_jobs bq, 0) = (jobs, wait)" by fastforce
  let ?bq1 = "scrube_jobs (q_infos q2) (bq\<lparr>bq_jobs := jobs, wait_time_ms := wait_time_ms bq + wait\<rparr>)"
  obtain ih' bq' where sj: "sort_jobs ns jh sh fn (q_infos q2) ?bq1 = (ih', bq')" by fastforce
  note k = sort_jobs_entries [OF sj, of sh]
  have ent: "entries_of (q_bufs q2) b = Some (bq_jobs bq)" using bq by (simp add: entries_of_def)
  have o1: "once (info_path sh (q_infos q2)) jobs \<and> set jobs \<subseteq> set submit \<union> set (bq_jobs bq)"
    using push_jobs_once [OF queues_okD(7) [OF conjunct1 [OF e] ent] pj] .
  have "bq_jobs ?bq1 = filter (\<lambda>r. upgrade (q_infos q2) r \<noteq> None) jobs" by (simp add: scrube_jobs_def Let_def)
  then have o2: "once (info_path sh (q_infos q2)) (bq_jobs ?bq1)" "set (bq_jobs ?bq1) \<subseteq> set jobs"
    using once_filter o1 by auto
  have bound: "\<forall>r \<in> set (bq_jobs bq). r < length (q_infos q2)"
    using e ent unfolding queues_ok_def by blast
  have "once (info_path sh (q_infos q2)) (bq_jobs bq')" "\<forall>r \<in> set (bq_jobs bq'). r < length (q_infos q2)"
    using o1 o2 k once_mset [of "bq_jobs bq'" "bq_jobs ?bq1"] mset_eq_setD [of "bq_jobs bq'" "bq_jobs ?bq1"]
      ok1(2) e bound by auto
  moreover have "active_runnable bq' = active_runnable bq" using k by (simp add: scrube_jobs_def Let_def)
  ultimately have "queues_ok sh (q2\<lparr>q_infos := ih', q_bufs := modify (q_bufs q2) b (\<lambda>_. bq')\<rparr>)"
    using queues_ok_replace [OF conjunct1 [OF e] bq] k by blast
  then show ?thesis
    using s1 s2 bq pj sj by (simp add: queues_insert_new_jobs_def bq_insert_new_jobs_def)
qed

subsection \<open>The queues over time\<close>

text \<open>
  The operations of the runner on the queues, each with the guard its callers establish, and the
  changes of the step graph that keep the derivation paths of the queued steps. A job is taken out
  of the queues only when it is not scheduled: \<^verbatim>\<open>succeed_step\<close> and \<^verbatim>\<open>fail_step\<close> unschedule it first,
  \<^verbatim>\<open>process\<close> skips scheduled jobs.
\<close>

inductive queue_step :: "step arena \<times> queues \<Rightarrow> step arena \<times> queues \<Rightarrow> bool" where
  insert_jobs: "list_all (\<lambda>i. \<not> already_scheduled i) is \<Longrightarrow>
    queue_step (sh, q) (sh, queues_insert_new_jobs ns jh sh s is now fn q)"
| ensure: "queue_step (sh, q) (sh, ensure_queues_for_systems ss q)"
| scrub: "queue_step (sh, q) (sh, remove_all_weak_pointer q)"
| schedule: "flag_of (q_infos q) r = Some False \<Longrightarrow> entries_of (q_bufs q) b \<noteq> None \<Longrightarrow>
    queue_step (sh, q) (sh, add_job_to_scheduled sh r b m q)"
| unschedule: "remove_job_from_scheduled p q = (q', it) \<Longrightarrow> queue_step (sh, q) (sh, q')"
| remove: "(\<And>p. info_path sh (q_infos q) r = Some p \<Longrightarrow> hm_get (q_scheduled q) p = None) \<Longrightarrow>
    queue_step (sh, q) (sh, collect [] (queues_remove_job sh held r b q))"
| remove_path: "hm_get (q_scheduled q) p = None \<Longrightarrow> queue_step (sh, q) (sh, remove_job_by_path [] p q)"
| sort: "queue_step (sh, q) (sh, sort_queues ns jh sh' fn q)"
| cancel: "queue_step (sh, q) (sh, q\<lparr>q_infos := modify (q_infos q) r (set_cancelled v)\<rparr>)"
| counters: "queue_step (sh, q) (sh, q\<lparr>q_bufs := modify (q_bufs q) b
    (set_nr_runnable_disabled d \<circ> set_nr_runnable_waiting w)\<rparr>)"
| graph: "(\<And>r i. upgrade (q_infos q) r = Some i \<Longrightarrow>
      drv_path (deref sh' (si_step i)) = drv_path (deref sh (si_step i))) \<Longrightarrow> queue_step (sh, q) (sh', q)"

lemma queues_ok_ensures: "queues_ok sh q \<Longrightarrow> queues_ok sh (ensure_queues_for_systems ss q)"
proof (induction ss arbitrary: q)
  case (Cons s ss)
  obtain q1 b where "ensure_queue s q = (q1, b)" by fastforce
  with Cons queues_ok_ensure [OF Cons.prems] show ?case
    by (simp add: ensure_queues_for_systems_def)
qed (simp add: ensure_queues_for_systems_def)

lemma queues_ok_graph:
  assumes "queues_ok sh q"
    and "\<And>r i. upgrade (q_infos q) r = Some i \<Longrightarrow> drv_path (deref sh' (si_step i)) = drv_path (deref sh (si_step i))"
  shows "queues_ok sh' q"
proof -
  have "info_path sh' (q_infos q) r = info_path sh (q_infos q) r" for r
    using assms(2) by (cases "upgrade (q_infos q) r") (auto simp: info_path_def)
  then have "info_path sh' (q_infos q) = info_path sh (q_infos q)" by (rule ext)
  with assms(1) show ?thesis by (simp add: queues_ok_def)
qed

lemma queues_ok_counters:
  "queues_ok sh q \<Longrightarrow> queues_ok sh (q\<lparr>q_bufs := modify (q_bufs q) b (set_nr_runnable_disabled d \<circ> set_nr_runnable_waiting w)\<rparr>)"
  by (rule queues_ok_buf) (simp_all add: set_nr_runnable_disabled_def set_nr_runnable_waiting_def)

interpretation queues_life:
  invariant_system "\<lambda>(sh, q). q = queues_new" queue_step "\<lambda>(sh, q). queues_ok sh q"
proof
  show "case x of (sh, q) \<Rightarrow> queues_ok sh q" if "case x of (sh, q) \<Rightarrow> q = queues_new" for x
    using that by (auto simp: queues_ok_new)
  show "case y of (sh, q) \<Rightarrow> queues_ok sh q" if "case x of (sh, q) \<Rightarrow> queues_ok sh q" "queue_step x y" for x y
    using that(2,1)
  proof (induction rule: queue_step.induct)
    case (graph q sh' sh)
    then show ?case using queues_ok_graph [of sh q sh'] by simp
  qed (simp_all add: queues_ok_insert queues_ok_ensures queues_ok_scrub_all queues_ok_schedule queues_ok_unschedule
      queues_ok_remove_job queues_ok_drop remove_job_by_path_def queues_ok_sort queues_ok_info set_cancelled_def
      queues_ok_counters)
qed

text \<open>One round of the dispatch loop keeps the queues consistent, whatever the processor does.\<close>

locale processor_contract =
  fixes steps_of :: "'w \<Rightarrow> step arena"
    and processor :: "'w \<Rightarrow> queues \<Rightarrow> job_constraint \<Rightarrow> 'w \<times> (error + realise_step_result)"
  assumes keeps_paths: "processor w q c = (w', res) \<Longrightarrow> upgrade (q_infos q) r = Some i \<Longrightarrow>
    drv_path (deref (steps_of w') (si_step i)) = drv_path (deref (steps_of w) (si_step i))"
begin

lemma process_job_ok:
  assumes ok: "queues_ok (steps_of w) q" and b: "entries_of (q_bufs q) b \<noteq> None"
    and run: "process_job steps_of processor now s b j ((w, q), aw, nw, nd) = ((w', q'), aw', nw', nd')"
  shows "queues_ok (steps_of w') q' \<and> (\<forall>c. entries_of (q_bufs q) c \<noteq> None \<longrightarrow> entries_of (q_bufs q') c \<noteq> None)"
proof (cases "upgrade (q_infos q) j")
  case None
  with run ok show ?thesis by (simp add: process_job_def)
next
  case (Some i)
  let ?s = "deref (steps_of w) (si_step i)"
  show ?thesis
  proof (cases "already_scheduled i \<or> finished ?s \<or> now < after (atomic_state ?s)")
    case True
    then have "w' = w \<and> q' = q"
      using run Some unfolding process_job_def Let_def by (auto split: if_splits)
    with ok show ?thesis by simp
  next
    case False
    obtain w1 res where p: "processor w q \<lparr>jc_job = j, jc_system = s, jc_queue_features = []\<rparr> = (w1, res)" by fastforce
    have ok1: "queues_ok (steps_of w1) q"
      using keeps_paths [OF p] by (intro queues_ok_graph [OF ok]) simp
    have idle: "flag_of (q_infos q) j = Some False" using Some False by (simp add: flag_of_def)
    obtain q1 dw where q1: "(case res of
          Inr (Realise_Valid m) \<Rightarrow> (add_job_to_scheduled (steps_of w1) j b m q, 0)
        | Inr Realise_None \<Rightarrow> (q, 1)
        | Inr MaybeCancelled \<Rightarrow> (queues_remove_job (steps_of w1) [] j b q, 0)
        | Inr Realise_CachedFailure \<Rightarrow> (queues_remove_job (steps_of w1) [] j b q, 0)
        | Inl _ \<Rightarrow> (q, 0)) = (q1, dw :: nat)" by fastforce
    have q1_cases: "q1 = q \<or> (\<exists>m. q1 = add_job_to_scheduled (steps_of w1) j b m q) \<or> q1 = queues_remove_job (steps_of w1) [] j b q"
      using q1 by (auto split: sum.splits realise_step_result.splits)
    have same: "collect [] q = q"
      by (rule collect_same [OF ok1])
    have free: "hm_get (q_scheduled q) p = None" if "info_path (steps_of w1) (q_infos q) j = Some p" for p
      by (rule not_yet_scheduled [OF ok1 that idle])
    have c1: "queues_ok (steps_of w1) (collect [] q1)"
      using q1_cases
    proof (elim disjE exE)
      fix m assume q1: "q1 = add_job_to_scheduled (steps_of w1) j b m q"
      have ok2: "queues_ok (steps_of w1) q1" unfolding q1 by (rule queues_ok_schedule [OF ok1 idle b])
      then show ?thesis by (simp add: collect_same)
    next
      assume "q1 = queues_remove_job (steps_of w1) [] j b q"
      with queues_ok_remove_job [OF ok1 free] show ?thesis by simp
    qed (use ok1 same in simp)
    have ents: "entries_of (q_bufs q1) c \<noteq> None" if "entries_of (q_bufs q) c \<noteq> None" for c
      using q1_cases that
      by (auto simp: add_job_to_scheduled_def queues_remove_job_def Let_def entries_of_def split: option.splits)
    have "(w', q') = (w1, collect [] (q1\<lparr>q_bufs := modify (q_bufs q1) b
        (set_nr_runnable_disabled nd \<circ> set_nr_runnable_waiting (nw + of_nat dw))\<rparr>))"
      using run Some False p q1 by (auto simp: process_job_def Let_def)
    with queues_ok_counters [OF c1] ents show ?thesis
      by (auto simp: entries_of_def)
  qed
qed

lemma process_jobs_ok:
  assumes "queues_ok (steps_of w) q" and "entries_of (q_bufs q) b \<noteq> None"
    and "fold (process_job steps_of processor now s b) js ((w, q), aw, nw, nd) = ((w', q'), aw', nw', nd')"
  shows "queues_ok (steps_of w') q' \<and> (\<forall>c. entries_of (q_bufs q) c \<noteq> None \<longrightarrow> entries_of (q_bufs q') c \<noteq> None)"
  using assms
proof (induction js arbitrary: w q aw nw nd)
  case (Cons j js)
  obtain w1 q1 aw1 nw1 nd1 where
    one: "process_job steps_of processor now s b j ((w, q), aw, nw, nd) = ((w1, q1), aw1, nw1, nd1)"
    by (metis prod.exhaust)
  note k = process_job_ok [OF Cons.prems(1,2) one]
  from Cons.IH [of w1 q1 aw1 nw1 nd1] k Cons.prems(2,3) one show ?case by auto
qed simp

lemma process_ok:
  assumes "queues_ok (steps_of w) q" and "process steps_of processor now w q = ((w', q'), n)"
  shows "queues_ok (steps_of w') q'"
proof -
  have "queues_ok (steps_of w') q'"
    if "queues_ok (steps_of w) q" "fold (process_queue steps_of processor now) qs ((w, q), aw) = ((w', q'), n)" for qs w q aw
    using that
  proof (induction qs arbitrary: w q aw)
    case (Cons e qs)
    obtain s b where e: "e = (s, b)" by (cases e)
    show ?case
    proof (cases "upgrade (q_bufs q) b")
      case None
      with Cons e show ?thesis by (auto simp: process_queue_def)
    next
      case (Some bq)
      obtain w1 q1 aw1 nw1 nd1 where
        js: "fold (process_job steps_of processor now s b) (bq_jobs bq) ((w, q), aw, 0, 0) = ((w1, q1), aw1, nw1, nd1)"
        by (metis prod.exhaust)
      have "queues_ok (steps_of w1) q1"
        using process_jobs_ok [OF Cons.prems(1) _ js] Some by (simp add: entries_of_def)
      with Cons.IH [of w1 q1 aw1] Cons.prems(2) e Some js show ?thesis by (simp add: process_queue_def)
    qed
  qed simp
  with assms show ?thesis by (simp add: process_def)
qed

end

subsection \<open>The order of a queue\<close>

interpretation queue_order: total_preorder_cmp "weak_cmp fn sh ih" for fn sh ih
proof -
  have cmp: "total_preorder_cmp (cmp_fn fn sh)"
    by (cases fn) (simp_all add: cmp_fn_def legacy.total_preorder_cmp_axioms with_rdeps.total_preorder_cmp_axioms)
  show "total_preorder_cmp (weak_cmp fn sh ih)"
  proof
    fix x y z
    show "weak_cmp fn sh ih y x = reverse_ord (weak_cmp fn sh ih x y)"
      by (cases "upgrade ih x"; cases "upgrade ih y")
        (simp_all add: weak_cmp_def, rule total_preorder_cmp.c_swap [OF cmp])
    assume "weak_cmp fn sh ih x y \<noteq> Greater" and "weak_cmp fn sh ih y z \<noteq> Greater"
    then show "weak_cmp fn sh ih x z \<noteq> Greater"
      by (cases "upgrade ih x"; cases "upgrade ih y"; cases "upgrade ih z")
        (auto simp: weak_cmp_def dest: total_preorder_cmp.c_trans [OF cmp])
  qed
qed

lemma cmp_fn_priority:
  "cmp_fn fn sh a b \<noteq> Greater \<Longrightarrow> get_highest_global_priority sh b \<le> get_highest_global_priority sh a"
  using compare_raised_global [of sh a b] legacy.c_swap [of sh b a] with_rdeps.c_swap [of sh b a]
    compare_raised_global [of sh b a]
  by (cases fn) (auto simp: cmp_fn_def not_less [symmetric])

subsection \<open>Properties of the queues\<close>


definition ex_info :: step_info where
  "ex_info = \<lparr>si_step = 0, resolved_drv_path = None, already_scheduled = False, cancelled = False,
     si_runnable_since = 0, lowest_share_used = Fin False 0\<rparr>"

definition ex_steps :: "step arena" where
  "ex_steps = [Some (step_new ''a.drv'')]"

definition ex_queues :: queues where
  "ex_queues = queues_insert_new_jobs False [] ex_steps ''x86_64-linux'' [ex_info] 5 Legacy queues_new"

lemma ex_queues_path: "info_path ex_steps (q_infos ex_queues) 0 = Some ''a.drv''"
  by (simp add: ex_queues_def queues_insert_new_jobs_def submit_job_def Let_def queues_new_def alloc_def
      ensure_queue_def upgrade_def bq_insert_new_jobs_def push_job_def scrube_jobs_def sort_jobs_def refresh_stats_def
      info_path_def ex_info_def ex_steps_def deref_def step_new_def modify_def build_queue_new_def update_internal_stats_def)


text \<open>
  adding jobs to a queue leaves it without dead entries, in the scheduling order (so no step
  stands behind one of lower global priority), without losing or doubling a derivation: the paths
  in the queue afterwards are the paths of the live entries and live new jobs; and the published
  length is the length.
\<close>

lemma push_jobs_paths:
  "fold (push_job sh ih now) js (jobs, wait) = (jobs', wait') \<Longrightarrow>
   info_path sh ih ` set jobs' \<union> {None} = info_path sh ih ` (set jobs \<union> set js) \<union> {None}"
proof (induction js arbitrary: jobs wait)
  case (Cons j js)
  obtain jobs1 wait1 where one: "push_job sh ih now j (jobs, wait) = (jobs1, wait1)" by fastforce
  have "info_path sh ih ` set jobs1 \<union> {None} = info_path sh ih ` (set jobs \<union> {j}) \<union> {None}"
  proof (cases "upgrade ih j")
    case None
    with one show ?thesis by (auto simp: push_job_def info_path_def)
  next
    case (Some i)
    with one show ?thesis by (auto simp: push_job_def list_ex_iff split: if_splits) (metis imageI)
  qed
  moreover have "info_path sh ih ` set jobs' \<union> {None} = info_path sh ih ` (set jobs1 \<union> set js) \<union> {None}"
    using Cons.IH [of jobs1 wait1] Cons.prems one by simp
  ultimately have "info_path sh ih ` set jobs' \<union> {None} =
      (info_path sh ih ` (set jobs \<union> {j}) \<union> {None}) \<union> info_path sh ih ` set js"
    by (metis Un_assoc Un_commute image_Un)
  then show ?case by (simp add: image_Un Un_ac)
qed simp

theorem insert_new_jobs_sorted:
  assumes "bq_insert_new_jobs ns jh sh ih new now fn q = (ih', q')"
  shows "(\<forall>r \<in> set (bq_jobs q'). upgrade ih' r \<noteq> None) \<and>
    sorted_wrt (\<lambda>a b. weak_cmp fn sh ih' a b \<noteq> Greater) (bq_jobs q') \<and>
    sorted_wrt (\<lambda>a b. \<forall>x y. upgrade ih' a = Some x \<longrightarrow> upgrade ih' b = Some y \<longrightarrow>
      get_highest_global_priority sh y \<le> get_highest_global_priority sh x) (bq_jobs q') \<and>
    info_path sh ih' ` set (bq_jobs q') = info_path sh ih ` (set (bq_jobs q) \<union> set new) - {None} \<and>
    total_runnable q' = of_nat (length (bq_jobs q'))"
proof -
  obtain jobs wait where pj: "fold (push_job sh ih now) new (bq_jobs q, 0) = (jobs, wait)" by fastforce
  let ?q1 = "scrube_jobs ih (q\<lparr>bq_jobs := jobs, wait_time_ms := wait_time_ms q + wait\<rparr>)"
  have sj: "sort_jobs ns jh sh fn ih ?q1 = (ih', q')"
    using assms pj by (simp add: bq_insert_new_jobs_def)
  note k = sort_jobs_entries [OF sj, of sh]
  have jobs': "bq_jobs q' = sort_by (weak_cmp fn sh ih') (bq_jobs ?q1)" and tot: "total_runnable q' = total_runnable ?q1"
    using sj by (auto simp: sort_jobs_def Let_def)
  have sorted: "sorted_wrt (\<lambda>a b. weak_cmp fn sh ih' a b \<noteq> Greater) (bq_jobs q')"
    unfolding jobs' by (rule queue_order.sort_by_sorted)
  have q1: "bq_jobs ?q1 = filter (\<lambda>r. upgrade ih r \<noteq> None) jobs" "total_runnable ?q1 = of_nat (length (bq_jobs ?q1))"
    by (simp_all add: scrube_jobs_def Let_def)
  have set': "set (bq_jobs q') = {r \<in> set jobs. upgrade ih r \<noteq> None}" unfolding jobs' q1 by auto
  have "upgrade ih' r \<noteq> None" if "r \<in> set (bq_jobs q')" for r
    using that k info_path_None [of sh ih r] info_path_None [of sh ih' r] by (auto simp: set')
  moreover have "info_path sh ih' ` set (bq_jobs q') = info_path sh ih ` (set (bq_jobs q) \<union> set new) - {None}"
  proof -
    have diff: "A - {None} = B - {None}" if "A \<union> {None} = B \<union> {None}" for A B :: "store_path option set"
      using that by blast
    have "info_path sh ih' ` set (bq_jobs q') = info_path sh ih ` set jobs - {None}"
      using k unfolding set' info_path_None [of sh, symmetric] by auto
    then show ?thesis by (rule trans) (rule diff [OF push_jobs_paths [OF pj]])
  qed
  moreover have "sorted_wrt (\<lambda>a b. \<forall>x y. upgrade ih' a = Some x \<longrightarrow> upgrade ih' b = Some y \<longrightarrow>
      get_highest_global_priority sh y \<le> get_highest_global_priority sh x) (bq_jobs q')"
    using sorted by (rule sorted_wrt_mono_rel [rotated]) (auto simp: weak_cmp_def intro: cmp_fn_priority)
  moreover have "total_runnable q' = of_nat (length (bq_jobs q'))"
    by (simp add: tot q1(2) jobs')
  ultimately show ?thesis using sorted by blast
qed

theorem insert_new_jobs_sorted_witness:
  "\<exists>ih' q'. bq_insert_new_jobs False [] ex_steps [Some ex_info] [0, 0] 5 Legacy build_queue_new = (ih', q') \<and>
     info_path ex_steps ih' ` set (bq_jobs q') = {Some ''a.drv''}"
proof -
  obtain ih' q' where run: "bq_insert_new_jobs False [] ex_steps [Some ex_info] [0, 0] 5 Legacy build_queue_new = (ih', q')"
    by fastforce
  have "info_path ex_steps [Some ex_info] ` (set (bq_jobs build_queue_new) \<union> set [0, 0]) - {None} = {Some ''a.drv''}"
    by (simp add: build_queue_new_def info_path_def upgrade_def ex_info_def ex_steps_def deref_def step_new_def)
  with insert_new_jobs_sorted [OF run] run show ?thesis by auto
qed

text \<open>
  \<^verbatim>\<open>remove_job\<close> takes the job out of the map but not out of its queue: its caller still holds
  the pointer, so the scrub that follows finds it alive, keeps the entry and counts it as runnable.
  The entry goes away with the next scrub after the caller is done.
\<close>

theorem remove_job_keeps_entry:
  assumes "info_path sh (q_infos q) r = Some p" and "upgrade (q_bufs q) b = Some bq" and "r \<in> set (bq_jobs bq)"
  shows "hm_get (q_jobs (queues_remove_job sh held r b q)) p = None \<and>
    (\<exists>bq'. upgrade (q_bufs (queues_remove_job sh held r b q)) b = Some bq' \<and> r \<in> set (bq_jobs bq') \<and>
       total_runnable bq' = of_nat (length (bq_jobs bq')))"
proof -
  have live: "upgrade (q_infos q) r \<noteq> None" using assms(1) info_path_None [of sh "q_infos q" r] by simp
  let ?q1 = "collect (r # held) (q\<lparr>q_jobs := hm_remove p (q_jobs q)\<rparr>)"
  have eq: "queues_remove_job sh held r b q = ?q1\<lparr>q_bufs := modify (q_bufs ?q1) b (scrube_jobs (q_infos ?q1))\<rparr>"
    using assms(1) by (simp add: queues_remove_job_def Let_def)
  have "upgrade (q_infos ?q1) r \<noteq> None" using live by simp
  with assms(2,3) have "r \<in> set (bq_jobs (scrube_jobs (q_infos ?q1) bq))"
    by (simp add: scrube_jobs_def Let_def)
  moreover have "total_runnable (scrube_jobs (q_infos ?q1) bq) = of_nat (length (bq_jobs (scrube_jobs (q_infos ?q1) bq)))"
    by (simp add: scrube_jobs_def Let_def)
  moreover have "upgrade (q_bufs (queues_remove_job sh held r b q)) b = Some (scrube_jobs (q_infos ?q1) bq)"
    unfolding eq using assms(2) by simp
  moreover have "hm_get (q_jobs (queues_remove_job sh held r b q)) p = None"
    by (simp add: eq delete_conv)
  ultimately show ?thesis by blast
qed

definition ex_cell :: queues where
  "ex_cell = \<lparr>q_jobs = [(''a.drv'', 0)], q_inner = [(''x86_64-linux'', 0)], q_scheduled = [],
     q_infos = [Some ex_info], q_bufs = [Some (build_queue_new\<lparr>bq_jobs := [0]\<rparr>)]\<rparr>"

theorem remove_job_keeps_entry_witness:
  "hm_get (q_jobs (queues_remove_job ex_steps [] 0 0 ex_cell)) ''a.drv'' = None \<and>
   (\<exists>bq'. upgrade (q_bufs (queues_remove_job ex_steps [] 0 0 ex_cell)) 0 = Some bq' \<and> 0 \<in> set (bq_jobs bq'))"
proof -
  have "info_path ex_steps (q_infos ex_cell) 0 = Some ''a.drv''"
    by (simp add: ex_cell_def info_path_def upgrade_def ex_info_def ex_steps_def deref_def step_new_def)
  moreover have "upgrade (q_bufs ex_cell) 0 = Some (build_queue_new\<lparr>bq_jobs := [0]\<rparr>)"
    by (simp add: ex_cell_def upgrade_def)
  ultimately show ?thesis
    using remove_job_keeps_entry [of ex_steps ex_cell 0 "''a.drv''" 0 "build_queue_new\<lparr>bq_jobs := [0]\<rparr>" "[]"] by auto
qed

end
