(* ===== verification/Io.thy ===== *)
theory Io
  imports Prelude
begin

text \<open>
  Fallible stateful code. A handler of the runner takes the state and returns a value or an error
  together with the state it leaves; an error does not undo what was done before it. \<open>bind\<close> is the
  question mark operator, \<open>attempt\<close> the code that looks at a result instead of returning it, and
  \<open>loop_io\<close> an endless \<^verbatim>\<open>loop\<close> left by \<^verbatim>\<open>break\<close>. Properties of handlers are stated with \<open>wp\<close>: it holds of
  a state when the result of running the handler there satisfies the given predicate.
\<close>

type_synonym ('s, 'a) io = "'s \<Rightarrow> (error + 'a) \<times> 's"

definition ok :: "'a \<Rightarrow> ('s, 'a) io" where
  "ok a = (\<lambda>w. (Inr a, w))"

definition fail :: "error \<Rightarrow> ('s, 'a) io" where
  "fail e = (\<lambda>w. (Inl e, w))"

definition bind :: "('s, 'a) io \<Rightarrow> ('a \<Rightarrow> ('s, 'b) io) \<Rightarrow> ('s, 'b) io" where
  "bind m k = (\<lambda>w. case m w of (Inl e, w') \<Rightarrow> (Inl e, w') | (Inr a, w') \<Rightarrow> k a w')"

definition and_then :: "('s, 'a) io \<Rightarrow> ('s, 'b) io \<Rightarrow> ('s, 'b) io" where
  "and_then m k = bind m (\<lambda>_. k)"

definition gets :: "('s \<Rightarrow> 'a) \<Rightarrow> ('s, 'a) io" where
  "gets f = (\<lambda>w. (Inr (f w), w))"

definition update_st :: "('s \<Rightarrow> 's) \<Rightarrow> ('s, unit) io" where
  "update_st f = (\<lambda>w. (Inr (), f w))"

definition of_sum :: "error + 'a \<Rightarrow> ('s, 'a) io" where
  "of_sum r = (\<lambda>w. (r, w))"

definition of_option :: "error \<Rightarrow> 'a option \<Rightarrow> ('s, 'a) io" where
  "of_option e v = (case v of None \<Rightarrow> fail e | Some a \<Rightarrow> ok a)"

text \<open>A loop that does not end and a panic are not results the caller could look at.\<close>

definition fatal :: "error \<Rightarrow> bool" where
  "fatal e \<longleftrightarrow> e = Diverges \<or> e = Panicked"

definition attempt :: "('s, 'a) io \<Rightarrow> ('s, error + 'a) io" where
  "attempt m = (\<lambda>w. case m w of
       (Inl e, w') \<Rightarrow> if fatal e then (Inl e, w') else (Inr (Inl e), w')
     | (Inr a, w') \<Rightarrow> (Inr (Inr a), w'))"

definition ignore_err :: "('s, 'a) io \<Rightarrow> ('s, unit) io" where
  "ignore_err m = bind (attempt m) (\<lambda>_. ok ())"

primrec for_each :: "('a \<Rightarrow> ('s, unit) io) \<Rightarrow> 'a list \<Rightarrow> ('s, unit) io" where
  "for_each f [] = ok ()"
| "for_each f (x # xs) = and_then (f x) (for_each f xs)"

text \<open>
  A \<^verbatim>\<open>loop\<close> with its local variables \<open>v\<close>: each round returns the variables for the next one or the value
  the loop is left with.
\<close>

partial_function (option) repeat_io ::
  "('v \<Rightarrow> 's \<Rightarrow> (error + 'v + 'a) \<times> 's) \<Rightarrow> 'v \<Rightarrow> 's \<Rightarrow> ((error + 'a) \<times> 's) option" where
  "repeat_io body v w =
     (case body v w of
        (Inl e, w') \<Rightarrow> Some (Inl e, w')
      | (Inr (Inr a), w') \<Rightarrow> Some (Inr a, w')
      | (Inr (Inl v'), w') \<Rightarrow> repeat_io body v' w')"

definition loop_from :: "('v \<Rightarrow> ('s, 'v + 'a) io) \<Rightarrow> 'v \<Rightarrow> ('s, 'a) io" where
  "loop_from body v = (\<lambda>w. case repeat_io body v w of None \<Rightarrow> (Inl Diverges, w) | Some r \<Rightarrow> r)"

definition loop_io :: "('s, 'a option) io \<Rightarrow> ('s, 'a) io" where
  "loop_io body =
     loop_from (\<lambda>_. bind body (\<lambda>r. ok (case r of None \<Rightarrow> Inl () | Some a \<Rightarrow> Inr a))) ()"

declare repeat_io.simps [code]

subsection \<open>Successful runs\<close>

named_theorems run_rules \<open>what a successful run of a handler did\<close>

lemma run_io [run_rules]:
  "ok a w = (Inr b, w') \<longleftrightarrow> b = a \<and> w' = w"
  "fail e w = (Inr b, w') \<longleftrightarrow> False"
  "gets f w = (Inr b, w') \<longleftrightarrow> b = f w \<and> w' = w"
  "of_sum r w = (Inr b, w') \<longleftrightarrow> r = Inr b \<and> w' = w"
  "of_option e v w = (Inr b, w') \<longleftrightarrow> v = Some b \<and> w' = w"
  by (auto simp: ok_def fail_def gets_def of_sum_def of_option_def split: option.splits)

lemma run_update_st [run_rules]: "update_st g w = (Inr u, w') \<longleftrightarrow> w' = g w"
  by (auto simp: update_st_def)

lemma run_bind [run_rules]:
  "bind m k w = (Inr b, w') \<longleftrightarrow> (\<exists>a w1. m w = (Inr a, w1) \<and> k a w1 = (Inr b, w'))"
  by (auto simp: bind_def split: prod.splits sum.splits)

lemma run_and_then [run_rules]:
  "and_then m k w = (Inr b, w') \<longleftrightarrow> (\<exists>a w1. m w = (Inr a, w1) \<and> k w1 = (Inr b, w'))"
  by (simp add: and_then_def run_bind)

lemma run_attempt [run_rules]:
  "attempt m w = (Inr r, w') \<longleftrightarrow> m w = (r, w') \<and> (\<forall>e. r = Inl e \<longrightarrow> \<not> fatal e)"
  by (auto simp: attempt_def split: prod.splits sum.splits)

subsection \<open>Weakest preconditions\<close>

definition wp :: "('s, 'a) io \<Rightarrow> (error + 'a \<Rightarrow> 's \<Rightarrow> bool) \<Rightarrow> 's \<Rightarrow> bool" where
  "wp m Q w = (case m w of (r, w') \<Rightarrow> Q r w')"

lemma wp_bind [simp]:
  "wp (bind m k) Q w = wp m (\<lambda>r w'. case r of Inl e \<Rightarrow> Q (Inl e) w' | Inr a \<Rightarrow> wp (k a) Q w') w"
  by (simp add: wp_def bind_def split: prod.splits sum.splits)

lemma wp_and_then [simp]:
  "wp (and_then m k) Q w = wp m (\<lambda>r w'. case r of Inl e \<Rightarrow> Q (Inl e) w' | Inr _ \<Rightarrow> wp k Q w') w"
  by (simp add: and_then_def)

lemma wp_basic [simp]:
  "wp (ok a) Q w = Q (Inr a) w"
  "wp (fail e) Q w = Q (Inl e) w"
  "wp (gets f) Q w = Q (Inr (f w)) w"
  "wp (update_st g) R w = R (Inr ()) (g w)"
  "wp (of_sum r) Q w = Q r w"
  by (simp_all add: wp_def ok_def fail_def gets_def update_st_def of_sum_def)

lemma wp_of_option [simp]:
  "wp (of_option e v) Q w = (case v of None \<Rightarrow> Q (Inl e) w | Some a \<Rightarrow> Q (Inr a) w)"
  by (simp add: of_option_def split: option.splits)

lemma wp_attempt [simp]:
  "wp (attempt m) Q w =
     wp m (\<lambda>r w'. case r of Inl e \<Rightarrow> if fatal e then Q (Inl e) w' else Q (Inr (Inl e)) w'
                          | Inr a \<Rightarrow> Q (Inr (Inr a)) w') w"
  by (simp add: wp_def attempt_def split: prod.splits sum.splits)

lemma wp_mono: "wp m P w \<Longrightarrow> (\<And>r w'. m w = (r, w') \<Longrightarrow> P r w' \<Longrightarrow> Q r w') \<Longrightarrow> wp m Q w"
  by (auto simp: wp_def split: prod.splits)

lemma wp_weaken: "(\<And>r w'. P r w' \<Longrightarrow> Q r w') \<Longrightarrow> wp m P w \<Longrightarrow> wp m Q w"
  by (auto simp: wp_def split: prod.splits)

lemma wp_run: "wp m Q w \<Longrightarrow> m w = (r, w') \<Longrightarrow> Q r w'"
  by (simp add: wp_def)

lemma wp_for_each:
  assumes "I w" and "\<And>x w. x \<in> set xs \<Longrightarrow> I w \<Longrightarrow> wp (f x) (\<lambda>r w'. I w' \<and> (\<forall>e. r = Inl e \<longrightarrow> E e)) w"
  shows "wp (for_each f xs) (\<lambda>r w'. I w' \<and> (\<forall>e. r = Inl e \<longrightarrow> E e)) w"
  using assms
proof (induction xs arbitrary: w)
  case (Cons x xs)
  have "wp (f x) (\<lambda>r w'. I w' \<and> (\<forall>e. r = Inl e \<longrightarrow> E e)) w" using Cons.prems by simp
  then show ?case
    by (auto intro!: Cons.IH Cons.prems(2) elim!: wp_mono split: sum.splits)
qed simp

lemma wp_for_each_done:
  assumes "R [] w"
    and "\<And>xs' x w. R xs' w \<Longrightarrow> x \<in> set xs \<Longrightarrow> wp (f x) (\<lambda>r w'. case r of Inl e \<Rightarrow> E e w' | Inr _ \<Rightarrow> R (xs' @ [x]) w') w"
  shows "wp (for_each f xs) (\<lambda>r w'. case r of Inl e \<Rightarrow> E e w' | Inr _ \<Rightarrow> R xs w') w"
proof -
  have "wp (for_each f ys) (\<lambda>r w'. case r of Inl e \<Rightarrow> E e w' | Inr _ \<Rightarrow> R (xs' @ ys) w') w"
    if "R xs' w" and "set ys \<subseteq> set xs" for xs' ys w
    using that
  proof (induction ys arbitrary: xs' w)
    case (Cons y ys)
    have step: "wp (f y) (\<lambda>r w'. case r of Inl e \<Rightarrow> E e w' | Inr _ \<Rightarrow> R (xs' @ [y]) w') w"
      using Cons.prems by (intro assms(2)) auto
    show ?case
      unfolding for_each.simps wp_and_then
    proof (rule wp_weaken [OF _ step])
      fix r w'
      assume "case r of Inl e \<Rightarrow> E e w' | Inr _ \<Rightarrow> R (xs' @ [y]) w'"
      then show "case r of Inl e \<Rightarrow> (case Inl e of Inl e \<Rightarrow> E e w' | Inr _ \<Rightarrow> R (xs' @ y # ys) w')
          | Inr _ \<Rightarrow> wp (for_each f ys) (\<lambda>r w'. case r of Inl e \<Rightarrow> E e w' | Inr _ \<Rightarrow> R (xs' @ y # ys) w') w'"
        using Cons.IH [of "xs' @ [y]" w'] Cons.prems(2) by (auto split: sum.splits)
    qed
  qed simp
  from this [OF assms(1), of xs] show ?thesis unfolding append_Nil by simp
qed

text \<open>A loop ends when every round that does not leave it makes a measure smaller.\<close>

lemma wp_loop_from:
  fixes measure_of :: "'v \<Rightarrow> 's \<Rightarrow> nat"
  assumes "I v w"
    and "\<And>v w. I v w \<Longrightarrow> wp (body v) (\<lambda>r w'. case r of
            Inl e \<Rightarrow> Q (Inl e) w'
          | Inr (Inr a) \<Rightarrow> Q (Inr a) w'
          | Inr (Inl v') \<Rightarrow> I v' w' \<and> measure_of v' w' < measure_of v w) w"
  shows "wp (loop_from body v) Q w"
proof -
  have "\<exists>r w'. repeat_io body v w = Some (r, w') \<and> Q r w'"
    using assms(1)
  proof (induction "measure_of v w" arbitrary: v w rule: less_induct)
    case less
    obtain r w' where run: "body v w = (r, w')" by fastforce
    have post: "case r of Inl e \<Rightarrow> Q (Inl e) w' | Inr (Inr a) \<Rightarrow> Q (Inr a) w'
        | Inr (Inl v') \<Rightarrow> I v' w' \<and> measure_of v' w' < measure_of v w"
      using assms(2) [OF less.prems] run by (simp add: wp_def)
    show ?case
      using post less.hyps by (auto simp: repeat_io.simps [of body v w] run split: sum.splits)
  qed
  then show ?thesis by (auto simp: wp_def loop_from_def)
qed

lemma wp_loop_once:
  assumes "wp body (\<lambda>r w'. case r of Inl e \<Rightarrow> Q (Inl e) w' | Inr None \<Rightarrow> False | Inr (Some a) \<Rightarrow> Q (Inr a) w') w"
  shows "wp (loop_io body) Q w"
  using assms
  by (auto simp: wp_def loop_io_def loop_from_def repeat_io.simps [of _ "()" w] bind_def ok_def
      split: prod.splits sum.splits option.splits)

subsection \<open>Invariants of handlers\<close>

definition keeps :: "('s \<Rightarrow> bool) \<Rightarrow> ('s, 'a) io \<Rightarrow> bool" where
  "keeps I m \<longleftrightarrow> (\<forall>w. I w \<longrightarrow> I (snd (m w)))"

named_theorems keeps_rules \<open>handlers that keep an invariant\<close>

lemma keepsD: "keeps I m \<Longrightarrow> I w \<Longrightarrow> m w = (r, w') \<Longrightarrow> I w'"
  by (metis keeps_def snd_conv)

lemma keeps_iff_wp: "keeps I m \<longleftrightarrow> (\<forall>w. I w \<longrightarrow> wp m (\<lambda>_. I) w)"
  by (simp add: keeps_def wp_def split: prod.splits) (metis snd_conv prod.collapse)

lemma keeps_bind [keeps_rules]: "keeps I m \<Longrightarrow> (\<And>a. keeps I (k a)) \<Longrightarrow> keeps I (bind m k)"
  by (fastforce simp: keeps_def bind_def split: prod.splits sum.splits)

lemma keeps_and_then [keeps_rules]: "keeps I m \<Longrightarrow> keeps I k \<Longrightarrow> keeps I (and_then m k)"
  by (simp add: and_then_def keeps_bind)

lemma keeps_basic [keeps_rules]:
  "keeps I (ok a)" "keeps I (fail e)" "keeps I (gets f)" "keeps I (of_sum r)" "keeps I (of_option e v)"
  by (simp_all add: keeps_def ok_def fail_def gets_def of_sum_def of_option_def split: option.splits)

lemma keeps_update: "(\<And>w. I w \<Longrightarrow> I (f w)) \<Longrightarrow> keeps I (update_st f)"
  by (simp add: keeps_def update_st_def)

lemma keeps_attempt [keeps_rules]: "keeps I m \<Longrightarrow> keeps I (attempt m)"
  by (fastforce simp: keeps_def attempt_def split: prod.splits sum.splits)

lemma keeps_ignore_err [keeps_rules]: "keeps I m \<Longrightarrow> keeps I (ignore_err m)"
  unfolding ignore_err_def by (intro keeps_bind keeps_attempt keeps_basic)

lemma keeps_for_each [keeps_rules]: "(\<And>x. x \<in> set xs \<Longrightarrow> keeps I (f x)) \<Longrightarrow> keeps I (for_each f xs)"
  by (induction xs) (auto intro!: keeps_and_then keeps_basic)

lemma keeps_if [keeps_rules]: "(b \<Longrightarrow> keeps I m) \<Longrightarrow> (\<not> b \<Longrightarrow> keeps I n) \<Longrightarrow> keeps I (if b then m else n)"
  by simp

lemma keeps_case_option [keeps_rules]:
  "(v = None \<Longrightarrow> keeps I m) \<Longrightarrow> (\<And>a. v = Some a \<Longrightarrow> keeps I (k a)) \<Longrightarrow> keeps I (case v of None \<Rightarrow> m | Some a \<Rightarrow> k a)"
  by (cases v) simp_all

lemma repeat_io_keeps:
  fixes body :: "'v \<Rightarrow> ('s, 'v + 'r) io"
  assumes "repeat_io body v w = Some p"
  shows "(\<forall>v. keeps I (body v)) \<longrightarrow> I w \<longrightarrow> I (snd p)"
proof (rule repeat_io.raw_induct [where P = "\<lambda>body v w p. (\<forall>v. keeps I (body v)) \<longrightarrow> I w \<longrightarrow> I (snd p)", OF _ assms])
  fix rep and body :: "'v \<Rightarrow> ('s, 'v + 'r) io" and v w p
  assume again: "\<And>body v w p. rep body v w = Some p \<Longrightarrow> (\<forall>v. keeps I (body v)) \<longrightarrow> I w \<longrightarrow> I (snd p)"
    and round: "(case body v w of (Inl e, w') \<Rightarrow> Some (Inl e, w') | (Inr (Inl v'), w') \<Rightarrow> rep body v' w'
        | (Inr (Inr a), w') \<Rightarrow> Some (Inr a, w')) = Some p"
  show "(\<forall>v. keeps I (body v)) \<longrightarrow> I w \<longrightarrow> I (snd p)"
  proof (intro impI)
    assume k: "\<forall>v. keeps I (body v)" and "I w"
    obtain r w' where run: "body v w = (r, w')" by fastforce
    then have "I w'" using k \<open>I w\<close> by (auto dest: keepsD)
    with round run show "I (snd p)"
      using again [of body _ w' p] k by (auto split: sum.splits)
  qed
qed

lemma keeps_loop_from [keeps_rules]:
  assumes "\<And>v. keeps I (body v)"
  shows "keeps I (loop_from body v)"
  unfolding keeps_def [of I "loop_from body v"]
proof (intro allI impI)
  fix w assume "I w"
  with assms show "I (snd (loop_from body v w))"
    using repeat_io_keeps [of body v w _ I] by (cases "repeat_io body v w") (simp_all add: loop_from_def)
qed

lemma keeps_loop_io [keeps_rules]: "keeps I body \<Longrightarrow> keeps I (loop_io body)"
  unfolding loop_io_def by (intro keeps_loop_from keeps_bind keeps_basic)

subsection \<open>Errors and results apart\<close>

text \<open>\<open>ends m E Q w\<close>: the handler ends, with an error as described by \<open>E\<close> or a value as described by \<open>Q\<close>.\<close>

definition ends :: "('s, 'a) io \<Rightarrow> (error \<Rightarrow> 's \<Rightarrow> bool) \<Rightarrow> ('a \<Rightarrow> 's \<Rightarrow> bool) \<Rightarrow> 's \<Rightarrow> bool" where
  "ends m E Q w \<longleftrightarrow> wp m (\<lambda>r w'. case r of Inl e \<Rightarrow> E e w' | Inr a \<Rightarrow> Q a w') w"

lemma ends_bind [simp]: "ends (bind m k) E Q = ends m E (\<lambda>a. ends (k a) E Q)"
  unfolding ends_def wp_bind by (rule ext) (simp add: wp_def split: prod.splits sum.splits)

lemma ends_and_then [simp]: "ends (and_then m k) E Q = ends m E (\<lambda>_. ends k E Q)"
  by (simp add: and_then_def)

lemma ends_basic [simp]:
  "ends (ok a) E Q = Q a"
  "ends (fail e) E Q = E e"
  "ends (gets f) E Q = (\<lambda>w. Q (f w) w)"
  "ends (update_st g) E R = (\<lambda>w. R () (g w))"
  "ends (of_sum r) E Q = (case r of Inl e \<Rightarrow> E e | Inr a \<Rightarrow> Q a)"
  "ends (of_option e v) E Q = (case v of None \<Rightarrow> E e | Some a \<Rightarrow> Q a)"
  by (simp_all add: ends_def fun_eq_iff split: sum.splits option.splits)

lemma ends_attempt [simp]:
  "ends (attempt m) E Q = ends m (\<lambda>e w'. if fatal e then E e w' else Q (Inl e) w') (\<lambda>a. Q (Inr a))"
  unfolding ends_def wp_attempt by (rule ext) (simp add: wp_def split: prod.splits sum.splits)

lemma ends_ignore_err [simp]:
  "ends (ignore_err m) E Q = ends m (\<lambda>e w'. if fatal e then E e w' else Q () w') (\<lambda>_. Q ())"
  by (simp add: ignore_err_def)

lemma ends_mono:
  "ends m E Q w \<Longrightarrow> (\<And>e w'. E e w' \<Longrightarrow> E' e w') \<Longrightarrow> (\<And>a w'. Q a w' \<Longrightarrow> Q' a w') \<Longrightarrow> ends m E' Q' w"
  unfolding ends_def by (erule wp_mono) (auto split: sum.splits)

lemma ends_run:
  "ends m E Q w \<Longrightarrow> m w = (r, w') \<Longrightarrow> case r of Inl e \<Rightarrow> E e w' | Inr a \<Rightarrow> Q a w'"
  unfolding ends_def by (rule wp_run)

lemma ends_conj: "ends m E Q w \<Longrightarrow> ends m E' Q' w \<Longrightarrow> ends m (\<lambda>e w. E e w \<and> E' e w) (\<lambda>a w. Q a w \<and> Q' a w) w"
  by (auto simp: ends_def wp_def split: prod.splits sum.splits)

lemma ends_keeps: "keeps I m \<Longrightarrow> I w \<Longrightarrow> ends m (\<lambda>_. I) (\<lambda>_. I) w"
  by (auto simp: ends_def wp_def keeps_def split: prod.splits sum.splits)

text \<open>A loop over a list, where \<open>R n\<close> holds when \<open>n\<close> elements are left.\<close>

lemma ends_for_each:
  assumes "R (length xs) w"
    and "\<And>x n w. x \<in> set xs \<Longrightarrow> R (Suc n) w \<Longrightarrow> ends (f x) E (\<lambda>_. R n) w"
  shows "ends (for_each f xs) E (\<lambda>_. R 0) w"
  using assms
proof (induction xs arbitrary: w)
  case (Cons x xs)
  have "ends (f x) E (\<lambda>_. R (length xs)) w" using Cons.prems by simp
  moreover have "ends (for_each f xs) E (\<lambda>_. R 0) w'" if "R (length xs) w'" for w'
    using Cons.IH [OF that] Cons.prems(2) by simp
  ultimately show ?case by (auto elim!: ends_mono)
qed simp

lemma ends_for_each_list:
  assumes "R [] w"
    and "\<And>done x w. x \<in> set xs \<Longrightarrow> R done w \<Longrightarrow> ends (f x) E (\<lambda>_. R (done @ [x])) w"
  shows "ends (for_each f xs) E (\<lambda>_. R xs) w"
proof -
  have "ends (for_each f ys) E (\<lambda>_. R (xs' @ ys)) w" if "R xs' w" and "set ys \<subseteq> set xs" for xs' ys w
    using that
  proof (induction ys arbitrary: xs' w)
    case (Cons y ys)
    have "ends (f y) E (\<lambda>_. R (xs' @ [y])) w" using Cons.prems assms(2) by auto
    moreover have "ends (for_each f ys) E (\<lambda>_. R (xs' @ y # ys)) w'" if "R (xs' @ [y]) w'" for w'
      using Cons.IH [OF that] Cons.prems(2) by simp
    ultimately show ?case by (auto elim!: ends_mono)
  qed simp
  from this [OF assms(1), of xs] show ?thesis by simp
qed

lemma ends_loop_from:
  fixes measure_of :: "'v \<Rightarrow> 's \<Rightarrow> nat"
  assumes "I v w"
    and "\<And>v w. I v w \<Longrightarrow> ends (body v) E (\<lambda>r w'. case r of
          Inr a \<Rightarrow> Q a w' | Inl v' \<Rightarrow> I v' w' \<and> measure_of v' w' < measure_of v w) w"
  shows "ends (loop_from body v) E Q w"
  unfolding ends_def
proof (rule wp_loop_from [where I = I and measure_of = measure_of, OF assms(1)])
  fix v w assume "I v w"
  from assms(2) [OF this] show "wp (body v) (\<lambda>r w'. case r of
      Inl e \<Rightarrow> (case Inl e of Inl e \<Rightarrow> E e w' | Inr a \<Rightarrow> Q a w')
    | Inr (Inl v') \<Rightarrow> I v' w' \<and> measure_of v' w' < measure_of v w
    | Inr (Inr a) \<Rightarrow> (case Inr a of Inl e \<Rightarrow> E e w' | Inr a \<Rightarrow> Q a w')) w"
    unfolding ends_def by (rule wp_mono) (auto split: sum.splits)
qed

end
