(* ===== verification/Rust_Str.thy ===== *)
theory Rust_Str
  imports Prelude
begin

text \<open>
  What the program uses of Rust's strings and of \<^verbatim>\<open>std::path\<close>: trimming, lines, words, prefixes,
  joined paths, decimal numbers. A string is a list of one-byte characters, so white space is the
  white space of ASCII; a text with the white space of other scripts is outside the model.
\<close>

subsection \<open>Prefixes and white space\<close>

definition starts_with :: "string \<Rightarrow> string \<Rightarrow> bool" where
  "starts_with p s \<longleftrightarrow> strip_prefix p s \<noteq> None"

definition path_join :: "string \<Rightarrow> string \<Rightarrow> string" where
  "path_join a b =
     (if starts_with ''/'' b \<or> a = [] then b else if last a = CHR ''/'' then a @ b else a @ ''/'' @ b)"

definition is_ascii_space :: "char \<Rightarrow> bool" where
  "is_ascii_space c \<longleftrightarrow> of_char c \<in> {9, 10, 11, 12, 13, 32 :: nat}"

definition trim :: "string \<Rightarrow> string" where
  "trim s = rev (dropWhile is_ascii_space (rev (dropWhile is_ascii_space s)))"

definition trim_end :: "string \<Rightarrow> string" where
  "trim_end s = rev (dropWhile is_ascii_space (rev s))"

lemma trim_eq: "trim s = trim_end (dropWhile is_ascii_space s)"
  by (simp add: trim_def trim_end_def)

lemma trim_end_id [simp]: "s = [] \<or> \<not> is_ascii_space (last s) \<Longrightarrow> trim_end s = s"
  by (cases s rule: rev_cases) (auto simp: trim_end_def)

lemma trim_id [simp]:
  "s = [] \<or> \<not> is_ascii_space (hd s) \<and> \<not> is_ascii_space (last s) \<Longrightarrow> trim s = s"
  by (cases s) (auto simp: trim_eq simp del: last.simps)

subsection \<open>Pieces of a string\<close>

lemma split_on_plain: "c \<notin> set p \<Longrightarrow> split_on c p = [p]"
  by (induction p) auto

lemma split_on_append: "c \<notin> set p \<Longrightarrow> split_on c (p @ c # s) = p # split_on c s"
  by (induction p) auto

lemma split_join: "ps \<noteq> [] \<Longrightarrow> (\<And>p. p \<in> set ps \<Longrightarrow> c \<notin> set p) \<Longrightarrow> split_on c (join_with c ps) = ps"
  by (induction c ps rule: join_with.induct) (auto simp: split_on_plain split_on_append)

text \<open>\<^verbatim>\<open>str::split_whitespace\<close>: the longest runs without white space.\<close>

fun split_where :: "(char \<Rightarrow> bool) \<Rightarrow> string \<Rightarrow> string list" where
  "split_where P [] = [[]]"
| "split_where P (x # xs) =
     (if P x then [] # split_where P xs
      else (case split_where P xs of [] \<Rightarrow> [[x]] | p # ps \<Rightarrow> (x # p) # ps))"

definition split_whitespace :: "string \<Rightarrow> string list" where
  "split_whitespace s = filter (\<lambda>p. p \<noteq> []) (split_where is_ascii_space s)"

lemma split_where_plain: "(\<And>x. x \<in> set p \<Longrightarrow> \<not> P x) \<Longrightarrow> split_where P p = [p]"
  by (induction p) auto

lemma split_where_append: "(\<And>x. x \<in> set p \<Longrightarrow> \<not> P x) \<Longrightarrow> P c \<Longrightarrow> split_where P (p @ c # s) = p # split_where P s"
  by (induction p) auto

lemma split_where_pieces: "p \<in> set (split_where P s) \<Longrightarrow> x \<in> set p \<Longrightarrow> \<not> P x"
  by (induction s arbitrary: p) (force split: if_splits list.splits)+

lemma split_whitespace_pieces:
  "p \<in> set (split_whitespace s) \<Longrightarrow> p \<noteq> [] \<and> (\<forall>x \<in> set p. \<not> is_ascii_space x)"
  using split_where_pieces by (auto simp: split_whitespace_def)

definition word :: "string \<Rightarrow> bool" where
  "word p \<longleftrightarrow> p \<noteq> [] \<and> list_all (\<lambda>x. \<not> is_ascii_space x) p"

lemma split_whitespace_join:
  "list_all word ps \<Longrightarrow> split_whitespace (join_with (CHR '' '') ps) = ps"
proof -
  have sp: "is_ascii_space (CHR '' '')" by (simp add: is_ascii_space_def)
  show "list_all word ps \<Longrightarrow> split_whitespace (join_with (CHR '' '') ps) = ps"
  proof (induction "CHR '' ''" ps rule: join_with.induct)
    case (2 p)
    then show ?case by (simp add: split_whitespace_def split_where_plain word_def list_all_iff)
  next
    case (3 p q ps)
    then have "split_where is_ascii_space (p @ CHR '' '' # join_with (CHR '' '') (q # ps)) =
        p # split_where is_ascii_space (join_with (CHR '' '') (q # ps))"
      by (intro split_where_append) (auto simp: word_def list_all_iff sp)
    with 3 show ?case by (simp add: split_whitespace_def word_def)
  qed (simp add: split_whitespace_def)
qed

text \<open>\<^verbatim>\<open>str::lines\<close>: a carriage return belongs to the line feed after it.\<close>

definition newline :: char where
  "newline = CHR 0x0A"

definition strip_cr :: "string \<Rightarrow> string" where
  "strip_cr s = (if s \<noteq> [] \<and> last s = CHR 0x0D then butlast s else s)"

definition lines :: "string \<Rightarrow> string list" where
  "lines s =
     (let ps = split_on newline s
      in map strip_cr (butlast ps) @ (if last ps = [] then [] else [last ps]))"

definition split_once :: "char \<Rightarrow> string \<Rightarrow> (string \<times> string) option" where
  "split_once c s =
     (if c \<in> set s then Some (takeWhile (\<lambda>x. x \<noteq> c) s, tl (dropWhile (\<lambda>x. x \<noteq> c) s)) else None)"

lemma split_once_append: "c \<notin> set k \<Longrightarrow> split_once c (k @ c # v) = Some (k, v)"
  by (simp add: split_once_def takeWhile_append dropWhile_append)

lemma split_on_concat:
  "(\<And>l. l \<in> set ls \<Longrightarrow> c \<notin> set l) \<Longrightarrow> split_on c (concat (map (\<lambda>l. l @ [c]) ls)) = ls @ [[]]"
  by (induction ls) (auto simp: split_on_append)

lemma lines_concat:
  "(\<And>l. l \<in> set ls \<Longrightarrow> newline \<notin> set l) \<Longrightarrow> lines (concat (map (\<lambda>l. l @ [newline]) ls)) = map strip_cr ls"
  by (simp add: lines_def split_on_concat)

subsection \<open>Decimal numbers\<close>

fun nat_to_string :: "nat \<Rightarrow> string" where
  "nat_to_string n =
     (if n < 10 then [char_of (48 + n)] else nat_to_string (n div 10) @ [char_of (48 + n mod 10)])"

declare nat_to_string.simps [simp del]

definition int_to_string :: "int \<Rightarrow> string" where
  "int_to_string i = (if i < 0 then CHR ''-'' # nat_to_string (nat (- i)) else nat_to_string (nat i))"

lemma digit_char [simp]: "n < 10 \<Longrightarrow> of_char (char_of (48 + n) :: char) = (48 + n :: nat)"
  by simp

lemma nat_to_string_digits: "c \<in> set (nat_to_string n) \<Longrightarrow> 48 \<le> (of_char c :: nat) \<and> (of_char c :: nat) < 58"
proof (induction n rule: nat_to_string.induct)
  case (1 n)
  then show ?case by (auto simp: nat_to_string.simps [of n] split: if_splits)
qed

fun string_to_nat :: "string \<Rightarrow> nat" where
  "string_to_nat s = foldl (\<lambda>n c. 10 * n + (of_char c - 48)) 0 s"

lemma string_to_nat_to_string: "string_to_nat (nat_to_string n) = n"
proof (induction n rule: nat_to_string.induct)
  case (1 n)
  then show ?case by (auto simp: nat_to_string.simps [of n])
qed

definition string_to_int :: "string \<Rightarrow> int" where
  "string_to_int s = (case s of [] \<Rightarrow> 0 | c # cs \<Rightarrow> if c = CHR ''-'' then - int (string_to_nat cs) else int (string_to_nat s))"

lemma nat_to_string_head: "\<exists>c cs. nat_to_string n = c # cs \<and> c \<noteq> CHR ''-''"
proof (cases "nat_to_string n")
  case Nil
  then show ?thesis by (simp add: nat_to_string.simps [of n] split: if_splits)
next
  case (Cons c cs)
  with nat_to_string_digits [of c n] show ?thesis by auto
qed

lemma string_to_int_to_string [simp]: "string_to_int (int_to_string i) = i"
proof (cases "i < 0")
  case True
  then show ?thesis by (simp add: string_to_int_def int_to_string_def string_to_nat_to_string del: string_to_nat.simps)
next
  case False
  obtain c cs where "nat_to_string (nat i) = c # cs" and "c \<noteq> CHR ''-''" using nat_to_string_head by blast
  with False string_to_nat_to_string [of "nat i"] show ?thesis
    by (simp add: string_to_int_def int_to_string_def del: string_to_nat.simps)
qed

text \<open>\<^verbatim>\<open>str::parse::<u64>\<close>: a plus sign is accepted, and the first digit that is too much ends the parse.\<close>

datatype int_error = Int_Empty | Int_InvalidDigit | Int_PosOverflow | Int_NegOverflow

definition to_digit :: "char \<Rightarrow> nat option" where
  "to_digit c = (if 48 \<le> (of_char c :: nat) \<and> (of_char c :: nat) < 58 then Some (of_char c - 48) else None)"

fun u64_digits :: "nat \<Rightarrow> string \<Rightarrow> int_error + u64" where
  "u64_digits n [] = Inr (of_nat n)"
| "u64_digits n (c # cs) =
     (case to_digit c of
        None \<Rightarrow> Inl Int_InvalidDigit
      | Some d \<Rightarrow> if 10 * n + d < 2 ^ 64 then u64_digits (10 * n + d) cs else Inl Int_PosOverflow)"

definition parse_u64 :: "string \<Rightarrow> int_error + u64" where
  "parse_u64 s =
     (case s of
        [] \<Rightarrow> Inl Int_Empty
      | c # cs \<Rightarrow>
          if cs = [] \<and> (c = CHR ''+'' \<or> c = CHR ''-'') then Inl Int_InvalidDigit
          else u64_digits 0 (if c = CHR ''+'' then cs else s))"

fun i32_digits :: "bool \<Rightarrow> int \<Rightarrow> string \<Rightarrow> int_error + int" where
  "i32_digits neg n [] = Inr n"
| "i32_digits neg n (c # cs) =
     (case to_digit c of
        None \<Rightarrow> Inl Int_InvalidDigit
      | Some d \<Rightarrow>
          (let m = (if neg then 10 * n - int d else 10 * n + int d)
           in if m < - (2 ^ 31) then Inl Int_NegOverflow
              else if 2 ^ 31 \<le> m then Inl Int_PosOverflow else i32_digits neg m cs))"

definition parse_i32 :: "string \<Rightarrow> int_error + int" where
  "parse_i32 s =
     (case s of
        [] \<Rightarrow> Inl Int_Empty
      | c # cs \<Rightarrow>
          if cs = [] \<and> (c = CHR ''+'' \<or> c = CHR ''-'') then Inl Int_InvalidDigit
          else if c = CHR ''+'' then i32_digits False 0 cs
          else if c = CHR ''-'' then i32_digits True 0 cs
          else i32_digits False 0 s)"

lemma i32_digits_range:
  "i32_digits neg n s = Inr m \<Longrightarrow> - (2 ^ 31) \<le> n \<Longrightarrow> n < 2 ^ 31 \<Longrightarrow> - (2 ^ 31) \<le> m \<and> m < 2 ^ 31"
  by (induction neg n s rule: i32_digits.induct) (auto simp: Let_def split: option.splits if_splits)

lemma parse_i32_range: "parse_i32 s = Inr m \<Longrightarrow> - (2 ^ 31) \<le> m \<and> m < 2 ^ 31"
  by (auto simp: parse_i32_def simp del: i32_digits.simps(2) split: list.splits if_splits dest!: i32_digits_range)

lemma to_digit_char: "n < 10 \<Longrightarrow> to_digit (char_of (48 + n)) = Some n"
  by (simp add: to_digit_def)

lemma u64_digits_append:
  "u64_digits n (s @ t) = (case u64_digits n s of Inl e \<Rightarrow> Inl e | Inr m \<Rightarrow> u64_digits (unat m) t)"
  if "n < 2 ^ 64"
  using that
  by (induction n s rule: u64_digits.induct) (auto simp: unat_u64_of_nat split: option.splits)

lemma u64_digits_print: "n < 2 ^ 64 \<Longrightarrow> u64_digits 0 (nat_to_string n) = Inr (of_nat n)"
proof (induction n rule: nat_to_string.induct)
  case (1 n)
  show ?case
  proof (cases "n < 10")
    case True
    then show ?thesis by (simp add: nat_to_string.simps [of n] to_digit_char)
  next
    case False
    with 1 have "u64_digits 0 (nat_to_string (n div 10)) = Inr (of_nat (n div 10))" by simp
    with False 1(2) show ?thesis
      by (simp add: nat_to_string.simps [of n] u64_digits_append to_digit_char unat_u64_of_nat del: of_nat_div)
  qed
qed

lemma parse_u64_print: "parse_u64 (nat_to_string (unat w)) = Inr w"
proof -
  have w: "u64_digits 0 (nat_to_string (unat w)) = Inr w"
    using u64_digits_print [of "unat w"] unsigned_less [where w = w] by simp
  obtain c cs where s: "nat_to_string (unat w) = c # cs" by (meson nat_to_string_head)
  then have "48 \<le> (of_char c :: nat)" using nat_to_string_digits [of c "unat w"] by simp
  then have "c \<noteq> CHR ''+''" "c \<noteq> CHR ''-''" by auto
  with w s show ?thesis by (simp add: parse_u64_def)
qed

end
