(* ===== verification/Db.thy ===== *)
theory Db
  imports Io Models Jobset Rust_Str
begin

text \<open>
  The database the runner shares with the rest of Hydra, and the statements it sends
  (crates/db/src/connection.rs). A table is the list of its rows. Every statement may fail, for any
  reason the server or the connection has: \<open>e_fault\<close> gives, for each external call in order of time,
  the error it fails with, if any. A transaction works on the tables and publishes them when it is
  committed; when it is dropped, when a statement of it failed, or when the commit fails, the tables
  are as they were before it. A statement after a failed one fails too, and committing a failed
  transaction rolls it back without an error, which is how the server behaves.

  \<open>e_conflict\<close> tells whether a row conflicts with the unique keys of its table; the schema is not
  part of the repository, and the theorems that need it name what they assume of it.
\<close>

subsection \<open>Tables\<close>

record build_row =
  br_id :: int
  br_finished :: int
  br_timestamp :: int
  br_jobset_id :: int
  br_job :: string
  br_nixname :: "string option"
  br_drvpath :: string
  br_system :: string
  br_maxsilent :: "int option"
  br_timeout :: "int option"
  br_ischannel :: int
  br_iscurrent :: "int option"
  br_priority :: int
  br_globalpriority :: int
  br_keep :: int
  br_buildstatus :: "int option"
  br_starttime :: "int option"
  br_stoptime :: "int option"
  br_size :: "int option"
  br_closuresize :: "int option"
  br_releasename :: "string option"
  br_iscachedbuild :: "int option"
  br_notificationpendingsince :: "int option"

record build_step_row =
  rs_build :: int
  rs_stepnr :: int
  rs_type :: int
  rs_drvpath :: "string option"
  rs_busy :: int
  rs_starttime :: "int option"
  rs_stoptime :: "int option"
  rs_system :: "string option"
  rs_status :: "int option"
  rs_propagatedfrom :: "int option"
  rs_errormsg :: "string option"
  rs_machine :: "string option"
  rs_overhead :: "int option"
  rs_timesbuilt :: "int option"
  rs_isnondeterministic :: "bool option"

record step_output_row =
  ro_build :: int
  ro_stepnr :: int
  ro_name :: string
  ro_path :: "string option"

record build_output_row =
  rbo_build :: int
  rbo_name :: string
  rbo_path :: "string option"

record full_jobset_row =
  rj_id :: int
  rj_project :: string
  rj_name :: string
  rj_schedulingshares :: int

record database =
  t_builds :: "build_row list"
  t_buildsteps :: "build_step_row list"
  t_stepoutputs :: "step_output_row list"
  t_buildoutputs :: "build_output_row list"
  t_products :: "insert_build_product list"
  t_metrics :: "insert_build_metric list"
  t_failedpaths :: "string list"
  t_jobsets :: "full_jobset_row list"
  t_next_id :: int
  notifications :: "(string \<times> string) list"

record io_state =
  tick :: nat
  db :: database
  tx_failed :: bool

record db_env =
  e_now :: "nat \<Rightarrow> timestamp"
  e_fault :: "nat \<Rightarrow> error option"
  e_random :: "nat \<Rightarrow> int \<Rightarrow> int"
  e_conflict :: "build_step_row \<Rightarrow> build_step_row list \<Rightarrow> bool"

subsection \<open>Running statements\<close>

definition now_io :: "'e db_env_scheme \<Rightarrow> ('s io_state_scheme, timestamp) io" where
  "now_io env = (\<lambda>w. (Inr (e_now env (tick w)), w\<lparr>tick := tick w + 1\<rparr>))"

definition sql :: "'e db_env_scheme \<Rightarrow> (database \<Rightarrow> 'a \<times> database) \<Rightarrow> ('s io_state_scheme, 'a) io" where
  "sql env f = (\<lambda>w.
     (let w1 = w\<lparr>tick := tick w + 1\<rparr>
      in case e_fault env (tick w) of
           Some e \<Rightarrow> (Inl e, w1)
         | None \<Rightarrow> (let (a, d) = f (db w) in (Inr a, w1\<lparr>db := d\<rparr>))))"

definition tx_sql :: "'e db_env_scheme \<Rightarrow> (database \<Rightarrow> 'a \<times> database) \<Rightarrow> ('s io_state_scheme, 'a) io" where
  "tx_sql env f = (\<lambda>w.
     if tx_failed w then (Inl Db_Error, w)
     else (case sql env f w of
             (Inl e, w') \<Rightarrow> (Inl e, w'\<lparr>tx_failed := True\<rparr>)
           | (Inr a, w') \<Rightarrow> (Inr a, w')))"

definition select :: "(database \<Rightarrow> 'a) \<Rightarrow> database \<Rightarrow> 'a \<times> database" where
  "select f d = (f d, d)"

definition execute :: "(database \<Rightarrow> database) \<Rightarrow> database \<Rightarrow> unit \<times> database" where
  "execute f d = ((), f d)"

definition db_get :: "'e db_env_scheme \<Rightarrow> ('s io_state_scheme, unit) io" where
  "db_get env = sql env (execute (\<lambda>d. d))"

text \<open>From \<^verbatim>\<open>begin_transaction\<close> to \<^verbatim>\<open>commit\<close>, around what the caller does in between.\<close>

definition commit :: "'e db_env_scheme \<Rightarrow> database \<Rightarrow> ('s io_state_scheme, unit) io" where
  "commit env before = (\<lambda>w.
     (let w1 = w\<lparr>tick := tick w + 1, tx_failed := False\<rparr>
      in case e_fault env (tick w) of
           Some e \<Rightarrow> (Inl e, w1\<lparr>db := before\<rparr>)
         | None \<Rightarrow> (Inr (), if tx_failed w then w1\<lparr>db := before\<rparr> else w1)))"

definition transaction ::
  "'e db_env_scheme \<Rightarrow> ('s io_state_scheme, 'a) io \<Rightarrow> ('s io_state_scheme, 'a) io" where
  "transaction env body =
     and_then (sql env (execute (\<lambda>d. d)))
       (\<lambda>w. case body (w\<lparr>tx_failed := False\<rparr>) of
              (Inl e, w') \<Rightarrow> (Inl e, w'\<lparr>db := db w, tx_failed := False\<rparr>)
            | (Inr a, w') \<Rightarrow> and_then (commit env (db w)) (ok a) w')"

definition update_where :: "('r \<Rightarrow> bool) \<Rightarrow> ('r \<Rightarrow> 'r) \<Rightarrow> 'r list \<Rightarrow> 'r list" where
  "update_where P f rows = map (\<lambda>r. if P r then f r else r) rows"

definition sql_max :: "int list \<Rightarrow> int option" where
  "sql_max xs = (if xs = [] then None else Some (Max (set xs)))"

subsection \<open>Statements on a connection\<close>

definition get_not_finished_builds_fast :: "'e db_env_scheme \<Rightarrow> ('s io_state_scheme, build_small list) io" where
  "get_not_finished_builds_fast env = sql env (select (\<lambda>d.
     map (\<lambda>r. \<lparr>bs_id = br_id r, bs_globalpriority = br_globalpriority r\<rparr>)
       (filter (\<lambda>r. br_finished r = 0) (t_builds d))))"

text \<open>Rows of the join in descending global priority, then ascending shares, then at random.\<close>

definition build_order ::
  "(int \<Rightarrow> int) \<Rightarrow> build_row \<times> full_jobset_row \<Rightarrow> build_row \<times> full_jobset_row \<Rightarrow> ordering" where
  "build_order rnd = (\<lambda>(a, ja) (b, jb).
     let c1 = reverse_ord (cmp (br_globalpriority a) (br_globalpriority b))
     in if c1 \<noteq> Equal then c1
        else (let c2 = cmp (rj_schedulingshares ja) (rj_schedulingshares jb)
              in if c2 \<noteq> Equal then c2 else cmp (rnd (br_id a)) (rnd (br_id b))))"

definition build_of_row :: "build_row \<times> full_jobset_row \<Rightarrow> db_build" where
  "build_of_row = (\<lambda>(b, j).
     \<lparr>db_id = br_id b, db_jobset_id = br_jobset_id b, db_project = rj_project j, db_jobset = rj_name j,
      db_job = br_job b, db_drvpath = br_drvpath b, db_maxsilent = br_maxsilent b, db_timeout = br_timeout b,
      db_timestamp = br_timestamp b, db_globalpriority = br_globalpriority b, db_priority = br_priority b\<rparr>)"

definition unfinished_join :: "database \<Rightarrow> (build_row \<times> full_jobset_row) list" where
  "unfinished_join d =
     [(b, j). b \<leftarrow> t_builds d, br_finished b = 0, j \<leftarrow> t_jobsets d, br_jobset_id b = rj_id j]"

definition get_not_finished_builds :: "'e db_env_scheme \<Rightarrow> ('s io_state_scheme, db_build list) io" where
  "get_not_finished_builds env = bind (gets tick) (\<lambda>t. sql env (select (\<lambda>d.
     map build_of_row (sort_by (build_order (e_random env t)) (unfinished_join d)))))"

definition get_jobsets :: "'e db_env_scheme \<Rightarrow> ('s io_state_scheme, jobset_row list) io" where
  "get_jobsets env = sql env (select (\<lambda>d.
     map (\<lambda>j. \<lparr>row_project = rj_project j, row_name = rj_name j, row_shares = rj_schedulingshares j\<rparr>)
       (t_jobsets d)))"

definition get_jobset_scheduling_shares ::
  "'e db_env_scheme \<Rightarrow> int \<Rightarrow> ('s io_state_scheme, int option) io" where
  "get_jobset_scheduling_shares env jobset_id = sql env (select (\<lambda>d.
     map_option rj_schedulingshares (find (\<lambda>j. rj_id j = jobset_id) (t_jobsets d))))"

definition get_jobset_build_steps ::
  "'e db_env_scheme \<Rightarrow> int \<Rightarrow> int \<Rightarrow> ('s io_state_scheme, build_steps_row list) io" where
  "get_jobset_build_steps env jobset_id scheduling_window = bind (now_io env) (\<lambda>now. sql env (select (\<lambda>d.
     [\<lparr>starttime = rs_starttime s, stoptime = rs_stoptime s\<rparr>.
        s \<leftarrow> t_buildsteps d, b \<leftarrow> t_builds d,
        rs_build s = br_id b \<and> rs_starttime s \<noteq> None \<and>
        (case rs_stoptime s of None \<Rightarrow> False
         | Some t \<Rightarrow> t * 1000000000 > now - scheduling_window * 10 * 1000000000) \<and>
        br_jobset_id b = jobset_id])))"

definition abort_build_row :: "int \<Rightarrow> build_row \<Rightarrow> build_row" where
  "abort_build_row t r =
     r\<lparr>br_finished := 1, br_buildstatus := Some (build_status_as_i32 Aborted),
       br_starttime := Some t, br_stoptime := Some t\<rparr>"

definition db_abort_build :: "'e db_env_scheme \<Rightarrow> int \<Rightarrow> ('s io_state_scheme, unit) io" where
  "db_abort_build env build_id = bind (now_io env) (\<lambda>now. sql env (execute (\<lambda>d.
     d\<lparr>t_builds := update_where (\<lambda>r. br_id r = build_id \<and> br_finished r = 0)
        (abort_build_row (wrap_i32 (as_second now))) (t_builds d)\<rparr>)))"

definition check_if_paths_failed :: "'e db_env_scheme \<Rightarrow> string list \<Rightarrow> ('s io_state_scheme, bool) io" where
  "check_if_paths_failed env paths = sql env (select (\<lambda>d.
     filter (\<lambda>p. p \<in> set paths) (t_failedpaths d) \<noteq> []))"

definition clear_busy :: "'e db_env_scheme \<Rightarrow> int \<Rightarrow> ('s io_state_scheme, unit) io" where
  "clear_busy env stop_time = sql env (execute (\<lambda>d.
     d\<lparr>t_buildsteps := update_where (\<lambda>r. rs_busy r \<noteq> 0)
        (\<lambda>r. r\<lparr>rs_busy := 0, rs_status := Some (build_status_as_i32 Aborted), rs_stoptime := Some stop_time\<rparr>)
        (t_buildsteps d)\<rparr>))"

definition db_update_build_step :: "'e db_env_scheme \<Rightarrow> update_build_step \<Rightarrow> ('s io_state_scheme, unit) io" where
  "db_update_build_step env u = sql env (execute (\<lambda>d.
     d\<lparr>t_buildsteps := update_where
        (\<lambda>r. rs_build r = us_build_id u \<and> rs_stepnr r = us_step_nr u \<and> rs_busy r \<noteq> 0 \<and> rs_status r = None)
        (\<lambda>r. r\<lparr>rs_busy := step_status_as_i32 (us_status u)\<rparr>) (t_buildsteps d)\<rparr>))"

text \<open>The server rounds \<^verbatim>\<open>EXTRACT(EPOCH FROM NOW())::INT4\<close> to the nearest second.\<close>

definition insert_debug_build ::
  "'e db_env_scheme \<Rightarrow> int \<Rightarrow> string \<Rightarrow> string \<Rightarrow> ('s io_state_scheme, unit) io" where
  "insert_debug_build env jobset_id p system = bind (now_io env) (\<lambda>now. sql env (execute (\<lambda>d.
     d\<lparr>t_next_id := t_next_id d + 1,
       t_builds := t_builds d @
         [\<lparr>br_id = t_next_id d, br_finished = 0, br_timestamp = (now + 500000000) div 1000000000, br_jobset_id = jobset_id,
           br_job = ''debug'', br_nixname = Some ''debug'', br_drvpath = p, br_system = system,
           br_maxsilent = Some 7200, br_timeout = Some 36000, br_ischannel = 0, br_iscurrent = Some 0,
           br_priority = 100, br_globalpriority = 0, br_keep = 0, br_buildstatus = None,
           br_starttime = None, br_stoptime = None, br_size = None, br_closuresize = None,
           br_releasename = None, br_iscachedbuild = None, br_notificationpendingsince = None\<rparr>]\<rparr>)))"

definition get_build_output_for_path ::
  "'e db_env_scheme \<Rightarrow> string \<Rightarrow> ('s io_state_scheme, db_build_output option) io" where
  "get_build_output_for_path env p = sql env (select (\<lambda>d.
     map_option (\<lambda>b. \<lparr>dbo_id = br_id b, dbo_buildstatus = br_buildstatus b, dbo_releasename = br_releasename b,
                     dbo_closuresize = br_closuresize b, dbo_size = br_size b\<rparr>)
       (find (\<lambda>b. br_finished b = 1 \<and> (br_buildstatus b = Some 0 \<or> br_buildstatus b = Some 6) \<and>
                  list_ex (\<lambda>out. rbo_build out = br_id b \<and> rbo_path out = Some p) (t_buildoutputs d))
             (t_builds d))))"

definition product_of_row :: "insert_build_product \<Rightarrow> db_build_product" where
  "product_of_row r =
     \<lparr>dbp_type = ip_type r, dbp_subtype = ip_subtype r, dbp_filesize = ip_file_size r,
      dbp_sha256hash = ip_sha256hash r, dbp_path = Some (ip_path r), dbp_name = ip_name r,
      dbp_defaultpath = Some (ip_default_path r)\<rparr>"

definition get_build_products_for_build_id ::
  "'e db_env_scheme \<Rightarrow> int \<Rightarrow> ('s io_state_scheme, db_build_product list) io" where
  "get_build_products_for_build_id env build_id = sql env (select (\<lambda>d.
     map product_of_row (sort_by (\<lambda>a b. cmp (ip_product_nr a) (ip_product_nr b))
       (filter (\<lambda>r. ip_build_id r = build_id) (t_products d)))))"

definition get_build_metrics_for_build_id ::
  "'e db_env_scheme \<Rightarrow> int \<Rightarrow> ('s io_state_scheme, db_build_metric list) io" where
  "get_build_metrics_for_build_id env build_id = sql env (select (\<lambda>d.
     map (\<lambda>r. \<lparr>dbm_name = im_name r, dbm_unit = im_unit r, dbm_value = im_value r\<rparr>)
       (filter (\<lambda>r. im_build_id r = build_id) (t_metrics d))))"

subsection \<open>Statements of a transaction\<close>

definition updated_row :: "update_build \<Rightarrow> build_row \<Rightarrow> build_row" where
  "updated_row v r =
     r\<lparr>br_finished := 1, br_buildstatus := Some (build_status_as_i32 (ub_status v)),
       br_starttime := Some (ub_start_time v), br_stoptime := Some (ub_stop_time v),
       br_size := Some (ub_size v), br_closuresize := Some (ub_closure_size v),
       br_releasename := ub_release_name v, br_iscachedbuild := Some (of_bool (ub_is_cached_build v)),
       br_notificationpendingsince := Some (ub_stop_time v)\<rparr>"

definition db_update_build :: "'e db_env_scheme \<Rightarrow> int \<Rightarrow> update_build \<Rightarrow> ('s io_state_scheme, unit) io" where
  "db_update_build env build_id v = tx_sql env (execute (\<lambda>d.
     d\<lparr>t_builds := update_where (\<lambda>r. br_id r = build_id) (updated_row v) (t_builds d)\<rparr>))"

definition failed_row :: "build_status \<Rightarrow> int \<Rightarrow> int \<Rightarrow> bool \<Rightarrow> build_row \<Rightarrow> build_row" where
  "failed_row status start stop cached r =
     r\<lparr>br_finished := 1, br_buildstatus := Some (build_status_as_i32 status), br_starttime := Some start,
       br_stoptime := Some stop, br_iscachedbuild := Some (of_bool cached),
       br_notificationpendingsince := Some stop\<rparr>"

definition update_build_after_failure ::
  "'e db_env_scheme \<Rightarrow> int \<Rightarrow> build_status \<Rightarrow> int \<Rightarrow> int \<Rightarrow> bool \<Rightarrow> ('s io_state_scheme, unit) io" where
  "update_build_after_failure env build_id status start stop cached = tx_sql env (execute (\<lambda>d.
     d\<lparr>t_builds := update_where (\<lambda>r. br_id r = build_id \<and> br_finished r = 0)
        (failed_row status start stop cached) (t_builds d)\<rparr>))"

definition update_build_after_previous_failure ::
  "'e db_env_scheme \<Rightarrow> int \<Rightarrow> build_status \<Rightarrow> ('s io_state_scheme, unit) io" where
  "update_build_after_previous_failure env build_id status = bind (now_io env) (\<lambda>now. tx_sql env (execute (\<lambda>d.
     d\<lparr>t_builds := update_where (\<lambda>r. br_id r = build_id \<and> br_finished r = 0)
        (failed_row status (wrap_i32 (as_second now)) (wrap_i32 (as_second now)) True) (t_builds d)\<rparr>)))"

definition update_build_output ::
  "'e db_env_scheme \<Rightarrow> int \<Rightarrow> string \<Rightarrow> string \<Rightarrow> ('s io_state_scheme, unit) io" where
  "update_build_output env build_id name p = tx_sql env (execute (\<lambda>d.
     d\<lparr>t_buildoutputs := update_where (\<lambda>r. rbo_build r = build_id \<and> rbo_name r = name)
        (\<lambda>r. r\<lparr>rbo_path := Some p\<rparr>) (t_buildoutputs d)\<rparr>))"

text \<open>A comparison with a missing value is not true, as in SQL.\<close>

definition failed_step_row :: "build_step_row \<Rightarrow> bool" where
  "failed_step_row r \<longleftrightarrow>
     (case rs_starttime r of None \<Rightarrow> False | Some t \<Rightarrow> t \<noteq> 0) \<and>
     (case rs_stoptime r of None \<Rightarrow> False | Some t \<Rightarrow> t \<noteq> 0) \<and> rs_status r = Some 1"

definition get_last_build_step_id :: "'e db_env_scheme \<Rightarrow> string \<Rightarrow> ('s io_state_scheme, int option) io" where
  "get_last_build_step_id env p = tx_sql env (select (\<lambda>d.
     sql_max (map rs_build (filter (\<lambda>r. rs_drvpath r = Some p \<and> failed_step_row r) (t_buildsteps d)))))"

definition get_last_build_step_id_for_output_path ::
  "'e db_env_scheme \<Rightarrow> string \<Rightarrow> ('s io_state_scheme, int option) io" where
  "get_last_build_step_id_for_output_path env p = tx_sql env (select (\<lambda>d.
     sql_max [rs_build s. s \<leftarrow> t_buildsteps d, out \<leftarrow> t_stepoutputs d,
                rs_build s = ro_build out \<and> failed_step_row s \<and> ro_path out = Some p]))"

definition get_last_build_step_id_for_output_with_drv ::
  "'e db_env_scheme \<Rightarrow> string \<Rightarrow> string \<Rightarrow> ('s io_state_scheme, int option) io" where
  "get_last_build_step_id_for_output_with_drv env p name = tx_sql env (select (\<lambda>d.
     sql_max [rs_build s. s \<leftarrow> t_buildsteps d, out \<leftarrow> t_stepoutputs d,
                rs_build s = ro_build out \<and> failed_step_row s \<and> rs_drvpath s = Some p \<and> ro_name out = name]))"

definition next_step_nr :: "int \<Rightarrow> build_step_row list \<Rightarrow> int" where
  "next_step_nr build_id rows =
     (case sql_max (map rs_stepnr (filter (\<lambda>r. rs_build r = build_id) rows)) of
        None \<Rightarrow> 1 | Some v \<Rightarrow> wrap_i32 (v + 1))"

definition alloc_build_step :: "'e db_env_scheme \<Rightarrow> int \<Rightarrow> ('s io_state_scheme, int) io" where
  "alloc_build_step env build_id = tx_sql env (select (\<lambda>d. next_step_nr build_id (t_buildsteps d)))"

definition step_row_of :: "insert_build_step \<Rightarrow> build_step_row" where
  "step_row_of v =
     \<lparr>rs_build = is_build_id v, rs_stepnr = is_step_nr v, rs_type = build_type_as_i32 (is_type v),
      rs_drvpath = Some (is_drv_path v), rs_busy = of_bool (is_busy v), rs_starttime = is_start_time v,
      rs_stoptime = is_stop_time v, rs_system = is_platform v,
      rs_status = (if is_status v = Busy then None else Some (build_status_as_i32 (is_status v))),
      rs_propagatedfrom = is_propagated_from v, rs_errormsg = is_error_msg v, rs_machine = Some (is_machine v),
      rs_overhead = None, rs_timesbuilt = None, rs_isnondeterministic = None\<rparr>"

definition db_insert_build_step :: "'e db_env_scheme \<Rightarrow> insert_build_step \<Rightarrow> ('s io_state_scheme, bool) io" where
  "db_insert_build_step env v = tx_sql env (\<lambda>d.
     if e_conflict env (step_row_of v) (t_buildsteps d) then (False, d)
     else (True, d\<lparr>t_buildsteps := t_buildsteps d @ [step_row_of v]\<rparr>))"

definition step_output_row_of :: "insert_build_step_output \<Rightarrow> step_output_row" where
  "step_output_row_of v =
     \<lparr>ro_build = io_build_id v, ro_stepnr = io_step_nr v, ro_name = io_name v, ro_path = io_path v\<rparr>"

definition insert_build_step_outputs ::
  "'e db_env_scheme \<Rightarrow> insert_build_step_output list \<Rightarrow> ('s io_state_scheme, unit) io" where
  "insert_build_step_outputs env outs =
     (if outs = [] then ok ()
      else tx_sql env (execute (\<lambda>d. d\<lparr>t_stepoutputs := t_stepoutputs d @ map step_output_row_of outs\<rparr>)))"

definition update_build_step_output ::
  "'e db_env_scheme \<Rightarrow> int \<Rightarrow> int \<Rightarrow> string \<Rightarrow> string \<Rightarrow> ('s io_state_scheme, unit) io" where
  "update_build_step_output env build_id step_nr name p = tx_sql env (execute (\<lambda>d.
     d\<lparr>t_stepoutputs := update_where (\<lambda>r. ro_build r = build_id \<and> ro_stepnr r = step_nr \<and> ro_name r = name)
        (\<lambda>r. r\<lparr>ro_path := Some p\<rparr>) (t_stepoutputs d)\<rparr>))"

definition finished_step_row :: "update_build_step_in_finish \<Rightarrow> build_step_row \<Rightarrow> build_step_row" where
  "finished_step_row u r =
     r\<lparr>rs_busy := 0, rs_status := Some (build_status_as_i32 (uf_status u)), rs_errormsg := uf_error_msg u,
       rs_starttime := Some (uf_start_time u), rs_stoptime := Some (uf_stop_time u), rs_machine := uf_machine u,
       rs_overhead := uf_overhead u, rs_timesbuilt := uf_times_built u,
       rs_isnondeterministic := uf_is_non_deterministic u\<rparr>"

definition db_update_build_step_in_finish ::
  "'e db_env_scheme \<Rightarrow> update_build_step_in_finish \<Rightarrow> ('s io_state_scheme, unit) io" where
  "db_update_build_step_in_finish env u = tx_sql env (execute (\<lambda>d.
     d\<lparr>t_buildsteps := update_where (\<lambda>r. rs_build r = uf_build_id u \<and> rs_stepnr r = uf_step_nr u)
        (finished_step_row u) (t_buildsteps d)\<rparr>))"

definition get_drv_path_from_build_step ::
  "'e db_env_scheme \<Rightarrow> int \<Rightarrow> int \<Rightarrow> ('s io_state_scheme, string option) io" where
  "get_drv_path_from_build_step env build_id step_nr = tx_sql env (select (\<lambda>d.
     (case find (\<lambda>r. rs_build r = build_id \<and> rs_stepnr r = step_nr) (t_buildsteps d) of
        None \<Rightarrow> None | Some r \<Rightarrow> rs_drvpath r)))"

definition check_if_build_is_not_finished :: "'e db_env_scheme \<Rightarrow> int \<Rightarrow> ('s io_state_scheme, bool) io" where
  "check_if_build_is_not_finished env build_id = tx_sql env (select (\<lambda>d.
     list_ex (\<lambda>r. br_id r = build_id \<and> br_finished r = 0) (t_builds d)))"

definition db_insert_build_product ::
  "'e db_env_scheme \<Rightarrow> insert_build_product \<Rightarrow> ('s io_state_scheme, unit) io" where
  "db_insert_build_product env p = tx_sql env (execute (\<lambda>d. d\<lparr>t_products := t_products d @ [p]\<rparr>))"

definition delete_build_products_by_build_id :: "'e db_env_scheme \<Rightarrow> int \<Rightarrow> ('s io_state_scheme, unit) io" where
  "delete_build_products_by_build_id env build_id = tx_sql env (execute (\<lambda>d.
     d\<lparr>t_products := filter (\<lambda>r. ip_build_id r \<noteq> build_id) (t_products d)\<rparr>))"

definition db_insert_build_metric ::
  "'e db_env_scheme \<Rightarrow> insert_build_metric \<Rightarrow> ('s io_state_scheme, unit) io" where
  "db_insert_build_metric env m = tx_sql env (execute (\<lambda>d. d\<lparr>t_metrics := t_metrics d @ [m]\<rparr>))"

definition delete_build_metrics_by_build_id :: "'e db_env_scheme \<Rightarrow> int \<Rightarrow> ('s io_state_scheme, unit) io" where
  "delete_build_metrics_by_build_id env build_id = tx_sql env (execute (\<lambda>d.
     d\<lparr>t_metrics := filter (\<lambda>r. im_build_id r \<noteq> build_id) (t_metrics d)\<rparr>))"

definition insert_failed_paths :: "'e db_env_scheme \<Rightarrow> string \<Rightarrow> ('s io_state_scheme, unit) io" where
  "insert_failed_paths env p = tx_sql env (execute (\<lambda>d. d\<lparr>t_failedpaths := t_failedpaths d @ [p]\<rparr>))"

subsection \<open>Notifications\<close>

definition notify_any :: "'e db_env_scheme \<Rightarrow> string \<Rightarrow> string \<Rightarrow> ('s io_state_scheme, unit) io" where
  "notify_any env channel msg = tx_sql env (execute (\<lambda>d. d\<lparr>notifications := notifications d @ [(channel, msg)]\<rparr>))"

definition notify_builds_added :: "'e db_env_scheme \<Rightarrow> ('s io_state_scheme, unit) io" where
  "notify_builds_added env = notify_any env ''builds_added'' ''?''"

definition notify_build_started :: "'e db_env_scheme \<Rightarrow> int \<Rightarrow> ('s io_state_scheme, unit) io" where
  "notify_build_started env build_id = notify_any env ''build_started'' (int_to_string build_id)"

definition tab :: char where
  "tab = char_of (9 :: nat)"

definition build_finished_payload :: "int \<Rightarrow> int list \<Rightarrow> string" where
  "build_finished_payload build_id dependent_ids =
     join_with tab (int_to_string build_id # map int_to_string dependent_ids)"

definition notify_build_finished ::
  "'e db_env_scheme \<Rightarrow> int \<Rightarrow> int list \<Rightarrow> ('s io_state_scheme, unit) io" where
  "notify_build_finished env build_id dependent_ids =
     notify_any env ''build_finished'' (build_finished_payload build_id dependent_ids)"

definition notify_step_started :: "'e db_env_scheme \<Rightarrow> int \<Rightarrow> int \<Rightarrow> ('s io_state_scheme, unit) io" where
  "notify_step_started env build_id step_nr =
     notify_any env ''step_started'' (int_to_string build_id @ tab # int_to_string step_nr)"

definition notify_step_finished ::
  "'e db_env_scheme \<Rightarrow> int \<Rightarrow> int \<Rightarrow> string \<Rightarrow> ('s io_state_scheme, unit) io" where
  "notify_step_finished env build_id step_nr log_file =
     notify_any env ''step_finished'' (int_to_string build_id @ tab # int_to_string step_nr @ tab # log_file)"

definition notify_dump_status :: "'e db_env_scheme \<Rightarrow> ('s io_state_scheme, unit) io" where
  "notify_dump_status env = notify_any env ''dump_status'' []"

definition notify_status_dumped :: "'e db_env_scheme \<Rightarrow> ('s io_state_scheme, unit) io" where
  "notify_status_dumped env = notify_any env ''status_dumped'' []"

subsection \<open>Compound operations\<close>

definition insert_step_loop ::
  "'e db_env_scheme \<Rightarrow> int \<Rightarrow> (int \<Rightarrow> insert_build_step) \<Rightarrow> ('s io_state_scheme, int) io" where
  "insert_step_loop env build_id row = loop_io
     (bind (alloc_build_step env build_id) (\<lambda>step_nr.
      bind (db_insert_build_step env (row step_nr)) (\<lambda>inserted.
      ok (if inserted then Some step_nr else None))))"

definition create_build_step ::
  "'e db_env_scheme \<Rightarrow> int option \<Rightarrow> int \<Rightarrow> string \<Rightarrow> string option \<Rightarrow> string \<Rightarrow> build_status \<Rightarrow>
   string option \<Rightarrow> int option \<Rightarrow> (string \<times> string option) list \<Rightarrow> ('s io_state_scheme, int) io" where
  "create_build_step env start build_id p platform machine status err propagated_from outs =
     bind (insert_step_loop env build_id (\<lambda>step_nr.
       \<lparr>is_build_id = build_id, is_step_nr = step_nr, is_type = Build_Type_Build, is_drv_path = p,
        is_status = status, is_busy = (status = Busy), is_start_time = start,
        is_stop_time = (if status = Busy then None else start), is_platform = platform,
        is_propagated_from = propagated_from, is_error_msg = err, is_machine = machine\<rparr>)) (\<lambda>step_nr.
     and_then (insert_build_step_outputs env
       (map (\<lambda>(name, path). \<lparr>io_build_id = build_id, io_step_nr = step_nr, io_name = name, io_path = path\<rparr>) outs))
     (and_then (if status = Busy then notify_step_started env build_id step_nr else ok ())
     (ok step_nr)))"

definition create_substitution_step ::
  "'e db_env_scheme \<Rightarrow> int \<Rightarrow> int \<Rightarrow> int \<Rightarrow> string \<Rightarrow> string \<times> string option \<Rightarrow> ('s io_state_scheme, int) io" where
  "create_substitution_step env start stop build_id p out =
     bind (insert_step_loop env build_id (\<lambda>step_nr.
       \<lparr>is_build_id = build_id, is_step_nr = step_nr, is_type = Build_Type_Substitution, is_drv_path = p,
        is_status = Success, is_busy = False, is_start_time = Some start, is_stop_time = Some stop,
        is_platform = None, is_propagated_from = None, is_error_msg = None, is_machine = []\<rparr>)) (\<lambda>step_nr.
     and_then (insert_build_step_outputs env
       [\<lparr>io_build_id = build_id, io_step_nr = step_nr, io_name = fst out, io_path = snd out\<rparr>])
     (ok step_nr))"

definition mark_update :: "mark_build_success_data \<Rightarrow> bool \<Rightarrow> int \<Rightarrow> int \<Rightarrow> error + update_build" where
  "mark_update build cached start stop =
     (case (i64_try_from (uint (ms_size build)), i64_try_from (uint (ms_closure_size build))) of
        (Some s, Some c) \<Rightarrow> Inr
          \<lparr>ub_status = (if ms_failed build then FailedWithOutput else Success), ub_start_time = start,
           ub_stop_time = stop, ub_size = s, ub_closure_size = c, ub_release_name = ms_release_name build,
           ub_is_cached_build = cached\<rparr>
      | _ \<Rightarrow> Inl Int_Conversion)"

definition mark_insert_product ::
  "'e db_env_scheme \<Rightarrow> int \<Rightarrow> nat \<times> db_build_product \<Rightarrow> ('s io_state_scheme, unit) io" where
  "mark_insert_product env build_id = (\<lambda>(nr, p).
     bind (of_option Int_Conversion (i32_try_from (int (nr + 1)))) (\<lambda>product_nr.
     db_insert_build_product env
       \<lparr>ip_build_id = build_id, ip_product_nr = product_nr, ip_type = dbp_type p, ip_subtype = dbp_subtype p,
        ip_file_size = dbp_filesize p, ip_sha256hash = dbp_sha256hash p,
        ip_path = (case dbp_path p of None \<Rightarrow> [] | Some s \<Rightarrow> s), ip_name = dbp_name p,
        ip_default_path = (case dbp_defaultpath p of None \<Rightarrow> [] | Some s \<Rightarrow> s)\<rparr>))"

definition mark_insert_metric ::
  "'e db_env_scheme \<Rightarrow> mark_build_success_data \<Rightarrow> db_build_metric \<Rightarrow> ('s io_state_scheme, unit) io" where
  "mark_insert_metric env build m =
     bind (of_option Int_Conversion (i32_try_from (ms_timestamp build))) (\<lambda>t.
     db_insert_build_metric env
       \<lparr>im_build_id = ms_id build, im_name = dbm_name m, im_unit = dbm_unit m, im_value = dbm_value m,
        im_project = ms_project_name build, im_jobset = ms_jobset_name build, im_job = ms_name build,
        im_timestamp = t\<rparr>)"

definition mark_succeeded_build ::
  "'e db_env_scheme \<Rightarrow> mark_build_success_data \<Rightarrow> bool \<Rightarrow> int \<Rightarrow> int \<Rightarrow> ('s io_state_scheme, unit) io" where
  "mark_succeeded_build env build cached start stop =
     (if ms_finished_in_db build then ok ()
      else bind (check_if_build_is_not_finished env (ms_id build)) (\<lambda>open_build.
        if \<not> open_build then ok ()
        else
          bind (of_sum (mark_update build cached start stop)) (\<lambda>v.
          and_then (db_update_build env (ms_id build) v)
          (and_then (for_each (\<lambda>(name, p). update_build_output env (ms_id build) name p) (ms_outputs build))
          (and_then (delete_build_products_by_build_id env (ms_id build))
          (and_then (for_each (mark_insert_product env (ms_id build)) (enumerate 0 (ms_products build)))
          (and_then (delete_build_metrics_by_build_id env (ms_id build))
          (for_each (mark_insert_metric env build) (ms_metrics build)))))))))"

end
