(* ===== verification/Config.thy ===== *)
theory Config
  imports Queue Rust_Str
begin

text \<open>
  The configuration (queue-runner/src/config.rs): the values read from the configuration file with
  their defaults, how they are prepared for the runner, the accessors of the shared configuration,
  the bind address of the gRPC server, and the check of the authorization header that uses the list
  of tokens (queue-runner/src/server/grpc.rs). Reading the TOML file and the command line is left to
  their parsers; a file that is read, an environment variable and the creation of a directory are
  arguments. Durations are in nanoseconds.

  Lemmas: a timer is armed exactly for a positive number of seconds; a request passes the check exactly
  when no list is in force or it carries one of its tokens; one token file that cannot be read takes
  the whole list out of force.
\<close>

subsection \<open>Command line\<close>

datatype 'addr bind_socket = Tcp 'addr | Unix string | ListenFd

definition bind_socket_from_str :: "(string \<Rightarrow> 'addr option) \<Rightarrow> string \<Rightarrow> 'addr bind_socket" where
  "bind_socket_from_str parse_addr s =
     (case parse_addr s of Some a \<Rightarrow> Tcp a | None \<Rightarrow> if s = ''-'' then ListenFd else Unix s)"

record cli =
  cli_status :: bool
  server_cert_path :: "string option"
  server_key_path :: "string option"
  client_ca_cert_path :: "string option"
  disable_queue_monitor_loop :: bool

definition mtls_enabled :: "cli \<Rightarrow> bool" where
  "mtls_enabled c \<longleftrightarrow> server_cert_path c \<noteq> None \<and> server_key_path c \<noteq> None \<and> client_ca_cert_path c \<noteq> None"

definition mtls_configured_correctly :: "cli \<Rightarrow> bool" where
  "mtls_configured_correctly c \<longleftrightarrow> mtls_enabled c \<or>
     (server_cert_path c = None \<and> server_key_path c = None \<and> client_ca_cert_path c = None)"

text \<open>The certificate and the identity, as the contents of the three files.\<close>

definition get_mtls :: "(string \<Rightarrow> error + string) \<Rightarrow> cli \<Rightarrow> error + (string \<times> string \<times> string)" where
  "get_mtls read_file c =
     (case server_cert_path c of None \<Rightarrow> Inl (Not_Found ''server_cert_path'') | Some cert_path \<Rightarrow>
      (case server_key_path c of None \<Rightarrow> Inl (Not_Found ''server_key_path'') | Some key_path \<Rightarrow>
      (case client_ca_cert_path c of None \<Rightarrow> Inl (Not_Found ''client_ca_cert_path'') | Some ca_file \<Rightarrow>
      (case read_file ca_file of Inl e \<Rightarrow> Inl e | Inr ca \<Rightarrow>
      (case read_file cert_path of Inl e \<Rightarrow> Inl e | Inr cert \<Rightarrow>
      (case read_file key_path of Inl e \<Rightarrow> Inl e | Inr key \<Rightarrow> Inr (ca, cert, key)))))))"

subsection \<open>The configuration file\<close>

record app_config =
  ac_hydra_data_dir :: string
  ac_db_url :: string
  ac_max_db_connections :: u32
  ac_machine_sort_fn :: machine_sort_fn
  ac_machine_free_fn :: machine_free_fn
  ac_step_sort_fn :: step_sort_fn
  ac_dispatch_trigger_timer_in_s :: int
  ac_queue_trigger_timer_in_s :: int
  ac_remote_store_addr :: "string list"
  ac_use_substitutes :: bool
  ac_roots_dir :: "string option"
  ac_max_retries :: u32
  ac_retry_interval :: u32
  ac_retry_backoff :: rfloat
  ac_max_unsupported_time_in_s :: int
  ac_stop_queue_run_after_in_s :: int
  ac_max_concurrent_downloads :: u32
  ac_concurrent_upload_limit :: nat
  ac_token_list_path :: "string list option"
  ac_enable_fod_checker :: bool
  ac_use_presigned_uploads :: bool
  ac_forced_substituters :: "string list"

text \<open>What the empty file gives: every field has a default.\<close>

definition default_app_config :: app_config where
  "default_app_config =
     \<lparr>ac_hydra_data_dir = ''/tmp/hydra'', ac_db_url = ''postgres://hydra@%2Frun%2Fpostgresql:5432/hydra'',
      ac_max_db_connections = 128, ac_machine_sort_fn = BogomipsWithSpeedFactor, ac_machine_free_fn = Static,
      ac_step_sort_fn = WithRdeps, ac_dispatch_trigger_timer_in_s = 120, ac_queue_trigger_timer_in_s = - 1,
      ac_remote_store_addr = [], ac_use_substitutes = False, ac_roots_dir = None, ac_max_retries = 5,
      ac_retry_interval = 60, ac_retry_backoff = Fin False 3, ac_max_unsupported_time_in_s = 120,
      ac_stop_queue_run_after_in_s = 60, ac_max_concurrent_downloads = 5, ac_concurrent_upload_limit = 5,
      ac_token_list_path = None, ac_enable_fod_checker = False, ac_use_presigned_uploads = False,
      ac_forced_substituters = []\<rparr>"

record prepared_app =
  hydra_data_dir :: string
  hydra_log_dir :: string
  lockfile :: string
  db_url :: string
  max_db_connections :: u32
  cfg_machine_sort_fn :: machine_sort_fn
  cfg_machine_free_fn :: machine_free_fn
  cfg_step_sort_fn :: step_sort_fn
  dispatch_trigger_timer :: "nat option"
  queue_trigger_timer :: "nat option"
  remote_store_addr :: "string list"
  cfg_use_substitutes :: bool
  roots_dir :: string
  max_retries :: u32
  retry_interval :: rfloat
  retry_backoff :: rfloat
  max_unsupported_time :: int
  stop_queue_run_after :: "int option"
  cfg_max_concurrent_downloads :: u32
  concurrent_upload_limit :: nat
  token_list :: "string list option"
  enable_fod_checker :: bool
  cfg_use_presigned_uploads :: bool
  cfg_forced_substituters :: "string list"

definition supported_store_addr :: "string \<Rightarrow> bool" where
  "supported_store_addr v \<longleftrightarrow>
     starts_with ''file://'' v \<or> starts_with ''s3://'' v \<or> starts_with ''ssh://'' v \<or> starts_with ''/'' v"

fun collect_options :: "'a option list \<Rightarrow> 'a list option" where
  "collect_options [] = Some []"
| "collect_options (None # xs) = None"
| "collect_options (Some x # xs) = map_option ((#) x) (collect_options xs)"

definition load_tokens :: "(string \<Rightarrow> error + string) \<Rightarrow> string list option \<Rightarrow> string list option" where
  "load_tokens read_file paths =
     (case paths of
        None \<Rightarrow> None
      | Some l \<Rightarrow> collect_options (map (\<lambda>p. case read_file p of Inl _ \<Rightarrow> None | Inr s \<Rightarrow> Some (trim s)) l))"

definition timer :: "int \<Rightarrow> nat option" where
  "timer secs =
     (case u64_try_from secs of None \<Rightarrow> None | Some v \<Rightarrow> if v = 0 then None else Some (unat v * 1000000000))"

definition prepare_app ::
  "string option \<Rightarrow> string option \<Rightarrow> (string \<Rightarrow> error + unit) \<Rightarrow> (string \<Rightarrow> error + string) \<Rightarrow> app_config \<Rightarrow>
   error + prepared_app" where
  "prepare_app logname nix_state_dir create_dir read_file val =
     (case logname of
        None \<Rightarrow> Inl (Not_Found ''LOGNAME env var missing'')
      | Some user \<Rightarrow>
         (let roots = (case ac_roots_dir val of
                Some d \<Rightarrow> d
              | None \<Rightarrow> path_join (path_join (path_join
                  (case nix_state_dir of None \<Rightarrow> ''/nix/var/nix/'' | Some d \<Rightarrow> d) ''gcroots/per-user'') user) ''hydra-roots'')
          in case create_dir roots of
               Inl e \<Rightarrow> Inl e
             | Inr _ \<Rightarrow> Inr
                 \<lparr>hydra_data_dir = ac_hydra_data_dir val,
                  hydra_log_dir = path_join (ac_hydra_data_dir val) ''build-logs'',
                  lockfile = path_join (ac_hydra_data_dir val) ''queue-runner/lock'',
                  db_url = ac_db_url val, max_db_connections = ac_max_db_connections val,
                  cfg_machine_sort_fn = ac_machine_sort_fn val, cfg_machine_free_fn = ac_machine_free_fn val,
                  cfg_step_sort_fn = ac_step_sort_fn val,
                  dispatch_trigger_timer = timer (ac_dispatch_trigger_timer_in_s val),
                  queue_trigger_timer = timer (ac_queue_trigger_timer_in_s val),
                  remote_store_addr = filter supported_store_addr (ac_remote_store_addr val),
                  cfg_use_substitutes = ac_use_substitutes val, roots_dir = roots,
                  max_retries = ac_max_retries val,
                  retry_interval = f32_of_int (uint (ac_retry_interval val)),
                  retry_backoff = ac_retry_backoff val,
                  max_unsupported_time = ac_max_unsupported_time_in_s val * 1000000000,
                  stop_queue_run_after =
                    (if ac_stop_queue_run_after_in_s val \<le> 0 then None
                     else Some (ac_stop_queue_run_after_in_s val * 1000000000)),
                  cfg_max_concurrent_downloads = ac_max_concurrent_downloads val,
                  concurrent_upload_limit = ac_concurrent_upload_limit val,
                  token_list = load_tokens read_file (ac_token_list_path val),
                  enable_fod_checker = ac_enable_fod_checker val,
                  cfg_use_presigned_uploads = ac_use_presigned_uploads val,
                  cfg_forced_substituters = ac_forced_substituters val\<rparr>))"

text \<open>\<open>parse_toml\<close> is the TOML parser applied to the contents of the file, or to the empty string.\<close>

definition load_config ::
  "(string \<Rightarrow> error + app_config) \<Rightarrow> string option \<Rightarrow> string option \<Rightarrow> (string \<Rightarrow> error + unit) \<Rightarrow>
   (string \<Rightarrow> error + string) \<Rightarrow> string \<Rightarrow> error + prepared_app" where
  "load_config parse_toml logname nix_state_dir create_dir read_file path =
     (case parse_toml (case read_file path of Inr content \<Rightarrow> content | Inl _ \<Rightarrow> []) of
        Inl e \<Rightarrow> Inl e
      | Inr c \<Rightarrow> prepare_app logname nix_state_dir create_dir read_file c)"

subsection \<open>Accessors and the check of a request\<close>

definition get_retry :: "prepared_app \<Rightarrow> u32 \<times> rfloat \<times> rfloat" where
  "get_retry c = (max_retries c, retry_interval c, retry_backoff c)"

definition has_token_list :: "prepared_app \<Rightarrow> bool" where
  "has_token_list c \<longleftrightarrow> token_list c \<noteq> None"

definition check_if_contains_token :: "string \<Rightarrow> prepared_app \<Rightarrow> bool" where
  "check_if_contains_token token c =
     (case token_list c of None \<Rightarrow> False | Some l \<Rightarrow> list_ex (\<lambda>t. t = token) l)"

datatype grpc_status =
  Unauthenticated string | Invalid_Argument string | Internal string | Failed_Precondition string | Status_Not_Found string

text \<open>
  The interceptor of the gRPC service; the value of the authorization header is missing, not printable,
  or a string.
\<close>

datatype header = No_Header | Opaque_Header | Header string

definition check_auth :: "prepared_app \<Rightarrow> header \<Rightarrow> grpc_status + unit" where
  "check_auth c h =
     (if has_token_list c
      then (case h of
              No_Header \<Rightarrow> Inl (Unauthenticated ''No valid auth token'')
            | Opaque_Header \<Rightarrow> Inl (Unauthenticated ''No valid auth token'')
            | Header t \<Rightarrow>
                (case strip_prefix ''Bearer '' t of
                   None \<Rightarrow> Inl (Unauthenticated ''No valid auth token'')
                 | Some token \<Rightarrow>
                     if check_if_contains_token token c then Inr () else Inl (Unauthenticated ''No valid auth token'')))
      else Inr ())"

subsection \<open>Properties\<close>

lemma strip_prefix_Some: "strip_prefix p s = Some r \<longleftrightarrow> s = p @ r"
  by (induction p s rule: strip_prefix.induct) auto

lemma collect_options_None: "None \<in> set xs \<Longrightarrow> collect_options xs = None"
  by (induction xs rule: collect_options.induct) auto

lemma collect_options_Some: "collect_options xs = Some ys \<longleftrightarrow> xs = map Some ys"
proof (induction xs arbitrary: ys rule: collect_options.induct)
  case 3
  then show ?case by (cases ys) auto
qed auto

text \<open>
  a request passes the check of the gRPC server exactly when no list of tokens is in force, or its
  authorization header is the word \<^verbatim>\<open>Bearer\<close>, one space and one of the tokens.
\<close>

theorem check_auth_exact:
  "check_auth c h = Inr () \<longleftrightarrow>
     token_list c = None \<or> (\<exists>l t. token_list c = Some l \<and> t \<in> set l \<and> h = Header (''Bearer '' @ t))"
  by (cases h)
    (auto simp: check_auth_def has_token_list_def check_if_contains_token_def list_ex_iff strip_prefix_Some
      split: option.splits)

text \<open>
  C26: when the configuration names token files and they can all be read, only requests that carry the
  trimmed contents of one of them pass; but when a single one of them cannot be read, the whole list is
  dropped and every request passes, with or without a token.
\<close>

theorem token_files_all_or_none:
  assumes "prepare_app logname nix_state_dir create_dir read_file val = Inr c"
    and "ac_token_list_path val = Some paths"
  shows "if (\<forall>p \<in> set paths. \<exists>s. read_file p = Inr s)
     then (check_auth c h = Inr () \<longleftrightarrow> (\<exists>p \<in> set paths. \<exists>s. read_file p = Inr s \<and> h = Header (''Bearer '' @ trim s)))
     else check_auth c h = Inr ()"
proof -
  let ?read = "\<lambda>p. case read_file p of Inl _ \<Rightarrow> None | Inr s \<Rightarrow> Some (trim s)"
  have tokens: "token_list c = collect_options (map ?read paths)"
    using assms by (auto simp: prepare_app_def load_tokens_def Let_def split: option.splits sum.splits)
  show ?thesis
  proof (cases "\<forall>p \<in> set paths. \<exists>s. read_file p = Inr s")
    case True
    let ?ts = "map (\<lambda>p. trim (projr (read_file p))) paths"
    have "map ?read paths = map Some ?ts" using True by fastforce
    then have "token_list c = Some ?ts" by (simp only: tokens collect_options_Some)
    with True show ?thesis by (force simp: check_auth_exact)
  next
    case False
    then obtain p where "p \<in> set paths" and "\<nexists>s. read_file p = Inr s" by blast
    then have "None \<in> set (map ?read paths)" by (cases "read_file p") force+
    then have "token_list c = None" using tokens collect_options_None by metis
    then have "check_auth c h = Inr ()" by (simp add: check_auth_exact)
    with False show ?thesis by auto
  qed
qed

definition ex_read_token :: "string \<Rightarrow> error + string" where
  "ex_read_token p = (if p = ''/run/token'' then Inr ''secret '' else Inl (Not_Found p))"

definition ex_auth_config :: "string list \<Rightarrow> prepared_app" where
  "ex_auth_config paths =
     projr (prepare_app (Some ''hydra'') None (\<lambda>_. Inr ()) ex_read_token
       (default_app_config\<lparr>ac_token_list_path := Some paths\<rparr>))"

lemma ex_auth_config_prepared:
  "prepare_app (Some ''hydra'') None (\<lambda>_. Inr ()) ex_read_token
     (default_app_config\<lparr>ac_token_list_path := Some paths\<rparr>) = Inr (ex_auth_config paths)"
  by (simp add: ex_auth_config_def prepare_app_def Let_def)

theorem token_files_all_or_none_witness:
  "check_auth (ex_auth_config [''/run/token'']) No_Header \<noteq> Inr () \<and>
   check_auth (ex_auth_config [''/run/token'', ''/run/missing'']) No_Header = Inr ()"
proof -
  note all = token_files_all_or_none [OF ex_auth_config_prepared, simplified, OF refl, of _ No_Header]
  have "check_auth (ex_auth_config [''/run/token'']) No_Header \<noteq> Inr ()"
    using all [of "[''/run/token'']"] by (simp add: ex_read_token_def)
  moreover have "check_auth (ex_auth_config [''/run/token'', ''/run/missing'']) No_Header = Inr ()"
    using all [of "[''/run/token'', ''/run/missing'']"] by (simp add: ex_read_token_def)
  ultimately show ?thesis by simp
qed

text \<open>
  a timer of the configuration is armed exactly for a positive number of seconds, and then runs for
  that many; zero and every negative number disable it.
\<close>

theorem timer_armed:
  "- (2 ^ 63) \<le> secs \<and> secs < 2 ^ 63 \<longrightarrow> timer secs = (if 0 < secs then Some (nat secs * 1000000000) else None)"
proof -
  have "timer secs = Some (nat secs * 1000000000)" if "0 < secs" and "secs < 2 ^ 63"
  proof -
    have "uint (word_of_int secs :: u64) = secs"
      using that by (simp add: uint_word_of_int take_bit_int_eq_self)
    moreover from this have "(word_of_int secs :: u64) \<noteq> 0" using that by auto
    ultimately show ?thesis using that by (simp add: timer_def u64_try_from_def flip: nat_uint_eq)
  qed
  then show ?thesis by (auto simp: timer_def u64_try_from_def split: option.splits)
qed

theorem timer_armed_witness: "timer 120 = Some 120000000000 \<and> timer 0 = None \<and> timer (- 1) = None"
  using timer_armed [of 120] timer_armed [of 0] timer_armed [of "- 1"] by simp

end
