(* ===== verification/Uploader.thy ===== *)
theory Uploader
  imports Machine
begin

text \<open>
  The upload queue (queue-runner/src/state/uploader.rs) and the channel under it
  (queue-runner/src/state/inspectable_channel.rs). The channel is a queue with one stored wake-up
  permit; a receiver that finds it empty uses up the permit and waits. The uploader keeps the messages
  that wait, the messages that are being uploaded, and a state file from which they are meant to be
  restored. What the stores answer is given by arguments; an upload leaves a trace of the calls it made.

  Lemmas: the channel is first in, first out, and no wake-up is lost; \<open>upload_once\<close> forgets exactly the
  message it has uploaded, whereas \<open>upload_many\<close> keeps exactly those; after a restart the saved messages
  are refused.
\<close>

subsection \<open>The channel\<close>

record 'a channel =
  ch_queue :: "'a list"
  ch_permit :: bool

definition channel_new :: "'a channel" where
  "channel_new = \<lparr>ch_queue = [], ch_permit = False\<rparr>"

definition load_vec_into :: "'a list \<Rightarrow> 'a channel \<Rightarrow> 'a channel" where
  "load_vec_into xs c = c\<lparr>ch_queue := ch_queue c @ xs, ch_permit := True\<rparr>"

definition ch_send :: "'a \<Rightarrow> 'a channel \<Rightarrow> 'a channel" where
  "ch_send m c = c\<lparr>ch_queue := ch_queue c @ [m], ch_permit := True\<rparr>"

definition recv :: "'a channel \<Rightarrow> 'a option \<times> 'a channel" where
  "recv c = (case ch_queue c of
       [] \<Rightarrow> (None, c\<lparr>ch_permit := False\<rparr>)
     | m # ms \<Rightarrow> (Some m, c\<lparr>ch_queue := ms\<rparr>))"

definition recv_many :: "nat \<Rightarrow> 'a channel \<Rightarrow> 'a list \<times> 'a channel" where
  "recv_many wanted c =
     (let available = min wanted (length (ch_queue c));
          ms = take available (ch_queue c)
      in if ms \<noteq> [] then (ms, c\<lparr>ch_queue := drop available (ch_queue c)\<rparr>)
         else ([], c\<lparr>ch_permit := False\<rparr>))"

subsection \<open>Messages and the state file\<close>

record up_message =
  um_id :: uuid
  um_store_paths :: "store_path list"
  um_log_remote_path :: string
  um_log_local_path :: string

text \<open>
  An entry of the state file has no identifier: the field is skipped when a message is written. When one
  is read, \<open>on_missing\<close> is what the derived reader gives for a field that is not there.
\<close>

record saved_message =
  sm_id :: "uuid option"
  sm_store_paths :: "store_path list"
  sm_log_remote_path :: string
  sm_log_local_path :: string

definition serialize :: "up_message \<Rightarrow> saved_message" where
  "serialize m =
     \<lparr>sm_id = None, sm_store_paths = um_store_paths m, sm_log_remote_path = um_log_remote_path m,
      sm_log_local_path = um_log_local_path m\<rparr>"

definition deserialize :: "error + uuid \<Rightarrow> uuid \<Rightarrow> saved_message \<Rightarrow> error + up_message" where
  "deserialize on_missing fresh s =
     (case (case sm_id s of Some _ \<Rightarrow> Inr fresh | None \<Rightarrow> on_missing) of
        Inl e \<Rightarrow> Inl e
      | Inr u \<Rightarrow> Inr \<lparr>um_id = u, um_store_paths = sm_store_paths s,
                     um_log_remote_path = sm_log_remote_path s, um_log_local_path = sm_log_local_path s\<rparr>)"

fun deserialize_all :: "error + uuid \<Rightarrow> (nat \<Rightarrow> uuid) \<Rightarrow> nat \<Rightarrow> saved_message list \<Rightarrow> error + up_message list" where
  "deserialize_all on_missing fresh n [] = Inr []"
| "deserialize_all on_missing fresh n (s # ss) =
     (case deserialize on_missing (fresh n) s of
        Inl e \<Rightarrow> Inl e
      | Inr m \<Rightarrow> (case deserialize_all on_missing fresh (n + 1) ss of Inl e \<Rightarrow> Inl e | Inr ms \<Rightarrow> Inr (m # ms)))"

record uploader =
  up_queue :: "up_message channel"
  current_tasks :: "up_message list"
  state_file :: "saved_message list option"

definition uploader_start :: "saved_message list option \<Rightarrow> uploader" where
  "uploader_start file = \<lparr>up_queue = channel_new, current_tasks = [], state_file = file\<rparr>"

definition save_state :: "bool \<Rightarrow> uploader \<Rightarrow> error + uploader" where
  "save_state write_ok u =
     (if write_ok
      then Inr (u\<lparr>state_file := Some (map serialize (ch_queue (up_queue u) @ current_tasks u))\<rparr>)
      else Inl (Not_Found ''state file''))"

definition load_state :: "error + uuid \<Rightarrow> (nat \<Rightarrow> uuid) \<Rightarrow> uploader \<Rightarrow> error + uploader" where
  "load_state on_missing fresh u =
     (case state_file u of
        None \<Rightarrow> Inr u
      | Some ss \<Rightarrow>
          (case deserialize_all on_missing fresh 0 ss of
             Inl e \<Rightarrow> Inl e
           | Inr ms \<Rightarrow> Inr (u\<lparr>up_queue := load_vec_into ms (up_queue u)\<rparr>)))"

definition keep_on_error :: "error + 'a \<Rightarrow> 'a \<Rightarrow> 'a" where
  "keep_on_error r u = (case r of Inl _ \<Rightarrow> u | Inr u' \<Rightarrow> u')"

definition uploader_new :: "error + uuid \<Rightarrow> (nat \<Rightarrow> uuid) \<Rightarrow> saved_message list option \<Rightarrow> uploader" where
  "uploader_new on_missing fresh file =
     (let u = uploader_start file in keep_on_error (load_state on_missing fresh u) u)"

definition schedule_upload ::
  "uuid \<Rightarrow> bool \<Rightarrow> store_path list \<Rightarrow> string \<Rightarrow> string \<Rightarrow> uploader \<Rightarrow> uploader" where
  "schedule_upload fresh write_ok paths remote local u =
     (let u1 = u\<lparr>up_queue := ch_send
            \<lparr>um_id = fresh, um_store_paths = paths, um_log_remote_path = remote, um_log_local_path = local\<rparr> (up_queue u)\<rparr>
      in keep_on_error (save_state write_ok u1) u1)"

subsection \<open>Uploading\<close>

datatype upload_call =
    Upsert_Log string string
  | Copy_Paths string "store_path list"

text \<open>
  A call that is retried: \<open>attempt n\<close> says whether the n-th attempt succeeds; there is one attempt and
  at most \<open>max_times\<close> further ones.
\<close>

fun attempts :: "(nat \<Rightarrow> bool) \<Rightarrow> nat \<Rightarrow> nat \<Rightarrow> nat" where
  "attempts succeeds n 0 = 1"
| "attempts succeeds n (Suc left) = (if succeeds n then 1 else 1 + attempts succeeds (n + 1) left)"

record remote_store =
  bucket :: string
  log_attempt :: "nat \<Rightarrow> bool"
  missing_paths :: "store_path list \<Rightarrow> store_path list"
  copy_attempt :: "nat \<Rightarrow> bool"

definition upload_to :: "up_message \<Rightarrow> store_path list \<Rightarrow> remote_store \<Rightarrow> upload_call list" where
  "upload_to msg paths r =
     replicate (attempts (log_attempt r) 0 3) (Upsert_Log (bucket r) (um_log_remote_path msg)) @
     replicate (attempts (copy_attempt r) 0 5) (Copy_Paths (bucket r) (missing_paths r paths))"

definition upload_msg ::
  "(store_path list \<Rightarrow> error + store_path list) \<Rightarrow> remote_store list \<Rightarrow> up_message \<Rightarrow> upload_call list" where
  "upload_msg query_requisites stores msg =
     (case query_requisites (um_store_paths msg) of
        Inl _ \<Rightarrow> []
      | Inr paths \<Rightarrow> concat (map (upload_to msg paths) stores))"

definition upload_once ::
  "bool \<Rightarrow> (store_path list \<Rightarrow> error + store_path list) \<Rightarrow> remote_store list \<Rightarrow> uploader \<Rightarrow> uploader \<times> upload_call list" where
  "upload_once write_ok query_requisites stores u =
     (case recv (up_queue u) of
        (None, c) \<Rightarrow> (u\<lparr>up_queue := c\<rparr>, [])
      | (Some msg, c) \<Rightarrow>
          (let u1 = u\<lparr>up_queue := c, current_tasks := current_tasks u @ [msg]\<rparr>;
               calls = upload_msg query_requisites stores msg;
               u2 = u1\<lparr>current_tasks := filter (\<lambda>v. um_id v \<noteq> um_id msg) (current_tasks u1)\<rparr>
           in (keep_on_error (save_state write_ok u2) u2, calls)))"

definition upload_many ::
  "bool \<Rightarrow> (store_path list \<Rightarrow> error + store_path list) \<Rightarrow> remote_store list \<Rightarrow> nat \<Rightarrow> uploader \<Rightarrow>
   uploader \<times> upload_call list" where
  "upload_many write_ok query_requisites stores limit u =
     (case recv_many limit (up_queue u) of
        ([], c) \<Rightarrow> (u\<lparr>up_queue := c\<rparr>, [])
      | (msgs, c) \<Rightarrow>
          (let ids = map um_id msgs;
               u1 = u\<lparr>up_queue := c, current_tasks := current_tasks u @ msgs\<rparr>;
               calls = concat (map (upload_msg query_requisites stores) msgs);
               u2 = u1\<lparr>current_tasks := filter (\<lambda>v. um_id v \<in> set ids) (current_tasks u1)\<rparr>
           in (keep_on_error (save_state write_ok u2) u2, calls)))"

definition len_of_queue :: "uploader \<Rightarrow> nat" where
  "len_of_queue u = length (ch_queue (up_queue u))"

definition paths_in_queue :: "uploader \<Rightarrow> store_path list" where
  "paths_in_queue u = concat (map um_store_paths (ch_queue (up_queue u)))"

subsection \<open>Properties\<close>

text \<open>The runner receives several messages at once only with a limit of two or more.\<close>

inductive channel_step :: "'a channel \<Rightarrow> 'a channel \<Rightarrow> bool" where
  sent: "channel_step c (ch_send m c)"
| loaded: "channel_step c (load_vec_into ms c)"
| received: "channel_step c (snd (recv c))"
| received_many: "0 < n \<Longrightarrow> channel_step c (snd (recv_many n c))"

definition channel_ok :: "'a channel \<Rightarrow> bool" where
  "channel_ok c \<longleftrightarrow> (ch_queue c \<noteq> [] \<longrightarrow> ch_permit c)"

interpretation channel_life: invariant_system "\<lambda>c. c = channel_new" channel_step channel_ok
proof
  show "channel_ok t" if "channel_ok c" and "channel_step c t" for c t :: "'a channel"
    using that(2,1)
    by cases (auto simp: channel_ok_def ch_send_def load_vec_into_def recv_def recv_many_def Let_def split: list.splits)
qed (simp add: channel_ok_def channel_new_def)



text \<open>
  \<^verbatim>\<open>upload_once\<close> takes the oldest waiting message, makes the calls for it, and forgets exactly the
  tasks with its identifier; the tasks of other uploads stay, the other messages keep their order, and
  when the state file can be written it lists the messages that wait and the tasks that run.
\<close>

theorem upload_once_exact:
  assumes "ch_queue (up_queue u) = msg # rest" and "upload_once write_ok req stores u = (u', calls)"
  shows "ch_queue (up_queue u') = rest \<and> calls = upload_msg req stores msg \<and>
    current_tasks u' = filter (\<lambda>v. um_id v \<noteq> um_id msg) (current_tasks u) \<and>
    (write_ok \<longrightarrow> state_file u' = Some (map serialize (rest @ current_tasks u')))"
  using assms
  by (auto simp: upload_once_def recv_def save_state_def keep_on_error_def Let_def)

definition ex_msg :: "nat \<Rightarrow> up_message" where
  "ex_msg n = \<lparr>um_id = n, um_store_paths = [''o''], um_log_remote_path = ''log/o'', um_log_local_path = ''/o''\<rparr>"

definition ex_uploader :: uploader where
  "ex_uploader = \<lparr>up_queue = \<lparr>ch_queue = [ex_msg 1, ex_msg 2], ch_permit = True\<rparr>, current_tasks = [], state_file = None\<rparr>"

theorem upload_once_exact_witness:
  "\<exists>u' calls. upload_once True Inr [] ex_uploader = (u', calls) \<and>
     ch_queue (up_queue u') = [ex_msg 2] \<and> current_tasks u' = []"
proof -
  obtain u' calls where run: "upload_once True Inr [] ex_uploader = (u', calls)" by fastforce
  have "ch_queue (up_queue ex_uploader) = ex_msg 1 # [ex_msg 2]" by (simp add: ex_uploader_def)
  from upload_once_exact [OF this run] run show ?thesis by (simp add: ex_uploader_def)
qed

text \<open>
  \<^verbatim>\<open>upload_many\<close> does the opposite: when it has uploaded a batch, the tasks it keeps are exactly those
  of the batch, and the tasks of every other upload are dropped. The finished messages stay listed as
  running and are written to the state file again and again.
\<close>

theorem upload_many_keeps_finished:
  assumes "msgs = take limit (ch_queue (up_queue u))" and "msgs \<noteq> []"
    and "upload_many write_ok req stores limit u = (u', calls)"
    and "set (map um_id (current_tasks u)) \<inter> set (map um_id msgs) = {}"
  shows "calls = concat (map (upload_msg req stores) msgs) \<and> current_tasks u' = msgs \<and>
    ch_queue (up_queue u') = drop limit (ch_queue (up_queue u)) \<and>
    (write_ok \<longrightarrow> state_file u' = Some (map serialize (ch_queue (up_queue u') @ msgs)))"
proof -
  have got: "recv_many limit (up_queue u) = (msgs, (up_queue u)\<lparr>ch_queue := drop limit (ch_queue (up_queue u))\<rparr>)"
    using assms(1,2) by (auto simp: recv_many_def Let_def min_def)
  have old: "filter (\<lambda>v. um_id v \<in> set (map um_id msgs)) (current_tasks u) = []"
    using assms(4) by (auto simp: filter_empty_conv)
  have new: "filter (\<lambda>v. um_id v \<in> set (map um_id msgs)) msgs = msgs"
    by (simp add: filter_id_conv)
  obtain m ms where "msgs = m # ms" using assms(2) by (cases msgs) auto
  then have "upload_many write_ok req stores limit u =
     (let u2 = u\<lparr>up_queue := (up_queue u)\<lparr>ch_queue := drop limit (ch_queue (up_queue u))\<rparr>, current_tasks := msgs\<rparr>
      in (keep_on_error (save_state write_ok u2) u2, concat (map (upload_msg req stores) msgs)))"
    using got old new by (simp add: upload_many_def Let_def)
  with assms(3) show ?thesis
    by (auto simp: save_state_def keep_on_error_def Let_def)
qed

theorem upload_many_keeps_finished_witness:
  "\<exists>u' calls. upload_many True Inr [] 2 ex_uploader = (u', calls) \<and> ch_queue (up_queue u') = [] \<and>
     current_tasks u' = [ex_msg 1, ex_msg 2] \<and> state_file u' = Some [serialize (ex_msg 1), serialize (ex_msg 2)]"
proof -
  obtain u' calls where run: "upload_many True Inr [] 2 ex_uploader = (u', calls)" by fastforce
  have msgs: "[ex_msg 1, ex_msg 2] = take 2 (ch_queue (up_queue ex_uploader))" by (simp add: ex_uploader_def)
  from upload_many_keeps_finished [OF msgs _ run] run show ?thesis by (simp add: ex_uploader_def)
qed

lemma deserialize_all_missing:
  "on_missing = Inl e \<Longrightarrow> ms \<noteq> [] \<Longrightarrow> deserialize_all on_missing fresh n (map serialize ms) = Inl e"
  by (cases ms) (simp_all add: deserialize_def serialize_def)

text \<open>
  messages that were waiting or running when the state was last saved are not restored by a restart:
  the file they were written to has no identifiers, a reader that refuses a missing field refuses the
  file, and the uploader starts with an empty queue.
\<close>

theorem saved_uploads_not_restored:
  assumes "save_state True u = Inr u'" and "ch_queue (up_queue u) @ current_tasks u \<noteq> []"
    and "on_missing = Inl e"
  shows "load_state on_missing fresh (uploader_start (state_file u')) = Inl e \<and>
    len_of_queue (uploader_new on_missing fresh (state_file u')) = 0"
proof -
  have "state_file u' = Some (map serialize (ch_queue (up_queue u) @ current_tasks u))"
    using assms(1) by (auto simp: save_state_def)
  then have "load_state on_missing fresh (uploader_start (state_file u')) = Inl e"
    using deserialize_all_missing [OF assms(3,2), of fresh 0] by (simp add: load_state_def uploader_start_def)
  then show ?thesis
    by (simp add: uploader_new_def keep_on_error_def Let_def len_of_queue_def uploader_start_def channel_new_def)
qed

theorem saved_uploads_not_restored_witness:
  "\<exists>u'. save_state True ex_uploader = Inr u' \<and>
     len_of_queue (uploader_new (Inl (Parse_Error ''missing field id'')) (\<lambda>n. n) (state_file u')) = 0"
proof -
  obtain u' where run: "save_state True ex_uploader = Inr u'" by (simp add: save_state_def)
  have "ch_queue (up_queue ex_uploader) @ current_tasks ex_uploader \<noteq> []" by (simp add: ex_uploader_def)
  from saved_uploads_not_restored [OF run this refl, of _ "\<lambda>n. n"] run show ?thesis by blast
qed

end
