(* ===== verification/Fod_Checker.thy ===== *)
theory Fod_Checker
  imports Derivation
begin

text \<open>
  The checker of content-addressed derivations (queue-runner/src/state/fod_checker.rs). It keeps the
  content-addressed derivations it knows and the derivations whose closure it still has to walk.
  \<open>query\<close> is the parser of the store applied to a path, with a path that cannot be read as \<open>None\<close>.
  Futures of a buffered stream are run one after the other. The walk calls itself on every input; \<open>fuel\<close>
  bounds the depth of the calls, and one call more than there are derivations in the closure is enough.

  Lemmas: the walk returns for every finite closure and finds exactly the content-addressed
  derivations of it, although it visits shared inputs only once.
\<close>

subsection \<open>State and operations\<close>

record fod_checker =
  ca_derivations :: "(store_path \<times> derivation) list"
  to_traverse_set :: "store_path list"
  notify_traverse :: bool

definition fod_checker_new :: fod_checker where
  "fod_checker_new = \<lparr>ca_derivations = [], to_traverse_set = [], notify_traverse = False\<rparr>"

definition add_ca_drv_parsed :: "store_path \<Rightarrow> derivation \<Rightarrow> fod_checker \<Rightarrow> fod_checker" where
  "add_ca_drv_parsed p d f = (if is_ca d then f\<lparr>ca_derivations := hm_insert p d (ca_derivations f)\<rparr> else f)"

definition to_traverse :: "store_path \<Rightarrow> fod_checker \<Rightarrow> fod_checker" where
  "to_traverse p f = f\<lparr>to_traverse_set := List.insert p (to_traverse_set f)\<rparr>"

definition trigger_traverse :: "fod_checker \<Rightarrow> fod_checker" where
  "trigger_traverse f = f\<lparr>notify_traverse := True\<rparr>"

fun collect_ca_derivations ::
  "string \<Rightarrow> (store_path \<Rightarrow> derivation option) \<Rightarrow> nat \<Rightarrow> store_path \<Rightarrow> store_path list \<Rightarrow>
   ((store_path \<times> derivation) list \<times> store_path list) option"
and collect_inputs ::
  "string \<Rightarrow> (store_path \<Rightarrow> derivation option) \<Rightarrow> nat \<Rightarrow> store_path list \<Rightarrow> (store_path \<times> derivation) list \<Rightarrow>
   store_path list \<Rightarrow> ((store_path \<times> derivation) list \<times> store_path list) option" where
  "collect_ca_derivations nix_dir query 0 p processed = None"
| "collect_ca_derivations nix_dir query (Suc fuel) p processed =
     (if p \<in> set processed then Some ([], processed)
      else case query p of
             None \<Rightarrow> Some ([], processed @ [p])
           | Some parsed \<Rightarrow>
               (case collect_inputs nix_dir query fuel (map (store_path_new nix_dir) (input_drvs parsed)) [] (processed @ [p]) of
                  None \<Rightarrow> None
                | Some (out, processed') \<Rightarrow> Some (if is_ca parsed then hm_insert p parsed out else out, processed')))"
| "collect_inputs nix_dir query fuel [] out processed = Some (out, processed)"
| "collect_inputs nix_dir query fuel (i # is) out processed =
     (case collect_ca_derivations nix_dir query fuel i processed of
        None \<Rightarrow> None
      | Some (found, processed') \<Rightarrow>
          collect_inputs nix_dir query fuel is (fold (\<lambda>(k, d). hm_insert k d) found out) processed')"

definition traverse ::
  "string \<Rightarrow> (store_path \<Rightarrow> derivation option) \<Rightarrow> nat \<Rightarrow> fod_checker \<Rightarrow> fod_checker option" where
  "traverse nix_dir query fuel f =
     (case collect_inputs nix_dir query fuel (to_traverse_set f) [] [] of
        None \<Rightarrow> None
      | Some (out, _) \<Rightarrow>
          Some (f\<lparr>to_traverse_set := [],
                  ca_derivations := fold (\<lambda>(k, d). hm_insert k d) out (ca_derivations f)\<rparr>))"

text \<open>One round of the loop, woken by a trigger or by the timer.\<close>

definition traverse_loop_round ::
  "string \<Rightarrow> (store_path \<Rightarrow> derivation option) \<Rightarrow> nat \<Rightarrow> fod_checker \<Rightarrow> fod_checker option" where
  "traverse_loop_round nix_dir query fuel f = traverse nix_dir query fuel (f\<lparr>notify_traverse := False\<rparr>)"

definition fod_process :: "fod_checker \<Rightarrow> fod_checker \<times> (store_path \<times> derivation) list \<times> int" where
  "fod_process f =
     (let drvs = ca_derivations f in (f\<lparr>ca_derivations := []\<rparr>, drvs, int (length drvs)))"

subsection \<open>The closure\<close>

definition input_of :: "string \<Rightarrow> (store_path \<Rightarrow> derivation option) \<Rightarrow> (store_path \<times> store_path) set" where
  "input_of nix_dir query =
     {(p, store_path_new nix_dir i) | p i d. query p = Some d \<and> i \<in> set (input_drvs d)}"

lemma input_of_iff:
  "(p, c) \<in> input_of nd q \<longleftrightarrow> (\<exists>d. q p = Some d \<and> c \<in> store_path_new nd ` set (input_drvs d))"
  by (auto simp: input_of_def)

lemma map_of_fold_insert:
  "hm_wf found \<Longrightarrow> map_of (fold (\<lambda>(k, d). hm_insert k d) found out) = map_of out ++ map_of found"
proof (induction found arbitrary: out)
  case (Cons x found)
  obtain k d where x: "x = (k, d)" by fastforce
  have k: "map_of found k = None" using Cons.prems x by (simp add: hm_wf_def map_of_eq_None_iff)
  have swap: "(map_of out)(k \<mapsto> d) ++ map_of found = (map_of out ++ map_of found)(k \<mapsto> d)"
    using k by (auto simp: map_add_def fun_eq_iff split: option.splits)
  have "map_of (fold (\<lambda>(k, d). hm_insert k d) (x # found) out) = map_of (hm_insert k d out) ++ map_of found"
    using Cons.IH [of "hm_insert k d out"] Cons.prems x by (simp add: hm_wf_def)
  moreover have "map_of (x # found) = (map_of found)(k \<mapsto> d)" by (simp add: x fun_eq_iff)
  ultimately show ?case using swap by (simp only: update_conv' map_add_upd)
qed simp

lemma hm_wf_fold_insert: "hm_wf out \<Longrightarrow> hm_wf (fold (\<lambda>(k, d). hm_insert k d) found out)"
  by (induction found arbitrary: out) (auto split: prod.splits)

text \<open>What the walk guarantees of its result, and that it only adds paths it has closed off.\<close>

definition ca_among :: "(store_path \<Rightarrow> derivation option) \<Rightarrow> store_path set \<Rightarrow> (store_path \<Rightarrow> derivation option)" where
  "ca_among query P = (\<lambda>p. if p \<in> P then (case query p of Some d \<Rightarrow> if is_ca d then Some d else None | None \<Rightarrow> None) else None)"

definition walked ::
  "string \<Rightarrow> (store_path \<Rightarrow> derivation option) \<Rightarrow> store_path set \<Rightarrow> store_path set \<Rightarrow> store_path set \<Rightarrow> bool" where
  "walked nix_dir query starts before after \<longleftrightarrow>
     before \<subseteq> after \<and> starts \<subseteq> after \<and> after \<subseteq> before \<union> (input_of nix_dir query)\<^sup>* `` starts \<and>
     input_of nix_dir query `` (after - before) \<subseteq> after"

lemma walked_trans:
  assumes "walked nd q A before mid" and "walked nd q B mid after"
  shows "walked nd q (A \<union> B) before after"
  using assms unfolding walked_def by (auto simp: Image_Un) blast+

lemma walked_node:
  assumes kids: "walked nd q (input_of nd q `` {p}) (insert p before) after"
  shows "walked nd q {p} before after"
  unfolding walked_def
proof (intro conjI)
  have "(input_of nd q)\<^sup>* `` (input_of nd q `` {p}) \<subseteq> (input_of nd q)\<^sup>* `` {p}"
    by (auto intro: converse_rtrancl_into_rtrancl)
  then show "after \<subseteq> before \<union> (input_of nd q)\<^sup>* `` {p}"
    using kids by (auto simp: walked_def)
  show "input_of nd q `` (after - before) \<subseteq> after"
    using kids unfolding walked_def by blast
qed (use kids in \<open>auto simp: walked_def\<close>)

lemma ca_among_insert:
  "ca_among q (insert p P) = (case q p of Some d \<Rightarrow> if is_ca d then (ca_among q P)(p \<mapsto> d) else ca_among q P | None \<Rightarrow> ca_among q P)"
  by (auto simp: ca_among_def fun_eq_iff split: option.splits)

lemma ca_among_add: "ca_among q P ++ ca_among q Q = ca_among q (P \<union> Q)"
  by (auto simp: ca_among_def map_add_def fun_eq_iff split: option.splits)

lemma collect_walk:
  "collect_ca_derivations nd q fuel p proc = Some (out, proc') \<Longrightarrow>
     walked nd q {p} (set proc) (set proc') \<and> hm_wf out \<and> map_of out = ca_among q (set proc' - set proc)"
  "collect_inputs nd q fuel is acc proc = Some (out, proc') \<Longrightarrow> hm_wf acc \<Longrightarrow>
     walked nd q (set is) (set proc) (set proc') \<and> hm_wf out \<and>
     map_of out = map_of acc ++ ca_among q (set proc' - set proc)"
proof (induction nd q fuel p proc and nd q fuel "is" acc proc arbitrary: out proc' and out proc'
    rule: collect_ca_derivations_collect_inputs.induct)
  case (2 nd q fuel p proc)
  show ?case
  proof (cases "p \<in> set proc")
    case True
    with "2.prems" show ?thesis by (auto simp: walked_def ca_among_def)
  next
    case new: False
    show ?thesis
    proof (cases "q p")
      case None
      then have "input_of nd q `` {p} = {}" by (auto simp: input_of_def)
      moreover have "set proc' = insert p (set proc)" and "out = []" using "2.prems" None new by auto
      ultimately show ?thesis
        using new None by (auto simp: ca_among_def fun_eq_iff intro!: walked_node) (auto simp: walked_def)
    next
      case (Some d)
      let ?is = "map (store_path_new nd) (input_drvs d)"
      obtain out1 where run: "collect_inputs nd q fuel ?is [] (proc @ [p]) = Some (out1, proc')"
        and out: "out = (if is_ca d then hm_insert p d out1 else out1)"
        using "2.prems" new Some by (auto split: option.splits)
      have IH: "walked nd q (set ?is) (insert p (set proc)) (set proc')" "hm_wf out1"
          "map_of out1 = ca_among q (set proc' - insert p (set proc))"
        using "2.IH" [OF new Some run] by auto
      have kids: "input_of nd q `` {p} = set ?is" using Some by (auto simp: input_of_def)
      have "set proc' - set proc = insert p (set proc' - insert p (set proc))"
        using IH(1) new by (auto simp: walked_def)
      then have "map_of out = ca_among q (set proc' - set proc)"
        using out IH(3) Some by (simp add: ca_among_insert update_conv')
      with IH out show ?thesis by (auto simp: kids intro: walked_node)
    qed
  qed
next
  case (4 nd q fuel i "is" acc proc)
  obtain found proc1 where one: "collect_ca_derivations nd q fuel i proc = Some (found, proc1)"
    and rest: "collect_inputs nd q fuel is (fold (\<lambda>(k, d). hm_insert k d) found acc) proc1 = Some (out, proc')"
    using "4.prems"(1) by (auto split: option.splits)
  have IH1: "walked nd q {i} (set proc) (set proc1)" "hm_wf found" "map_of found = ca_among q (set proc1 - set proc)"
    using "4.IH"(1) [OF one] by auto
  have IH2: "walked nd q (set is) (set proc1) (set proc')" "hm_wf out"
      "map_of out = map_of acc ++ ca_among q (set proc1 - set proc) ++ ca_among q (set proc' - set proc1)"
    using "4.IH"(2) [OF one refl rest] IH1 "4.prems"(2) by (simp_all add: hm_wf_fold_insert map_of_fold_insert)
  have "set proc1 - set proc \<union> (set proc' - set proc1) = set proc' - set proc"
    using IH1(1) IH2(1) by (auto simp: walked_def)
  then have "map_of out = map_of acc ++ ca_among q (set proc' - set proc)"
    using IH2(3) by (metis ca_among_add map_add_assoc)
  with walked_trans [OF IH1(1) IH2(1)] IH2(2) show ?case by simp
qed (auto simp: walked_def ca_among_def)

lemma collect_fuel:
  assumes "finite U" and "input_of nd q `` U \<subseteq> U"
  shows "p \<in> U \<Longrightarrow> card (U - set proc) < fuel \<Longrightarrow> collect_ca_derivations nd q fuel p proc \<noteq> None"
    and "set is \<subseteq> U \<Longrightarrow> card (U - set proc) < fuel \<Longrightarrow> collect_inputs nd q fuel is acc proc \<noteq> None"
  using assms
proof (induction nd q fuel p proc and nd q fuel "is" acc proc rule: collect_ca_derivations_collect_inputs.induct)
  case (2 nd q fuel p proc)
  show ?case
  proof (cases "p \<in> set proc \<or> q p = None")
    case False
    then obtain d where d: "q p = Some d" and new: "p \<notin> set proc" by auto
    have "U - set (proc @ [p]) = U - set proc - {p}" by auto
    then have "card (U - set (proc @ [p])) < fuel"
      using "2.prems"(1,2,3) new card_Diff1_less [of "U - set proc" p] by auto
    moreover have "set (map (store_path_new nd) (input_drvs d)) \<subseteq> U"
      using "2.prems"(1,4) d unfolding input_of_def by fastforce
    ultimately show ?thesis
      using "2.IH" [OF new d] "2.prems"(3,4) d new by (auto split: option.splits)
  qed (auto split: option.splits)
next
  case (4 nd q fuel i "is" acc proc)
  obtain found proc1 where one: "collect_ca_derivations nd q fuel i proc = Some (found, proc1)"
    using 4 by (fastforce simp: split: option.splits)
  have "set proc \<subseteq> set proc1" using collect_walk(1) [OF one] by (simp add: walked_def)
  then have "card (U - set proc1) \<le> card (U - set proc)"
    using "4.prems"(3) by (intro card_mono) auto
  with 4 one show ?case by (auto split: option.splits)
qed simp_all

text \<open>
  C25: the traversal ends for every finite closure, and adds to the known derivations exactly the
  content-addressed ones among the derivations reachable, through inputs, from the ones that were to be
  traversed; none of these is left to traverse.
\<close>

theorem traverse_exact:
  assumes "finite ((input_of nix_dir query)\<^sup>* `` set (to_traverse_set f))"
    and "card ((input_of nix_dir query)\<^sup>* `` set (to_traverse_set f)) < fuel"
  shows "\<exists>f'. traverse nix_dir query fuel f = Some f' \<and> to_traverse_set f' = [] \<and>
    (\<forall>p. hm_get (ca_derivations f') p =
       (if p \<in> (input_of nix_dir query)\<^sup>* `` set (to_traverse_set f) \<and> (\<exists>d. query p = Some d \<and> is_ca d)
        then query p else hm_get (ca_derivations f) p))"
proof -
  let ?R = "input_of nix_dir query" and ?T = "set (to_traverse_set f)"
  have "?R `` (?R\<^sup>* `` ?T) \<subseteq> ?R\<^sup>* `` ?T" by (auto intro: rtrancl_into_rtrancl)
  then obtain out proc where run: "collect_inputs nix_dir query fuel (to_traverse_set f) [] [] = Some (out, proc)"
    using collect_fuel(2) [of "?R\<^sup>* `` ?T" nix_dir query "to_traverse_set f" "[]" fuel "[]"] assms by auto
  have w: "walked nix_dir query ?T {} (set proc)" "hm_wf out" "map_of out = ca_among query (set proc)"
    using collect_walk(2) [OF run] by simp_all
  have "?R\<^sup>* `` ?T \<subseteq> set proc"
  proof
    fix x assume "x \<in> ?R\<^sup>* `` ?T"
    then obtain t where "t \<in> ?T" and reach: "(t, x) \<in> ?R\<^sup>*" by auto
    then show "x \<in> set proc" using w(1) by (intro closed_under_rtrancl [OF reach]) (auto simp: walked_def)
  qed
  then have proc: "set proc = ?R\<^sup>* `` ?T" using w(1) by (auto simp: walked_def)
  show ?thesis
    using run w(2,3) unfolding proc
    by (auto simp: traverse_def map_of_fold_insert map_add_def ca_among_def split: option.splits)
qed

text \<open>A diamond of derivations with a content-addressed leaf, reached twice.\<close>

definition ex_drv :: "string list \<Rightarrow> bool \<Rightarrow> derivation" where
  "ex_drv inputs ca =
     \<lparr>drv_env = [], input_drvs = inputs,
      outputs = [\<lparr>out_name = ''out'', out_path = None, out_hash = (if ca then Some ''h'' else None),
                 out_hash_algo = (if ca then Some ''sha256'' else None)\<rparr>],
      drv_name = ''d'', drv_system = ''s''\<rparr>"

definition ex_query :: "store_path \<Rightarrow> derivation option" where
  "ex_query p =
     (if p = ''top'' then Some (ex_drv [''l'', ''r''] False)
      else if p = ''l'' \<or> p = ''r'' then Some (ex_drv [''leaf''] False)
      else if p = ''leaf'' then Some (ex_drv [] True) else None)"

lemma ex_closure: "(input_of ''/nix'' ex_query)\<^sup>* `` {''top''} = {''top'', ''l'', ''r'', ''leaf''}"
proof -
  have names: "store_path_new ''/nix'' ''l'' = ''l''" "store_path_new ''/nix'' ''r'' = ''r''"
    "store_path_new ''/nix'' ''leaf'' = ''leaf''"
    by (simp_all add: store_path_new_def STORE_DIR_def)
  have edge: "(p, c) \<in> input_of ''/nix'' ex_query \<longleftrightarrow>
      (p = ''top'' \<and> (c = ''l'' \<or> c = ''r'')) \<or> ((p = ''l'' \<or> p = ''r'') \<and> c = ''leaf'')" for p c
    by (simp add: input_of_iff ex_query_def ex_drv_def names split del: if_split)
      (cases "p = ''top''"; cases "p = ''l'' \<or> p = ''r''"; cases "p = ''leaf''"; simp add: names ex_drv_def)
  let ?R = "input_of ''/nix'' ex_query"
  have "x \<in> {''top'', ''l'', ''r'', ''leaf''}" if "(''top'', x) \<in> ?R\<^sup>*" for x
    using that by (rule closed_under_rtrancl) (auto simp: edge)
  moreover have "(''top'', ''l'') \<in> ?R" "(''top'', ''r'') \<in> ?R" "(''l'', ''leaf'') \<in> ?R" by (simp_all add: edge)
  then have "(''top'', ''l'') \<in> ?R\<^sup>*" "(''top'', ''r'') \<in> ?R\<^sup>*" "(''top'', ''leaf'') \<in> ?R\<^sup>*"
    by (simp_all add: r_into_rtrancl)
  ultimately show ?thesis by auto
qed

theorem traverse_exact_witness:
  "\<exists>f'. traverse ''/nix'' ex_query 5 (to_traverse ''top'' fod_checker_new) = Some f' \<and> to_traverse_set f' = [] \<and>
     hm_get (ca_derivations f') ''leaf'' = Some (ex_drv [] True) \<and> hm_get (ca_derivations f') ''top'' = None"
proof -
  let ?f = "to_traverse ''top'' fod_checker_new"
  have T: "set (to_traverse_set ?f) = {''top''}" by (simp add: to_traverse_def fod_checker_new_def)
  have "hm_get (ca_derivations ?f) ''top'' = None" by (simp add: to_traverse_def fod_checker_new_def)
  moreover have "is_ca (ex_drv [] True)" and "\<not> is_ca (ex_drv [''l'', ''r''] False)" by (simp_all add: ex_drv_def is_ca_def)
  ultimately have leaf: "ex_query ''leaf'' = Some (ex_drv [] True)" and ca: "is_ca (ex_drv [] True)"
    and top_drv: "ex_query ''top'' = Some (ex_drv [''l'', ''r''] False)" "\<not> is_ca (ex_drv [''l'', ''r''] False)"
    and none: "hm_get (ca_derivations ?f) ''top'' = None" by (simp_all add: ex_query_def)
  have "\<exists>f'. traverse ''/nix'' ex_query 5 ?f = Some f' \<and> to_traverse_set f' = [] \<and>
      (\<forall>p. hm_get (ca_derivations f') p =
         (if p \<in> {''top'', ''l'', ''r'', ''leaf''} \<and> (\<exists>d. ex_query p = Some d \<and> is_ca d)
          then ex_query p else hm_get (ca_derivations ?f) p))"
    using traverse_exact [where f = ?f and nix_dir = "''/nix''" and query = ex_query and fuel = 5]
    unfolding T ex_closure by simp
  then obtain f' where f': "traverse ''/nix'' ex_query 5 ?f = Some f'" "to_traverse_set f' = []"
    and get: "\<And>p. hm_get (ca_derivations f') p =
         (if p \<in> {''top'', ''l'', ''r'', ''leaf''} \<and> (\<exists>d. ex_query p = Some d \<and> is_ca d)
          then ex_query p else hm_get (ca_derivations ?f) p)" by blast
  have "hm_get (ca_derivations f') ''leaf'' = Some (ex_drv [] True)" unfolding get using leaf ca by simp
  moreover have "hm_get (ca_derivations f') ''top'' = None" unfolding get using top_drv none by simp
  ultimately show ?thesis using f' by blast
qed

end
