(* ===== verification/Runner.thy ===== *)
theory Runner
  imports Queue_Inv Db Config Uploader Fod_Checker
begin

text \<open>
  The state of the queue runner (queue-runner/src/state/mod.rs, \<^verbatim>\<open>State\<close>) and what its handlers share:
  the answers of the outside world, the memory of the shared objects and their owners, writing the
  result of a step to the database (queue-runner/src/utils.rs).

  The world. \<open>runner_env\<close> extends the answers of the database by the clock, random identifiers, the Nix
  store and the remote stores. Every question is numbered by \<open>tick\<close>, so two equal questions may have
  different answers, and any of the failing calls may fail at any time.

  Memory. Steps are owned by the builds whose top level they are, by the steps that depend on them, by
  the queued \<^verbatim>\<open>StepInfo\<close>s and by local variables; builds by the registry and by local variables. The
  registries of steps and the back pointers of a step are weak. \<open>drop_unowned\<close> takes the local variables
  still in scope and drops what nobody owns any more, which in turn may leave other steps without
  owner; it stands wherever a handler lets go of a strong pointer before it looks at a weak one, and at
  the end of every handler. Handlers run one at a time, and the futures of a buffered stream one after
  the other.

  Log lines and metrics (queue-runner/src/state/metrics.rs) are left out; paths are valid UTF-8.
\<close>

subsection \<open>The outside world\<close>

record runner_env = db_env +
  e_clock :: "nat \<Rightarrow> nat \<Rightarrow> timestamp"
  e_uuid :: "nat \<Rightarrow> uuid"
  e_query_drv :: "nat \<Rightarrow> store_path \<Rightarrow> error + derivation option"
  e_is_valid_path :: "nat \<Rightarrow> store_path \<Rightarrow> bool"
  e_missing_outputs :: "nat \<Rightarrow> drv_output list \<Rightarrow> drv_output list"
  e_missing_remote_outputs :: "nat \<Rightarrow> drv_output list \<Rightarrow> drv_output list"
  e_ensure_path :: "nat \<Rightarrow> store_path \<Rightarrow> error + unit"
  e_try_resolve_drv :: "nat \<Rightarrow> store_path \<Rightarrow> store_path option"
  e_write_ok :: "nat \<Rightarrow> bool"
  e_path_nar_size :: "nat \<Rightarrow> store_path \<Rightarrow> u64 option"
  e_closure_size :: "nat \<Rightarrow> store_path \<Rightarrow> u64"
  e_parse_nix_support :: "nat \<Rightarrow> drv_output list \<Rightarrow> error + nix_support"
  e_remote_store :: "nat \<Rightarrow> string \<Rightarrow> error + bool"
  e_total_ms :: "timestamp \<Rightarrow> timestamp \<Rightarrow> rfloat option"
  e_total_secs :: "timestamp \<Rightarrow> timestamp \<Rightarrow> rfloat option"
  e_powf :: "rfloat \<Rightarrow> rfloat \<Rightarrow> rfloat"
  e_nan_sign :: bool
  e_time_bounds :: "int \<times> int"
  e_nix_dir :: string

definition ask :: "(nat \<Rightarrow> 'a) \<Rightarrow> ('s io_state_scheme, 'a) io" where
  "ask f = (\<lambda>w. (Inr (f (tick w)), w\<lparr>tick := tick w + 1\<rparr>))"

text \<open>\<^verbatim>\<open>Timestamp + SignedDuration\<close> panics outside the range of a timestamp; \<open>d\<close> is in nanoseconds.\<close>

definition add_duration :: "int \<times> int \<Rightarrow> timestamp \<Rightarrow> int \<Rightarrow> error + timestamp" where
  "add_duration bounds t d =
     (if fst bounds * 1000000000 \<le> t + d \<and> t + d \<le> snd bounds * 1000000000 then Inr (t + d) else Inl Panicked)"

subsection \<open>The state\<close>

text \<open>
  The objects shared by the calls that load builds: the derivations found finished, the steps the
  current build made, the steps to be made runnable, and the builds still to be loaded.
\<close>

record load_run =
  finished_drvs :: "store_path list"
  new_steps :: "sref list"
  new_runnable :: "sref list"
  builds_by_id :: "(int \<times> bref) list"
  nr_added :: int

record state = io_state +
  config :: prepared_app
  log_dir :: string
  remote_stores :: "bool list"
  mem_steps :: "step arena"
  mem_builds :: "build arena"
  mem_jobsets :: "jobset arena"
  mem_machines :: "machine arena"
  r_machines :: machines
  r_builds :: builds
  r_jobsets :: jobsets
  r_steps :: steps
  r_queues :: queues
  r_fod :: "fod_checker option"
  notify_dispatch :: bool
  r_uploader :: uploader
  lrun :: load_run

definition load_run_new :: load_run where
  "load_run_new = \<lparr>finished_drvs = [], new_steps = [], new_runnable = [], builds_by_id = [], nr_added = 0\<rparr>"

text \<open>
  \<^verbatim>\<open>State::new\<close>, once the configuration is loaded, the database reached and the remote stores opened.
\<close>

definition state_new :: "prepared_app \<Rightarrow> bool list \<Rightarrow> uploader \<Rightarrow> io_state \<Rightarrow> state" where
  "state_new c stores up outside =
     \<lparr>tick = tick outside, db = db outside, tx_failed = tx_failed outside, config = c, log_dir = hydra_log_dir c,
      remote_stores = stores, mem_steps = [], mem_builds = [], mem_jobsets = [], mem_machines = [],
      r_machines = machines_new, r_builds = [], r_jobsets = [], r_steps = [], r_queues = queues_new,
      r_fod = (if enable_fod_checker c then Some fod_checker_new else None), notify_dispatch = False,
      r_uploader = up, lrun = load_run_new\<rparr>"

definition deref_build :: "build arena \<Rightarrow> bref \<Rightarrow> build" where
  "deref_build bh b = (case upgrade bh b of Some v \<Rightarrow> v | None \<Rightarrow> build_new_debug [] 0 0)"

abbreviation the_step :: "state \<Rightarrow> sref \<Rightarrow> step" where
  "the_step w r \<equiv> deref (mem_steps w) r"

abbreviation the_build :: "state \<Rightarrow> bref \<Rightarrow> build" where
  "the_build w b \<equiv> deref_build (mem_builds w) b"

definition set_step :: "sref \<Rightarrow> (step \<Rightarrow> step) \<Rightarrow> (state, unit) io" where
  "set_step r f = update_st (\<lambda>w. w\<lparr>mem_steps := modify (mem_steps w) r f\<rparr>)"

definition set_build :: "bref \<Rightarrow> (build \<Rightarrow> build) \<Rightarrow> (state, unit) io" where
  "set_build b f = update_st (\<lambda>w. w\<lparr>mem_builds := modify (mem_builds w) b f\<rparr>)"

definition set_machine :: "mref \<Rightarrow> (machine \<Rightarrow> machine) \<Rightarrow> (state, unit) io" where
  "set_machine m f = update_st (\<lambda>w. w\<lparr>mem_machines := modify (mem_machines w) m f\<rparr>)"

definition set_info :: "siref \<Rightarrow> (step_info \<Rightarrow> step_info) \<Rightarrow> (state, unit) io" where
  "set_info i f = update_st (\<lambda>w. w\<lparr>r_queues := (r_queues w)\<lparr>q_infos := modify (q_infos (r_queues w)) i f\<rparr>\<rparr>)"

definition set_queues :: "queues \<Rightarrow> (state, unit) io" where
  "set_queues q = update_st (\<lambda>w. w\<lparr>r_queues := q\<rparr>)"

definition set_run :: "(load_run \<Rightarrow> load_run) \<Rightarrow> (state, unit) io" where
  "set_run f = update_st (\<lambda>w. w\<lparr>lrun := f (lrun w)\<rparr>)"

definition remove_build :: "bref \<Rightarrow> (state, unit) io" where
  "remove_build b = update_st (\<lambda>w. w\<lparr>r_builds := remove_by_id (b_id (the_build w b)) (r_builds w)\<rparr>)"

definition trigger_dispatch :: "(state, unit) io" where
  "trigger_dispatch = update_st (\<lambda>w. w\<lparr>notify_dispatch := True\<rparr>)"

subsection \<open>Owners\<close>

definition step_owned :: "sref list \<Rightarrow> step arena \<Rightarrow> sref \<Rightarrow> bool" where
  "step_owned roots sh r \<longleftrightarrow>
     r \<in> set roots \<or> list_ex (\<lambda>c. case c of None \<Rightarrow> False | Some s \<Rightarrow> r \<in> set (deps (sstate s))) sh"

definition unowned_steps :: "sref list \<Rightarrow> step arena \<Rightarrow> sref list" where
  "unowned_steps roots sh = filter (\<lambda>r. upgrade sh r \<noteq> None \<and> \<not> step_owned roots sh r) [0..<length sh]"

text \<open>Dropping a step gives up its dependencies, so the drops cascade.\<close>

function drop_steps :: "sref list \<Rightarrow> step arena \<Rightarrow> step arena" where
  "drop_steps roots sh =
     (case unowned_steps roots sh of [] \<Rightarrow> sh | r # _ \<Rightarrow> drop_steps roots (release sh r))"
  by pat_completeness auto
termination
proof (relation "measure (\<lambda>(_, sh). length (filter (\<lambda>r. upgrade sh r \<noteq> None) [0..<length sh]))", goal_cases)
  case (2 roots sh r rs)
  then have "r \<in> set (unowned_steps roots sh)" by simp
  then have r: "r < length sh" "upgrade sh r \<noteq> None" by (auto simp: unowned_steps_def)
  have "length (filter (\<lambda>a. upgrade (release sh r) a \<noteq> None) [0..<length sh]) <
      length (filter (\<lambda>a. upgrade sh a \<noteq> None) [0..<length sh])"
    by (rule length_filter_strict [where a = r]) (use r in \<open>auto split: if_splits\<close>)
  moreover have "length (release sh r) = length sh" by (simp add: release_def)
  ultimately show ?case by simp
qed simp

declare drop_steps.simps [simp del]

definition drop_builds :: "bref list \<Rightarrow> build arena \<Rightarrow> build arena" where
  "drop_builds owned bh = map (\<lambda>b. if b \<in> set owned then upgrade bh b else None) [0..<length bh]"

definition live_objects :: "'a arena \<Rightarrow> 'a list" where
  "live_objects h = List.map_filter (\<lambda>c. c) h"

definition build_roots :: "state \<Rightarrow> bref list" where
  "build_roots w = map snd (r_builds w) @ map snd (builds_by_id (lrun w))"

definition step_roots :: "state \<Rightarrow> sref list" where
  "step_roots w =
     List.map_filter toplevel (live_objects (mem_builds w)) @ map si_step (live_objects (q_infos (r_queues w))) @
     new_steps (lrun w) @ new_runnable (lrun w)"

definition drop_unowned_in :: "sref list \<Rightarrow> bref list \<Rightarrow> state \<Rightarrow> state" where
  "drop_unowned_in hs hb w =
     (let w1 = w\<lparr>mem_builds := drop_builds (hb @ build_roots w) (mem_builds w)\<rparr>
      in w1\<lparr>mem_steps := drop_steps (hs @ step_roots w1) (mem_steps w1)\<rparr>)"

definition drop_unowned :: "sref list \<Rightarrow> bref list \<Rightarrow> (state, unit) io" where
  "drop_unowned hs hb = update_st (drop_unowned_in hs hb)"

text \<open>The end of a handler that was called with nothing in scope.\<close>

definition leave_handler :: "state \<Rightarrow> state" where
  "leave_handler w = drop_unowned_in [] [] (w\<lparr>r_queues := collect [] (r_queues w)\<rparr>)"

definition scope :: "(state, 'a) io \<Rightarrow> (state, 'a) io" where
  "scope m = (\<lambda>w. case m w of (r, w') \<Rightarrow> (r, leave_handler w'))"

end
