(* ===== verification/Runner_Jobs.thy ===== *)
theory Runner_Jobs
  imports Runner
begin

text \<open>
  The handlers that end a job (queue-runner/src/state/mod.rs and queue-runner/src/utils.rs): a builder
  reports a success or a failure, a step is aborted or found to have failed before. Writing the result of
  the step, failing the builds that depend on it, retrying it, and making its dependents runnable.
\<close>

subsection \<open>Helpers\<close>

definition print_path :: "'e runner_env_scheme \<Rightarrow> store_path \<Rightarrow> string" where
  "print_path env p = print_store_path (e_nix_dir env) p"

text \<open>The outputs of a step as the map that \<^verbatim>\<open>create_build_step\<close> takes.\<close>

definition output_map :: "'e runner_env_scheme \<Rightarrow> step \<Rightarrow> (string \<times> string option) list" where
  "output_map env s =
     fold (\<lambda>o1. hm_insert (out_name o1) (map_option (print_path env) (out_path o1)))
       (case get_outputs s of None \<Rightarrow> [] | Some os \<Rightarrow> os) []"

definition hostname_of :: "state \<Rightarrow> mref \<Rightarrow> string" where
  "hostname_of w m = (case upgrade (mem_machines w) m of None \<Rightarrow> [] | Some v \<Rightarrow> hostname v)"

definition take_job :: "'e runner_env_scheme \<Rightarrow> mref \<Rightarrow> store_path \<Rightarrow> (state, job option) io" where
  "take_job env m p = bind (ask (e_now env)) (\<lambda>now w.
     case upgrade (mem_machines w) m of
       None \<Rightarrow> (Inr None, w)
     | Some v \<Rightarrow> (let (v', j) = remove_job (as_second now) p v
                 in (Inr j, w\<lparr>mem_machines := modify (mem_machines w) m (\<lambda>_. v')\<rparr>)))"

text \<open>Removing the scheduled entry of a derivation, with the step it is about.\<close>

definition unschedule :: "store_path \<Rightarrow> (state, scheduled_item \<times> sref) io" where
  "unschedule p = (\<lambda>w.
     case remove_job_from_scheduled p (r_queues w) of
       (q, None) \<Rightarrow> (Inl (Not_Found ''Step is missing in queues.scheduled''), w\<lparr>r_queues := q\<rparr>)
     | (q, Some item) \<Rightarrow>
         (case upgrade (q_infos q) (it_step_info item) of
            None \<Rightarrow> (Inl (Not_Found ''Step is missing in queues.scheduled''), w\<lparr>r_queues := q\<rparr>)
          | Some i \<Rightarrow> (Inr (item, si_step i), w\<lparr>r_queues := q\<rparr>)))"

definition remove_queued :: "scheduled_item \<Rightarrow> (state, unit) io" where
  "remove_queued item = update_st (\<lambda>w. w\<lparr>r_queues :=
     queues_remove_job (mem_steps w) [] (it_step_info item) (it_build_queue item) (r_queues w)\<rparr>)"

subsection \<open>Writing the result of a step\<close>

definition finish_outputs :: "'e runner_env_scheme \<Rightarrow> int \<Rightarrow> int \<Rightarrow> (state, unit) io" where
  "finish_outputs env build_id step_nr =
     bind (get_drv_path_from_build_step env build_id step_nr) (\<lambda>p.
     case p of
       None \<Rightarrow> ok ()
     | Some drvp \<Rightarrow>
         bind (ask (\<lambda>t. e_query_drv env t (store_path_new (e_nix_dir env) drvp))) (\<lambda>parsed.
         bind (of_sum parsed) (\<lambda>d.
         case d of
           None \<Rightarrow> ok ()
         | Some dv \<Rightarrow> for_each (\<lambda>o1. case out_path o1 of
               None \<Rightarrow> ok ()
             | Some path \<Rightarrow> update_build_step_output env build_id step_nr (out_name o1) (print_path env path))
             (outputs dv))))"

definition finish_build_step ::
  "'e runner_env_scheme \<Rightarrow> int \<Rightarrow> int \<Rightarrow> remote_build \<Rightarrow> string option \<Rightarrow> (state, unit) io" where
  "finish_build_step env build_id step_nr res machine =
     and_then (db_get env)
     (transaction env
       (bind (of_option Int_Conversion (get_start_time_as_i32 res)) (\<lambda>start.
        bind (of_option Int_Conversion (get_stop_time_as_i32 res)) (\<lambda>stop.
        and_then (db_update_build_step_in_finish env
          \<lparr>uf_build_id = build_id, uf_step_nr = step_nr, uf_status = rb_step_status res,
           uf_error_msg = error_msg res, uf_start_time = start, uf_stop_time = stop, uf_machine = machine,
           uf_overhead = get_overhead res, uf_times_built = get_times_built res,
           uf_is_non_deterministic = get_is_non_deterministic res\<rparr>)
        (and_then (notify_step_finished env build_id step_nr (log_file res))
        (if rb_step_status res = Success then finish_outputs env build_id step_nr else ok ()))))))"

subsection \<open>Failing a step\<close>

definition get_all_indirect_builds :: "sref \<Rightarrow> (state, bref list) io" where
  "get_all_indirect_builds step = (\<lambda>w.
     let (indirect, steps) = get_dependents (mem_steps w) (mem_builds w) step [] []
     in (Inr indirect,
         if indirect = [] then w\<lparr>r_steps := fold (\<lambda>s. steps_remove (drv_path (the_step w s))) steps (r_steps w)\<rparr>
         else w))"

text \<open>
  One round of \<^verbatim>\<open>inner_fail_job\<close>: a failed build step for every dependent build, except for the build the
  step was built for and for a cached top-level step; then the builds themselves; then the failed paths.
\<close>

definition create_failed_step ::
  "'e runner_env_scheme \<Rightarrow> string option \<Rightarrow> job \<Rightarrow> sref \<Rightarrow> bref \<Rightarrow> (state, unit) io" where
  "create_failed_step env machine j step b =
     bind (gets (\<lambda>w. (the_build w b, the_step w step))) (\<lambda>(v, s).
     if (rb_step_status (job_result j) = CachedFailure \<and> b_drv_path v = drv_path s) \<or>
        (rb_step_status (job_result j) \<noteq> CachedFailure \<and> rb_step_status (job_result j) \<noteq> Unsupported \<and>
         job_build_id j = b_id v) \<or>
        finished_in_db v
     then ok ()
     else bind (create_build_step env None (b_id v) (print_path env (drv_path s)) (get_system s)
            (case machine of None \<Rightarrow> [] | Some h \<Rightarrow> h) (rb_step_status (job_result j)) (error_msg (job_result j))
            (if job_build_id j = b_id v then None else Some (job_build_id j)) (output_map env s)) (\<lambda>_. ok ()))"

definition fail_build :: "'e runner_env_scheme \<Rightarrow> job \<Rightarrow> sref \<Rightarrow> bref \<Rightarrow> (state, unit) io" where
  "fail_build env j step b =
     bind (gets (\<lambda>w. (the_build w b, the_step w step))) (\<lambda>(v, s).
     if finished_in_db v then ok ()
     else
       bind (of_option Int_Conversion (get_start_time_as_i32 (job_result j))) (\<lambda>start.
       bind (of_option Int_Conversion (get_stop_time_as_i32 (job_result j))) (\<lambda>stop.
       update_build_after_failure env (b_id v)
         (if b_drv_path v \<noteq> drv_path s \<and> rb_step_status (job_result j) = Failed then DepFailed
          else rb_step_status (job_result j))
         start stop (rb_step_status (job_result j) = CachedFailure))))"

definition remember_failed_paths :: "'e runner_env_scheme \<Rightarrow> job \<Rightarrow> sref \<Rightarrow> (state, unit) io" where
  "remember_failed_paths env j step =
     (if rb_step_status (job_result j) \<noteq> CachedFailure \<and> can_cache (job_result j)
      then bind (gets (\<lambda>w. case get_outputs (the_step w step) of None \<Rightarrow> [] | Some os \<Rightarrow> os))
             (for_each (\<lambda>o1. case out_path o1 of None \<Rightarrow> ok () | Some p \<Rightarrow> insert_failed_paths env (print_path env p)))
      else ok ())"

definition fail_round ::
  "'e runner_env_scheme \<Rightarrow> string option \<Rightarrow> job \<Rightarrow> sref \<Rightarrow> bref list \<Rightarrow> (state, unit) io" where
  "fail_round env machine j step indirect =
     and_then (db_get env)
     (transaction env
       (and_then (for_each (create_failed_step env machine j step) indirect)
       (and_then (for_each (fail_build env j step) indirect)
       (remember_failed_paths env j step))))"

definition finish_in_memory :: "bref \<Rightarrow> (state, unit) io" where
  "finish_in_memory b = and_then (set_build b (set_finished_in_db True)) (remove_build b)"

definition fail_loop_body ::
  "'e runner_env_scheme \<Rightarrow> sref list \<Rightarrow> string option \<Rightarrow> job \<Rightarrow> sref \<Rightarrow> int list \<times> bool \<Rightarrow>
   (state, int list \<times> bool + int list) io" where
  "fail_loop_body env held machine j step = (\<lambda>(dependent_ids, step_finished).
     bind (get_all_indirect_builds step) (\<lambda>indirect.
     if indirect = [] \<and> step_finished then ok (Inr dependent_ids)
     else
       and_then (fail_round env machine j step indirect)
       (bind (gets (\<lambda>w. map (\<lambda>b. b_id (the_build w b)) indirect)) (\<lambda>ids.
        and_then (for_each finish_in_memory indirect)
        (and_then (drop_unowned (step # held) [])
        (ok (Inl (dependent_ids @ ids, True))))))))"

definition inner_fail_job ::
  "'e runner_env_scheme \<Rightarrow> sref list \<Rightarrow> string option \<Rightarrow> job \<Rightarrow> sref \<Rightarrow> (state, unit) io" where
  "inner_fail_job env held machine job0 step =
     bind (if has_stop_time (job_result job0) then ok job0
           else bind (ask (e_now env)) (\<lambda>now. ok (job0\<lparr>job_result := set_stop_time_now now (job_result job0)\<rparr>))) (\<lambda>j.
     and_then (if job_step_nr j \<noteq> 0 then finish_build_step env (job_build_id j) (job_step_nr j) (job_result j) machine else ok ())
     (bind (loop_from (fail_loop_body env held machine j step) ([], False)) (\<lambda>dependent_ids.
      and_then (db_get env)
      (and_then (transaction env (notify_build_finished env (job_build_id j) dependent_ids))
      trigger_dispatch))))"

text \<open>
  \<^verbatim>\<open>fail_step\<close>. The delay before the next try is an \<^verbatim>\<open>f32\<close> computation cast to seconds; the counter of
  tries is an atomic \<^verbatim>\<open>u32\<close>.
\<close>

definition retry_delta :: "'e runner_env_scheme \<Rightarrow> prepared_app \<Rightarrow> u32 \<Rightarrow> int" where
  "retry_delta env c n =
     f_to_i64 (f32_mul (e_nan_sign env) (retry_interval c)
       (e_powf env (retry_backoff c) (f32_of_int (uint (n - 1)))))"

definition incr_tries :: "step \<Rightarrow> step" where
  "incr_tries s = s\<lparr>atomic_state := (atomic_state s)\<lparr>tries := tries (atomic_state s) + 1\<rparr>\<rparr>"

definition failed_result ::
  "build_result_state \<Rightarrow> build_timings \<Rightarrow> timestamp \<Rightarrow> remote_build \<Rightarrow> error + remote_build" where
  "failed_result result timings now r =
     set_overhead (timings_get_overhead timings)
       (set_stop_time_now now (update_with_result_state result (r\<lparr>rb_step_status := Failed\<rparr>)))"

definition retry_later ::
  "'e runner_env_scheme \<Rightarrow> scheduled_item \<Rightarrow> sref \<Rightarrow> job \<Rightarrow> prepared_app \<Rightarrow> u32 \<Rightarrow> (state, unit) io" where
  "retry_later env item step j c n =
     bind (ask (e_now env)) (\<lambda>now.
     bind (of_sum (add_duration (e_time_bounds env) now (retry_delta env c n * 1000000000))) (\<lambda>t.
     and_then (set_step step (set_after t))
     (and_then (set_info (it_step_info item) (set_already_scheduled False))
     (bind (gets (\<lambda>w. hostname_of w (it_machine item))) (\<lambda>host.
      and_then (finish_build_step env (job_build_id j) (job_step_nr j) (job_result j) (Some host))
      trigger_dispatch)))))"

definition give_up ::
  "'e runner_env_scheme \<Rightarrow> scheduled_item \<Rightarrow> sref \<Rightarrow> job \<Rightarrow> (state, unit) io" where
  "give_up env item step j =
     and_then (remove_queued item)
     (bind (gets (\<lambda>w. hostname_of w (it_machine item))) (\<lambda>host.
      inner_fail_job env [] (Some host) j step))"

text \<open>Whether the step is tried again.\<close>

definition after_failure ::
  "'e runner_env_scheme \<Rightarrow> scheduled_item \<Rightarrow> sref \<Rightarrow> job \<Rightarrow> (state, unit) io" where
  "after_failure env item step j =
     bind (gets config) (\<lambda>c.
     if can_retry (job_result j)
     then and_then (set_step step incr_tries)
          (bind (gets (\<lambda>w. tries (atomic_state (the_step w step)))) (\<lambda>n.
           if n < fst (get_retry c) then retry_later env item step j c n else give_up env item step j))
     else give_up env item step j)"

definition fail_step ::
  "'e runner_env_scheme \<Rightarrow> store_path \<Rightarrow> build_result_state \<Rightarrow> build_timings \<Rightarrow> (state, unit) io" where
  "fail_step env p result timings = scope
     (bind (unschedule p) (\<lambda>(item, step).
      and_then (set_step step (set_finished False))
      (bind (take_job env (it_machine item) p) (\<lambda>taken.
       bind (of_option (Not_Found ''Job is missing in machine.jobs'') taken) (\<lambda>job0.
       bind (ask (e_now env)) (\<lambda>now.
       bind (of_sum (failed_result result timings now (job_result job0))) (\<lambda>res.
       let j = job0\<lparr>job_result := res\<rparr> in
       bind (ask (e_now env)) (\<lambda>now2.
       and_then (set_machine (it_machine item) (\<lambda>m. m\<lparr>m_stats_of :=
          track_build_failure (as_second now2) timings (get_total_step_time_ms (e_total_ms env) res) (m_stats_of m)\<rparr>))
       (after_failure env item step j)))))))))"

subsection \<open>A step succeeded\<close>

definition schedule_upload_io ::
  "'e runner_env_scheme \<Rightarrow> store_path list \<Rightarrow> string \<Rightarrow> string \<Rightarrow> (state, unit) io" where
  "schedule_upload_io env paths remote local =
     bind (ask (e_uuid env)) (\<lambda>u. bind (ask (e_write_ok env)) (\<lambda>written.
     update_st (\<lambda>w. w\<lparr>r_uploader := schedule_upload u written paths remote local (r_uploader w)\<rparr>)))"

definition mark_direct_build ::
  "'e runner_env_scheme \<Rightarrow> job \<Rightarrow> build_output \<Rightarrow> int \<Rightarrow> int \<Rightarrow> bref \<Rightarrow> (state, unit) io" where
  "mark_direct_build env j out start stop b =
     bind (gets (\<lambda>w. (the_build w b, mem_jobsets w))) (\<lambda>(v, jh).
     mark_succeeded_build env (get_mark_build_sccuess_data (e_nix_dir env) jh v out)
       (job_build_id j \<noteq> b_id v \<or> is_cached (job_result j)) start stop)"

definition notify_build ::
  "'e runner_env_scheme \<Rightarrow> bref \<Rightarrow> (state, unit) io" where
  "notify_build env b = bind (gets (\<lambda>w. b_id (the_build w b))) (\<lambda>i. notify_build_finished env i [])"

definition mark_direct_builds ::
  "'e runner_env_scheme \<Rightarrow> job \<Rightarrow> build_output \<Rightarrow> bref list \<Rightarrow> (state, unit) io" where
  "mark_direct_builds env j out direct =
     and_then (db_get env)
     (and_then
       (transaction env
         (bind (of_option Int_Conversion (get_start_time_as_i32 (job_result j))) (\<lambda>start.
          bind (of_option Int_Conversion (get_stop_time_as_i32 (job_result j))) (\<lambda>stop.
          for_each (mark_direct_build env j out start stop) direct))))
     (and_then (for_each finish_in_memory direct)
     (and_then (db_get env) (transaction env (for_each (notify_build env) direct)))))"

definition succeeded_result :: "build_output \<Rightarrow> timestamp \<Rightarrow> remote_build \<Rightarrow> error + remote_build" where
  "succeeded_result out now r =
     set_overhead (timings_get_overhead (bo_timings out)) (set_stop_time_now now (r\<lparr>rb_step_status := Success\<rparr>))"

definition unblock_dependents :: "'e runner_env_scheme \<Rightarrow> sref \<Rightarrow> (state, unit) io" where
  "unblock_dependents env step =
     bind (ask (e_clock env)) (\<lambda>clock.
     update_st (\<lambda>w. w\<lparr>mem_steps := make_rdeps_runnable clock (mem_steps w) step\<rparr>))"

definition upload_outputs :: "'e runner_env_scheme \<Rightarrow> job \<Rightarrow> build_output \<Rightarrow> (state, unit) io" where
  "upload_outputs env j out =
     bind (gets (\<lambda>w. remote_stores w \<noteq> [] \<and> \<not> cfg_use_presigned_uploads (config w))) (\<lambda>wanted.
     if wanted
     then schedule_upload_io env (map snd (bo_outputs out)) (''log/'' @ job_path j) (log_file (job_result j))
     else ok ())"

definition succeed_step :: "'e runner_env_scheme \<Rightarrow> store_path \<Rightarrow> build_output \<Rightarrow> (state, unit) io" where
  "succeed_step env p out = scope
     (bind (unschedule p) (\<lambda>(item, step).
      and_then (set_step step (set_finished True))
      (bind (take_job env (it_machine item) p) (\<lambda>taken.
       bind (of_option (Not_Found ''Job is missing in machine.jobs'') taken) (\<lambda>job0.
       and_then (remove_queued item)
       (bind (ask (e_now env)) (\<lambda>now.
        bind (of_sum (succeeded_result out now (job_result job0))) (\<lambda>res.
        let j = job0\<lparr>job_result := res\<rparr> in
        and_then (set_machine (it_machine item) (\<lambda>m. m\<lparr>m_stats_of :=
           track_build_success (bo_timings out) (get_total_step_time_ms (e_total_ms env) res) (m_stats_of m)\<rparr>))
        (bind (gets (\<lambda>w. hostname_of w (it_machine item))) (\<lambda>host.
         and_then (finish_build_step env (job_build_id j) (job_step_nr j) res (Some host))
         (and_then (upload_outputs env j out)
         (bind (gets (\<lambda>w. get_direct_builds (mem_builds w) (the_step w step))) (\<lambda>direct.
          and_then (if direct = [] then update_st (\<lambda>w. w\<lparr>r_steps := steps_remove (drv_path (the_step w step)) (r_steps w)\<rparr>) else ok ())
          (and_then (mark_direct_builds env j out direct)
          (and_then (drop_unowned [step] [])
          (and_then (unblock_dependents env step)
          trigger_dispatch))))))))))))))))"

subsection \<open>Reports of a builder\<close>

definition machine_job :: "uuid \<Rightarrow> uuid \<Rightarrow> (state, store_path) io" where
  "machine_job build_id machine_id =
     bind (gets (\<lambda>w. Option.bind (get_machine_by_id machine_id (r_machines w)) (upgrade (mem_machines w)))) (\<lambda>found.
     bind (of_option (Not_Found ''Machine with machine_id not found'') found) (\<lambda>m.
     of_option (Not_Found ''Job with build_id not found'') (get_job_drv_for_build_id build_id m)))"

definition succeed_step_by_uuid ::
  "'e runner_env_scheme \<Rightarrow> uuid \<Rightarrow> uuid \<Rightarrow> build_output \<Rightarrow> (state, unit) io" where
  "succeed_step_by_uuid env build_id machine_id out =
     bind (machine_job build_id machine_id) (\<lambda>p. succeed_step env p out)"

definition fail_step_by_uuid ::
  "'e runner_env_scheme \<Rightarrow> uuid \<Rightarrow> uuid \<Rightarrow> build_result_state \<Rightarrow> build_timings \<Rightarrow> (state, unit) io" where
  "fail_step_by_uuid env build_id machine_id result timings =
     bind (machine_job build_id machine_id) (\<lambda>p. fail_step env p result timings)"

definition update_build_step_status ::
  "'e runner_env_scheme \<Rightarrow> uuid \<Rightarrow> uuid \<Rightarrow> step_status \<Rightarrow> (state, unit) io" where
  "update_build_step_status env build_id machine_id status =
     bind (gets (\<lambda>w. Option.bind (Option.bind (get_machine_by_id machine_id (r_machines w)) (upgrade (mem_machines w)))
                       (get_build_id_and_step_nr_by_uuid build_id))) (\<lambda>found.
     case found of
       None \<Rightarrow> ok ()
     | Some (b, nr) \<Rightarrow>
         and_then (db_get env) (db_update_build_step env \<lparr>us_build_id = b, us_step_nr = nr, us_status = status\<rparr>))"

end
