(* ===== verification/Runner_Load.thy ===== *)
theory Runner_Load
  imports Runner_Jobs
begin

text \<open>
  The handlers that load builds (queue-runner/src/state/mod.rs and queue-runner/src/utils.rs): from the
  rows of unfinished builds to the graph of steps, cached results and previous failures included, and the
  reaction to cancelled builds and changed priorities.

  \<open>create_step\<close> calls itself on the inputs of a derivation and \<open>create_build\<close> on other builds whose
  derivation was met on the way. Both take \<open>fuel\<close> for the depth of the calls and report \<open>Diverges\<close> when
  it is used up. \<open>held\<close> are the steps, \<open>hb\<close> the builds that the pending calls have in local variables.
\<close>

subsection \<open>Helpers\<close>

text \<open>\<^verbatim>\<open>split_at(2)\<close> panics on a name of less than two bytes.\<close>

definition log_file_path :: "string \<Rightarrow> store_path \<Rightarrow> error + string" where
  "log_file_path dir p =
     (if length p < 2 then Inl Panicked
      else Inr (path_join (path_join dir (take 2 p @ ''/'')) (drop 2 p)))"

definition construct_log_file_path :: "store_path \<Rightarrow> (state, string) io" where
  "construct_log_file_path p = bind (gets log_dir) (\<lambda>dir. of_sum (log_file_path dir p))"

definition check_cached_failure :: "'e runner_env_scheme \<Rightarrow> sref \<Rightarrow> (state, bool) io" where
  "check_cached_failure env r =
     bind (gets (\<lambda>w. get_outputs (the_step w r))) (\<lambda>outs.
     case outs of
       None \<Rightarrow> ok False
     | Some drv_outputs \<Rightarrow>
         bind (attempt (and_then (db_get env) (check_if_paths_failed env
           (List.map_filter (\<lambda>o1. map_option (print_path env) (out_path o1)) drv_outputs)))) (\<lambda>v.
         ok (case v of Inl _ \<Rightarrow> False | Inr b \<Rightarrow> b)))"

text \<open>
  \<^verbatim>\<open>substitute_output\<close>. Copying to the remote store is attempted and its failure only logged; it does
  not change the state of the runner.
\<close>

definition substitute_output ::
  "'e runner_env_scheme \<Rightarrow> drv_output \<Rightarrow> int \<Rightarrow> store_path \<Rightarrow> (state, bool) io" where
  "substitute_output env o1 build_id p =
     (case out_path o1 of
        None \<Rightarrow> ok False
      | Some path \<Rightarrow>
          bind (ask (e_now env)) (\<lambda>t1.
          bind (of_option Int_Conversion (i32_try_from (as_second t1))) (\<lambda>start.
          bind (ask (\<lambda>t. e_ensure_path env t path)) (\<lambda>ensured.
          case ensured of
            Inl _ \<Rightarrow> ok False
          | Inr _ \<Rightarrow>
              bind (ask (e_now env)) (\<lambda>t2.
              bind (of_option Int_Conversion (i32_try_from (as_second t2))) (\<lambda>stop.
              and_then (db_get env)
              (and_then (transaction env (create_substitution_step env start stop build_id (print_path env p)
                 (out_name o1, Some (print_path env path))))
              (ok True))))))))"

primrec substitute_outputs ::
  "'e runner_env_scheme \<Rightarrow> int \<Rightarrow> store_path \<Rightarrow> drv_output list \<Rightarrow> nat \<Rightarrow> (state, nat) io" where
  "substitute_outputs env build_id p [] n = ok n"
| "substitute_outputs env build_id p (o1 # os) n =
     bind (attempt (substitute_output env o1 build_id p)) (\<lambda>v.
     substitute_outputs env build_id p os (if v = Inr True then n + 1 else n))"

definition fod_io :: "(fod_checker \<Rightarrow> fod_checker) \<Rightarrow> (state, unit) io" where
  "fod_io f = update_st (\<lambda>w. w\<lparr>r_fod := map_option f (r_fod w)\<rparr>)"

definition create_registered ::
  "store_path \<Rightarrow> bref option \<Rightarrow> sref option \<Rightarrow> (state, sref \<times> bool) io" where
  "create_registered p rb rs = (\<lambda>w.
     case steps_create (mem_steps w) (r_steps w) p rb rs of
       (sh, reg, r, is_new) \<Rightarrow> (Inr (r, is_new), w\<lparr>mem_steps := sh, r_steps := reg\<rparr>))"

text \<open>
  The outputs that are missing: remotely when there is a remote store, locally otherwise. Outputs that
  are only missing remotely are uploaded and count as present.
\<close>

definition find_missing_outputs ::
  "'e runner_env_scheme \<Rightarrow> store_path \<Rightarrow> drv_output list \<Rightarrow> (state, drv_output list) io" where
  "find_missing_outputs env p outs =
     bind (gets remote_stores) (\<lambda>stores.
     if stores = [] then ask (\<lambda>t. e_missing_outputs env t outs)
     else
       bind (ask (\<lambda>t. e_missing_remote_outputs env t outs)) (\<lambda>missing.
       if missing = [] then ok missing
       else
         bind (ask (\<lambda>t. e_missing_outputs env t outs)) (\<lambda>here.
         if here \<noteq> [] then ok missing
         else
           bind (construct_log_file_path p) (\<lambda>log.
           and_then (schedule_upload_io env (List.map_filter out_path missing) (''log/'' @ p) log)
           (ok [])))))"

definition outputs_finished ::
  "'e runner_env_scheme \<Rightarrow> int \<Rightarrow> store_path \<Rightarrow> drv_output list \<Rightarrow> (state, bool) io" where
  "outputs_finished env build_id p missing =
     bind (gets (\<lambda>w. cfg_use_substitutes (config w))) (\<lambda>subst.
     if missing \<noteq> [] \<and> subst
     then bind (substitute_outputs env build_id p missing 0) (\<lambda>n. ok (n = length missing))
     else ok (missing = []))"

subsection \<open>Steps\<close>

datatype create_step_result =
    Create_None
  | Create_Valid sref
  | Create_PreviousFailure sref

definition leave_step :: "sref list \<Rightarrow> bref list \<Rightarrow> create_step_result \<Rightarrow> (state, create_step_result) io" where
  "leave_step held hb res =
     and_then (drop_unowned
       ((case res of Create_None \<Rightarrow> [] | Create_Valid r \<Rightarrow> [r] | Create_PreviousFailure r \<Rightarrow> [r]) @ held) hb)
     (ok res)"

definition add_dependency :: "sref \<Rightarrow> sref \<Rightarrow> (state, unit) io" where
  "add_dependency step dep = update_st (\<lambda>w.
     if \<not> finished (the_step w dep) \<and> \<not> previous_failure (the_step w dep)
     then w\<lparr>mem_steps := modify (mem_steps w) step (add_dep (mem_steps w) dep)\<rparr> else w)"

text \<open>The end of \<^verbatim>\<open>create_step\<close>: the step is complete, and runnable when nothing is left to build first.\<close>

definition complete_step :: "sref \<Rightarrow> (state, unit) io" where
  "complete_step r =
     and_then (set_step r (set_created True))
     (update_st (\<lambda>w. w\<lparr>lrun := (lrun w)
        \<lparr>new_runnable := (if deps_len (atomic_state (the_step w r)) = 0
                         then step_set_insert (mem_steps w) r (new_runnable (lrun w)) else new_runnable (lrun w)),
         new_steps := step_set_insert (mem_steps w) r (new_steps (lrun w))\<rparr>\<rparr>))"

fun create_step ::
  "'e runner_env_scheme \<Rightarrow> nat \<Rightarrow> sref list \<Rightarrow> bref list \<Rightarrow> bref \<Rightarrow> store_path \<Rightarrow> bref option \<Rightarrow> sref option \<Rightarrow>
   (state, create_step_result) io"
and create_inputs ::
  "'e runner_env_scheme \<Rightarrow> nat \<Rightarrow> sref list \<Rightarrow> bref list \<Rightarrow> bref \<Rightarrow> sref \<Rightarrow> string list \<Rightarrow> (state, sref option) io" where
  "create_step env 0 held hb build p rb rs = fail Diverges"
| "create_step env (Suc fuel) held hb build p rb rs =
     bind (gets (\<lambda>w. p \<in> set (finished_drvs (lrun w)))) (\<lambda>already.
     if already then ok Create_None
     else
       bind (create_registered p rb rs) (\<lambda>(step, is_new).
       if \<not> is_new then ok (Create_Valid step)
       else
         bind (ask (\<lambda>t. e_query_drv env t p)) (\<lambda>parsed.
         case parsed of
           Inl _ \<Rightarrow> leave_step held hb Create_None
         | Inr None \<Rightarrow> leave_step held hb Create_None
         | Inr (Some d) \<Rightarrow>
             and_then (fod_io (add_ca_drv_parsed p d))
             (bind (find_missing_outputs env p (outputs d)) (\<lambda>missing.
              and_then (set_step step (set_drv d))
              (bind (check_cached_failure env step) (\<lambda>cached.
               if cached
               then and_then (set_step step (set_previous_failure True))
                      (leave_step held hb (Create_PreviousFailure step))
               else
                 bind (gets (\<lambda>w. b_id (the_build w build))) (\<lambda>build_id.
                 bind (outputs_finished env build_id p missing) (\<lambda>all_there.
                 if all_there
                 then and_then (fod_io (to_traverse p))
                      (and_then (set_run (\<lambda>l. l\<lparr>finished_drvs := List.insert p (finished_drvs l)\<rparr>))
                      (and_then (set_step step (set_finished True))
                      (leave_step held hb Create_None)))
                 else
                   bind (create_inputs env fuel (step # held) hb build step (input_drvs d)) (\<lambda>failed.
                   case failed of
                     Some s \<Rightarrow> leave_step held hb (Create_PreviousFailure s)
                   | None \<Rightarrow> and_then (complete_step step) (leave_step held hb (Create_Valid step))))))))))))"
| "create_inputs env fuel held hb build step [] = ok None"
| "create_inputs env fuel held hb build step (i # is) =
     bind (create_step env fuel held hb build (store_path_new (e_nix_dir env) i) None (Some step)) (\<lambda>res.
     case res of
       Create_None \<Rightarrow> create_inputs env fuel held hb build step is
     | Create_Valid dep \<Rightarrow>
         and_then (add_dependency step dep)
         (and_then (drop_unowned held hb)
         (create_inputs env fuel held hb build step is))
     | Create_PreviousFailure s \<Rightarrow> ok (Some s))"

subsection \<open>Cached results\<close>

primrec previous_step_of ::
  "'e runner_env_scheme \<Rightarrow> store_path \<Rightarrow> drv_output list \<Rightarrow> (state, int option) io" where
  "previous_step_of env p [] = ok None"
| "previous_step_of env p (o1 # os) =
     bind (attempt (case out_path o1 of
         Some path \<Rightarrow> get_last_build_step_id_for_output_path env (print_path env path)
       | None \<Rightarrow> get_last_build_step_id_for_output_with_drv env (print_path env p) (out_name o1))) (\<lambda>res.
     case res of
       Inr (Some n) \<Rightarrow> ok (Some n)
     | _ \<Rightarrow> previous_step_of env p os)"

definition record_previous_failure :: "'e runner_env_scheme \<Rightarrow> build \<Rightarrow> step \<Rightarrow> (state, unit) io" where
  "record_previous_failure env v s =
     bind (get_last_build_step_id env (print_path env (drv_path s))) (\<lambda>last_id.
     bind (if (case last_id of None \<Rightarrow> 0 | Some n \<Rightarrow> n) = 0
           then bind (previous_step_of env (drv_path s) (case get_outputs s of None \<Rightarrow> [] | Some os \<Rightarrow> os)) (\<lambda>found.
                ok (case found of None \<Rightarrow> 0 | Some n \<Rightarrow> n))
           else ok (case last_id of None \<Rightarrow> 0 | Some n \<Rightarrow> n)) (\<lambda>propagated_from.
     bind (create_build_step env None (b_id v) (print_path env (drv_path s)) (get_system s) [] CachedFailure None
            (Some propagated_from) (output_map env s)) (\<lambda>_.
     and_then (update_build_after_previous_failure env (b_id v)
        (if drv_path s = b_drv_path v then Failed else DepFailed))
     (ignore_err (notify_build_finished env (b_id v) [])))))"

definition handle_previous_failure :: "'e runner_env_scheme \<Rightarrow> bref \<Rightarrow> sref \<Rightarrow> (state, unit) io" where
  "handle_previous_failure env b step =
     bind (gets (\<lambda>w. (the_build w b, the_step w step))) (\<lambda>(v, s).
     if finished_in_db v then ok ()
     else
       and_then (db_get env)
       (and_then (transaction env (record_previous_failure env v s))
       (set_build b (set_finished_in_db True))))"

primrec find_cached_output ::
  "'e runner_env_scheme \<Rightarrow> drv_output list \<Rightarrow> (state, build_output option) io" where
  "find_cached_output env [] = ok None"
| "find_cached_output env (o1 # os) =
     (case out_path o1 of
        None \<Rightarrow> find_cached_output env os
      | Some path \<Rightarrow>
          bind (get_build_output_for_path env (print_path env path)) (\<lambda>row.
          case row of
            None \<Rightarrow> find_cached_output env os
          | Some r \<Rightarrow>
              (case build_output_from_db r of
                 Inl _ \<Rightarrow> find_cached_output env os
               | Inr res \<Rightarrow>
                   bind (get_build_products_for_build_id env (dbo_id r)) (\<lambda>ps.
                   bind (get_build_metrics_for_build_id env (dbo_id r)) (\<lambda>ms.
                   ok (Some (res\<lparr>bo_products := map (build_product_from_db (e_nix_dir env)) ps,
                                 bo_metrics := map build_metric_from_db ms\<rparr>)))))))"

definition get_build_output_cached :: "'e runner_env_scheme \<Rightarrow> store_path \<Rightarrow> (state, build_output) io" where
  "get_build_output_cached env p =
     bind (ask (\<lambda>t. e_query_drv env t p)) (\<lambda>parsed.
     bind (of_sum parsed) (\<lambda>found.
     bind (of_option (Not_Found ''Derivation not found'') found) (\<lambda>d.
     and_then (db_get env)
     (bind (find_cached_output env (outputs d)) (\<lambda>cached.
      case cached of
        Some res \<Rightarrow> ok res
      | None \<Rightarrow>
          bind (ask (\<lambda>t. build_output_new (e_path_nar_size env t) (e_closure_size env t) (e_parse_nix_support env t)
                           (e_nix_dir env) (outputs d))) of_sum)))))"

definition handle_cached_build :: "'e runner_env_scheme \<Rightarrow> bref \<Rightarrow> (state, unit) io" where
  "handle_cached_build env b =
     bind (gets (\<lambda>w. the_build w b)) (\<lambda>v.
     bind (get_build_output_cached env (b_drv_path v)) (\<lambda>res.
     and_then (db_get env)
     (and_then
       (transaction env
         (bind (ask (e_now env)) (\<lambda>now.
          bind (of_option Int_Conversion (i32_try_from (as_second now))) (\<lambda>t.
          bind (gets mem_jobsets) (\<lambda>jh.
          and_then (mark_succeeded_build env (get_mark_build_sccuess_data (e_nix_dir env) jh v res) True t t)
          (notify_build_finished env (b_id v) []))))))
     (set_build b (set_finished_in_db True)))))"

subsection \<open>Builds\<close>

definition abort_gced_build :: "'e runner_env_scheme \<Rightarrow> bref \<Rightarrow> (state, unit) io" where
  "abort_gced_build env b =
     bind (gets (\<lambda>w. the_build w b)) (\<lambda>v.
     and_then (if finished_in_db v then ok () else ignore_err (and_then (db_get env) (db_abort_build env (b_id v))))
     (set_build b (set_finished_in_db True)))"

definition attach_build :: "bref \<Rightarrow> sref \<Rightarrow> (state, unit) io" where
  "attach_build b step = update_st (\<lambda>w.
     let reg = (if finished_in_db (the_build w b) then r_builds w else insert_new_build (mem_builds w) b (r_builds w));
         bh = modify (mem_builds w) b (set_toplevel_step step)
     in w\<lparr>r_builds := reg, mem_builds := bh,
          mem_steps := propagate_priorities (mem_jobsets w) (deref_build bh b) (mem_steps w)\<rparr>)"

text \<open>The builds whose derivation is one of the steps just made.\<close>

definition builds_of_new_steps :: "(store_path \<times> int list) list \<Rightarrow> state \<Rightarrow> int list" where
  "builds_of_new_steps by_path w =
     concat (List.map_filter (\<lambda>r. hm_get by_path (drv_path (the_step w r))) (new_steps (lrun w)))"

fun create_build ::
  "'e runner_env_scheme \<Rightarrow> nat \<Rightarrow> nat \<Rightarrow> sref list \<Rightarrow> bref list \<Rightarrow> (store_path \<times> int list) list \<Rightarrow> bref \<Rightarrow> (state, unit) io"
and create_builds ::
  "'e runner_env_scheme \<Rightarrow> nat \<Rightarrow> nat \<Rightarrow> sref list \<Rightarrow> bref list \<Rightarrow> (store_path \<times> int list) list \<Rightarrow> int list \<Rightarrow> (state, unit) io" where
  "create_build env step_fuel 0 held hb by_path b = fail Diverges"
| "create_build env step_fuel (Suc fuel) held hb by_path b =
     and_then (update_st (\<lambda>w. w\<lparr>lrun := (lrun w)\<lparr>nr_added := nr_added (lrun w) + 1,
        builds_by_id := hm_remove (b_id (the_build w b)) (builds_by_id (lrun w))\<rparr>\<rparr>))
     (bind (gets (\<lambda>w. b_drv_path (the_build w b))) (\<lambda>p.
      bind (ask (\<lambda>t. e_is_valid_path env t p)) (\<lambda>valid.
      if \<not> valid then and_then (abort_gced_build env b) (drop_unowned held hb)
      else
        bind (gets (\<lambda>w. new_steps (lrun w))) (\<lambda>outer.
        and_then (set_run (\<lambda>l. l\<lparr>new_steps := []\<rparr>))
        (bind (create_step env step_fuel (outer @ held) (b # hb) b p (Some b) None) (\<lambda>res.
         and_then
           (case res of
              Create_PreviousFailure s \<Rightarrow> ignore_err (handle_previous_failure env b s)
            | _ \<Rightarrow>
                bind (gets (builds_of_new_steps by_path)) (\<lambda>ids.
                let result = (case res of Create_Valid r \<Rightarrow> [r] | _ \<Rightarrow> []) in
                bind (gets (\<lambda>w. new_steps (lrun w))) (\<lambda>mine.
                and_then (create_builds env step_fuel fuel (result @ mine @ outer @ held) (b # hb) by_path ids)
                (case res of
                   Create_Valid r \<Rightarrow> attach_build b r
                 | _ \<Rightarrow> ignore_err (handle_cached_build env b)))))
         (and_then (set_run (\<lambda>l. l\<lparr>new_steps := outer\<rparr>)) (drop_unowned held hb))))))))"
| "create_builds env step_fuel fuel held hb by_path [] = ok ()"
| "create_builds env step_fuel fuel held hb by_path (i # is) =
     and_then
       (bind (gets (\<lambda>w. hm_get (builds_by_id (lrun w)) i)) (\<lambda>found.
        case found of
          None \<Rightarrow> ok ()
        | Some b \<Rightarrow> create_build env step_fuel fuel held hb by_path b))
     (create_builds env step_fuel fuel held hb by_path is)"

subsection \<open>Loading the queue\<close>

definition make_new_runnable :: "'e runner_env_scheme \<Rightarrow> (state, unit) io" where
  "make_new_runnable env =
     bind (ask (e_clock env)) (\<lambda>clock. update_st (\<lambda>w. w\<lparr>mem_steps :=
       fold (\<lambda>r sh. modify sh r (make_runnable (clock r))) (new_runnable (lrun w)) (mem_steps w)\<rparr>))"

definition load_one :: "'e runner_env_scheme \<Rightarrow> nat \<Rightarrow> nat \<Rightarrow> (store_path \<times> int list) list \<Rightarrow> bref \<Rightarrow> (state, unit) io" where
  "load_one env step_fuel fuel by_path b =
     and_then (set_run (\<lambda>l. l\<lparr>new_runnable := [], nr_added := 0\<rparr>))
     (and_then (create_build env step_fuel fuel [] [] by_path b)
     (and_then (make_new_runnable env)
     (and_then (set_run (\<lambda>l. l\<lparr>new_runnable := []\<rparr>)) (drop_unowned [] []))))"

primrec load_builds ::
  "'e runner_env_scheme \<Rightarrow> nat \<Rightarrow> nat \<Rightarrow> (store_path \<times> int list) list \<Rightarrow> timestamp \<Rightarrow> int list \<Rightarrow> (state, unit) io" where
  "load_builds env step_fuel fuel by_path since [] = ok ()"
| "load_builds env step_fuel fuel by_path since (i # is) =
     bind (gets (\<lambda>w. hm_get (builds_by_id (lrun w)) i)) (\<lambda>found.
     case found of
       None \<Rightarrow> load_builds env step_fuel fuel by_path since is
     | Some b \<Rightarrow>
         and_then (load_one env step_fuel fuel by_path b)
         (bind (gets (\<lambda>w. stop_queue_run_after (config w))) (\<lambda>limit.
          case limit of
            None \<Rightarrow> load_builds env step_fuel fuel by_path since is
          | Some d \<Rightarrow>
              bind (ask (e_now env)) (\<lambda>now.
              bind (of_sum (add_duration (e_time_bounds env) since d)) (\<lambda>deadline.
              if now > deadline then ok () else load_builds env step_fuel fuel by_path since is)))))"

definition process_new_builds ::
  "'e runner_env_scheme \<Rightarrow> nat \<Rightarrow> nat \<Rightarrow> int list \<Rightarrow> (store_path \<times> int list) list \<Rightarrow> (state, unit) io" where
  "process_new_builds env step_fuel fuel ids by_path =
     bind (ask (e_now env)) (\<lambda>since.
     and_then (load_builds env step_fuel fuel by_path since ids)
     (bind (ask (e_clock env)) (\<lambda>clock.
      and_then (update_st (\<lambda>w. w\<lparr>mem_steps := steps_make_rdeps_runnable clock (r_steps w) (mem_steps w)\<rparr>))
      (and_then trigger_dispatch (fod_io trigger_traverse)))))"

text \<open>\<^verbatim>\<open>Jobsets::create\<close> with its two queries.\<close>

definition jobsets_create_io ::
  "'e runner_env_scheme \<Rightarrow> int \<Rightarrow> string \<Rightarrow> string \<Rightarrow> (state, jref) io" where
  "jobsets_create_io env jobset_id project name =
     bind (gets (\<lambda>w. hm_get (r_jobsets w) (project, name))) (\<lambda>found.
     case found of
       Some r \<Rightarrow> ok r
     | None \<Rightarrow>
         bind (get_jobset_scheduling_shares env jobset_id) (\<lambda>sh.
         bind (bind (gets (\<lambda>w. jobsets_create (\<lambda>_. Inr sh) (\<lambda>_ _. Inr []) (mem_jobsets w) (r_jobsets w) jobset_id project name)) of_sum) (\<lambda>_.
         bind (get_jobset_build_steps env jobset_id SCHEDULING_WINDOW) (\<lambda>rows.
         bind (bind (gets (\<lambda>w. jobsets_create (\<lambda>_. Inr sh) (\<lambda>_ _. Inr rows) (mem_jobsets w) (r_jobsets w) jobset_id project name)) of_sum)
           (\<lambda>(jh, reg, r). and_then (update_st (\<lambda>w. w\<lparr>mem_jobsets := jh, r_jobsets := reg\<rparr>)) (ok r))))))"

definition register_new_build :: "build \<Rightarrow> (state, unit) io" where
  "register_new_build v = update_st (\<lambda>w.
     case alloc (mem_builds w) v of
       (bh, b) \<Rightarrow> w\<lparr>mem_builds := bh, lrun := (lrun w)\<lparr>builds_by_id := hm_insert (b_id v) b (builds_by_id (lrun w))\<rparr>\<rparr>)"

primrec load_rows ::
  "'e runner_env_scheme \<Rightarrow> db_build list \<Rightarrow> int list \<times> (store_path \<times> int list) list \<Rightarrow>
   (state, int list \<times> (store_path \<times> int list) list) io" where
  "load_rows env [] acc = ok acc"
| "load_rows env (r # rs) acc =
     bind (jobsets_create_io env (db_jobset_id r) (db_project r) (db_jobset r)) (\<lambda>j.
     bind (of_sum (build_new (e_time_bounds env) (e_nix_dir env) r j)) (\<lambda>v.
     and_then (register_new_build v)
     (load_rows env rs
       (fst acc @ [b_id v],
        hm_insert (b_drv_path v)
          (List.insert (b_id v) (case hm_get (snd acc) (b_drv_path v) of None \<Rightarrow> [] | Some l \<Rightarrow> l)) (snd acc)))))"

definition scope_load :: "(state, 'a) io \<Rightarrow> (state, 'a) io" where
  "scope_load m = (\<lambda>w. case m w of (r, w') \<Rightarrow> (r, leave_handler (w'\<lparr>lrun := load_run_new\<rparr>)))"

definition get_queued_builds :: "'e runner_env_scheme \<Rightarrow> nat \<Rightarrow> nat \<Rightarrow> (state, unit) io" where
  "get_queued_builds env step_fuel fuel = scope_load
     (and_then (db_get env)
     (bind (get_not_finished_builds env) (\<lambda>rows.
      bind (load_rows env rows ([], [])) (\<lambda>(ids, by_path).
      process_new_builds env step_fuel fuel ids by_path))))"

definition manually_add_queue_build :: "'e runner_env_scheme \<Rightarrow> nat \<Rightarrow> nat \<Rightarrow> int \<Rightarrow> (state, bool) io" where
  "manually_add_queue_build env step_fuel fuel build_id = scope_load
     (and_then (db_get env)
     (bind (get_not_finished_builds env) (\<lambda>rows.
      bind (load_rows env (filter (\<lambda>r. db_id r = build_id) rows) ([], [])) (\<lambda>(ids, by_path).
      if ids = [] then ok False
      else and_then (process_new_builds env step_fuel fuel ids by_path) (ok True)))))"

definition queue_one_build :: "'e runner_env_scheme \<Rightarrow> int \<Rightarrow> store_path \<Rightarrow> (state, unit) io" where
  "queue_one_build env jobset_id p =
     and_then (db_get env)
     (bind (ask (\<lambda>t. e_query_drv env t p)) (\<lambda>parsed.
      bind (of_sum parsed) (\<lambda>found.
      bind (of_option (Not_Found ''drv not found'') found) (\<lambda>d.
      and_then (insert_debug_build env jobset_id (print_path env p) (drv_system d))
      (transaction env (notify_builds_added env))))))"

subsection \<open>Cancelled builds and changed priorities\<close>

definition no_timings :: build_timings where
  "no_timings = \<lparr>import_elapsed = 0, build_elapsed = 0, upload_elapsed = 0\<rparr>"

definition kill_cancelled :: "(state, (store_path \<times> uuid) list) io" where
  "kill_cancelled = (\<lambda>w.
     case kill_active_steps (mem_steps w) (mem_builds w) (r_queues w) (mem_machines w) of
       (q, mh, killed) \<Rightarrow> (Inr killed, w\<lparr>r_queues := q, mem_machines := mh\<rparr>))"

definition apply_priorities :: "(int \<times> int) list \<Rightarrow> (state, unit) io" where
  "apply_priorities curr_ids = update_st (\<lambda>w.
     case update_priorities (mem_jobsets w) curr_ids (r_builds w) (mem_builds w) (mem_steps w) of
       (reg, bh, sh) \<Rightarrow> w\<lparr>r_builds := reg, mem_builds := bh, mem_steps := sh\<rparr>)"

definition process_queue_change :: "'e runner_env_scheme \<Rightarrow> (state, unit) io" where
  "process_queue_change env = scope
     (and_then (db_get env)
     (bind (get_not_finished_builds_fast env) (\<lambda>rows.
      and_then (apply_priorities (fold (\<lambda>b. hm_insert (bs_id b) (bs_globalpriority b)) rows []))
      (and_then (drop_unowned [] [])
      (bind kill_cancelled (\<lambda>killed.
       for_each (\<lambda>(p, _). ignore_err (fail_step env p RCancelled no_timings)) killed))))))"

text \<open>One round of the queue monitor: load the queue, then react to the notification that arrives.\<close>

definition shares_changed :: "'e runner_env_scheme \<Rightarrow> (state, unit) io" where
  "shares_changed env =
     and_then (db_get env)
     (bind (get_jobsets env) (\<lambda>rows.
      update_st (\<lambda>w. w\<lparr>mem_jobsets := handle_change rows (r_jobsets w) (mem_jobsets w)\<rparr>)))"

definition queue_monitor_round :: "'e runner_env_scheme \<Rightarrow> nat \<Rightarrow> nat \<Rightarrow> string option \<Rightarrow> (state, unit) io" where
  "queue_monitor_round env step_fuel fuel notification =
     bind (attempt (get_queued_builds env step_fuel fuel)) (\<lambda>loaded.
     case loaded of
       Inl _ \<Rightarrow> ok ()
     | Inr _ \<Rightarrow>
         (case notification of
            None \<Rightarrow> ok ()
          | Some channel \<Rightarrow>
              if channel \<in> {''builds_cancelled'', ''builds_deleted'', ''builds_bumped''}
              then ignore_err (process_queue_change env)
              else if channel = ''jobset_shares_changed'' then ignore_err (shares_changed env)
              else ok ()))"

end
