(* ===== verification/Runner_Dispatch.thy ===== *)
theory Runner_Dispatch
  imports Runner_Load
begin

text \<open>
  The dispatcher (queue-runner/src/state/mod.rs): runnable steps go into the queues, ready jobs to a
  machine, steps no machine can build are given up; and the handlers for builders that join and leave
  and for a new configuration.
\<close>

subsection \<open>Handing a job to a machine\<close>

definition biggest :: "int list \<Rightarrow> int" where
  "biggest xs = fold max (tl xs) (hd xs)"

text \<open>The build a step is built for: one whose top level it is, or any other that depends on it.\<close>

definition choose_build :: "build arena \<Rightarrow> store_path \<Rightarrow> bref list \<Rightarrow> build" where
  "choose_build bh p dependents =
     deref_build bh (case List.find (\<lambda>b. b_drv_path (deref_build bh b) = p) dependents of
        Some b \<Rightarrow> b
      | None \<Rightarrow> hd dependents)"

definition options_for :: "build arena \<Rightarrow> bref list \<Rightarrow> build_options" where
  "options_for bh dependents = (build_options_new None)
     \<lparr>bo_max_silent_time := biggest (map (\<lambda>b. b_max_silent_time (deref_build bh b)) dependents),
      bo_build_timeout := biggest (map (\<lambda>b. b_timeout (deref_build bh b)) dependents)\<rparr>"

definition resolve_io :: "'e runner_env_scheme \<Rightarrow> step_info \<Rightarrow> job_constraint \<Rightarrow> (state, mref option) io" where
  "resolve_io env i c = bind (ask (e_clock env)) (\<lambda>clock w.
     case resolve (\<lambda>m. as_second (clock m)) (mem_steps w) i (r_machines w) (cfg_machine_free_fn (config w)) c (mem_machines w) of
       (mh, res) \<Rightarrow> (Inr (map_option fst res), w\<lparr>mem_machines := mh\<rparr>))"

definition send_to_machine ::
  "'e runner_env_scheme \<Rightarrow> mref \<Rightarrow> job \<Rightarrow> build_options \<Rightarrow> (state, unit) io" where
  "send_to_machine env m j opts = bind (ask (e_now env)) (\<lambda>now w.
     let presigned = (if cfg_use_presigned_uploads (config w)
           then (case remote_stores w of [] \<Rightarrow> None | s # _ \<Rightarrow> Some \<lparr>upload_debug_info = s\<rparr>) else None)
     in case upgrade (mem_machines w) m of
          None \<Rightarrow> (Inl Channel_Closed, w)
        | Some v \<Rightarrow>
            (case build_drv (as_second now) j opts presigned v of
               Inl e \<Rightarrow> (Inl e, w)
             | Inr v' \<Rightarrow> (Inr (), w\<lparr>mem_machines := modify (mem_machines w) m (\<lambda>_. v')\<rparr>)))"

definition start_job ::
  "'e runner_env_scheme \<Rightarrow> mref \<Rightarrow> sref \<Rightarrow> job \<Rightarrow> build_options \<Rightarrow> (state, realise_step_result) io" where
  "start_job env m step job0 opts =
     bind (gets (\<lambda>w. the_step w step)) (\<lambda>s.
     bind (construct_log_file_path (drv_path s)) (\<lambda>log.
     let j = job0\<lparr>job_result := (job_result job0)\<lparr>log_file := log\<rparr>\<rparr> in
     bind (gets (\<lambda>w. hostname_of w m)) (\<lambda>host.
     and_then (db_get env)
     (bind (transaction env
        (bind (of_option Int_Conversion (get_start_time_as_i32 (job_result j))) (\<lambda>start.
         create_build_step env (Some start) (job_build_id j) (print_path env (drv_path s)) (get_system s) host
           Busy None None (output_map env s)))) (\<lambda>nr.
      and_then (transaction env (notify_build_started env (job_build_id j)))
      (and_then (db_get env)
      (and_then (db_update_build_step env \<lparr>us_build_id = job_build_id j, us_step_nr = nr, us_status = Connecting\<rparr>)
      (and_then (send_to_machine env m (j\<lparr>job_step_nr := nr\<rparr>) opts)
      (ok (Realise_Valid m))))))))))"

definition realise_drv_on_valid_machine ::
  "'e runner_env_scheme \<Rightarrow> job_constraint \<Rightarrow> (state, realise_step_result) io" where
  "realise_drv_on_valid_machine env c =
     bind (gets (\<lambda>w. upgrade (q_infos (r_queues w)) (jc_job c))) (\<lambda>info.
     case info of
       None \<Rightarrow> ok Realise_None
     | Some i \<Rightarrow>
         bind (resolve_io env i c) (\<lambda>found.
         case found of
           None \<Rightarrow> ok Realise_None
         | Some m \<Rightarrow>
             let step = si_step i in
             bind (gets (\<lambda>w. fst (get_dependents (mem_steps w) (mem_builds w) step [] []))) (\<lambda>dependents.
             if dependents = [] then ok MaybeCancelled
             else
               bind (gets (\<lambda>w. (choose_build (mem_builds w) (drv_path (the_step w step)) dependents,
                                options_for (mem_builds w) dependents, drv_path (the_step w step)))) (\<lambda>(v, opts, p).
               bind (ask (e_uuid env)) (\<lambda>u.
               bind (ask (e_now env)) (\<lambda>now.
               let job0 = job_new u (b_id v) p (resolved_drv_path i);
                   job1 = job0\<lparr>job_result := set_start_time_now now (job_result job0)\<rparr> in
               bind (check_cached_failure env step) (\<lambda>cached.
               if cached
               then and_then (inner_fail_job env [step] None
                      (job1\<lparr>job_result := (job_result job1)\<lparr>rb_step_status := CachedFailure\<rparr>\<rparr>) step)
                    (ok Realise_CachedFailure)
               else start_job env m step job1 opts)))))))"

subsection \<open>Steps that no machine supports\<close>

text \<open>Whether the time since the step was last supported is still within the limit.\<close>

definition within_unsupported_time :: "'e runner_env_scheme \<Rightarrow> prepared_app \<Rightarrow> timestamp \<Rightarrow> step \<Rightarrow> bool" where
  "within_unsupported_time env c now s \<longleftrightarrow>
     float_lt (case e_total_secs env (last_supported (atomic_state s)) now of None \<Rightarrow> Fin False 0 | Some v \<Rightarrow> v)
       (f64_of_int (max_unsupported_time c div 1000000000))"

definition quote :: char where
  "quote = char_of (39 :: nat)"

definition unsupported_job :: "uuid \<Rightarrow> timestamp \<Rightarrow> build \<Rightarrow> step \<Rightarrow> job" where
  "unsupported_job u now v s =
     (let j = job_new u (b_id v) (drv_path s) None
      in j\<lparr>job_result := (set_start_and_stop now (job_result j))
            \<lparr>rb_step_status := Unsupported,
             error_msg := Some (''unsupported system type '' @ quote # (case get_system s of None \<Rightarrow> [] | Some v \<Rightarrow> v) @ [quote])\<rparr>\<rparr>)"

definition abort_one ::
  "'e runner_env_scheme \<Rightarrow> sref list \<Rightarrow> timestamp \<Rightarrow> sref \<Rightarrow> (state, bool) io" where
  "abort_one env held now step =
     bind (ask (e_clock env)) (\<lambda>clock.
     bind (gets (\<lambda>w. support_step (\<lambda>m. as_second (clock m)) (the_step w step) (r_machines w) (mem_machines w))) (\<lambda>supported.
     if supported
     then bind (ask (e_now env)) (\<lambda>t. and_then (set_step step (set_last_supported_now t)) (ok False))
     else
       bind (gets (\<lambda>w. within_unsupported_time env (config w) now (the_step w step))) (\<lambda>wait.
       if wait then ok False
       else
         bind (gets (\<lambda>w. fst (get_dependents (mem_steps w) (mem_builds w) step [] []))) (\<lambda>dependents.
         if dependents = [] then ok True
         else
           bind (ask (e_uuid env)) (\<lambda>u.
           bind (gets (\<lambda>w. unsupported_job u now
             (choose_build (mem_builds w) (drv_path (the_step w step)) dependents) (the_step w step))) (\<lambda>j.
           and_then (ignore_err (inner_fail_job env held None j step)) (ok True)))))))"

primrec abort_steps ::
  "'e runner_env_scheme \<Rightarrow> sref list \<Rightarrow> timestamp \<Rightarrow> sref list \<Rightarrow> sref list \<Rightarrow> (state, sref list) io" where
  "abort_steps env held now [] aborted = ok aborted"
| "abort_steps env held now (r # rs) aborted =
     bind (abort_one env held now r) (\<lambda>gone.
     bind (gets (\<lambda>w. if gone then step_set_insert (mem_steps w) r aborted else aborted)) (\<lambda>aborted'.
     abort_steps env held now rs aborted'))"

definition clone_runnable_io :: "(state, sref list) io" where
  "clone_runnable_io = (\<lambda>w. case clone_runnable (mem_steps w) (r_steps w) of
     (reg, rs) \<Rightarrow> (Inr rs, w\<lparr>r_steps := reg\<rparr>))"

definition unqueue_step :: "sref \<Rightarrow> (state, unit) io" where
  "unqueue_step r = update_st (\<lambda>w. w\<lparr>r_queues := remove_job_by_path [] (drv_path (the_step w r)) (r_queues w)\<rparr>)"

definition abort_unsupported :: "'e runner_env_scheme \<Rightarrow> (state, unit) io" where
  "abort_unsupported env =
     bind clone_runnable_io (\<lambda>rs.
     bind (ask (e_now env)) (\<lambda>now.
     bind (abort_steps env rs now rs []) (\<lambda>aborted.
     and_then (for_each unqueue_step aborted)
     (update_st (\<lambda>w. w\<lparr>r_queues := remove_all_weak_pointer (r_queues w)\<rparr>)))))"

subsection \<open>One round of the dispatcher\<close>

primrec collect_infos ::
  "'e runner_env_scheme \<Rightarrow> sref list \<Rightarrow> (string \<times> step_info list) list \<Rightarrow> (state, (string \<times> step_info list) list) io" where
  "collect_infos env [] acc = ok acc"
| "collect_infos env (r # rs) acc =
     bind (gets (\<lambda>w. the_step w r)) (\<lambda>s.
     case get_system s of
       None \<Rightarrow> collect_infos env rs acc
     | Some system \<Rightarrow>
         if tries (atomic_state s) > 0 then collect_infos env rs acc
         else
           bind (ask (e_try_resolve_drv env)) (\<lambda>resolved.
           bind (gets (\<lambda>w. step_info_new resolved (e_nan_sign env) (mem_jobsets w) (mem_steps w) r)) (\<lambda>i.
           collect_infos env rs
             (hm_insert system ((case hm_get acc system of None \<Rightarrow> [] | Some l \<Rightarrow> l) @ [i]) acc))))"

definition enqueue_jobs ::
  "'e runner_env_scheme \<Rightarrow> timestamp \<Rightarrow> string \<times> step_info list \<Rightarrow> (state, unit) io" where
  "enqueue_jobs env now = (\<lambda>(system, jobs). update_st (\<lambda>w. w\<lparr>r_queues :=
     queues_insert_new_jobs (e_nan_sign env) (mem_jobsets w) (mem_steps w) system jobs now
       (cfg_step_sort_fn (config w)) (r_queues w)\<rparr>))"

text \<open>
  The closure that \<^verbatim>\<open>process\<close> calls for every ready job, on the queues as they are then; what the jobs
  before it have let go of is dropped first.
\<close>

definition processor ::
  "'e runner_env_scheme \<Rightarrow> state \<Rightarrow> queues \<Rightarrow> job_constraint \<Rightarrow> state \<times> (error + realise_step_result)" where
  "processor env w q c =
     (case realise_drv_on_valid_machine env c (drop_unowned_in [] [] (w\<lparr>r_queues := q\<rparr>)) of (res, w') \<Rightarrow> (w', res))"

definition process_queues :: "'e runner_env_scheme \<Rightarrow> (state, unit) io" where
  "process_queues env = bind (ask (e_now env)) (\<lambda>now w.
     case process mem_steps (processor env) now w (r_queues w) of
       ((w', q), _) \<Rightarrow> (Inr (), w'\<lparr>r_queues := q\<rparr>))"

definition prune_jobsets :: "'e runner_env_scheme \<Rightarrow> (state, unit) io" where
  "prune_jobsets env =
     bind (ask (e_clock env)) (\<lambda>clock.
     update_st (\<lambda>w. w\<lparr>mem_jobsets := jobsets_prune (\<lambda>r. as_second (clock r)) (r_jobsets w) (mem_jobsets w)\<rparr>))"

definition do_dispatch_once :: "'e runner_env_scheme \<Rightarrow> (state, unit) io" where
  "do_dispatch_once env = scope
     (and_then (prune_jobsets env)
     (bind clone_runnable_io (\<lambda>rs.
      bind (ask (e_now env)) (\<lambda>now.
      bind (collect_infos env rs []) (\<lambda>jobs.
      and_then (for_each (enqueue_jobs env now) jobs)
      (and_then (update_st (\<lambda>w. w\<lparr>r_queues := remove_all_weak_pointer (r_queues w)\<rparr>))
      (and_then (process_queues env)
      (and_then (drop_unowned [] [])
      (abort_unsupported env)))))))))"

definition dispatch_round :: "'e runner_env_scheme \<Rightarrow> (state, unit) io" where
  "dispatch_round env =
     and_then (update_st (\<lambda>w. w\<lparr>notify_dispatch := False\<rparr>)) (do_dispatch_once env)"

subsection \<open>Machines and configuration\<close>

definition state_insert_machine :: "'e runner_env_scheme \<Rightarrow> machine \<Rightarrow> (state, uuid) io" where
  "state_insert_machine env m =
     and_then (update_st (\<lambda>w.
       let q = (if m_systems m \<noteq> [] then ensure_queues_for_systems (m_systems m) (r_queues w) else r_queues w)
       in case insert_machine (e_nan_sign env) (cfg_machine_sort_fn (config w)) m (mem_machines w) (r_machines w) of
            (mh, ms, _) \<Rightarrow> w\<lparr>r_queues := q, mem_machines := mh, r_machines := ms\<rparr>))
     (and_then trigger_dispatch (ok (m_id m)))"

definition take_machine :: "uuid \<Rightarrow> (state, job list) io" where
  "take_machine machine_id = (\<lambda>w.
     case remove_machine (mem_machines w) machine_id (r_machines w) of
       (ms, res) \<Rightarrow>
         (Inr (case Option.bind res (upgrade (mem_machines w)) of None \<Rightarrow> [] | Some m \<Rightarrow> m_jobs m), w\<lparr>r_machines := ms\<rparr>))"

definition state_remove_machine :: "'e runner_env_scheme \<Rightarrow> uuid \<Rightarrow> (state, unit) io" where
  "state_remove_machine env machine_id =
     bind (take_machine machine_id)
       (for_each (\<lambda>j. ignore_err (fail_step env (job_path j) PreparingFailure no_timings)))"

definition remove_all_machines :: "'e runner_env_scheme \<Rightarrow> (state, unit) io" where
  "remove_all_machines env =
     bind (gets (\<lambda>w. map (\<lambda>r. map_option m_id (upgrade (mem_machines w) r)) (get_all_machines (r_machines w))))
       (for_each (\<lambda>u. case u of None \<Rightarrow> ok () | Some u \<Rightarrow> state_remove_machine env u))"

definition state_clear_busy :: "'e runner_env_scheme \<Rightarrow> (state, unit) io" where
  "state_clear_busy env = and_then (db_get env) (clear_busy env 0)"

primrec open_stores :: "'e runner_env_scheme \<Rightarrow> string list \<Rightarrow> (state, bool list) io" where
  "open_stores env [] = ok []"
| "open_stores env (u # us) =
     bind (ask (\<lambda>t. e_remote_store env t u)) (\<lambda>r.
     bind (of_sum r) (\<lambda>s.
     bind (open_stores env us) (\<lambda>ss. ok (s # ss))))"

definition reload_config_callback :: "'e runner_env_scheme \<Rightarrow> prepared_app \<Rightarrow> (state, unit) io" where
  "reload_config_callback env new_config =
     bind (gets config) (\<lambda>c.
     bind (if remote_store_addr c \<noteq> remote_store_addr new_config
           then open_stores env (remote_store_addr new_config) else ok []) (\<lambda>stores.
     and_then (if db_url c \<noteq> db_url new_config then db_get env else ok ())
     (update_st (\<lambda>w.
       let ms = (if cfg_machine_sort_fn c \<noteq> cfg_machine_sort_fn new_config
                 then machines_sort (e_nan_sign env) (cfg_machine_sort_fn new_config) (mem_machines w) (r_machines w)
                 else r_machines w);
           q = (if cfg_step_sort_fn c \<noteq> cfg_step_sort_fn new_config
                then sort_queues (e_nan_sign env) (mem_jobsets w) (mem_steps w) (cfg_step_sort_fn c) (r_queues w)
                else r_queues w);
           rs = (if remote_store_addr c \<noteq> remote_store_addr new_config then stores else remote_stores w)
       in w\<lparr>r_machines := ms, r_queues := q, remote_stores := rs,
            mem_machines := publish_new_config
              \<lparr>max_concurrent_downloads = cfg_max_concurrent_downloads new_config\<rparr> ms (mem_machines w)\<rparr>))))"

text \<open>\<open>loaded\<close> is the result of \<^verbatim>\<open>load_config\<close> on the configuration file.\<close>

definition reload :: "'e runner_env_scheme \<Rightarrow> error + prepared_app \<Rightarrow> (state, unit) io" where
  "reload env loaded =
     (case loaded of
        Inl _ \<Rightarrow> ok ()
      | Inr new_config \<Rightarrow>
          bind (attempt (reload_config_callback env new_config)) (\<lambda>r.
          case r of
            Inl _ \<Rightarrow> ok ()
          | Inr _ \<Rightarrow> update_st (\<lambda>w. w\<lparr>config := new_config\<rparr>)))"

end
