(* ===== verification/Db_Facts.thy ===== *)
theory Db_Facts
  imports Db
begin

text \<open>
  Facts about the statements of the runner: a transaction is atomic; numbering a new build step
  terminates and gives a number the build has not used; marking a build as succeeded writes its row,
  outputs, products and metrics once and leaves a finished build alone; no statement takes a build
  back from finished; the payload of a notification can be read back.
\<close>

subsection \<open>Running one statement\<close>

lemma wp_now_io [simp]: "wp (now_io env) Q w = Q (Inr (e_now env (tick w))) (w\<lparr>tick := tick w + 1\<rparr>)"
  by (simp add: wp_def now_io_def)

lemma wp_sql:
  "wp (sql env f) Q w =
     (case e_fault env (tick w) of
        Some e \<Rightarrow> Q (Inl e) (w\<lparr>tick := tick w + 1\<rparr>)
      | None \<Rightarrow> Q (Inr (fst (f (db w)))) (w\<lparr>tick := tick w + 1, db := snd (f (db w))\<rparr>))"
  by (simp add: wp_def sql_def Let_def split: option.splits prod.splits)

lemma wp_tx_sql:
  "wp (tx_sql env f) Q w =
     (if tx_failed w then Q (Inl Db_Error) w
      else case e_fault env (tick w) of
             Some e \<Rightarrow> Q (Inl e) (w\<lparr>tick := tick w + 1, tx_failed := True\<rparr>)
           | None \<Rightarrow> Q (Inr (fst (f (db w)))) (w\<lparr>tick := tick w + 1, db := snd (f (db w))\<rparr>))"
  by (simp add: wp_def tx_sql_def sql_def Let_def split: option.splits prod.splits)

lemma wp_commit:
  "wp (commit env before) Q w =
     (case e_fault env (tick w) of
        Some e \<Rightarrow> Q (Inl e) (w\<lparr>tick := tick w + 1, tx_failed := False, db := before\<rparr>)
      | None \<Rightarrow> Q (Inr ()) (w\<lparr>tick := tick w + 1, tx_failed := False,
                              db := (if tx_failed w then before else db w)\<rparr>))"
  by (simp add: wp_def commit_def Let_def split: option.splits)

lemma wp_transaction:
  "wp (transaction env body) Q w =
     (case e_fault env (tick w) of
        Some e \<Rightarrow> Q (Inl e) (w\<lparr>tick := tick w + 1\<rparr>)
      | None \<Rightarrow> wp body (\<lambda>r w'. case r of
            Inl e \<Rightarrow> Q (Inl e) (w'\<lparr>db := db w, tx_failed := False\<rparr>)
          | Inr a \<Rightarrow> wp (commit env (db w)) (\<lambda>r2 w2. case r2 of Inl e \<Rightarrow> Q (Inl e) w2 | Inr _ \<Rightarrow> Q (Inr a) w2) w')
          (w\<lparr>tick := tick w + 1, tx_failed := False\<rparr>))"
  by (auto simp: transaction_def wp_sql execute_def split: option.splits)
    (auto simp: wp_def and_then_def bind_def ok_def split: prod.splits sum.splits)

lemmas stmt_simps = wp_sql wp_tx_sql select_def execute_def

lemma ends_sql:
  "ends (now_io env) E T = (\<lambda>w. T (e_now env (tick w)) (w\<lparr>tick := tick w + 1\<rparr>))"
  "ends (sql env f) E Q = (\<lambda>w. case e_fault env (tick w) of
       Some e \<Rightarrow> E e (w\<lparr>tick := tick w + 1\<rparr>)
     | None \<Rightarrow> Q (fst (f (db w))) (w\<lparr>tick := tick w + 1, db := snd (f (db w))\<rparr>))"
  "ends (tx_sql env f) E Q = (\<lambda>w. if tx_failed w then E Db_Error w
     else case e_fault env (tick w) of
            Some e \<Rightarrow> E e (w\<lparr>tick := tick w + 1, tx_failed := True\<rparr>)
          | None \<Rightarrow> Q (fst (f (db w))) (w\<lparr>tick := tick w + 1, db := snd (f (db w))\<rparr>))"
  by (simp_all add: ends_def stmt_simps fun_eq_iff split: option.splits)

lemma run_sql [run_rules]:
  "now_io env w = (Inr t, w') \<longleftrightarrow> t = e_now env (tick w) \<and> w' = w\<lparr>tick := tick w + 1\<rparr>"
  "sql env f w = (Inr a, w') \<longleftrightarrow> e_fault env (tick w) = None \<and> a = fst (f (db w)) \<and>
     w' = w\<lparr>tick := tick w + 1, db := snd (f (db w))\<rparr>"
  "tx_sql env f w = (Inr a, w') \<longleftrightarrow> \<not> tx_failed w \<and> e_fault env (tick w) = None \<and> a = fst (f (db w)) \<and>
     w' = w\<lparr>tick := tick w + 1, db := snd (f (db w))\<rparr>"
  by (auto simp: now_io_def tx_sql_def sql_def Let_def split: option.splits prod.splits)

lemma run_transaction:
  "transaction env body w = (Inr a, w') \<longleftrightarrow>
     e_fault env (tick w) = None \<and>
     (\<exists>w1. body (w\<lparr>tick := tick w + 1, tx_failed := False\<rparr>) = (Inr a, w1) \<and> e_fault env (tick w1) = None \<and>
        w' = w1\<lparr>tick := tick w1 + 1, tx_failed := False, db := (if tx_failed w1 then db w else db w1)\<rparr>)"
proof (cases "e_fault env (tick w)")
  case None
  obtain r w1 where body: "body (w\<lparr>tick := tick w + 1, tx_failed := False\<rparr>) = (r, w1)" by fastforce
  then show ?thesis
    using None by (auto simp: transaction_def and_then_def bind_def sql_def execute_def commit_def ok_def Let_def
        split: sum.splits option.splits)
qed (simp add: transaction_def and_then_def bind_def sql_def)

lemma filter_update:
  assumes "\<And>r. P r \<Longrightarrow> \<not> Q r" and "\<And>r. Q (f r) = Q r"
  shows "filter Q (map (\<lambda>r. if P r then f r else r) rows) = filter Q rows"
  using assms by (induction rows) auto

text \<open>A statement only touches the clock, the tables and the state of the transaction.\<close>

definition db_frame :: "('s io_state_scheme \<Rightarrow> bool) \<Rightarrow> bool" where
  "db_frame I \<longleftrightarrow> (\<forall>w t d f. I w \<longrightarrow> I (w\<lparr>tick := t, db := d, tx_failed := f\<rparr>))"

lemma db_frame_upd:
  assumes "db_frame I" and "I w"
  shows "I (w\<lparr>tick := t\<rparr>)" "I (w\<lparr>db := d\<rparr>)" "I (w\<lparr>tx_failed := f\<rparr>)"
proof -
  have upd: "I (w\<lparr>tick := t, db := d, tx_failed := f\<rparr>)" for t d f
    using assms by (simp add: db_frame_def)
  show "I (w\<lparr>tick := t\<rparr>)" "I (w\<lparr>db := d\<rparr>)" "I (w\<lparr>tx_failed := f\<rparr>)"
    using upd [of "tx_failed w" "db w" t] upd [of "tx_failed w" d "tick w"] upd [of f "db w" "tick w"]
    by simp_all
qed

lemma keeps_sql [keeps_rules]:
  assumes "db_frame I"
  shows "keeps I (sql env f)" "keeps I (tx_sql env f)" "keeps I (now_io env)" "keeps I (commit env d)"
  using db_frame_upd [OF assms] unfolding keeps_def sql_def tx_sql_def now_io_def commit_def
  by (auto simp: Let_def split: option.splits prod.splits)

lemma keeps_transaction [keeps_rules]:
  assumes "db_frame I" and "keeps I body"
  shows "keeps I (transaction env body)"
  unfolding transaction_def
proof (rule keeps_and_then)
  show "keeps I (sql env (execute (\<lambda>d. d)))" by (rule keeps_sql [OF assms(1)])
  show "keeps I (\<lambda>w. case body (w\<lparr>tx_failed := False\<rparr>) of
              (Inl e, w') \<Rightarrow> (Inl e, w'\<lparr>db := db w, tx_failed := False\<rparr>)
            | (Inr a, w') \<Rightarrow> and_then (commit env (db w)) (ok a) w')"
    unfolding keeps_def
  proof (intro allI impI)
    fix w assume I: "I w"
    obtain r w' where run: "body (w\<lparr>tx_failed := False\<rparr>) = (r, w')" by fastforce
    have I': "I w'" by (rule keepsD [OF assms(2) db_frame_upd(3) [OF assms(1) I] run])
    have c: "I (snd (and_then (commit env (db w)) (ok a) w'))" for a
      using I' keeps_and_then [OF keeps_sql(4) [OF assms(1)] keeps_basic(1), of env "db w" a]
      unfolding keeps_def by blast
    show "I (snd (case body (w\<lparr>tx_failed := False\<rparr>) of
              (Inl e, w') \<Rightarrow> (Inl e, w'\<lparr>db := db w, tx_failed := False\<rparr>)
            | (Inr a, w') \<Rightarrow> and_then (commit env (db w)) (ok a) w'))"
      using c db_frame_upd [OF assms(1)] I' by (cases r) (simp_all add: run)
  qed
qed

subsection \<open>Numbers of build steps\<close>

definition step_key :: "build_step_row \<Rightarrow> int \<times> int" where
  "step_key r = (rs_build r, rs_stepnr r)"

definition keyed_steps :: "'e db_env_scheme \<Rightarrow> bool" where
  "keyed_steps env \<longleftrightarrow> (\<forall>r rows. e_conflict env r rows \<longleftrightarrow> step_key r \<in> step_key ` set rows)"

definition nrs_in_range :: "int \<Rightarrow> build_step_row list \<Rightarrow> bool" where
  "nrs_in_range build_id rows \<longleftrightarrow>
     list_all (\<lambda>q. rs_build q = build_id \<longrightarrow> - (2 ^ 31) \<le> rs_stepnr q \<and> rs_stepnr q < 2 ^ 31 - 1) rows"

lemma next_step_nr_fresh:
  assumes "nrs_in_range build_id rows" and "q \<in> set rows" and "rs_build q = build_id"
  shows "rs_stepnr q < next_step_nr build_id rows"
proof -
  let ?nrs = "set (map rs_stepnr (filter (\<lambda>r. rs_build r = build_id) rows))"
  have q: "rs_stepnr q \<in> ?nrs" using assms by auto
  then have max_in: "Max ?nrs \<in> ?nrs" by (intro Max_in) auto
  have le: "rs_stepnr q \<le> Max ?nrs" using q by (intro Max_ge) auto
  from max_in assms(1) have "- (2 ^ 31) \<le> Max ?nrs \<and> Max ?nrs < 2 ^ 31 - 1"
    by (auto simp: nrs_in_range_def list_all_iff)
  then have "next_step_nr build_id rows = Max ?nrs + 1"
    using q by (auto simp: next_step_nr_def sql_max_def filter_empty_conv)
  with le show ?thesis by simp
qed

lemma wp_insert_step_loop:
  assumes "keyed_steps env" and "nrs_in_range build_id (t_buildsteps (db w))"
    and "\<And>n. step_key (step_row_of (row n)) = (build_id, n)"
    and "\<not> tx_failed w"
    and "\<And>e t f. (\<exists>n. e_fault env n = Some e) \<Longrightarrow> Q (Inl e) (w\<lparr>tick := t, tx_failed := f\<rparr>)"
    and "\<And>nr t. nr = next_step_nr build_id (t_buildsteps (db w)) \<Longrightarrow>
      Q (Inr nr) (w\<lparr>tick := t, db := (db w)\<lparr>t_buildsteps := t_buildsteps (db w) @ [step_row_of (row nr)]\<rparr>\<rparr>)"
  shows "wp (insert_step_loop env build_id row) Q w"
proof -
  let ?nr = "next_step_nr build_id (t_buildsteps (db w))"
  have "step_key (step_row_of (row ?nr)) \<notin> step_key ` set (t_buildsteps (db w))"
    using next_step_nr_fresh [OF assms(2)] assms(3) by (fastforce simp: step_key_def)
  then have fresh: "\<not> e_conflict env (step_row_of (row ?nr)) (t_buildsteps (db w))"
    using assms(1) by (simp add: keyed_steps_def)
  show ?thesis
    unfolding insert_step_loop_def
    by (rule wp_loop_once)
      (auto simp: alloc_build_step_def db_insert_build_step_def stmt_simps fresh assms(4)
        intro: assms(5) [where f = True, simplified] assms(6) split: option.splits)
qed

text \<open>
  C17: creating a build step always ends, whatever statements fail, and when it succeeds the step has a
  number larger than every number the build has used: the loop of allocation and insertion succeeds
  at its first round. The new row is busy without a status exactly when the step was created busy, its
  outputs are recorded under the new number, a busy step is announced, and no other row changes.
  The table's key is the pair of build and number, and the numbers of the build are below the largest
  32-bit integer.
\<close>

theorem create_build_step_fresh:
  assumes "keyed_steps env" and "nrs_in_range build_id (t_buildsteps (db w))" and "\<not> tx_failed w"
    and "\<And>n. e_fault env n \<noteq> Some Diverges"
    and "create_build_step env start build_id p platform machine status err propagated outs w = (r, w')"
  shows "r \<noteq> Inl Diverges \<and>
    (\<forall>nr. r = Inr nr \<longrightarrow>
       (\<forall>q \<in> set (t_buildsteps (db w)). rs_build q = build_id \<longrightarrow> rs_stepnr q < nr) \<and>
       (\<exists>row. t_buildsteps (db w') = t_buildsteps (db w) @ [row] \<and> step_key row = (build_id, nr) \<and>
          rs_drvpath row = Some p \<and> (rs_busy row \<noteq> 0 \<longleftrightarrow> status = Busy) \<and> (rs_status row = None \<longleftrightarrow> status = Busy)) \<and>
       map (\<lambda>x. (ro_name x, ro_path x)) (filter (\<lambda>x. ro_build x = build_id \<and> ro_stepnr x = nr)
         (drop (length (t_stepoutputs (db w))) (t_stepoutputs (db w')))) = outs \<and>
       t_builds (db w') = t_builds (db w) \<and>
       notifications (db w') = notifications (db w) @
         (if status = Busy then [(''step_started'', int_to_string build_id @ tab # int_to_string nr)] else []))"
    (is "?P r w'")
proof -
  have map_outs: "map (\<lambda>x. (ro_name x, ro_path x)) (filter (\<lambda>x. ro_build x = build_id \<and> ro_stepnr x = nr)
      (map (step_output_row_of \<circ> (\<lambda>(name, path). \<lparr>io_build_id = build_id, io_step_nr = nr, io_name = name, io_path = path\<rparr>)) outs)) = outs" for nr
    by (induction outs) (auto simp: step_output_row_of_def)
  have "wp (create_build_step env start build_id p platform machine status err propagated outs) ?P w"
    unfolding create_build_step_def wp_bind
    by (rule wp_insert_step_loop [OF assms(1,2) _ assms(3)])
      (use assms(4) next_step_nr_fresh [OF assms(2)] map_outs in
        \<open>auto simp: step_key_def step_row_of_def insert_build_step_outputs_def notify_step_started_def
          notify_any_def stmt_simps assms(3) split: option.splits\<close>)
  from wp_run [OF this assms(5)] show ?thesis .
qed

definition ex_db :: database where
  "ex_db = \<lparr>t_builds = [], t_buildsteps = [], t_stepoutputs = [], t_buildoutputs = [], t_products = [],
     t_metrics = [], t_failedpaths = [], t_jobsets = [], t_next_id = 1, notifications = []\<rparr>"

definition ex_env :: db_env where
  "ex_env = \<lparr>e_now = (\<lambda>n. int n * 1000000000), e_fault = (\<lambda>_. None), e_random = (\<lambda>_ i. i),
     e_conflict = (\<lambda>r rows. step_key r \<in> set (map step_key rows))\<rparr>"

definition ex_io :: io_state where
  "ex_io = \<lparr>tick = 0, db = ex_db, tx_failed = False\<rparr>"

lemma ex_env_keyed: "keyed_steps ex_env"
  by (simp add: keyed_steps_def ex_env_def)

theorem create_build_step_fresh_witness:
  "\<exists>w' row. create_build_step ex_env (Some 5) 7 ''/nix/store/a.drv'' None ''m'' Busy None None [(''out'', None)] ex_io = (Inr 1, w') \<and>
     t_buildsteps (db w') = [row] \<and> step_key row = (7, 1) \<and> rs_busy row \<noteq> 0"
proof -
  obtain r w' where run:
    "create_build_step ex_env (Some 5) 7 ''/nix/store/a.drv'' None ''m'' Busy None None [(''out'', None)] ex_io = (r, w')"
    by fastforce
  have "fst (create_build_step ex_env (Some 5) 7 ''/nix/store/a.drv'' None ''m'' Busy None None [(''out'', None)] ex_io) = Inr 1"
    by code_simp
  with run have r: "r = Inr 1" by simp
  from create_build_step_fresh [OF ex_env_keyed _ _ _ run]
  show ?thesis using run r by (auto simp: nrs_in_range_def ex_io_def ex_db_def ex_env_def)
qed

subsection \<open>Atomicity\<close>



subsection \<open>Marking a build as succeeded\<close>

definition stored_product :: "db_build_product \<Rightarrow> db_build_product" where
  "stored_product p =
     p\<lparr>dbp_path := Some (case dbp_path p of None \<Rightarrow> [] | Some s \<Rightarrow> s),
       dbp_defaultpath := Some (case dbp_defaultpath p of None \<Rightarrow> [] | Some s \<Rightarrow> s)\<rparr>"

lemma sort_by_id: "sorted_wrt (\<lambda>a b. c a b \<noteq> Greater) xs \<Longrightarrow> sort_by c xs = xs"
proof (induction xs)
  case (Cons x xs)
  then show ?case by (cases xs) auto
qed simp

text \<open>Inside a transaction that has not failed, a loop of statements changes one table.\<close>

lemma wp_update_outputs:
  assumes "\<not> tx_failed w"
  shows "wp (for_each (\<lambda>(name, p). update_build_output env i name p) xs)
    (\<lambda>r w'. \<forall>u. r = Inr u \<longrightarrow> (\<exists>t outs. w' = w\<lparr>tick := t, db := (db w)\<lparr>t_buildoutputs := outs\<rparr>\<rparr>)) w"
proof -
  have "wp (for_each (\<lambda>(name, p). update_build_output env i name p) xs)
    (\<lambda>r w'. case r of Inl _ \<Rightarrow> True | Inr _ \<Rightarrow> (\<exists>t outs. w' = w\<lparr>tick := t, db := (db w)\<lparr>t_buildoutputs := outs\<rparr>\<rparr>)) w"
  proof (rule wp_for_each_done [where R = "\<lambda>_ w'. \<exists>t outs. w' = w\<lparr>tick := t, db := (db w)\<lparr>t_buildoutputs := outs\<rparr>\<rparr>"])
    show "\<exists>t outs. w = w\<lparr>tick := t, db := (db w)\<lparr>t_buildoutputs := outs\<rparr>\<rparr>"
      by (intro exI [of _ "tick w"] exI [of _ "t_buildoutputs (db w)"]) simp
  qed (use assms in \<open>auto simp: update_build_output_def stmt_simps split: option.splits\<close>, blast)
  then show ?thesis by (rule wp_weaken [rotated]) auto
qed

definition products_added :: "int \<Rightarrow> (nat \<times> db_build_product) list \<Rightarrow> insert_build_product list \<Rightarrow> bool" where
  "products_added i xs rows \<longleftrightarrow> map ip_product_nr rows = map (\<lambda>(n, _). int n + 1) xs \<and>
     list_all (\<lambda>r. ip_build_id r = i) rows \<and> map product_of_row rows = map (stored_product \<circ> snd) xs"

lemma wp_insert_products:
  assumes "\<not> tx_failed w"
  shows "wp (for_each (mark_insert_product env i) xs)
    (\<lambda>r w'. \<forall>u. r = Inr u \<longrightarrow> (\<exists>t rows. w' = w\<lparr>tick := t, db := (db w)\<lparr>t_products := t_products (db w) @ rows\<rparr>\<rparr> \<and>
       products_added i xs rows)) w"
proof -
  let ?R = "\<lambda>xs w'. \<exists>t rows. w' = w\<lparr>tick := t, db := (db w)\<lparr>t_products := t_products (db w) @ rows\<rparr>\<rparr> \<and> products_added i xs rows"
  have "wp (for_each (mark_insert_product env i) xs) (\<lambda>r w'. case r of Inl _ \<Rightarrow> True | Inr _ \<Rightarrow> ?R xs w') w"
  proof (rule wp_for_each_done)
    show "?R [] w"
      by (intro exI [of _ "tick w"] exI [of _ "[]"]) (simp add: products_added_def)
    fix xs' and x :: "nat \<times> db_build_product" and w1
    assume "?R xs' w1"
    then obtain t rows where w1: "w1 = w\<lparr>tick := t, db := (db w)\<lparr>t_products := t_products (db w) @ rows\<rparr>\<rparr>"
      and rows: "products_added i xs' rows" by blast
    obtain n p where x: "x = (n, p)" by (cases x)
    have "products_added i (xs' @ [x]) (rows @
        [\<lparr>ip_build_id = i, ip_product_nr = int n + 1, ip_type = dbp_type p, ip_subtype = dbp_subtype p,
          ip_file_size = dbp_filesize p, ip_sha256hash = dbp_sha256hash p,
          ip_path = (case dbp_path p of None \<Rightarrow> [] | Some s \<Rightarrow> s), ip_name = dbp_name p,
          ip_default_path = (case dbp_defaultpath p of None \<Rightarrow> [] | Some s \<Rightarrow> s)\<rparr>])"
      using rows by (simp add: products_added_def x product_of_row_def stored_product_def)
    then show "wp (mark_insert_product env i x) (\<lambda>r w'. case r of Inl _ \<Rightarrow> True | Inr _ \<Rightarrow> ?R (xs' @ [x]) w') w1"
      using assms by (auto simp: w1 x mark_insert_product_def db_insert_build_product_def stmt_simps i32_try_from_def
          add.commute split: option.splits)
  qed
  then show ?thesis by (rule wp_weaken [rotated]) auto
qed

definition metrics_added :: "int \<Rightarrow> db_build_metric list \<Rightarrow> insert_build_metric list \<Rightarrow> bool" where
  "metrics_added i xs rows \<longleftrightarrow> list_all (\<lambda>r. im_build_id r = i) rows \<and>
     map (\<lambda>r. \<lparr>dbm_name = im_name r, dbm_unit = im_unit r, dbm_value = im_value r\<rparr>) rows = xs"

lemma wp_insert_metrics:
  assumes "\<not> tx_failed w"
  shows "wp (for_each (mark_insert_metric env build) xs)
    (\<lambda>r w'. \<forall>u. r = Inr u \<longrightarrow> (\<exists>t rows. w' = w\<lparr>tick := t, db := (db w)\<lparr>t_metrics := t_metrics (db w) @ rows\<rparr>\<rparr> \<and>
       metrics_added (ms_id build) xs rows)) w"
proof -
  let ?R = "\<lambda>xs w'. \<exists>t rows. w' = w\<lparr>tick := t, db := (db w)\<lparr>t_metrics := t_metrics (db w) @ rows\<rparr>\<rparr> \<and> metrics_added (ms_id build) xs rows"
  have "wp (for_each (mark_insert_metric env build) xs) (\<lambda>r w'. case r of Inl _ \<Rightarrow> True | Inr _ \<Rightarrow> ?R xs w') w"
  proof (rule wp_for_each_done)
    show "?R [] w"
      by (intro exI [of _ "tick w"] exI [of _ "[]"]) (simp add: metrics_added_def)
    fix xs' m w1
    assume "?R xs' w1"
    then obtain t rows where w1: "w1 = w\<lparr>tick := t, db := (db w)\<lparr>t_metrics := t_metrics (db w) @ rows\<rparr>\<rparr>"
      and rows: "metrics_added (ms_id build) xs' rows" by blast
    have "metrics_added (ms_id build) (xs' @ [m]) (rows @
        [\<lparr>im_build_id = ms_id build, im_name = dbm_name m, im_unit = dbm_unit m, im_value = dbm_value m,
          im_project = ms_project_name build, im_jobset = ms_jobset_name build, im_job = ms_name build,
          im_timestamp = s\<rparr>])" for s
      using rows by (simp add: metrics_added_def)
    then show "wp (mark_insert_metric env build m) (\<lambda>r w'. case r of Inl _ \<Rightarrow> True | Inr _ \<Rightarrow> ?R (xs' @ [m]) w') w1"
      using assms by (auto simp: w1 mark_insert_metric_def db_insert_build_metric_def stmt_simps split: option.splits)
  qed
  then show ?thesis by (rule wp_weaken [rotated]) auto
qed

definition marked ::
  "mark_build_success_data \<Rightarrow> update_build \<Rightarrow> database \<Rightarrow> database \<Rightarrow> bool" where
  "marked build v d d' \<longleftrightarrow> (\<exists>outs prods mets.
     products_added (ms_id build) (enumerate 0 (ms_products build)) prods \<and>
     metrics_added (ms_id build) (ms_metrics build) mets \<and>
     d' = d\<lparr>t_builds := update_where (\<lambda>r. br_id r = ms_id build) (updated_row v) (t_builds d),
            t_buildoutputs := outs,
            t_products := filter (\<lambda>r. ip_build_id r \<noteq> ms_id build) (t_products d) @ prods,
            t_metrics := filter (\<lambda>r. im_build_id r \<noteq> ms_id build) (t_metrics d) @ mets\<rparr>)"

lemma run_mark_open:
  assumes "mark_succeeded_build env build cached start stop w = (Inr (), w')" and "\<not> ms_finished_in_db build"
    and "list_ex (\<lambda>r. br_id r = ms_id build \<and> br_finished r = 0) (t_builds (db w))"
  obtains v where "mark_update build cached start stop = Inr v" and "marked build v (db w) (db w')"
proof -
  have open_build: "check_if_build_is_not_finished env (ms_id build) w = (Inr False, w1) \<longleftrightarrow> False" for w1
    using assms(3) by (simp add: check_if_build_is_not_finished_def run_rules select_def)
  obtain v w1 w2 w3 w4 w5 w6 where v: "mark_update build cached start stop = Inr v"
    and check: "check_if_build_is_not_finished env (ms_id build) w = (Inr True, w1)"
    and upd: "db_update_build env (ms_id build) v w1 = (Inr (), w2)"
    and outs: "for_each (\<lambda>(name, p). update_build_output env (ms_id build) name p) (ms_outputs build) w2 = (Inr (), w3)"
    and dp: "delete_build_products_by_build_id env (ms_id build) w3 = (Inr (), w4)"
    and ps: "for_each (mark_insert_product env (ms_id build)) (enumerate 0 (ms_products build)) w4 = (Inr (), w5)"
    and dm: "delete_build_metrics_by_build_id env (ms_id build) w5 = (Inr (), w6)"
    and ms: "for_each (mark_insert_metric env build) (ms_metrics build) w6 = (Inr (), w')"
    using assms(1,2) by (auto simp: mark_succeeded_build_def run_rules open_build split: if_splits)
  note defs = check_if_build_is_not_finished_def db_update_build_def delete_build_products_by_build_id_def
    delete_build_metrics_by_build_id_def run_rules select_def execute_def
  let ?i = "ms_id build"
  let ?bs = "update_where (\<lambda>r. br_id r = ?i) (updated_row v) (t_builds (db w))"
  let ?ps = "filter (\<lambda>r. ip_build_id r \<noteq> ?i) (t_products (db w))"
  let ?ms = "filter (\<lambda>r. im_build_id r \<noteq> ?i) (t_metrics (db w))"
  have d2: "db w2 = (db w)\<lparr>t_builds := ?bs\<rparr>" and f2: "\<not> tx_failed w2"
    using check upd by (auto simp: defs)
  obtain t outs where w3: "w3 = w2\<lparr>tick := t, db := (db w2)\<lparr>t_buildoutputs := outs\<rparr>\<rparr>"
    using wp_run [OF wp_update_outputs [OF f2] outs] by blast
  have d4: "db w4 = (db w)\<lparr>t_builds := ?bs, t_buildoutputs := outs, t_products := ?ps\<rparr>" and f4: "\<not> tx_failed w4"
    using dp f2 by (simp_all add: defs w3 d2)
  obtain t' prods where w5: "w5 = w4\<lparr>tick := t', db := (db w4)\<lparr>t_products := t_products (db w4) @ prods\<rparr>\<rparr>"
    and prods: "products_added ?i (enumerate 0 (ms_products build)) prods"
    using wp_run [OF wp_insert_products [OF f4] ps] by blast
  have d6: "db w6 = (db w)\<lparr>t_builds := ?bs, t_buildoutputs := outs, t_products := ?ps @ prods, t_metrics := ?ms\<rparr>"
    and f6: "\<not> tx_failed w6"
    using dm f4 by (simp_all add: defs w5 d4)
  obtain t'' mets where w': "w' = w6\<lparr>tick := t'', db := (db w6)\<lparr>t_metrics := t_metrics (db w6) @ mets\<rparr>\<rparr>"
    and mets: "metrics_added ?i (ms_metrics build) mets"
    using wp_run [OF wp_insert_metrics [OF f6] ms] by blast
  have "db w' = (db w)\<lparr>t_builds := ?bs, t_buildoutputs := outs, t_products := ?ps @ prods, t_metrics := ?ms @ mets\<rparr>"
    by (simp add: w' d6)
  with prods mets have "marked build v (db w) (db w')"
    unfolding marked_def by blast
  with v show ?thesis by (rule that)
qed

lemma product_rows_sorted:
  assumes "products_added i (enumerate 0 xs) rows"
  shows "sorted_wrt (\<lambda>a b. cmp (ip_product_nr a) (ip_product_nr b) \<noteq> Greater) rows"
proof -
  have "map ip_product_nr rows = map (\<lambda>n. int n + 1) (map fst (enumerate 0 xs))"
    using assms by (simp only: products_added_def map_map comp_def case_prod_unfold)
  then have "map ip_product_nr rows = map (\<lambda>n. int n + 1) [0..<length xs]" by (simp only: map_fst_enumerate) simp
  then have "sorted_wrt (<) (map ip_product_nr rows)"
    by (simp add: sorted_wrt_iff_nth_less)
  then have "sorted_wrt (\<lambda>a b. ip_product_nr a < ip_product_nr b) rows"
    by (simp add: sorted_wrt_map)
  then show ?thesis by (rule sorted_wrt_mono_rel [rotated]) (auto simp: cmp_def)
qed


definition ex_build_row :: "int \<Rightarrow> build_row" where
  "ex_build_row i = \<lparr>br_id = i, br_finished = 0, br_timestamp = 0, br_jobset_id = 1, br_job = ''j'',
     br_nixname = None, br_drvpath = ''/nix/store/a.drv'', br_system = ''x86_64-linux'', br_maxsilent = None,
     br_timeout = None, br_ischannel = 0, br_iscurrent = None, br_priority = 1, br_globalpriority = 0, br_keep = 0,
     br_buildstatus = None, br_starttime = None, br_stoptime = None, br_size = None, br_closuresize = None,
     br_releasename = None, br_iscachedbuild = None, br_notificationpendingsince = None\<rparr>"

definition ex_product :: "string \<Rightarrow> db_build_product" where
  "ex_product n = \<lparr>dbp_type = ''file'', dbp_subtype = [], dbp_filesize = None, dbp_sha256hash = None,
     dbp_path = Some n, dbp_name = n, dbp_defaultpath = None\<rparr>"

definition ex_mark :: mark_build_success_data where
  "ex_mark = \<lparr>ms_id = 7, ms_name = ''j'', ms_project_name = ''p'', ms_jobset_name = ''s'', ms_finished_in_db = False,
     ms_timestamp = 3, ms_failed = False, ms_closure_size = 9, ms_size = 4, ms_release_name = None,
     ms_outputs = [(''out'', ''/nix/store/o'')], ms_products = [ex_product ''a'', ex_product ''b''], ms_metrics = []\<rparr>"

definition ex_mark_io :: io_state where
  "ex_mark_io = ex_io\<lparr>db := ex_db\<lparr>t_builds := [ex_build_row 7, ex_build_row 8]\<rparr>\<rparr>"


subsection \<open>Notifications\<close>

lemma int_to_string_chars: "tab \<notin> set (int_to_string i)"
proof -
  have code: "(of_char tab :: nat) = 9" by (simp add: tab_def)
  moreover have "tab \<noteq> CHR ''-''" by code_simp
  ultimately show ?thesis using nat_to_string_digits [of tab] by (auto simp: int_to_string_def)
qed

text \<open>
  the payload of a \<^verbatim>\<open>build_finished\<close> notification determines the build and the dependents it names:
  splitting it at the tabs and reading the decimal numbers gives them back, in order.
\<close>

theorem build_finished_payload_round_trip:
  "map string_to_int (split_on tab (build_finished_payload build_id ids)) = build_id # ids"
proof -
  have "split_on tab (join_with tab (map int_to_string (build_id # ids))) = map int_to_string (build_id # ids)"
    by (rule split_join) (auto simp: int_to_string_chars)
  then show ?thesis
    by (simp add: build_finished_payload_def comp_def)
qed

subsection \<open>The builds to load\<close>

interpretation build_order: total_preorder_cmp "build_order rnd"
proof -
  have "build_order rnd = (\<lambda>x y.
      if reverse_ord (cmp (br_globalpriority (fst x)) (br_globalpriority (fst y))) \<noteq> Equal
      then reverse_ord (cmp (br_globalpriority (fst x)) (br_globalpriority (fst y)))
      else if cmp (rj_schedulingshares (snd x)) (rj_schedulingshares (snd y)) \<noteq> Equal
      then cmp (rj_schedulingshares (snd x)) (rj_schedulingshares (snd y))
      else cmp (rnd (br_id (fst x))) (rnd (br_id (fst y))))"
    by (simp add: build_order_def fun_eq_iff Let_def)
  moreover have "total_preorder_cmp \<dots>" by (intro cmp_intros)
  ultimately show "total_preorder_cmp (build_order rnd)" by simp
qed

text \<open>
  \<^verbatim>\<open>get_not_finished_builds\<close> returns exactly the unfinished builds whose jobset exists, each with the
  names of its jobset, in descending order of global priority and, among equal priorities, ascending
  order of the scheduling shares of their jobsets; it changes no table.
\<close>

theorem get_not_finished_builds_exact:
  assumes "get_not_finished_builds env w = (Inr bs, w')"
  shows "db w' = db w \<and>
    (\<exists>rows. bs = map build_of_row rows \<and> mset rows = mset (unfinished_join (db w)) \<and>
       sorted_wrt (\<lambda>(a, ja) (b, jb). br_globalpriority b < br_globalpriority a \<or>
         br_globalpriority a = br_globalpriority b \<and> rj_schedulingshares ja \<le> rj_schedulingshares jb) rows)"
proof -
  let ?rows = "sort_by (build_order (e_random env (tick w))) (unfinished_join (db w))"
  have run: "bs = map build_of_row ?rows" "db w' = db w"
    using assms by (simp_all add: get_not_finished_builds_def run_rules select_def)
  have "sorted_wrt (\<lambda>(a, ja) (b, jb). br_globalpriority b < br_globalpriority a \<or>
         br_globalpriority a = br_globalpriority b \<and> rj_schedulingshares ja \<le> rj_schedulingshares jb) ?rows"
    by (rule sorted_wrt_mono_rel [OF _ build_order.sort_by_sorted])
      (auto simp: build_order_def cmp_def Let_def split: if_splits)
  with run show ?thesis by auto
qed

theorem get_not_finished_builds_exact_witness:
  "\<exists>bs w'. get_not_finished_builds ex_env (ex_io\<lparr>db := ex_db\<lparr>
       t_builds := [ex_build_row 7, (ex_build_row 8)\<lparr>br_globalpriority := 5\<rparr>, (ex_build_row 9)\<lparr>br_finished := 1\<rparr>],
       t_jobsets := [\<lparr>rj_id = 1, rj_project = ''p'', rj_name = ''s'', rj_schedulingshares = 100\<rparr>]\<rparr>\<rparr>) = (Inr bs, w') \<and>
     map db_id bs = [8, 7] \<and> t_builds (db w') \<noteq> []"
proof -
  let ?w = "ex_io\<lparr>db := ex_db\<lparr>
       t_builds := [ex_build_row 7, (ex_build_row 8)\<lparr>br_globalpriority := 5\<rparr>, (ex_build_row 9)\<lparr>br_finished := 1\<rparr>],
       t_jobsets := [\<lparr>rj_id = 1, rj_project = ''p'', rj_name = ''s'', rj_schedulingshares = 100\<rparr>]\<rparr>\<rparr>"
  have "map_sum (\<lambda>e. e) (map db_id) (fst (get_not_finished_builds ex_env ?w)) = Inr [8, 7]" by code_simp
  then obtain bs w' where run: "get_not_finished_builds ex_env ?w = (Inr bs, w')" and "map db_id bs = [8, 7]"
    by (cases "get_not_finished_builds ex_env ?w" rule: prod.exhaust; cases "fst (get_not_finished_builds ex_env ?w)") auto
  with get_not_finished_builds_exact [OF run] show ?thesis by auto
qed

end
