(* ===== verification/Runner_Facts.thy ===== *)
theory Runner_Facts
  imports Runner_Dispatch Db_Facts
begin

text \<open>
  Facts the properties of the handlers share: which handlers only talk to the database, what dropping
  unowned objects leaves, and the invariant of the state of the runner.
\<close>

subsection \<open>Handlers that only talk to the database\<close>

text \<open>They leave the part of the state that extends the database alone.\<close>

definition db_only :: "('s io_state_scheme, 'a) io \<Rightarrow> bool" where
  "db_only m \<longleftrightarrow> (\<forall>w. io_state.more (snd (m w)) = io_state.more w)"

named_theorems db_only_rules \<open>handlers that only talk to the database\<close>

lemma db_onlyD: "db_only m \<Longrightarrow> m w = (r, w') \<Longrightarrow> io_state.more w' = io_state.more w"
  by (metis db_only_def snd_conv)

lemma same_more_iff:
  "io_state.more w' = io_state.more w \<longleftrightarrow> w' = w\<lparr>tick := tick w', db := db w', tx_failed := tx_failed w'\<rparr>"
  for w w' :: "'s io_state_scheme"
  by (cases w; cases w') auto

lemma same_more_fields:
  assumes "io_state.more w' = io_state.more (w :: state)"
  shows "config w' = config w" "log_dir w' = log_dir w" "remote_stores w' = remote_stores w"
    "mem_steps w' = mem_steps w" "mem_builds w' = mem_builds w" "mem_jobsets w' = mem_jobsets w"
    "mem_machines w' = mem_machines w" "r_machines w' = r_machines w" "r_builds w' = r_builds w"
    "r_jobsets w' = r_jobsets w" "r_steps w' = r_steps w" "r_queues w' = r_queues w" "r_fod w' = r_fod w"
    "notify_dispatch w' = notify_dispatch w" "r_uploader w' = r_uploader w" "lrun w' = lrun w"
  using assms by (cases w; cases w'; simp)+

lemma db_only_run: "db_only m \<Longrightarrow> m w = (r, w') \<Longrightarrow> \<exists>t d f. w' = w\<lparr>tick := t, db := d, tx_failed := f\<rparr>"
  using db_onlyD [of m w r w'] same_more_iff [of w' w] by blast

lemma wp_db_only:
  assumes "db_only m" and "\<And>r t d f. Q r (w\<lparr>tick := t, db := d, tx_failed := f\<rparr>)"
  shows "wp m Q w"
  using db_only_run [OF assms(1), of w] assms(2) by (auto simp: wp_def split: prod.splits)

lemma db_only_bind [db_only_rules]: "db_only m \<Longrightarrow> (\<And>a. db_only (k a)) \<Longrightarrow> db_only (bind m k)"
  unfolding db_only_def bind_def by (auto split: prod.splits sum.splits) (metis snd_conv)+

lemma db_only_and_then [db_only_rules]: "db_only m \<Longrightarrow> db_only k \<Longrightarrow> db_only (and_then m k)"
  by (simp add: and_then_def db_only_bind)

lemma db_only_basic [db_only_rules]:
  "db_only (ok a)" "db_only (fail e)" "db_only (gets g)" "db_only (of_sum r)" "db_only (of_option e v)"
  "db_only (ask h)"
  by (simp_all add: db_only_def ok_def fail_def gets_def of_sum_def of_option_def ask_def split: option.splits)

lemma db_only_attempt [db_only_rules]: "db_only m \<Longrightarrow> db_only (attempt m)"
  unfolding db_only_def attempt_def by (auto split: prod.splits sum.splits) (metis snd_conv)+

lemma db_only_ignore_err [db_only_rules]: "db_only m \<Longrightarrow> db_only (ignore_err m)"
  unfolding ignore_err_def by (intro db_only_rules)

lemma db_only_for_each [db_only_rules]: "(\<And>x. x \<in> set xs \<Longrightarrow> db_only (f x)) \<Longrightarrow> db_only (for_each f xs)"
  by (induction xs) (auto intro!: db_only_rules)

lemma db_only_if [db_only_rules]: "(b \<Longrightarrow> db_only m) \<Longrightarrow> (\<not> b \<Longrightarrow> db_only n) \<Longrightarrow> db_only (if b then m else n)"
  by simp

lemma db_only_cases [db_only_rules]:
  "(v = None \<Longrightarrow> db_only m) \<Longrightarrow> (\<And>a. v = Some a \<Longrightarrow> db_only (k a)) \<Longrightarrow> db_only (case v of None \<Rightarrow> m | Some a \<Rightarrow> k a)"
  "(\<And>e. x = Inl e \<Longrightarrow> db_only (g e)) \<Longrightarrow> (\<And>a. x = Inr a \<Longrightarrow> db_only (h a)) \<Longrightarrow> db_only (case x of Inl e \<Rightarrow> g e | Inr a \<Rightarrow> h a)"
  "(\<And>a b. db_only (l a b)) \<Longrightarrow> db_only (case p of (a, b) \<Rightarrow> l a b)"
  by (cases v, simp_all) (cases x, simp_all, cases p, simp)

lemma db_only_sql [db_only_rules]: "db_only (sql env f)" "db_only (tx_sql env f)" "db_only (now_io env)"
  by (simp_all add: db_only_def sql_def tx_sql_def now_io_def Let_def split: option.splits prod.splits)

lemma db_only_transaction [db_only_rules]:
  assumes "db_only body"
  shows "db_only (transaction env body)"
  unfolding db_only_def
proof
  fix w
  obtain r w1 where body: "body (w\<lparr>tick := tick w + 1, tx_failed := False\<rparr>) = (r, w1)" by fastforce
  then show "io_state.more (snd (transaction env body w)) = io_state.more w"
    using db_onlyD [OF assms body]
    by (auto simp: transaction_def and_then_def bind_def sql_def execute_def commit_def ok_def Let_def
        split: option.splits sum.splits)
qed

lemma db_only_loop_from [db_only_rules]:
  assumes "\<And>v. db_only (body v)"
  shows "db_only (loop_from body v)"
  unfolding db_only_def
proof
  fix w0
  have "keeps (\<lambda>w. io_state.more w = io_state.more w0) (loop_from body v)"
    by (rule keeps_loop_from) (use assms in \<open>simp add: keeps_def db_only_def\<close>)
  then show "io_state.more (snd (loop_from body v w0)) = io_state.more w0" by (simp add: keeps_def)
qed

lemma db_only_loop_io [db_only_rules]: "db_only body \<Longrightarrow> db_only (loop_io body)"
  unfolding loop_io_def by (intro db_only_rules)

text \<open>The statements of the database, and what the handlers make of them.\<close>

lemmas statement_defs = db_get_def db_update_build_step_in_finish_def notify_step_finished_def notify_any_def
  notify_build_finished_def notify_build_started_def notify_step_started_def notify_builds_added_def
  get_drv_path_from_build_step_def update_build_step_output_def insert_build_step_outputs_def
  alloc_build_step_def db_insert_build_step_def update_build_after_failure_def insert_failed_paths_def
  db_update_build_def update_build_output_def db_insert_build_product_def db_insert_build_metric_def
  delete_build_products_by_build_id_def delete_build_metrics_by_build_id_def check_if_build_is_not_finished_def
  db_update_build_step_def check_if_paths_failed_def get_last_build_step_id_def
  get_last_build_step_id_for_output_path_def get_last_build_step_id_for_output_with_drv_def
  update_build_after_previous_failure_def db_abort_build_def get_build_output_for_path_def
  get_build_products_for_build_id_def get_build_metrics_for_build_id_def clear_busy_def insert_debug_build_def
  get_not_finished_builds_fast_def get_not_finished_builds_def get_jobsets_def get_jobset_scheduling_shares_def
  get_jobset_build_steps_def

lemma db_only_statements [db_only_rules]:
  "db_only (db_get env)" "db_only (db_update_build_step_in_finish env u)" "db_only (notify_step_finished env i n s)"
  "db_only (notify_build_finished env i ids)" "db_only (notify_build_started env i)"
  "db_only (notify_builds_added env)" "db_only (get_drv_path_from_build_step env i n)"
  "db_only (update_build_step_output env i n s p)" "db_only (update_build_after_failure env i st a z c)"
  "db_only (insert_failed_paths env p)" "db_only (db_update_build_step env v)" "db_only (check_if_paths_failed env ps)"
  "db_only (get_last_build_step_id env p)" "db_only (get_last_build_step_id_for_output_path env p)"
  "db_only (get_last_build_step_id_for_output_with_drv env p s)" "db_only (update_build_after_previous_failure env i st)"
  "db_only (db_abort_build env i)" "db_only (get_build_output_for_path env p)"
  "db_only (get_build_products_for_build_id env i)" "db_only (get_build_metrics_for_build_id env i)"
  "db_only (clear_busy env i)" "db_only (insert_debug_build env i p s)" "db_only (get_not_finished_builds_fast env)"
  "db_only (get_not_finished_builds env)" "db_only (get_jobsets env)" "db_only (get_jobset_scheduling_shares env i)"
  "db_only (get_jobset_build_steps env i n)"
  unfolding statement_defs by (intro db_only_rules)+

lemma db_only_create_build_step [db_only_rules]:
  "db_only (create_build_step env start i p pf m st e pr outs)"
  unfolding create_build_step_def insert_step_loop_def statement_defs by (intro db_only_rules)

lemma db_only_create_substitution_step [db_only_rules]:
  "db_only (create_substitution_step env start stop i p out)"
  unfolding create_substitution_step_def insert_step_loop_def statement_defs by (intro db_only_rules)

lemma db_only_mark_succeeded_build [db_only_rules]: "db_only (mark_succeeded_build env d c a z)"
  unfolding mark_succeeded_build_def mark_insert_product_def mark_insert_metric_def statement_defs
  by (intro db_only_rules)

lemma db_only_finish_build_step [db_only_rules]: "db_only (finish_build_step env i n res m)"
  unfolding finish_build_step_def finish_outputs_def by (intro db_only_rules)

lemma db_only_fail_round [db_only_rules]: "db_only (fail_round env m j step bs)"
  unfolding fail_round_def create_failed_step_def fail_build_def remember_failed_paths_def
  by (intro db_only_rules)

lemma db_only_checks [db_only_rules]:
  "db_only (check_cached_failure env r)" "db_only (substitute_output env o1 i p)"
  "db_only (construct_log_file_path p)" "db_only (record_previous_failure env v s)"
  "db_only (get_build_output_cached env p)"
proof -
  show "db_only (check_cached_failure env r)" "db_only (substitute_output env o1 i p)" "db_only (construct_log_file_path p)"
    unfolding check_cached_failure_def substitute_output_def construct_log_file_path_def by (intro db_only_rules)+
  have "db_only (previous_step_of env p os)" for p os
    by (induction os) (auto intro!: db_only_rules)
  then show "db_only (record_previous_failure env v s)"
    unfolding record_previous_failure_def by (intro db_only_rules)
  have "db_only (find_cached_output env os)" for os
    by (induction os) (auto intro!: db_only_rules)
  then show "db_only (get_build_output_cached env p)"
    unfolding get_build_output_cached_def by (intro db_only_rules)
qed

lemma db_only_substitute_outputs [db_only_rules]: "db_only (substitute_outputs env i p os n)"
  by (induction os arbitrary: n) (auto intro!: db_only_rules)

subsection \<open>Dropping what nobody owns\<close>

lemma length_release [simp]: "length (release h a) = length h"
  by (simp add: release_def)

lemma step_owned_iff:
  "step_owned roots sh r \<longleftrightarrow> r \<in> set roots \<or> (\<exists>a s. upgrade sh a = Some s \<and> r \<in> set (deps (sstate s)))"
proof -
  have "list_ex (\<lambda>c. case c of None \<Rightarrow> False | Some s \<Rightarrow> r \<in> set (deps (sstate s))) sh \<longleftrightarrow>
      (\<exists>a s. upgrade sh a = Some s \<and> r \<in> set (deps (sstate s)))"
    unfolding list_ex_length by (auto simp: upgrade_def split: option.splits)
  then show ?thesis by (simp add: step_owned_def)
qed

text \<open>
  What the cascade leaves: it changes no cell, keeps the roots and what the remaining steps depend on,
  and stops only when every step left has an owner.
\<close>

lemma drop_steps_spec:
  "length (drop_steps roots sh) = length sh \<and>
   (\<forall>a. upgrade (drop_steps roots sh) a = upgrade sh a \<or> upgrade (drop_steps roots sh) a = None) \<and>
   (\<forall>a \<in> set roots. upgrade (drop_steps roots sh) a = upgrade sh a) \<and>
   (\<forall>a s d. upgrade (drop_steps roots sh) a = Some s \<longrightarrow> d \<in> set (deps (sstate s)) \<longrightarrow>
      upgrade (drop_steps roots sh) d = upgrade sh d) \<and>
   unowned_steps roots (drop_steps roots sh) = []"
proof (induction roots sh rule: drop_steps.induct)
  case (1 roots sh)
  show ?case
  proof (cases "unowned_steps roots sh")
    case Nil
    then show ?thesis by (simp add: drop_steps.simps [of roots sh])
  next
    case (Cons r rs)
    let ?d = "drop_steps roots (release sh r)"
    have step: "drop_steps roots sh = ?d" using Cons by (simp add: drop_steps.simps [of roots sh])
    have "r \<in> set (unowned_steps roots sh)" using Cons by simp
    then have r: "\<not> step_owned roots sh r" by (simp add: unowned_steps_def)
    note IH = "1.IH" [OF Cons]
    have deps_kept: "upgrade ?d d = upgrade sh d" if "upgrade ?d a = Some s" and "d \<in> set (deps (sstate s))" for a s d
    proof -
      have "upgrade sh a = Some s" using IH that(1) by (metis arena.get_free option.distinct(1))
      with that(2) r have "d \<noteq> r" by (auto simp: step_owned_iff)
      with IH that show ?thesis by (metis arena.get_free)
    qed
    have "\<forall>a \<in> set roots. upgrade ?d a = upgrade sh a"
      using IH r by (auto simp: step_owned_iff)
    moreover have "\<forall>a. upgrade ?d a = upgrade sh a \<or> upgrade ?d a = None"
      using IH by (metis arena.get_free)
    ultimately show ?thesis
      unfolding step using IH deps_kept by (metis length_release)
  qed
qed

lemmas drop_steps_length [simp] = drop_steps_spec [THEN conjunct1]
lemmas drop_steps_cell = drop_steps_spec [THEN conjunct2, THEN conjunct1, rule_format]
lemmas drop_steps_root = drop_steps_spec [THEN conjunct2, THEN conjunct2, THEN conjunct1, rule_format]
lemmas drop_steps_dep = drop_steps_spec [THEN conjunct2, THEN conjunct2, THEN conjunct2, THEN conjunct1, rule_format]
lemmas drop_steps_none_left = drop_steps_spec [THEN conjunct2, THEN conjunct2, THEN conjunct2, THEN conjunct2]

lemma length_drop_builds [simp]: "length (drop_builds owned bh) = length bh"
  by (simp add: drop_builds_def)

lemma upgrade_drop_builds: "upgrade (drop_builds owned bh) b = (if b \<in> set owned then upgrade bh b else None)"
  by (simp add: drop_builds_def upgrade_def)

lemma in_live_objects: "v \<in> set (live_objects h) \<longleftrightarrow> (\<exists>a. upgrade h a = Some v)"
proof -
  have "v \<in> set (live_objects h) \<longleftrightarrow> Some v \<in> set h" by (force simp: live_objects_def map_filter_def)
  also have "\<dots> \<longleftrightarrow> (\<exists>a < length h. h ! a = Some v)" by (simp add: in_set_conv_nth)
  finally show ?thesis by (auto simp: upgrade_def)
qed

lemma drop_unowned_simps [simp]:
  "tick (drop_unowned_in hs hb w) = tick w" "db (drop_unowned_in hs hb w) = db w"
  "tx_failed (drop_unowned_in hs hb w) = tx_failed w" "config (drop_unowned_in hs hb w) = config w"
  "r_builds (drop_unowned_in hs hb w) = r_builds w" "r_steps (drop_unowned_in hs hb w) = r_steps w"
  "r_queues (drop_unowned_in hs hb w) = r_queues w" "r_machines (drop_unowned_in hs hb w) = r_machines w"
  "mem_machines (drop_unowned_in hs hb w) = mem_machines w" "mem_jobsets (drop_unowned_in hs hb w) = mem_jobsets w"
  "lrun (drop_unowned_in hs hb w) = lrun w" "notify_dispatch (drop_unowned_in hs hb w) = notify_dispatch w"
  "r_uploader (drop_unowned_in hs hb w) = r_uploader w" "r_jobsets (drop_unowned_in hs hb w) = r_jobsets w"
  "mem_builds (drop_unowned_in hs hb w) = drop_builds (hb @ build_roots w) (mem_builds w)"
  by (simp_all add: drop_unowned_in_def Let_def)

lemma mem_steps_drop_unowned:
  "mem_steps (drop_unowned_in hs hb w) =
     drop_steps (hs @ step_roots (w\<lparr>mem_builds := drop_builds (hb @ build_roots w) (mem_builds w)\<rparr>)) (mem_steps w)"
  by (simp add: drop_unowned_in_def Let_def)

subsection \<open>Pending builds\<close>

definition pending :: "build arena \<Rightarrow> nat" where
  "pending bh = card {b. pending_build bh b}"

lemma pending_buildD: "pending_build bh b \<Longrightarrow> b < length bh"
  by (auto simp: pending_build_def upgrade_def split: if_splits)

lemma finite_pending [simp]: "finite {b. pending_build bh b}"
  by (rule finite_subset [of _ "{..<length bh}"]) (auto dest: pending_buildD)

lemma pending_build_cell: "pending_build bh b \<longleftrightarrow> (\<exists>v. upgrade bh b = Some v \<and> \<not> finished_in_db v)"
  by (auto simp: pending_build_def split: option.splits)

lemma collect_builds_pending:
  "distinct acc \<Longrightarrow> (\<And>b. b \<in> set acc \<Longrightarrow> pending_build bh b) \<Longrightarrow>
   distinct (collect_builds bh ws acc) \<and> (\<forall>b \<in> set (collect_builds bh ws acc). pending_build bh b)"
proof (induction ws arbitrary: acc)
  case (Cons w ws)
  have eq: "collect_builds bh (w # ws) acc = collect_builds bh ws (if pending_build bh w then build_set_insert bh w acc else acc)"
    by (simp add: collect_builds_def pending_build_def split: option.splits)
  show ?case unfolding eq using Cons.prems by (intro Cons.IH) (auto simp: build_set_insert_def split: if_splits)
qed (simp add: collect_builds_def)

lemma dependents_loop_pending:
  "distinct acc \<Longrightarrow> (\<And>b. b \<in> set acc \<Longrightarrow> pending_build bh b) \<Longrightarrow> dependents_loop sh bh stack acc steps = (bs, ss) \<Longrightarrow>
   distinct bs \<and> (\<forall>b \<in> set bs. pending_build bh b)"
proof (induction sh bh stack acc steps rule: dependents_loop.induct)
  case (2 sh bh w stack builds steps)
  then show ?case
    using collect_builds_pending [OF "2.prems"(1,2)] by (auto split: option.splits if_splits)
qed auto

lemma get_dependents_pending:
  assumes "get_dependents sh bh step [] [] = (bs, ss)"
  shows "distinct bs" and "b \<in> set bs \<Longrightarrow> pending_build bh b"
  using dependents_loop_pending [of "[]" bh sh "[step]" "[]" bs ss] assms by (auto simp: get_dependents_def)

lemma pending_le: "pending bh \<le> length bh"
  unfolding pending_def using card_mono [of "{..<length bh}" "{b. pending_build bh b}"] by (auto dest: pending_buildD)

lemma pending_mono: "(\<And>b. pending_build bh' b \<Longrightarrow> pending_build bh b) \<Longrightarrow> pending bh' \<le> pending bh"
  unfolding pending_def by (intro card_mono) auto

lemma pending_finish:
  assumes "distinct bs" and "\<And>b. b \<in> set bs \<Longrightarrow> pending_build bh b"
    and "\<And>b. pending_build bh' b \<Longrightarrow> pending_build bh b \<and> b \<notin> set bs"
  shows "pending bh' + length bs \<le> pending bh"
proof -
  have "card ({b. pending_build bh' b} \<union> set bs) \<le> card {b. pending_build bh b}"
    using assms by (intro card_mono) auto
  moreover have "{b. pending_build bh' b} \<inter> set bs = {}" using assms(3) by auto
  ultimately show ?thesis
    using assms(1) by (simp add: pending_def card_Un_disjoint distinct_card)
qed

subsection \<open>Transactions and their errors\<close>

lemma ends_transaction:
  assumes body: "ends body (\<lambda>e _. E e) (\<lambda>a w'. \<not> tx_failed w' \<and> P a (db w')) (w\<lparr>tick := tick w + 1, tx_failed := False\<rparr>)"
    and faults: "\<And>n e. e_fault env n = Some e \<Longrightarrow> E e"
    and only: "db_only body"
  shows "ends (transaction env body)
    (\<lambda>e w'. io_state.more w' = io_state.more w \<and> (tx_failed w' \<longrightarrow> tx_failed w) \<and> E e \<and> db w' = db w)
    (\<lambda>a w'. io_state.more w' = io_state.more w \<and> (tx_failed w' \<longrightarrow> tx_failed w) \<and> P a (db w')) w"
proof (cases "e_fault env (tick w)")
  case None
  obtain r w1 where run: "body (w\<lparr>tick := tick w + 1, tx_failed := False\<rparr>) = (r, w1)" by fastforce
  have more: "io_state.more w1 = io_state.more w" using db_onlyD [OF only run] by simp
  show ?thesis
    using body None run more
    by (cases r) (auto simp: ends_def wp_transaction wp_commit wp_def [of body] faults split: option.splits)
qed (simp add: ends_def wp_transaction faults)

text \<open>Numbers of build steps far enough below the largest one for \<open>k\<close> further steps.\<close>

definition nrs_below :: "nat \<Rightarrow> build_step_row list \<Rightarrow> bool" where
  "nrs_below k rows \<longleftrightarrow> int k < 2 ^ 31 - 2 \<and>
     (\<forall>q \<in> set rows. - (2 ^ 31) \<le> rs_stepnr q \<and> rs_stepnr q < 2 ^ 31 - 1 - int k)"

lemma nrs_below_le: "nrs_below k rows \<Longrightarrow> k' \<le> k \<Longrightarrow> nrs_below k' rows"
  by (force simp: nrs_below_def)

lemma next_step_nr_below:
  assumes "nrs_below (Suc k) rows"
  shows "- (2 ^ 31) \<le> next_step_nr i rows \<and> next_step_nr i rows < 2 ^ 31 - 1 - int k"
proof (cases "filter (\<lambda>r. rs_build r = i) rows = []")
  case True
  then show ?thesis using assms by (simp add: next_step_nr_def sql_max_def nrs_below_def)
next
  case False
  let ?nrs = "set (map rs_stepnr (filter (\<lambda>r. rs_build r = i) rows))"
  have "Max ?nrs \<in> ?nrs" using False by (intro Max_in) (auto simp: filter_empty_conv)
  then obtain q where "q \<in> set rows" and q: "Max ?nrs = rs_stepnr q" by auto
  then have range: "- (2 ^ 31) \<le> Max ?nrs \<and> Max ?nrs < 2 ^ 31 - 1 - int (Suc k)"
    using assms unfolding nrs_below_def q by blast
  then have "next_step_nr i rows = Max ?nrs + 1"
    using False by (simp add: next_step_nr_def sql_max_def)
  with range show ?thesis by simp
qed

lemma ends_create_build_step:
  assumes "keyed_steps env" and "nrs_below (Suc k) (t_buildsteps (db w))" and "\<not> tx_failed w"
    and "\<And>n e. e_fault env n = Some e \<Longrightarrow> E e"
  shows "ends (create_build_step env start i p pf m st er pr outs) (\<lambda>e _. E e)
    (\<lambda>_ w'. \<not> tx_failed w' \<and> nrs_below k (t_buildsteps (db w')) \<and> t_builds (db w') = t_builds (db w)) w"
proof -
  have range: "nrs_in_range i (t_buildsteps (db w))"
    using assms(2) by (auto simp: nrs_below_def nrs_in_range_def list_all_iff)
  have nr: "nrs_below k (t_buildsteps (db w) @ [row])" if "rs_stepnr row = next_step_nr i (t_buildsteps (db w))" for row
    using next_step_nr_below [OF assms(2), of i] that assms(2) by (force simp: nrs_below_def)
  show ?thesis
    unfolding create_build_step_def ends_def wp_bind
    by (rule wp_insert_step_loop [OF assms(1) range _ assms(3)])
      (use assms(3,4) in \<open>auto simp: step_key_def step_row_of_def insert_build_step_outputs_def notify_step_started_def
          notify_any_def stmt_simps intro!: nr split: option.splits\<close>)
qed

lemma ends_ask: "ends (ask f) E Q = (\<lambda>w. Q (f (tick w)) (w\<lparr>tick := tick w + 1\<rparr>))"
  by (simp add: ends_def wp_def ask_def fun_eq_iff)

lemma ends_db_only: "db_only m \<Longrightarrow> ends m (\<lambda>_ w'. io_state.more w' = io_state.more w) (\<lambda>_ w'. io_state.more w' = io_state.more w) w"
  using db_onlyD [of m w] by (auto simp: ends_def wp_def split: prod.splits sum.splits)

subsection \<open>A concrete world\<close>

text \<open>A world without faults, and a runner with one build of one step.\<close>

definition ex_world :: runner_env where
  "ex_world = db_env.extend ex_env
     \<lparr>e_clock = (\<lambda>t _. int t * 1000000000), e_uuid = (\<lambda>t. of_nat t), e_query_drv = (\<lambda>_ _. Inr None),
      e_is_valid_path = (\<lambda>_ _. True), e_missing_outputs = (\<lambda>_ os. os), e_missing_remote_outputs = (\<lambda>_ os. os),
      e_ensure_path = (\<lambda>_ _. Inr ()), e_try_resolve_drv = (\<lambda>_ _. None), e_write_ok = (\<lambda>_. True),
      e_path_nar_size = (\<lambda>_ _. None), e_closure_size = (\<lambda>_ _. 0), e_parse_nix_support = (\<lambda>_ _. Inl Store_Error),
      e_remote_store = (\<lambda>_ _. Inr False), e_total_ms = (\<lambda>_ _. None), e_total_secs = (\<lambda>_ _. None),
      e_powf = (\<lambda>x _. x), e_nan_sign = False, e_time_bounds = (-377705116800, 253402207200), e_nix_dir = ''/nix/store''\<rparr>"

definition ex_config :: prepared_app where
  "ex_config = \<lparr>hydra_data_dir = ''d'', hydra_log_dir = ''l'', lockfile = [], db_url = [], max_db_connections = 1,
     cfg_machine_sort_fn = SpeedFactorOnly, cfg_machine_free_fn = Static, cfg_step_sort_fn = Legacy,
     dispatch_trigger_timer = None, queue_trigger_timer = None, remote_store_addr = [], cfg_use_substitutes = False,
     roots_dir = [], max_retries = 2, retry_interval = Fin False 2, retry_backoff = Fin False 1,
     max_unsupported_time = 0, stop_queue_run_after = None, cfg_max_concurrent_downloads = 1,
     concurrent_upload_limit = 1, token_list = None, enable_fod_checker = False, cfg_use_presigned_uploads = False,
     cfg_forced_substituters = []\<rparr>"

definition ex_step :: step where
  "ex_step = (step_new ''a.drv'')\<lparr>sstate := step_state_new\<lparr>st_builds := [0]\<rparr>\<rparr>"

definition ex_queued :: build where
  "ex_queued = (build_new_debug ''a.drv'' 0 0)\<lparr>b_id := 7, toplevel := Some 0\<rparr>"

definition ex_runner :: state where
  "ex_runner = (state_new ex_config [] (uploader_start None) (ex_io\<lparr>db := ex_db\<lparr>t_builds := [ex_build_row 7, ex_build_row 8]\<rparr>\<rparr>))
     \<lparr>mem_steps := [Some ex_step], mem_builds := [Some ex_queued], r_builds := [(7, 0)], r_steps := [(''a.drv'', 0)]\<rparr>"

definition ex_job :: job where
  "ex_job = (job_new 1 7 ''a.drv'' None)\<lparr>job_result := (set_start_and_stop 5000000000 remote_build_new)\<lparr>rb_step_status := Failed\<rparr>\<rparr>"

end
