(* ===== verification/Runner_Fail.thy ===== *)
theory Runner_Fail
  imports Runner_Facts
begin

text \<open>
  What the handlers that end a job achieve. Failing a step always ends: every round of the loop in
  \<^verbatim>\<open>inner_fail_job\<close> marks at least one more build as finished. When it succeeds, no unfinished build
  depends on the step any more, exactly the rows of the failed builds are changed, and their numbers are
  announced. A failed step is tried again until the configured number of tries; a successful one
  finishes its builds and unblocks its dependents.
\<close>

subsection \<open>One round\<close>

definition row_failed :: "job \<Rightarrow> int list \<Rightarrow> build_row \<Rightarrow> build_row \<Rightarrow> bool" where
  "row_failed j ids r r' \<longleftrightarrow> r' = r \<or> (br_id r \<in> set ids \<and> br_finished r = 0 \<and>
     (\<exists>st start stop. (st = rb_step_status (job_result j) \<or> st = DepFailed) \<and>
        r' = failed_row st start stop (rb_step_status (job_result j) = CachedFailure) r))"

definition failed_rows :: "job \<Rightarrow> int list \<Rightarrow> build_row list \<Rightarrow> build_row list \<Rightarrow> bool" where
  "failed_rows j ids = list_all2 (row_failed j ids)"

definition rows_finished :: "int list \<Rightarrow> build_row list \<Rightarrow> bool" where
  "rows_finished ids rows \<longleftrightarrow> (\<forall>r \<in> set rows. br_id r \<in> set ids \<longrightarrow> br_finished r \<noteq> 0)"

lemma failed_row_simps [simp]: "br_id (failed_row st a z c r) = br_id r" "br_finished (failed_row st a z c r) = 1"
  by (simp_all add: failed_row_def)

lemma failed_rows_refl: "failed_rows j ids rows rows"
  by (simp add: failed_rows_def list.rel_refl row_failed_def)

lemma row_failed_trans: "row_failed j ids r r' \<Longrightarrow> row_failed j ids' r' r'' \<Longrightarrow> row_failed j (ids @ ids') r r''"
  by (auto simp: row_failed_def)

lemma failed_rows_trans:
  "failed_rows j ids rows rows' \<Longrightarrow> failed_rows j ids' rows' rows'' \<Longrightarrow> failed_rows j (ids @ ids') rows rows''"
  unfolding failed_rows_def by (rule list_all2_trans [OF row_failed_trans])

lemma failed_rows_finished:
  "failed_rows j ids' rows rows' \<Longrightarrow> rows_finished ids rows \<Longrightarrow> rows_finished ids rows'"
  unfolding failed_rows_def rows_finished_def
  by (induction rows rows' rule: list_all2_induct) (auto simp: row_failed_def)

lemma failed_rows_update:
  assumes "st = rb_step_status (job_result j) \<or> st = DepFailed"
  shows "failed_rows j [i] rows (update_where (\<lambda>r. br_id r = i \<and> br_finished r = 0)
    (failed_row st start stop (rb_step_status (job_result j) = CachedFailure)) rows)"
proof -
  have "row_failed j [i] r (if br_id r = i \<and> br_finished r = 0
      then failed_row st start stop (rb_step_status (job_result j) = CachedFailure) r else r)" for r
    using assms by (auto simp: row_failed_def)
  then show ?thesis by (simp add: failed_rows_def update_where_def list_all2_map2 list.rel_refl)
qed

lemma rows_finished_update:
  "rows_finished [i] (update_where (\<lambda>r. br_id r = i \<and> br_finished r = 0) (failed_row st start stop c) rows)"
  unfolding rows_finished_def update_where_def list.set_map
proof (intro ballI impI, elim imageE)
  fix r q assume r: "br_id r \<in> set [i]"
    and q: "r = (if br_id q = i \<and> br_finished q = 0 then failed_row st start stop c q else q)"
  show "br_finished r \<noteq> 0"
    using r unfolding q by (cases "br_id q = i \<and> br_finished q = 0") simp_all
qed

lemma rows_finished_append: "rows_finished (ids @ ids') rows \<longleftrightarrow> rows_finished ids rows \<and> rows_finished ids' rows"
  by (auto simp: rows_finished_def)

lemma ends_create_failed_steps:
  assumes "keyed_steps env" and "nrs_below (k + length bs) (t_buildsteps (db w))" and "\<not> tx_failed w"
    and "\<And>n e. e_fault env n = Some e \<Longrightarrow> E e"
  shows "ends (for_each (create_failed_step env m j step) bs) (\<lambda>e _. E e)
    (\<lambda>_ w'. \<not> tx_failed w' \<and> nrs_below k (t_buildsteps (db w')) \<and> t_builds (db w') = t_builds (db w)) w"
proof -
  let ?R = "\<lambda>n w'. \<not> tx_failed w' \<and> nrs_below (k + n) (t_buildsteps (db w')) \<and> t_builds (db w') = t_builds (db w)"
  have "ends (create_failed_step env m j step b) (\<lambda>e _. E e) (\<lambda>_. ?R n) w'" if R: "?R (Suc n) w'" for b n w'
  proof -
    have below: "nrs_below (Suc (k + n)) (t_buildsteps (db w'))" using R by simp
    then have skip: "?R n w'" using R by (auto intro: nrs_below_le)
    note one = ends_create_build_step [OF assms(1) below _ assms(4)]
    show ?thesis
      unfolding create_failed_step_def using R skip one by (simp add: Let_def)
  qed
  from ends_for_each [of ?R bs w "create_failed_step env m j step" "\<lambda>e _. E e", OF _ this] assms(2,3)
  show ?thesis by simp
qed

lemma ends_fail_builds:
  assumes "\<not> tx_failed w" and "\<And>n e. e_fault env n = Some e \<Longrightarrow> E e" and "E Int_Conversion"
    and "ids = map (\<lambda>b. b_id (the_build w b)) bs" and "\<And>b. b \<in> set bs \<Longrightarrow> pending_build (mem_builds w) b"
  shows "ends (for_each (fail_build env j step) bs) (\<lambda>e _. E e)
    (\<lambda>_ w'. \<not> tx_failed w' \<and> t_buildsteps (db w') = t_buildsteps (db w) \<and> rows_finished ids (t_builds (db w')) \<and>
       failed_rows j ids (t_builds (db w)) (t_builds (db w'))) w"
proof -
  let ?id = "\<lambda>b. b_id (the_build w b)"
  let ?R = "\<lambda>xs w'. io_state.more w' = io_state.more w \<and> \<not> tx_failed w' \<and> t_buildsteps (db w') = t_buildsteps (db w) \<and>
     rows_finished (map ?id xs) (t_builds (db w')) \<and> failed_rows j (map ?id xs) (t_builds (db w)) (t_builds (db w'))"
  have "ends (for_each (fail_build env j step) bs) (\<lambda>e _. E e) (\<lambda>_. ?R bs) w"
  proof (rule ends_for_each_list)
    show "?R [] w" using assms(1) by (simp add: rows_finished_def failed_rows_refl)
    fix xs b w1 assume b: "b \<in> set bs" and R: "?R xs w1"
    note same = same_more_fields [OF conjunct1 [OF R]]
    have pend: "\<not> finished_in_db (the_build w b)"
      using assms(5) [OF b] by (auto simp: pending_build_def deref_build_def split: option.splits)
    let ?upd = "\<lambda>st start stop c. update_where (\<lambda>r. br_id r = ?id b \<and> br_finished r = 0) (failed_row st start stop c) (t_builds (db w1))"
    have row: "rows_finished (map ?id xs @ [?id b]) (?upd st start stop c) \<and>
        failed_rows j (map ?id xs @ [?id b]) (t_builds (db w)) (?upd st start stop c)"
      if "st = rb_step_status (job_result j) \<or> st = DepFailed" and "c = (rb_step_status (job_result j) = CachedFailure)"
      for st start stop c
    proof -
      have fr: "failed_rows j [?id b] (t_builds (db w1)) (?upd st start stop c)"
        unfolding that(2) by (rule failed_rows_update [OF that(1)])
      have "rows_finished [?id b] (?upd st start stop c)" by (rule rows_finished_update)
      with failed_rows_finished [OF fr, of "map ?id xs"] failed_rows_trans [OF _ fr] R show ?thesis
        by (simp add: rows_finished_append)
    qed
    show "ends (fail_build env j step b) (\<lambda>e _. E e) (\<lambda>_. ?R (xs @ [b])) w1"
      unfolding fail_build_def update_build_after_failure_def execute_def
      using R pend assms(2,3) by (simp add: ends_sql same row split: option.splits)
  qed
  then show ?thesis unfolding assms(4) by (auto elim!: ends_mono)
qed

lemma ends_remember_failed_paths:
  assumes "\<not> tx_failed w" and "\<And>n e. e_fault env n = Some e \<Longrightarrow> E e"
  shows "ends (remember_failed_paths env j step) (\<lambda>e _. E e)
    (\<lambda>_ w'. \<not> tx_failed w' \<and> t_buildsteps (db w') = t_buildsteps (db w) \<and> t_builds (db w') = t_builds (db w)) w"
proof -
  let ?R = "\<lambda>_ w'. \<not> tx_failed w' \<and> t_buildsteps (db w') = t_buildsteps (db w) \<and> t_builds (db w') = t_builds (db w)"
  have all: "ends (for_each (\<lambda>o1. case out_path o1 of None \<Rightarrow> ok () | Some p \<Rightarrow> insert_failed_paths env (print_path env p)) os)
      (\<lambda>e _. E e) (\<lambda>_. ?R 0) w" for os
    by (rule ends_for_each) (use assms in \<open>auto simp: insert_failed_paths_def execute_def ends_sql split: option.splits\<close>)
  show ?thesis
  proof (cases "rb_step_status (job_result j) \<noteq> CachedFailure \<and> can_cache (job_result j)")
    case True
    show ?thesis unfolding remember_failed_paths_def if_P [OF True] ends_bind ends_basic by (rule all)
  next
    case False
    show ?thesis using assms(1) unfolding remember_failed_paths_def if_not_P [OF False] ends_basic by simp
  qed
qed

lemma ends_db_get:
  "(\<And>n e. e_fault env n = Some e \<Longrightarrow> E e (w\<lparr>tick := tick w + 1\<rparr>)) \<Longrightarrow> Q () (w\<lparr>tick := tick w + 1\<rparr>) \<Longrightarrow> ends (db_get env) E Q w"
  by (simp add: db_get_def execute_def ends_sql split: option.splits)

lemma ends_fail_round:
  assumes "keyed_steps env" and below: "nrs_below (k + length bs) (t_buildsteps (db w))"
    and faults: "\<And>n e. e_fault env n = Some e \<Longrightarrow> E e" and "E Int_Conversion"
    and ids: "ids = map (\<lambda>b. b_id (the_build w b)) bs" and pend: "\<And>b. b \<in> set bs \<Longrightarrow> pending_build (mem_builds w) b"
  shows "ends (fail_round env m j step bs) (\<lambda>e _. E e)
    (\<lambda>_ w'. io_state.more w' = io_state.more w \<and> nrs_below k (t_buildsteps (db w')) \<and>
       rows_finished ids (t_builds (db w')) \<and> failed_rows j ids (t_builds (db w)) (t_builds (db w'))) w"
proof -
  let ?body = "and_then (for_each (create_failed_step env m j step) bs)
       (and_then (for_each (fail_build env j step) bs) (remember_failed_paths env j step))"
  let ?P = "\<lambda>d. nrs_below k (t_buildsteps d) \<and> rows_finished ids (t_builds d) \<and> failed_rows j ids (t_builds (db w)) (t_builds d)"
  let ?w = "w\<lparr>tick := tick w + 1\<rparr>"
  let ?w2 = "?w\<lparr>tick := tick ?w + 1, tx_failed := False\<rparr>"
  have fail: "ends (and_then (for_each (fail_build env j step) bs) (remember_failed_paths env j step)) (\<lambda>e _. E e)
      (\<lambda>_ w'. \<not> tx_failed w' \<and> ?P (db w')) w1"
    if "io_state.more w1 = io_state.more ?w2" "\<not> tx_failed w1" "nrs_below k (t_buildsteps (db w1))" "t_builds (db w1) = t_builds (db w)" for w1 :: state
  proof -
    have mem: "mem_builds w1 = mem_builds w" using same_more_fields(5) [OF that(1)] by simp
    have "ends (for_each (fail_build env j step) bs) (\<lambda>e _. E e)
      (\<lambda>_ w'. \<not> tx_failed w' \<and> t_buildsteps (db w') = t_buildsteps (db w1) \<and> rows_finished ids (t_builds (db w')) \<and>
         failed_rows j ids (t_builds (db w1)) (t_builds (db w'))) w1"
      by (rule ends_fail_builds) (use that pend faults assms(4) ids mem in simp_all)
    then show ?thesis
      unfolding ends_and_then
    proof (rule ends_mono)
      fix a :: unit and w2 :: state
      assume w2: "\<not> tx_failed w2 \<and> t_buildsteps (db w2) = t_buildsteps (db w1) \<and> rows_finished ids (t_builds (db w2)) \<and>
         failed_rows j ids (t_builds (db w1)) (t_builds (db w2))"
      show "ends (remember_failed_paths env j step) (\<lambda>e _. E e) (\<lambda>_ w'. \<not> tx_failed w' \<and> ?P (db w')) w2"
        by (rule ends_mono [OF ends_remember_failed_paths [of w2 env E]]) (use w2 that faults in auto)
    qed
  qed
  have make: "ends (for_each (create_failed_step env m j step) bs) (\<lambda>e _. E e)
      (\<lambda>_ w'. \<not> tx_failed w' \<and> nrs_below k (t_buildsteps (db w')) \<and> t_builds (db w') = t_builds (db ?w2)) ?w2"
    by (rule ends_create_failed_steps [OF assms(1)]) (use below faults in simp_all)
  have only: "db_only (for_each (create_failed_step env m j step) bs)"
    unfolding create_failed_step_def by (intro db_only_rules)
  have body: "ends ?body (\<lambda>e _. E e) (\<lambda>_ w'. \<not> tx_failed w' \<and> ?P (db w')) ?w2"
    unfolding ends_and_then [of "for_each (create_failed_step env m j step) bs"]
    by (rule ends_mono [OF ends_conj [OF make ends_db_only [OF only]]]) (use fail in auto)
  have only2: "db_only ?body"
    unfolding create_failed_step_def fail_build_def remember_failed_paths_def by (intro db_only_rules)
  have "ends (transaction env ?body) (\<lambda>e _. E e) (\<lambda>_ w'. io_state.more w' = io_state.more w \<and> ?P (db w')) ?w"
    by (rule ends_mono [OF ends_transaction [where env = env and E = E, OF body _ only2]]) (use faults in auto)
  then show ?thesis
    unfolding fail_round_def ends_and_then [of "db_get env"] by (rule ends_db_get [rotated]) (rule faults)
qed

subsection \<open>The loop\<close>

definition finish_all :: "bref list \<Rightarrow> state \<Rightarrow> state" where
  "finish_all bs w = w\<lparr>mem_builds := fold (\<lambda>b bh. modify bh b (set_finished_in_db True)) bs (mem_builds w),
     r_builds := fold (\<lambda>b. hm_remove (b_id (the_build w b))) bs (r_builds w)\<rparr>"

lemma the_build_finish [simp]:
  "b_id (deref_build (modify bh c (set_finished_in_db v)) b) = b_id (deref_build bh b)"
  by (auto simp: deref_build_def set_finished_in_db_def split: option.splits)

lemma finish_in_memory_loop: "for_each finish_in_memory bs w = (Inr (), finish_all bs w)"
proof (induction bs arbitrary: w)
  case (Cons b bs)
  then show ?case
    by (simp add: finish_in_memory_def set_build_def remove_build_def update_st_def and_then_def bind_def finish_all_def
        remove_by_id_def)
qed (simp add: finish_all_def ok_def)

lemma ends_finish_in_memory: "ends (for_each finish_in_memory bs) E Q = (\<lambda>w. Q () (finish_all bs w))"
  by (simp add: ends_def wp_def finish_in_memory_loop fun_eq_iff)

lemma upgrade_fold_finish:
  "upgrade (fold (\<lambda>b bh. modify bh b (set_finished_in_db True)) bs bh) c =
     (if c \<in> set bs then map_option (set_finished_in_db True) (upgrade bh c) else upgrade bh c)"
proof (induction bs arbitrary: bh)
  case (Cons b bs)
  then show ?case by (cases "upgrade bh c") (auto simp: set_finished_in_db_def)
qed simp

lemma pending_finish_all:
  assumes "distinct bs" and "\<And>b. b \<in> set bs \<Longrightarrow> pending_build (mem_builds w) b"
  shows "pending (mem_builds (drop_unowned_in hs hb (finish_all bs w))) + length bs \<le> pending (mem_builds w)"
  by (rule pending_finish [OF assms])
    (auto simp: pending_build_cell upgrade_drop_builds finish_all_def upgrade_fold_finish set_finished_in_db_def split: if_splits)

lemma hm_get_removes:
  "hm_get (fold (\<lambda>b. hm_remove (f b)) bs reg) i = (if i \<in> f ` set bs then None else hm_get reg i)"
  by (induction bs arbitrary: reg) (auto simp: delete_conv)

lemma hm_get_finish_all:
  "hm_get (r_builds (drop_unowned_in hs hb (finish_all bs w))) i =
     (if i \<in> set (map (\<lambda>b. b_id (the_build w b)) bs) then None else hm_get (r_builds w) i)"
  by (simp add: finish_all_def hm_get_removes)

text \<open>
  The invariant of the loop, from the state \<open>w0\<close> it starts in: what the database and the registry say of
  the builds failed so far, and after the first round these include the builds found first.
\<close>

definition found :: "state \<Rightarrow> sref \<Rightarrow> bref list" where
  "found w step = fst (get_dependents (mem_steps w) (mem_builds w) step [] [])"

definition build_ids :: "state \<Rightarrow> bref list \<Rightarrow> int list" where
  "build_ids w bs = map (\<lambda>b. b_id (the_build w b)) bs"

definition builds_failed :: "state \<Rightarrow> job \<Rightarrow> int list \<Rightarrow> state \<Rightarrow> bool" where
  "builds_failed w0 j ids w \<longleftrightarrow> rows_finished ids (t_builds (db w)) \<and> failed_rows j ids (t_builds (db w0)) (t_builds (db w)) \<and>
     (\<forall>i. hm_get (r_builds w) i = (if i \<in> set ids then None else hm_get (r_builds w0) i))"

definition fail_inv :: "state \<Rightarrow> job \<Rightarrow> sref \<Rightarrow> int list \<times> bool \<Rightarrow> state \<Rightarrow> bool" where
  "fail_inv w0 j step = (\<lambda>(ids, step_finished) w.
     builds_failed w0 j ids w \<and> nrs_below (pending (mem_builds w)) (t_buildsteps (db w)) \<and>
     (if step_finished then set (build_ids w0 (found w0 step)) \<subseteq> set ids
      else mem_steps w = mem_steps w0 \<and> mem_builds w = mem_builds w0))"

definition fail_measure :: "int list \<times> bool \<Rightarrow> state \<Rightarrow> nat" where
  "fail_measure v w = 2 * pending (mem_builds w) + (if snd v then 0 else 1)"

lemma builds_failed_more:
  assumes "builds_failed w0 j ids w" and "failed_rows j ids' (t_builds (db w)) (t_builds (db w'))"
    and "rows_finished ids' (t_builds (db w'))"
    and "\<And>i. hm_get (r_builds w') i = (if i \<in> set ids' then None else hm_get (r_builds w) i)"
  shows "builds_failed w0 j (ids @ ids') w'"
  using assms unfolding builds_failed_def
  by (auto simp: rows_finished_append intro: failed_rows_trans failed_rows_finished)

lemma ends_fail_loop_body:
  assumes "keyed_steps env" and faults: "\<And>n e. e_fault env n = Some e \<Longrightarrow> E e" and "E Int_Conversion"
    and inv: "fail_inv w0 j step v w"
  shows "ends (fail_loop_body env held m j step v) (\<lambda>e _. E e) (\<lambda>r w'. case r of
       Inr ids \<Rightarrow> builds_failed w0 j ids w' \<and> found w' step = [] \<and> set (build_ids w0 (found w0 step)) \<subseteq> set ids
     | Inl v' \<Rightarrow> fail_inv w0 j step v' w' \<and> fail_measure v' w' < fail_measure v w) w"
proof -
  obtain ids step_finished where v: "v = (ids, step_finished)" by fastforce
  obtain bs ss where deps: "get_dependents (mem_steps w) (mem_builds w) step [] [] = (bs, ss)" by fastforce
  let ?w = "if bs = [] then w\<lparr>r_steps := fold (\<lambda>s. steps_remove (drv_path (the_step w s))) ss (r_steps w)\<rparr> else w"
  have look: "ends (get_all_indirect_builds step) F Q w = Q bs ?w" for F Q
    by (simp add: get_all_indirect_builds_def ends_def wp_def deps)
  show ?thesis
  proof (cases "bs = [] \<and> step_finished")
    case True
    with inv show ?thesis
      unfolding fail_loop_body_def v prod.case ends_bind look
      by (simp add: fail_inv_def builds_failed_def found_def deps)
  next
    case False
    define k where "k = pending (mem_builds w) - length bs"
    have mem: "mem_builds ?w = mem_builds w" "mem_steps ?w = mem_steps w" "db ?w = db w" "r_builds ?w = r_builds w" by auto
    note pend = get_dependents_pending [OF deps]
    have k: "pending (mem_builds w) = k + length bs"
      using pending_finish [OF pend(1) pend(2), of "[]"] by (simp add: k_def pending_build_cell upgrade_def)
    have round: "ends (fail_round env m j step bs) (\<lambda>e _. E e)
      (\<lambda>_ w'. io_state.more w' = io_state.more ?w \<and> nrs_below k (t_buildsteps (db w')) \<and>
       rows_finished (build_ids w bs) (t_builds (db w')) \<and> failed_rows j (build_ids w bs) (t_builds (db w)) (t_builds (db w'))) ?w"
      using inv ends_fail_round [OF assms(1), of k bs ?w E "build_ids w bs" m j step] faults assms(3) pend(2)
      unfolding mem by (simp add: fail_inv_def v k build_ids_def)
    have after: "fail_inv w0 j step (ids @ build_ids w2 bs, True) w3 \<and> fail_measure (ids @ build_ids w2 bs, True) w3 < fail_measure v w"
      if w2: "io_state.more w2 = io_state.more ?w" "nrs_below k (t_buildsteps (db w2))"
        "rows_finished (build_ids w bs) (t_builds (db w2))" "failed_rows j (build_ids w bs) (t_builds (db w)) (t_builds (db w2))"
        and w3: "w3 = drop_unowned_in (step # held) [] (finish_all bs w2)"
      for w2 w3 :: state
    proof -
      have same: "mem_builds w2 = mem_builds w" "r_builds w2 = r_builds w" "build_ids w2 bs = build_ids w bs"
        using same_more_fields [OF w2(1)] mem by (simp_all add: build_ids_def)
      have db: "db w3 = db w2" by (simp add: w3 finish_all_def)
      have reg: "hm_get (r_builds w3) i = (if i \<in> set (build_ids w bs) then None else hm_get (r_builds w) i)" for i
        unfolding w3 hm_get_finish_all same(2) using same(3) by (simp add: build_ids_def)
      have less: "pending (mem_builds w3) \<le> k"
        using pending_finish_all [of bs w2 "step # held" "[]"] pend k unfolding same w3 by simp
      have "builds_failed w0 j (ids @ build_ids w bs) w3"
        by (rule builds_failed_more [of _ _ _ w])
          (use inv w2 in \<open>simp_all add: fail_inv_def v db reg\<close>)
      moreover have "nrs_below (pending (mem_builds w3)) (t_buildsteps (db w3))"
        using w2(2) less unfolding db by (rule nrs_below_le)
      moreover have "set (build_ids w0 (found w0 step)) \<subseteq> set (ids @ build_ids w bs)"
        using inv deps by (auto simp: fail_inv_def v found_def build_ids_def split: if_splits)
      moreover have "fail_measure (ids @ build_ids w bs, True) w3 < fail_measure v w"
        using less k False by (cases bs) (auto simp: fail_measure_def v)
      ultimately show ?thesis unfolding same by (simp add: fail_inv_def)
    qed
    have "ends (fail_round env m j step bs) (\<lambda>e _. E e)
      (\<lambda>_ w2. fail_inv w0 j step (ids @ build_ids w2 bs, True) (drop_unowned_in (step # held) [] (finish_all bs w2)) \<and>
        fail_measure (ids @ build_ids w2 bs, True) (drop_unowned_in (step # held) [] (finish_all bs w2)) < fail_measure v w) ?w"
      using round by (rule ends_mono) (use after in auto)
    with False show ?thesis
      unfolding fail_loop_body_def v prod.case ends_bind look if_not_P [OF False] ends_and_then ends_basic ends_finish_in_memory
        drop_unowned_def sum.case by (simp add: build_ids_def)
  qed
qed

subsection \<open>Failing a step ends\<close>

text \<open>No question to the outside world stays unanswered.\<close>

definition world_answers :: "'e runner_env_scheme \<Rightarrow> bool" where
  "world_answers env \<longleftrightarrow> (\<forall>n. e_fault env n \<noteq> Some Diverges) \<and> (\<forall>n p. e_query_drv env n p \<noteq> Inl Diverges)"

lemma nrs_below_update:
  "nrs_below k rows \<Longrightarrow> (\<And>r. rs_stepnr (f r) = rs_stepnr r) \<Longrightarrow> nrs_below k (update_where c f rows)"
  by (auto simp: nrs_below_def update_where_def)

lemma ends_finish_outputs:
  assumes "world_answers env" and "\<not> tx_failed w"
  shows "ends (finish_outputs env i n) (\<lambda>e _. e \<noteq> Diverges)
    (\<lambda>_ w'. \<not> tx_failed w' \<and> t_builds (db w') = t_builds (db w) \<and> t_buildsteps (db w') = t_buildsteps (db w)) w"
proof -
  let ?R = "\<lambda>w'. \<not> tx_failed w' \<and> t_builds (db w') = t_builds (db w) \<and> t_buildsteps (db w') = t_buildsteps (db w)"
  have all: "ends (for_each (\<lambda>o1. case out_path o1 of None \<Rightarrow> ok ()
      | Some p \<Rightarrow> update_build_step_output env i n (out_name o1) (print_path env p)) os) (\<lambda>e _. e \<noteq> Diverges) (\<lambda>_. ?R) w1"
    if "?R w1" for os w1
    by (rule ends_for_each [of "\<lambda>_. ?R"])
      (use that assms in \<open>auto simp: update_build_step_output_def execute_def ends_sql world_answers_def split: option.splits\<close>)
  show ?thesis
    unfolding finish_outputs_def get_drv_path_from_build_step_def select_def
    using assms by (auto simp: ends_sql ends_ask world_answers_def intro!: all split: option.splits sum.splits)
qed

lemma ends_finish_build_step:
  assumes "world_answers env" and "nrs_below k (t_buildsteps (db w))"
  shows "ends (finish_build_step env i n res m) (\<lambda>e _. e \<noteq> Diverges)
    (\<lambda>_ w'. io_state.more w' = io_state.more w \<and> nrs_below k (t_buildsteps (db w')) \<and> t_builds (db w') = t_builds (db w)) w"
proof -
  let ?P = "\<lambda>d. nrs_below k (t_buildsteps d) \<and> t_builds d = t_builds (db w)"
  have faults: "e_fault env t = Some e \<Longrightarrow> e \<noteq> Diverges" for t e using assms(1) by (auto simp: world_answers_def)
  have outs: "ends (finish_outputs env i n) (\<lambda>e _. e \<noteq> Diverges) (\<lambda>_ w'. \<not> tx_failed w' \<and> ?P (db w')) w1"
    if "\<not> tx_failed w1" "?P (db w1)" for w1 :: state
    by (rule ends_mono [OF ends_finish_outputs [OF assms(1) that(1)]]) (use that(2) in auto)
  have nrs: "nrs_below k (update_where c (finished_step_row u) (t_buildsteps (db w)))" for c u
    by (rule nrs_below_update [OF assms(2)]) (simp add: finished_step_row_def)
  let ?body = "bind (of_option Int_Conversion (get_start_time_as_i32 res)) (\<lambda>start.
        bind (of_option Int_Conversion (get_stop_time_as_i32 res)) (\<lambda>stop.
        and_then (db_update_build_step_in_finish env
          \<lparr>uf_build_id = i, uf_step_nr = n, uf_status = rb_step_status res,
           uf_error_msg = error_msg res, uf_start_time = start, uf_stop_time = stop, uf_machine = m,
           uf_overhead = get_overhead res, uf_times_built = get_times_built res,
           uf_is_non_deterministic = get_is_non_deterministic res\<rparr>)
        (and_then (notify_step_finished env i n (log_file res))
        (if rb_step_status res = Success then finish_outputs env i n else ok ()))))"
  have "ends ?body (\<lambda>e _. e \<noteq> Diverges) (\<lambda>_ w'. \<not> tx_failed w' \<and> ?P (db w')) (w\<lparr>tick := tick w + 1, tick := tick w + 2, tx_failed := False\<rparr>)"
    by (auto simp: db_update_build_step_in_finish_def notify_step_finished_def notify_any_def execute_def ends_sql nrs
        dest: faults intro!: outs split: option.splits)
  moreover have "db_only ?body" unfolding finish_outputs_def by (intro db_only_rules)
  ultimately have "ends (transaction env ?body) (\<lambda>e _. e \<noteq> Diverges)
      (\<lambda>_ w'. io_state.more w' = io_state.more w \<and> ?P (db w')) (w\<lparr>tick := tick w + 1\<rparr>)"
    by (intro ends_mono [OF ends_transaction [where env = env and E = "\<lambda>e. e \<noteq> Diverges"]]) (auto dest: faults)
  then show ?thesis
    unfolding finish_build_step_def ends_and_then [of "db_get env"] by (rule ends_db_get [rotated]) (rule faults)
qed

lemma ends_announce:
  assumes "world_answers env"
  shows "ends (transaction env (notify_build_finished env i ids)) (\<lambda>e _. e \<noteq> Diverges)
    (\<lambda>_ w'. io_state.more w' = io_state.more w \<and> t_builds (db w') = t_builds (db w) \<and>
       last (notifications (db w')) = (''build_finished'', build_finished_payload i ids)) w"
proof -
  let ?P = "\<lambda>d. t_builds d = t_builds (db w) \<and> last (notifications d) = (''build_finished'', build_finished_payload i ids)"
  have faults: "e_fault env t = Some e \<Longrightarrow> e \<noteq> Diverges" for t e using assms by (auto simp: world_answers_def)
  have "ends (notify_build_finished env i ids) (\<lambda>e _. e \<noteq> Diverges) (\<lambda>_ w'. \<not> tx_failed w' \<and> ?P (db w'))
      (w\<lparr>tick := tick w + 1, tx_failed := False\<rparr>)"
    by (auto simp: notify_build_finished_def notify_any_def execute_def ends_sql dest: faults split: option.splits)
  moreover have "db_only (notify_build_finished env i ids)"
    unfolding notify_build_finished_def notify_any_def by (intro db_only_rules)
  ultimately show ?thesis
    by (intro ends_mono [OF ends_transaction [where env = env and E = "\<lambda>e. e \<noteq> Diverges"]]) (auto dest: faults)
qed

lemma builds_failed_stop: "builds_failed w0 (j\<lparr>job_result := set_stop_time_now t (job_result j)\<rparr>) = builds_failed w0 j"
proof -
  have "failed_rows (j\<lparr>job_result := set_stop_time_now t (job_result j)\<rparr>) = failed_rows j"
    by (intro ext) (simp add: failed_rows_def row_failed_def [abs_def] set_stop_time_now_def)
  then show ?thesis by (intro ext) (simp add: builds_failed_def)
qed

lemma builds_failed_same:
  "io_state.more w' = io_state.more w \<Longrightarrow> t_builds (db w') = t_builds (db w) \<Longrightarrow> builds_failed w0 j ids w' = builds_failed w0 j ids w"
  for w w' :: state
  using same_more_fields [of w' w] by (simp add: builds_failed_def)

lemma found_same: "io_state.more w' = io_state.more w \<Longrightarrow> found w' step = found w step" for w w' :: state
  using same_more_fields [of w' w] by (simp add: found_def)

lemma ends_inner_fail_job_from:
  assumes env: "world_answers env" "keyed_steps env"
    and "nrs_below (pending (mem_builds w)) (t_buildsteps (db w))"
  shows "ends (and_then (if job_step_nr j \<noteq> 0 then finish_build_step env (job_build_id j) (job_step_nr j) (job_result j) m else ok ())
     (bind (loop_from (fail_loop_body env held m j step) ([], False)) (\<lambda>ids.
      and_then (db_get env) (and_then (transaction env (notify_build_finished env (job_build_id j) ids)) trigger_dispatch))))
    (\<lambda>e _. e \<noteq> Diverges)
    (\<lambda>_ w'. \<exists>ids. builds_failed w j ids w' \<and> found w' step = [] \<and> set (build_ids w (found w step)) \<subseteq> set ids \<and>
       notify_dispatch w' \<and> last (notifications (db w')) = (''build_finished'', build_finished_payload (job_build_id j) ids)) w"
proof -
  let ?Q = "\<lambda>w'. \<exists>ids. builds_failed w j ids w' \<and> found w' step = [] \<and> set (build_ids w (found w step)) \<subseteq> set ids \<and>
       notify_dispatch w' \<and> last (notifications (db w')) = (''build_finished'', build_finished_payload (job_build_id j) ids)"
  have faults: "e_fault env t = Some e \<Longrightarrow> e \<noteq> Diverges" for t e using env(1) by (auto simp: world_answers_def)
  have written: "ends (if job_step_nr j \<noteq> 0 then finish_build_step env (job_build_id j) (job_step_nr j) (job_result j) m else ok ())
      (\<lambda>e _. e \<noteq> Diverges)
      (\<lambda>_ w'. io_state.more w' = io_state.more w \<and> nrs_below (pending (mem_builds w)) (t_buildsteps (db w')) \<and> t_builds (db w') = t_builds (db w)) w"
    using ends_finish_build_step [OF env(1) assms(3)] assms(3) by simp
  have start: "fail_inv w j step ([], False) w1"
    if "io_state.more w1 = io_state.more w" "nrs_below (pending (mem_builds w)) (t_buildsteps (db w1))" "t_builds (db w1) = t_builds (db w)"
    for w1 :: state
    using same_more_fields [OF that(1)] that(2,3)
    by (simp add: fail_inv_def builds_failed_def rows_finished_def failed_rows_refl)
  have announce: "ends (and_then (db_get env) (and_then (transaction env (notify_build_finished env (job_build_id j) ids)) trigger_dispatch))
      (\<lambda>e _. e \<noteq> Diverges) (\<lambda>_. ?Q) w2"
    if failed: "builds_failed w j ids w2 \<and> found w2 step = [] \<and> set (build_ids w (found w step)) \<subseteq> set ids" for ids and w2 :: state
  proof -
    let ?w2 = "w2\<lparr>tick := tick w2 + 1\<rparr>"
    have keep: "builds_failed w j ids (w3\<lparr>notify_dispatch := True\<rparr>) \<and> found (w3\<lparr>notify_dispatch := True\<rparr>) step = []"
      if "io_state.more w3 = io_state.more ?w2" "t_builds (db w3) = t_builds (db ?w2)" for w3 :: state
    proof -
      have more: "io_state.more w3 = io_state.more w2" and rows: "t_builds (db w3) = t_builds (db w2)" using that by simp_all
      have "builds_failed w j ids w3 \<and> found w3 step = []"
        unfolding builds_failed_same [OF more rows] found_same [OF more] using failed by simp
      then show ?thesis by (simp add: builds_failed_def found_def)
    qed
    show ?thesis
      unfolding ends_and_then trigger_dispatch_def ends_basic
      by (rule ends_db_get, erule faults, rule ends_mono [OF ends_announce [OF env(1), of "job_build_id j" ids ?w2]])
        (use failed keep in \<open>auto intro!: exI [of _ ids]\<close>)
  qed
  have loop: "ends (loop_from (fail_loop_body env held m j step) ([], False)) (\<lambda>e _. e \<noteq> Diverges)
      (\<lambda>ids w'. builds_failed w j ids w' \<and> found w' step = [] \<and> set (build_ids w (found w step)) \<subseteq> set ids) w1"
    if "fail_inv w j step ([], False) w1" for w1 :: state
    by (rule ends_loop_from [where I = "fail_inv w j step" and measure_of = fail_measure, OF that])
      (rule ends_mono [OF ends_fail_loop_body [OF env(2)]], use faults in \<open>auto split: sum.splits\<close>)
  show ?thesis
    unfolding ends_and_then [of "if _ then _ else _"] ends_bind
    by (rule ends_mono [OF written], assumption, elim conjE, rule ends_mono [OF loop [OF start]]) (auto intro: announce simp del: ends_and_then)
qed

lemma ends_inner_fail_job:
  assumes "world_answers env" and "keyed_steps env" and "nrs_below (pending (mem_builds w)) (t_buildsteps (db w))"
  shows "ends (inner_fail_job env held m j step) (\<lambda>e _. e \<noteq> Diverges)
    (\<lambda>_ w'. \<exists>ids. builds_failed w j ids w' \<and> found w' step = [] \<and> set (build_ids w (found w step)) \<subseteq> set ids \<and>
       notify_dispatch w' \<and> last (notifications (db w')) = (''build_finished'', build_finished_payload (job_build_id j) ids)) w"
proof (cases "has_stop_time (job_result j)")
  case True
  show ?thesis
    unfolding inner_fail_job_def if_P [OF True] ends_bind [of "ok j"] ends_basic by (rule ends_inner_fail_job_from [OF assms(1-3)])
next
  case False
  let ?w = "w\<lparr>tick := tick w + 1\<rparr>"
  let ?j = "j\<lparr>job_result := set_stop_time_now (e_now env (tick w)) (job_result j)\<rparr>"
  have same: "builds_failed ?w ?j = builds_failed w j" "found ?w = found w" "build_ids ?w = build_ids w"
    by (auto simp: builds_failed_stop builds_failed_def found_def build_ids_def fun_eq_iff)
  have nr: "job_build_id ?j = job_build_id j" by simp
  have "nrs_below (pending (mem_builds ?w)) (t_buildsteps (db ?w))" using assms(3) by simp
  from ends_inner_fail_job_from [OF assms(1,2) this, of ?j m held step] show ?thesis
    unfolding inner_fail_job_def if_not_P [OF False] ends_bind [of "bind _ _"] ends_bind [of "ask _"] ends_ask ends_basic same nr .
qed

text \<open>
  C1: \<^verbatim>\<open>inner_fail_job\<close> always ends, with any errors of the database in between. When it succeeds, no
  unfinished build depends on the step any more; the builds it failed (\<open>ids\<close>) include every build that
  depended on the step, exactly their unfinished rows were changed, all to failed ones, they left the
  registry and no other build did, the dispatcher is woken, and the last notification names them all.
\<close>

theorem inner_fail_job_complete:
  assumes "world_answers env" and "keyed_steps env"
    and "nrs_below (pending (mem_builds w)) (t_buildsteps (db w))"
    and run: "inner_fail_job env held m j step w = (r, w')"
  shows "r \<noteq> Inl Diverges \<and> (r = Inr () \<longrightarrow> (\<exists>ids. builds_failed w j ids w' \<and> found w' step = [] \<and>
     set (build_ids w (found w step)) \<subseteq> set ids \<and> notify_dispatch w' \<and>
     last (notifications (db w')) = (''build_finished'', build_finished_payload (job_build_id j) ids)))"
proof -
  from ends_run [OF ends_inner_fail_job [OF assms(1-3)] run] show ?thesis by (cases r) auto
qed

lemma ex_world_answers: "world_answers ex_world" and ex_world_keyed: "keyed_steps ex_world"
  by (simp_all add: world_answers_def keyed_steps_def ex_world_def ex_env_def db_env.defs)

lemma ex_runner_below: "nrs_below (pending (mem_builds ex_runner)) (t_buildsteps (db ex_runner))"
  using pending_le [of "mem_builds ex_runner"] by (simp add: nrs_below_def ex_runner_def state_new_def ex_io_def ex_db_def)

theorem inner_fail_job_complete_witness:
  "\<exists>w' ids. inner_fail_job ex_world [] None ex_job 0 ex_runner = (Inr (), w') \<and> 7 \<in> set ids \<and>
     builds_failed ex_runner ex_job ids w' \<and> hm_get (r_builds w') 7 = None"
proof -
  obtain r w' where run: "inner_fail_job ex_world [] None ex_job 0 ex_runner = (r, w')" by fastforce
  have "fst (inner_fail_job ex_world [] None ex_job 0 ex_runner) = Inr ()" by code_simp
  with run have r: "r = Inr ()" by simp
  have below: "nrs_below (pending (mem_builds ex_runner)) (t_buildsteps (db ex_runner))" by (rule ex_runner_below)
  have "build_ids ex_runner (found ex_runner 0) = [7]" by code_simp
  with inner_fail_job_complete [OF ex_world_answers ex_world_keyed below run] r run show ?thesis
    by (auto simp: builds_failed_def)
qed

end
