(* ===== verification/Runner_Keeps.thy ===== *)
theory Runner_Keeps
  imports Runner_Facts
begin

text \<open>
  What handlers keep of the database: \<open>in_db P\<close> says that the tables satisfy \<open>P\<close>. A transaction keeps it
  when its statements do, for a rollback restores tables that satisfied it.
\<close>

named_theorems db_rules \<open>handlers that keep a property of the tables\<close>

definition in_db :: "(database \<Rightarrow> bool) \<Rightarrow> 's io_state_scheme \<Rightarrow> bool" where
  "in_db P w \<longleftrightarrow> P (db w)"

lemma wp_and_then_keeps: "wp m (\<lambda>_. I) w \<Longrightarrow> keeps I k \<Longrightarrow> wp (and_then m k) (\<lambda>_. I) w"
  unfolding wp_and_then by (erule wp_mono) (auto simp: keeps_iff_wp split: sum.splits)

lemma keeps_in_db:
  assumes "\<And>d. P d \<Longrightarrow> P (snd (f d))"
  shows "keeps (in_db (P)) (sql env f)" "keeps (in_db (P)) (tx_sql env f)"
  using assms by (auto simp: keeps_iff_wp wp_sql wp_tx_sql in_db_def split: option.splits)

lemma keeps_in_db_frame [db_rules]:
  "keeps (in_db (P)) (now_io env)" "keeps (in_db (P)) (ask g)" "keeps (in_db (P)) (sql env (select h))"
  "keeps (in_db (P)) (tx_sql env (select h))" "keeps (in_db (P)) (db_get env)"
  unfolding db_get_def select_def execute_def
  by (rule keeps_in_db | simp add: keeps_def now_io_def ask_def in_db_def)+

lemma keeps_in_db_transaction [db_rules]:
  assumes "keeps (in_db (P)) body"
  shows "keeps (in_db (P)) (transaction env body)"
proof -
  have "wp (transaction env body) (\<lambda>_. in_db (P)) w" if "in_db (P) w" for w
  proof -
    obtain r w' where run: "body (w\<lparr>tick := tick w + 1, tx_failed := False\<rparr>) = (r, w')" by fastforce
    have "in_db (P) w'" by (rule keepsD [OF assms _ run]) (use that in \<open>simp add: in_db_def\<close>)
    with that run show ?thesis
      by (cases r) (auto simp: wp_transaction wp_commit wp_def [of body] in_db_def split: option.splits)
  qed
  then show ?thesis by (simp add: keeps_iff_wp)
qed

lemma keeps_in_db_update [db_rules]: "(\<And>w. db (f w) = db w) \<Longrightarrow> keeps (in_db (P)) (update_st f)"
  by (rule keeps_update) (simp add: in_db_def)

lemmas [db_rules] = keeps_bind keeps_and_then keeps_basic keeps_attempt keeps_ignore_err keeps_for_each keeps_if
  keeps_case_option keeps_loop_from keeps_loop_io

lemma keeps_cases [db_rules]:
  "(\<And>a b. p = (a, b) \<Longrightarrow> keeps I (k a b)) \<Longrightarrow> keeps I (case p of (a, b) \<Rightarrow> k a b)"
  "(\<And>a. s = Inl a \<Longrightarrow> keeps I (f a)) \<Longrightarrow> (\<And>b. s = Inr b \<Longrightarrow> keeps I (g b)) \<Longrightarrow> keeps I (case s of Inl a \<Rightarrow> f a | Inr b \<Rightarrow> g b)"
  by (simp_all split: prod.splits sum.splits)

lemma keepsI: "keeps I m \<Longrightarrow> I w \<Longrightarrow> I (snd (m w))"
  by (simp add: keeps_def)

text \<open>What every call of the processor keeps is kept by a pass over the queues.\<close>

lemma process_keeps:
  assumes "\<And>w q c. I w \<Longrightarrow> I (fst (proc w q c))" and "I w"
  shows "I (fst (fst (process steps_of proc now w q)))"
proof -
  have one: "fst (fst (process_job steps_of proc now s b j ((v, q), aw, nw, nd))) = v \<or>
      (\<exists>c. fst (fst (process_job steps_of proc now s b j ((v, q), aw, nw, nd))) = fst (proc v q c))" for s b j v q aw nw nd
    by (auto simp: process_job_def Let_def split_beta split: option.splits)
  have job: "I (fst (fst (process_job steps_of proc now s b j x)))" if "I (fst (fst x))" for s b j x
  proof -
    obtain v q aw nw nd where x: "x = ((v, q), aw, nw, nd)" by (metis prod.exhaust)
    from one [of s b j v q aw nw nd] that assms(1) show ?thesis unfolding x fst_conv by auto
  qed
  have jobs: "I (fst (fst (fold (process_job steps_of proc now s b) js x)))" if "I (fst (fst x))" for s b js x
    using that by (induction js arbitrary: x) (simp_all add: job)
  have queue: "I (fst (fst (process_queue steps_of proc now e x)))" if "I (fst (fst x))" for e x
    using that jobs by (cases x; cases e) (auto simp: process_queue_def split_beta split: option.splits)
  have "I (fst (fst (fold (process_queue steps_of proc now) es x)))" if "I (fst (fst x))" for es x
    using that by (induction es arbitrary: x) (simp_all add: queue)
  then show ?thesis unfolding process_def using assms(2) by simp
qed

end
