(* ===== verification/Runner_Report.thy ===== *)
theory Runner_Report
  imports Runner_Fail Runner_Keeps
begin

text \<open>
  What the two reports of a builder achieve. A failed step is tried again, later and with the builds
  untouched, until the configured number of tries; then its dependent builds fail. A step that succeeded
  finishes the builds it is the top level of and unblocks the steps that wait for it.
\<close>

subsection \<open>Parts of a report\<close>

lemma ends_scope: "ends (scope m) E Q = ends m (\<lambda>e w. E e (leave_handler w)) (\<lambda>a w. Q a (leave_handler w))"
  by (auto simp: ends_def wp_def scope_def fun_eq_iff split: prod.splits sum.splits)

lemma ends_unschedule:
  assumes "hm_get (q_scheduled (r_queues w)) p = Some item" and "upgrade (q_infos (r_queues w)) (it_step_info item) = Some i"
  shows "ends (unschedule p) E Q w = Q (item, si_step i) (w\<lparr>r_queues := fst (remove_job_from_scheduled p (r_queues w))\<rparr>)"
  using assms by (simp add: ends_def wp_def unschedule_def remove_job_from_scheduled_def set_already_scheduled_def)

lemma ends_take_job:
  assumes "upgrade (mem_machines w) m = Some v"
  shows "ends (take_job env m p) E Q w =
    Q (snd (remove_job (as_second (e_now env (tick w))) p v))
      (w\<lparr>tick := tick w + 1, mem_machines := modify (mem_machines w) m (\<lambda>_. fst (remove_job (as_second (e_now env (tick w))) p v))\<rparr>)"
  using assms by (simp add: take_job_def ends_ask) (simp add: ends_def wp_def Let_def split: prod.splits)

lemma finish_build_step_builds: "finish_build_step env i n res m w = (r, w') \<Longrightarrow> t_builds (db w') = t_builds (db w)"
proof -
  assume run: "finish_build_step env i n res m w = (r, w')"
  have "keeps (in_db (\<lambda>d. t_builds d = t_builds (db w))) (finish_build_step env i n res m)"
    unfolding finish_build_step_def finish_outputs_def db_update_build_step_in_finish_def notify_step_finished_def notify_any_def
      get_drv_path_from_build_step_def update_build_step_output_def execute_def
    by (intro db_rules keeps_in_db) simp_all
  from keepsD [OF this _ run] show ?thesis by (simp add: in_db_def)
qed

lemma ends_finish_build_step_any:
  "ends (finish_build_step env i n res m) (\<lambda>_ _. True)
     (\<lambda>_ w'. io_state.more w' = io_state.more w \<and> t_builds (db w') = t_builds (db w)) w"
  using finish_build_step_builds db_onlyD [OF db_only_finish_build_step]
  by (auto simp: ends_def wp_def split: prod.splits sum.splits)

lemma leave_handler_simps:
  "db (leave_handler w) = db w" "r_builds (leave_handler w) = r_builds w" "notify_dispatch (leave_handler w) = notify_dispatch w"
  "q_jobs (r_queues (leave_handler w)) = q_jobs (r_queues w)" "q_scheduled (r_queues (leave_handler w)) = q_scheduled (r_queues w)"
  by (simp_all add: leave_handler_def)

lemma modify_modify: "modify (modify h a f) a g = modify h a (g \<circ> f)"
  by (rule arena_eqI) (auto simp: option.map_comp)

text \<open>The end of a handler keeps the step of a queued job.\<close>

lemma leave_handler_keeps:
  assumes "queues_ok (mem_steps w) (r_queues w)" and "upgrade (q_infos (r_queues w)) x = Some i"
  shows "r_queues (leave_handler w) = r_queues w" and "upgrade (mem_steps (leave_handler w)) (si_step i) = upgrade (mem_steps w) (si_step i)"
    and "r_builds (leave_handler w) = r_builds w" and "db (leave_handler w) = db w"
    and "notify_dispatch (leave_handler w) = notify_dispatch w"
proof -
  have q: "collect [] (r_queues w) = r_queues w" by (rule collect_same [OF assms(1)])
  then have eq: "leave_handler w = drop_unowned_in [] [] w" by (simp add: leave_handler_def)
  show "r_queues (leave_handler w) = r_queues w" "r_builds (leave_handler w) = r_builds w" "db (leave_handler w) = db w"
    "notify_dispatch (leave_handler w) = notify_dispatch w"
    by (simp_all add: eq)
  have "i \<in> set (live_objects (q_infos (r_queues w)))" using assms(2) by (auto simp: in_live_objects)
  then have "si_step i \<in> set ([] @ step_roots (w\<lparr>mem_builds := drop_builds ([] @ build_roots w) (mem_builds w)\<rparr>))"
    by (simp add: step_roots_def)
  then show "upgrade (mem_steps (leave_handler w)) (si_step i) = upgrade (mem_steps w) (si_step i)"
    unfolding eq mem_steps_drop_unowned by (rule drop_steps_root)
qed

subsection \<open>Trying again\<close>

lemma ends_retry_later:
  "ends (retry_later env item r j c n) (\<lambda>_ _. True) (\<lambda>_ w'. \<exists>t.
     mem_steps w' = modify (mem_steps w) r (set_after (e_now env t + retry_delta env c n * 1000000000)) \<and>
     r_queues w' = (r_queues w)\<lparr>q_infos := modify (q_infos (r_queues w)) (it_step_info item) (set_already_scheduled False)\<rparr> \<and>
     r_builds w' = r_builds w \<and> t_builds (db w') = t_builds (db w) \<and> notify_dispatch w') w"
proof -
  let ?t = "e_now env (tick w) + retry_delta env c n * 1000000000"
  let ?w = "w\<lparr>tick := tick w + 1, mem_steps := modify (mem_steps w) r (set_after ?t),
      r_queues := (r_queues w)\<lparr>q_infos := modify (q_infos (r_queues w)) (it_step_info item) (set_already_scheduled False)\<rparr>\<rparr>"
  have fin: "ends (finish_build_step env (job_build_id j) (job_step_nr j) (job_result j) (Some host)) (\<lambda>_ _. True)
     (\<lambda>_ w'. io_state.more w' = io_state.more ?w \<and> t_builds (db w') = t_builds (db w)) ?w" for host
    by (rule ends_mono [OF ends_finish_build_step_any]) simp_all
  have "ends (finish_build_step env (job_build_id j) (job_step_nr j) (job_result j) (Some host)) (\<lambda>_ _. True)
     (\<lambda>_ w'. \<exists>t. mem_steps w' = modify (mem_steps w) r (set_after (e_now env t + retry_delta env c n * 1000000000)) \<and>
       r_queues w' = r_queues ?w \<and> r_builds w' = r_builds w \<and> t_builds (db w') = t_builds (db w)) ?w" for host
    using fin
  proof (rule ends_mono)
    fix a :: unit and w'
    assume w': "io_state.more w' = io_state.more ?w \<and> t_builds (db w') = t_builds (db w)"
    note same = same_more_fields(4,9,12) [OF conjunct1 [OF w']]
    show "\<exists>t. mem_steps w' = modify (mem_steps w) r (set_after (e_now env t + retry_delta env c n * 1000000000)) \<and>
       r_queues w' = r_queues ?w \<and> r_builds w' = r_builds w \<and> t_builds (db w') = t_builds (db w)"
      unfolding same using w' by (intro exI [of _ "tick w"]) simp
  qed
  then show ?thesis
    unfolding retry_later_def set_step_def set_info_def trigger_dispatch_def
    by (simp add: ends_ask add_duration_def)
qed

text \<open>The state once the entry and the job are taken away.\<close>

definition report_taken :: "store_path \<Rightarrow> sref \<Rightarrow> state \<Rightarrow> state \<Rightarrow> bool" where
  "report_taken p r w w1 \<longleftrightarrow>
     r_queues w1 = fst (remove_job_from_scheduled p (r_queues w)) \<and>
     mem_steps w1 = modify (mem_steps w) r (set_finished False) \<and> mem_builds w1 = mem_builds w \<and>
     r_builds w1 = r_builds w \<and> db w1 = db w \<and> config w1 = config w"

lemma ends_fail_step:
  assumes sched: "hm_get (q_scheduled (r_queues w)) p = Some item" and info: "upgrade (q_infos (r_queues w)) (it_step_info item) = Some i"
    and rest: "\<And>w1 job0 res t. report_taken p (si_step i) w w1 \<Longrightarrow> failed_result result timings (e_now env t) (job_result job0) = Inr res \<Longrightarrow>
      ends (after_failure env item (si_step i) (job0\<lparr>job_result := res\<rparr>)) (\<lambda>_ _. True) (\<lambda>_ w'. Q (leave_handler w')) w1"
  shows "ends (fail_step env p result timings) (\<lambda>_ _. True) (\<lambda>_. Q) w"
proof -
  let ?w1 = "w\<lparr>r_queues := fst (remove_job_from_scheduled p (r_queues w)), mem_steps := modify (mem_steps w) (si_step i) (set_finished False)\<rparr>"
  have decide: "ends (after_failure env item (si_step i) (job0\<lparr>job_result := res\<rparr>)) (\<lambda>_ _. True) (\<lambda>_ w'. Q (leave_handler w')) w1"
    if "failed_result result timings (e_now env t) (job_result job0) = Inr res" "\<exists>k mh. w1 = ?w1\<lparr>tick := k, mem_machines := mh\<rparr>" for job0 res w1 t
    by (rule rest [OF _ that(1)]) (use that(2) in \<open>auto simp: report_taken_def\<close>)
  show ?thesis
  proof (cases "upgrade (mem_machines w) (it_machine item)")
    case None
    then show ?thesis
      unfolding fail_step_def ends_scope ends_bind [of "unschedule p"] ends_unschedule [OF sched info] prod.case
      by (simp add: set_step_def take_job_def ends_ask) (simp add: ends_def wp_def)
  next
    case (Some v)
    then show ?thesis
      unfolding fail_step_def ends_scope ends_bind [of "unschedule p"] ends_unschedule [OF sched info] prod.case Let_def
      by (auto simp: set_step_def ends_take_job [where v = v] ends_ask set_machine_def split: option.splits sum.splits intro!: decide)
  qed
qed

lemma failed_result_retry:
  "failed_result result timings now r0 = Inr res \<Longrightarrow> result \<noteq> BuildFailure \<Longrightarrow> result \<noteq> RSuccess \<Longrightarrow> can_retry res"
  by (cases result) (auto simp: failed_result_def set_overhead_def set_stop_time_now_def split: option.splits)

lemma modify_flag_twice:
  "modify (modify ih x (set_already_scheduled v)) x (set_already_scheduled v) = modify ih x (set_already_scheduled v)"
  by (rule arena_eqI) (auto simp: option.map_comp comp_def set_already_scheduled_def [abs_def])

text \<open>
  C3: a step that failed for another reason than its build, and has tries left, is tried again: it keeps its
  place in the queue and is no longer scheduled, its counter of tries grows by one, it is not finished,
  not dispatched before the configured delay, and neither the rows nor the registry of builds change.
\<close>

theorem fail_step_retries:
  assumes ok: "queues_ok (mem_steps w) (r_queues w)"
    and sched: "hm_get (q_scheduled (r_queues w)) p = Some item"
    and info: "upgrade (q_infos (r_queues w)) (it_step_info item) = Some i" and live: "upgrade (mem_steps w) (si_step i) = Some s"
    and "result \<noteq> BuildFailure" and "result \<noteq> RSuccess" and left: "tries (atomic_state s) + 1 < max_retries (config w)"
    and run: "fail_step env p result timings w = (Inr (), w')"
  shows "hm_get (q_jobs (r_queues w')) p = Some (it_step_info item) \<and> hm_get (q_scheduled (r_queues w')) p = None \<and>
    (\<exists>s' t. upgrade (mem_steps w') (si_step i) = Some s' \<and> tries (atomic_state s') = tries (atomic_state s) + 1 \<and> \<not> finished s' \<and>
       after (atomic_state s') = e_now env t + retry_delta env (config w) (tries (atomic_state s) + 1) * 1000000000) \<and>
    t_builds (db w') = t_builds (db w) \<and> r_builds w' = r_builds w \<and> notify_dispatch w'"
proof -
  let ?n = "tries (atomic_state s) + 1" and ?q = "fst (remove_job_from_scheduled p (r_queues w))"
  let ?Q = "\<lambda>w'. hm_get (q_jobs (r_queues w')) p = Some (it_step_info item) \<and> hm_get (q_scheduled (r_queues w')) p = None \<and>
    (\<exists>s' t. upgrade (mem_steps w') (si_step i) = Some s' \<and> tries (atomic_state s') = ?n \<and> \<not> finished s' \<and>
       after (atomic_state s') = e_now env t + retry_delta env (config w) ?n * 1000000000) \<and>
    t_builds (db w') = t_builds (db w) \<and> r_builds w' = r_builds w \<and> notify_dispatch w'"
  have q_ok: "queues_ok (mem_steps w) ?q" by (rule queues_ok_unschedule [OF ok prod.collapse [symmetric]])
  have q_flag: "?q\<lparr>q_infos := modify (q_infos ?q) (it_step_info item) (set_already_scheduled False)\<rparr> = ?q"
    and q_jobs: "hm_get (q_jobs ?q) p = Some (it_step_info item)" and q_sched: "hm_get (q_scheduled ?q) p = None"
    and q_info: "upgrade (q_infos ?q) (it_step_info item) = Some (set_already_scheduled False i)"
    using sched info queues_okD(3) [OF ok sched]
    by (simp_all add: remove_job_from_scheduled_def modify_flag_twice delete_conv)
  have "ends (after_failure env item (si_step i) (job0\<lparr>job_result := res\<rparr>)) (\<lambda>_ _. True) (\<lambda>_ w2. ?Q (leave_handler w2)) w1"
    if w1: "report_taken p (si_step i) w w1" and res: "failed_result result timings (e_now env t) (job_result job0) = Inr res"
    for w1 job0 res t
  proof -
    let ?w = "w1\<lparr>mem_steps := modify (mem_steps w1) (si_step i) incr_tries\<rparr>"
    have retry: "can_retry res" by (rule failed_result_retry [OF res assms(5,6)])
    have n: "tries (atomic_state (the_step ?w (si_step i))) = ?n"
      using w1 live by (simp add: report_taken_def deref_def incr_tries_def set_finished_def)
    have final: "?Q (leave_handler w2)"
      if "\<exists>t. mem_steps w2 = modify (mem_steps ?w) (si_step i) (set_after (e_now env t + retry_delta env (config w) ?n * 1000000000)) \<and>
        r_queues w2 = (r_queues ?w)\<lparr>q_infos := modify (q_infos (r_queues ?w)) (it_step_info item) (set_already_scheduled False)\<rparr> \<and>
        r_builds w2 = r_builds ?w \<and> t_builds (db w2) = t_builds (db ?w) \<and> notify_dispatch w2" for w2
    proof -
      from that obtain t where steps: "mem_steps w2 = modify (mem_steps ?w) (si_step i) (set_after (e_now env t + retry_delta env (config w) ?n * 1000000000))"
        and q: "r_queues w2 = ?q" and b: "r_builds w2 = r_builds w" "t_builds (db w2) = t_builds (db w)" "notify_dispatch w2"
        using w1 q_flag by (auto simp: report_taken_def)
      have path: "drv_path (deref (mem_steps w2) r) = drv_path (deref (mem_steps w) r)" for r
        using w1 by (auto simp: steps report_taken_def deref_def set_after_def incr_tries_def set_finished_def split: option.splits)
      have ok2: "queues_ok (mem_steps w2) (r_queues w2)" unfolding q by (rule queues_ok_graph [OF q_ok]) (rule path)
      note kept = leave_handler_keeps [OF ok2, of "it_step_info item" "set_already_scheduled False i", unfolded q, OF q_info]
      have "upgrade (mem_steps w2) (si_step i) = Some (set_after (e_now env t + retry_delta env (config w) ?n * 1000000000)
          (incr_tries (set_finished False s)))"
        using w1 live by (simp add: steps report_taken_def)
      then show ?thesis
        using kept b q_jobs q_sched by (auto simp: set_already_scheduled_def set_after_def incr_tries_def set_finished_def)
    qed
    have "ends (retry_later env item (si_step i) (job0\<lparr>job_result := res\<rparr>) (config w) ?n) (\<lambda>_ _. True) (\<lambda>_ w2. ?Q (leave_handler w2)) ?w"
      by (rule ends_mono [OF ends_retry_later]) (simp, rule final)
    with retry n left w1 show ?thesis
      by (simp add: after_failure_def set_step_def report_taken_def get_retry_def)
  qed
  from ends_run [OF ends_fail_step [OF sched info this] run] show ?thesis by simp
qed

subsection \<open>Giving up\<close>

text \<open>Who depends on a step only depends on the edges of the graph.\<close>

lemma dependents_loop_same:
  assumes "\<And>a. map_option (\<lambda>s. (drv_path s, sstate s)) (upgrade sh' a) = map_option (\<lambda>s. (drv_path s, sstate s)) (upgrade sh a)"
  shows "dependents_loop sh' bh stack bs ss = dependents_loop sh bh stack bs ss"
  using assms
proof (induction sh bh stack bs ss rule: dependents_loop.induct)
  case (2 sh bh w stack bs ss)
  have path: "step_path sh' a = step_path sh a" for a
    using "2.prems" [of a] by (cases "upgrade sh' a"; cases "upgrade sh a") (auto simp: step_path_def)
  have contains: "step_set_contains sh' ss w = step_set_contains sh ss w" by (simp add: step_set_contains_def path)
  show ?case
  proof (cases "upgrade sh w")
    case None
    then have "upgrade sh' w = None" using "2.prems" [of w] by simp
    with None "2.IH"(1) "2.prems" show ?thesis by simp
  next
    case (Some s)
    then obtain s' where s': "upgrade sh' w = Some s'" "sstate s' = sstate s" using "2.prems" [of w] by auto
    from Some s' contains "2.IH"(2,3) "2.prems" show ?thesis by simp
  qed
qed simp

lemma found_modify:
  assumes "\<And>s. drv_path (f s) = drv_path s" and "\<And>s. sstate (f s) = sstate s"
  shows "get_dependents (modify sh r f) bh step [] [] = get_dependents sh bh step [] []"
  unfolding get_dependents_def
  by (rule dependents_loop_same) (use assms in \<open>auto simp: option.map_comp comp_def\<close>)

text \<open>Failing the builds of a step leaves the queues alone.\<close>

definition queues_are :: "queues \<Rightarrow> state \<Rightarrow> bool" where
  "queues_are q w \<longleftrightarrow> r_queues w = q"

lemma queues_are_db: "db_only m \<Longrightarrow> keeps (queues_are q) m"
  unfolding keeps_def queues_are_def db_only_def by (metis same_more_fields(12))

lemma queues_are_frame:
  "keeps (queues_are q) (get_all_indirect_builds r)" "keeps (queues_are q) (finish_in_memory b)"
  "keeps (queues_are q) (drop_unowned hs hb)" "keeps (queues_are q) trigger_dispatch"
  by (simp_all add: keeps_def queues_are_def get_all_indirect_builds_def finish_in_memory_def set_build_def remove_build_def
      drop_unowned_def trigger_dispatch_def and_then_def bind_def update_st_def split_beta Let_def)

lemma inner_fail_job_queues: "inner_fail_job env held m j step w = (r, w') \<Longrightarrow> r_queues w' = r_queues w"
proof -
  assume run: "inner_fail_job env held m j step w = (r, w')"
  have "keeps (queues_are (r_queues w)) (inner_fail_job env held m j step)"
    unfolding inner_fail_job_def fail_loop_body_def
    by (intro queues_are_frame keeps_bind keeps_and_then keeps_if keeps_loop_from keeps_basic keeps_cases keeps_for_each
        queues_are_db db_only_rules)
  from keepsD [OF this _ run] show ?thesis by (simp add: queues_are_def)
qed

text \<open>What giving up a step leaves, for a step at \<open>r\<close> with the derivation \<open>p\<close> in the state \<open>w\<close> before the report.\<close>

definition given_up :: "store_path \<Rightarrow> sref \<Rightarrow> state \<Rightarrow> state \<Rightarrow> bool" where
  "given_up p r w w' \<longleftrightarrow>
     hm_get (q_jobs (r_queues w')) p = None \<and> hm_get (q_scheduled (r_queues w')) p = None \<and>
     (\<exists>ids. set (build_ids w (found w r)) \<subseteq> set ids \<and> rows_finished ids (t_builds (db w')) \<and>
        (\<forall>b \<in> set ids. hm_get (r_builds w') b = None) \<and>
        (\<exists>b. last (notifications (db w')) = (''build_finished'', build_finished_payload b ids)))"

lemma ends_give_up:
  assumes env: "world_answers env" "keyed_steps env" and below: "nrs_below (pending (mem_builds w)) (t_buildsteps (db w))"
    and ok: "queues_ok (mem_steps w) (r_queues w)" and sched: "hm_get (q_scheduled (r_queues w)) p = Some item"
    and info: "upgrade (q_infos (r_queues w)) (it_step_info item) = Some i" and live: "upgrade (mem_steps w) (si_step i) = Some s"
    and w1: "r_queues w1 = fst (remove_job_from_scheduled p (r_queues w))" "mem_builds w1 = mem_builds w"
      "r_builds w1 = r_builds w" "db w1 = db w"
    and steps: "mem_steps w1 = modify (mem_steps w) (si_step i) f"
    and f: "\<And>s. drv_path (f s) = drv_path s" "\<And>s. sstate (f s) = sstate s"
  shows "ends (give_up env item (si_step i) j) (\<lambda>_ _. True) (\<lambda>_ w2. given_up p (si_step i) w (leave_handler w2)) w1"
proof -
  let ?q = "fst (remove_job_from_scheduled p (r_queues w))"
  let ?w = "w1\<lparr>r_queues := queues_remove_job (mem_steps w1) [] (it_step_info item) (it_build_queue item) (r_queues w1)\<rparr>"
  have "drv_path (deref (mem_steps w) (si_step i)) = p"
    using queues_okD(1) [OF ok queues_okD(3) [OF ok sched]] info by (simp add: info_path_def)
  then have "drv_path (deref (mem_steps w1) (si_step i)) = p" using live f by (simp add: steps deref_def)
  moreover have "info_path sh (q_infos ?q) (it_step_info item) = Some (drv_path (deref sh (si_step i)))" for sh
    using sched info by (simp add: remove_job_from_scheduled_def info_path_def set_already_scheduled_def)
  ultimately have gone: "hm_get (q_jobs (r_queues ?w)) p = None" "hm_get (q_scheduled (r_queues ?w)) p = None"
    using sched by (simp_all add: w1(1) queues_remove_job_def Let_def remove_job_from_scheduled_def delete_conv)
  have same: "found ?w (si_step i) = found w (si_step i)" "build_ids ?w = build_ids w"
    using found_modify [of f] f by (auto simp: found_def build_ids_def steps w1(2) fun_eq_iff)
  have "ends (inner_fail_job env [] host j (si_step i)) (\<lambda>_ _. True) (\<lambda>_ w2. given_up p (si_step i) w (leave_handler w2)) ?w" for host
  proof -
    have "ends (inner_fail_job env [] host j (si_step i)) (\<lambda>_ _. True) (\<lambda>_ w2. r_queues w2 = r_queues ?w) ?w"
      unfolding ends_def wp_def using inner_fail_job_queues [of env "[]" host j "si_step i" ?w]
      by (simp split: prod.splits sum.splits)
    moreover have "nrs_below (pending (mem_builds ?w)) (t_buildsteps (db ?w))" using below by (simp add: w1)
    note ends_conj [OF ends_inner_fail_job [OF env this] calculation]
    then show ?thesis
    proof (rule ends_mono)
      fix a :: unit and w2
      assume w2: "(\<exists>ids. builds_failed ?w j ids w2 \<and> found w2 (si_step i) = [] \<and> set (build_ids ?w (found ?w (si_step i))) \<subseteq> set ids \<and>
        notify_dispatch w2 \<and> last (notifications (db w2)) = (''build_finished'', build_finished_payload (job_build_id j) ids)) \<and> r_queues w2 = r_queues ?w"
      then have q2: "r_queues w2 = r_queues ?w" by blast
      from w2 show "given_up p (si_step i) w (leave_handler w2)"
        unfolding given_up_def same leave_handler_simps q2 using gone by (auto simp: builds_failed_def)
    qed simp
  qed
  then show ?thesis by (simp add: give_up_def remove_queued_def)
qed


subsection \<open>A scheduled step\<close>

definition ex_queued_job :: queues where
  "ex_queued_job = queues_insert_new_jobs False [] [Some ex_step] ''x86_64-linux'' [ex_info] 5 Legacy queues_new"

definition ex_busy :: state where
  "ex_busy = ex_runner\<lparr>r_queues := add_job_to_scheduled [Some ex_step] 0 0 0 ex_queued_job,
     mem_machines := [Some (ex_machine\<lparr>m_jobs := [ex_job\<lparr>job_step_nr := 1\<rparr>]\<rparr>)]\<rparr>"

lemma ex_busy_ok: "queues_ok (mem_steps ex_busy) (r_queues ex_busy)"
proof -
  have "queues_ok [Some ex_step] ex_queued_job"
    unfolding ex_queued_job_def by (rule queues_ok_insert [OF queues_ok_new]) (simp add: ex_info_def)
  moreover have "flag_of (q_infos ex_queued_job) 0 = Some False" "entries_of (q_bufs ex_queued_job) 0 \<noteq> None" by code_simp+
  ultimately have "queues_ok [Some ex_step] (add_job_to_scheduled [Some ex_step] 0 0 0 ex_queued_job)"
    by (rule queues_ok_schedule)
  then show ?thesis by (simp add: ex_busy_def ex_runner_def)
qed

lemma ex_busy_facts:
  "hm_get (q_scheduled (r_queues ex_busy)) ''a.drv'' = Some \<lparr>it_step_info = 0, it_build_queue = 0, it_machine = 0\<rparr>"
  "map_option si_step (upgrade (q_infos (r_queues ex_busy)) 0) = Some 0"
  "upgrade (mem_steps ex_busy) 0 = Some ex_step"
  "tries (atomic_state ex_step) + 1 < max_retries (config ex_busy)"
  "nrs_below (pending (mem_builds ex_busy)) (t_buildsteps (db ex_busy))"
  by (code_simp, code_simp, simp add: ex_busy_def ex_runner_def upgrade_def, code_simp,
      use ex_runner_below in \<open>simp add: ex_busy_def\<close>)

theorem fail_step_retries_witness:
  "\<exists>w' s'. fail_step ex_world ''a.drv'' PreparingFailure no_timings ex_busy = (Inr (), w') \<and>
     upgrade (mem_steps w') 0 = Some s' \<and> tries (atomic_state s') = 1 \<and> t_builds (db w') = t_builds (db ex_busy)"
proof -
  have "fst (fail_step ex_world ''a.drv'' PreparingFailure no_timings ex_busy) = Inr ()" by code_simp
  then obtain w' where run: "fail_step ex_world ''a.drv'' PreparingFailure no_timings ex_busy = (Inr (), w')"
    by (metis prod.collapse)
  obtain i where i: "upgrade (q_infos (r_queues ex_busy)) 0 = Some i" "si_step i = 0" using ex_busy_facts(2) by auto
  have n: "tries (atomic_state ex_step) + 1 = 1" by code_simp
  from fail_step_retries [OF ex_busy_ok ex_busy_facts(1), of i, OF _ _ _ _ _ run] ex_busy_facts(3,4) i n run
  show ?thesis by auto
qed


end
