(* ===== verification/Runner_Success.thy ===== *)
theory Runner_Success
  imports Runner_Report
begin

text \<open>
  What a report of success achieves: the builds the step is the top level of are marked in the database
  and leave the registry, no other build does, the step leaves the queues, and every live step that
  waited for it waits for it no longer.
\<close>

subsection \<open>Marking the builds\<close>

text \<open>A transaction whose statements all succeeded is not marked as failed.\<close>

definition clean :: "('s io_state_scheme, 'a) io \<Rightarrow> bool" where
  "clean m \<longleftrightarrow> (\<forall>w a w'. m w = (Inr a, w') \<longrightarrow> tx_failed w' = tx_failed w)"

named_theorems clean_rules \<open>handlers that end a transaction cleanly\<close>

lemma clean_flow [clean_rules]:
  "clean m \<Longrightarrow> (\<And>a. clean (k a)) \<Longrightarrow> clean (bind m k)" "clean m \<Longrightarrow> clean m' \<Longrightarrow> clean (and_then m m')"
  "clean (ok a)" "clean (of_sum s)" "clean (of_option e v)" "clean (tx_sql env f)" "clean (gets g)"
  "(b \<Longrightarrow> clean m) \<Longrightarrow> (\<not> b \<Longrightarrow> clean m') \<Longrightarrow> clean (if b then m else m')"
  "(\<And>x y. p = (x, y) \<Longrightarrow> clean (h x y)) \<Longrightarrow> clean (case p of (x, y) \<Rightarrow> h x y)"
  by (auto simp: clean_def run_rules split: prod.splits)

lemma clean_for_each [clean_rules]: "(\<And>x. clean (f x)) \<Longrightarrow> clean (for_each f xs)"
  by (induction xs) (auto intro: clean_rules)

lemma clean_mark_succeeded_build: "clean (mark_succeeded_build env m c a z)"
  unfolding mark_succeeded_build_def check_if_build_is_not_finished_def db_update_build_def update_build_output_def
    delete_build_products_by_build_id_def delete_build_metrics_by_build_id_def mark_insert_product_def mark_insert_metric_def
    db_insert_build_product_def db_insert_build_metric_def
  by (intro clean_rules)

lemma mark_succeeded_build_rows:
  assumes run: "mark_succeeded_build env m c a z w = (Inr (), w')" and "\<not> ms_finished_in_db m"
    and "rows_finished ids (t_builds (db w))"
  shows "rows_finished (ids @ [ms_id m]) (t_builds (db w'))"
proof (cases "list_ex (\<lambda>r. br_id r = ms_id m \<and> br_finished r = 0) (t_builds (db w))")
  case True
  from run_mark_open [OF run assms(2) True] obtain v where "marked m v (db w) (db w')" .
  then have rows: "t_builds (db w') = update_where (\<lambda>r. br_id r = ms_id m) (updated_row v) (t_builds (db w))"
    by (auto simp: marked_def)
  show ?thesis
    unfolding rows_finished_def rows update_where_def list.set_map
  proof (intro ballI impI, elim imageE)
    fix r q assume q: "q \<in> set (t_builds (db w))" "r = (if br_id q = ms_id m then updated_row v q else q)"
      and r: "br_id r \<in> set (ids @ [ms_id m])"
    show "br_finished r \<noteq> 0"
    proof (cases "br_id q = ms_id m")
      case True
      then show ?thesis unfolding q(2) by (simp add: updated_row_def)
    next
      case False
      then have "br_id q \<in> set ids" using r unfolding q(2) by simp
      then show ?thesis using assms(3) q False unfolding rows_finished_def by simp
    qed
  qed
next
  case False
  then have "db w' = db w"
    using run by (auto simp: mark_succeeded_build_def check_if_build_is_not_finished_def run_rules select_def split: if_splits)
  with False assms(3) show ?thesis by (auto simp: rows_finished_def list_ex_iff)
qed

lemma ends_mark_direct_builds:
  assumes "\<not> tx_failed w" and "\<And>b. b \<in> set bs \<Longrightarrow> \<not> finished_in_db (the_build w b)"
  shows "ends (for_each (mark_direct_build env j out start stop) bs) (\<lambda>_ _. True)
    (\<lambda>_ w'. \<not> tx_failed w' \<and> rows_finished (build_ids w bs) (t_builds (db w'))) w"
proof -
  let ?R = "\<lambda>xs w'. io_state.more w' = io_state.more w \<and> \<not> tx_failed w' \<and> rows_finished (build_ids w xs) (t_builds (db w'))"
  have "ends (for_each (mark_direct_build env j out start stop) bs) (\<lambda>_ _. True) (\<lambda>_. ?R bs) w"
  proof (rule ends_for_each_list)
    show "?R [] w" using assms(1) by (simp add: rows_finished_def build_ids_def)
    fix xs b w1 assume b: "b \<in> set bs" and R: "?R xs w1"
    note same = same_more_fields(5) [OF conjunct1 [OF R]]
    let ?m = "get_mark_build_sccuess_data (e_nix_dir env) (mem_jobsets w1) (the_build w b) out"
    have m: "ms_id ?m = b_id (the_build w b)" "\<not> ms_finished_in_db ?m"
      using assms(2) [OF b] by (simp_all add: get_mark_build_sccuess_data_def Let_def)
    have "?R (xs @ [b]) w2" if run: "mark_succeeded_build env ?m cached start stop w1 = (Inr (), w2)" for cached w2
      using mark_succeeded_build_rows [OF run m(2), of "build_ids w xs"] db_onlyD [OF db_only_mark_succeeded_build run] R m
        clean_mark_succeeded_build [unfolded clean_def, rule_format, OF run] by (simp add: build_ids_def)
    then show "ends (mark_direct_build env j out start stop b) (\<lambda>_ _. True) (\<lambda>_. ?R (xs @ [b])) w1"
      by (simp add: mark_direct_build_def same) (simp add: ends_def wp_def split: prod.splits sum.splits)
  qed
  then show ?thesis by (rule ends_mono) auto
qed

subsection \<open>The report\<close>

definition after_success :: "'e runner_env_scheme \<Rightarrow> sref \<Rightarrow> job \<Rightarrow> build_output \<Rightarrow> (state, unit) io" where
  "after_success env r j out =
     bind (gets (\<lambda>w. get_direct_builds (mem_builds w) (the_step w r))) (\<lambda>direct.
     and_then (if direct = [] then update_st (\<lambda>w. w\<lparr>r_steps := steps_remove (drv_path (the_step w r)) (r_steps w)\<rparr>) else ok ())
     (and_then (mark_direct_builds env j out direct)
     (and_then (drop_unowned [r] [])
     (and_then (unblock_dependents env r)
     trigger_dispatch))))"

definition success_taken :: "store_path \<Rightarrow> scheduled_item \<Rightarrow> sref \<Rightarrow> state \<Rightarrow> state \<Rightarrow> bool" where
  "success_taken p item r w w1 \<longleftrightarrow>
     r_queues w1 = queues_remove_job (mem_steps w1) [] (it_step_info item) (it_build_queue item)
       (fst (remove_job_from_scheduled p (r_queues w))) \<and>
     mem_steps w1 = modify (mem_steps w) r (set_finished True) \<and> mem_builds w1 = mem_builds w \<and> r_builds w1 = r_builds w"

lemma ends_upload_outputs:
  "ends (upload_outputs env j out) (\<lambda>_ _. True) (\<lambda>_ w'. \<exists>k u. w' = w\<lparr>tick := k, r_uploader := u\<rparr>) w"
proof -
  have "\<exists>k u. w = w\<lparr>tick := k, r_uploader := u\<rparr>" by (intro exI [of _ "tick w"] exI [of _ "r_uploader w"]) simp
  then show ?thesis by (auto simp: upload_outputs_def schedule_upload_io_def ends_ask)
qed

lemma ends_succeed_step:
  assumes sched: "hm_get (q_scheduled (r_queues w)) p = Some item" and info: "upgrade (q_infos (r_queues w)) (it_step_info item) = Some i"
    and rest: "\<And>w1 j. success_taken p item (si_step i) w w1 \<Longrightarrow>
      ends (after_success env (si_step i) j out) (\<lambda>_ _. True) (\<lambda>_ w'. Q (leave_handler w')) w1"
  shows "ends (succeed_step env p out) (\<lambda>_ _. True) (\<lambda>_. Q) w"
proof -
  let ?sh = "modify (mem_steps w) (si_step i) (set_finished True)"
  let ?q = "queues_remove_job ?sh [] (it_step_info item) (it_build_queue item) (fst (remove_job_from_scheduled p (r_queues w)))"
  let ?P = "\<lambda>w1. r_queues w1 = ?q \<and> mem_steps w1 = ?sh \<and> mem_builds w1 = mem_builds w \<and> r_builds w1 = r_builds w"
  have upload: "ends (and_then (upload_outputs env j out) (after_success env (si_step i) j out)) (\<lambda>_ _. True) (\<lambda>_ w'. Q (leave_handler w')) w1"
    if "?P w1" for w1 j
    unfolding ends_and_then
    by (rule ends_mono [OF ends_upload_outputs]) (use that in \<open>auto intro!: rest simp: success_taken_def\<close>)
  have finish: "ends (and_then (finish_build_step env n nr res m) (and_then (upload_outputs env j out) (after_success env (si_step i) j out)))
      (\<lambda>_ _. True) (\<lambda>_ w'. Q (leave_handler w')) w1" if "?P w1" for w1 n nr res m j
    unfolding ends_and_then [of "finish_build_step _ _ _ _ _"]
  proof (rule ends_mono [OF ends_finish_build_step_any])
    fix a :: unit and w2
    assume "io_state.more w2 = io_state.more w1 \<and> t_builds (db w2) = t_builds (db w1)"
    note same_more_fields [OF conjunct1 [OF this]]
    then show "ends (and_then (upload_outputs env j out) (after_success env (si_step i) j out)) (\<lambda>_ _. True) (\<lambda>_ w'. Q (leave_handler w')) w2"
      using that by (intro upload) simp
  qed simp
  show ?thesis
  proof (cases "upgrade (mem_machines w) (it_machine item)")
    case None
    then show ?thesis
      unfolding succeed_step_def ends_scope ends_bind [of "unschedule p"] ends_unschedule [OF sched info] prod.case
      by (simp add: set_step_def take_job_def ends_ask) (simp add: ends_def wp_def)
  next
    case (Some v)
    then show ?thesis
      unfolding succeed_step_def ends_scope ends_bind [of "unschedule p"] ends_unschedule [OF sched info] prod.case Let_def
        after_success_def [symmetric]
      by (auto simp: set_step_def ends_take_job [where v = v] ends_ask set_machine_def remove_queued_def
          simp del: ends_and_then simp: ends_and_then [of "set_step _ _"] ends_and_then [of "update_st _"]
          split: option.splits sum.splits intro!: finish)
  qed
qed

lemma ends_mark_and_notify:
  assumes "\<And>b. b \<in> set bs \<Longrightarrow> \<not> finished_in_db (the_build w b)"
  shows "ends (mark_direct_builds env j out bs) (\<lambda>_ _. True)
    (\<lambda>_ w'. mem_steps w' = mem_steps w \<and> r_queues w' = r_queues w \<and> rows_finished (build_ids w bs) (t_builds (db w')) \<and>
       (\<forall>n. hm_get (r_builds w') n = (if n \<in> set (build_ids w bs) then None else hm_get (r_builds w) n))) w"
proof -
  let ?mark = "bind (of_option Int_Conversion (get_start_time_as_i32 (job_result j))) (\<lambda>start.
          bind (of_option Int_Conversion (get_stop_time_as_i32 (job_result j))) (\<lambda>stop.
          for_each (mark_direct_build env j out start stop) bs))"
  let ?w = "w\<lparr>tick := tick w + 1\<rparr>"
  let ?rows = "rows_finished (build_ids w bs)"
  have ids: "build_ids ?w bs = build_ids w bs" for k f by (simp add: build_ids_def)
  have "ends (for_each (mark_direct_build env j out start stop) bs) (\<lambda>_ _. True)
      (\<lambda>_ w'. \<not> tx_failed w' \<and> ?rows (t_builds (db w'))) (?w\<lparr>tick := tick ?w + 1, tx_failed := False\<rparr>)" for start stop
    using ends_mark_direct_builds [of "?w\<lparr>tick := tick ?w + 1, tx_failed := False\<rparr>" bs env j out start stop] assms
    by (simp add: build_ids_def)
  then have body: "ends ?mark (\<lambda>_ _. True) (\<lambda>_ w'. \<not> tx_failed w' \<and> ?rows (t_builds (db w'))) (?w\<lparr>tick := tick ?w + 1, tx_failed := False\<rparr>)"
    by (auto split: option.splits)
  have only: "db_only ?mark" unfolding mark_direct_build_def by (intro db_only_rules)
  have tx: "ends (transaction env ?mark) (\<lambda>_ _. True) (\<lambda>_ w'. io_state.more w' = io_state.more w \<and> ?rows (t_builds (db w'))) ?w"
    by (rule ends_mono [OF ends_transaction [where env = env and E = "\<lambda>_. True", OF body _ only]]) auto
  have notify: "ends (and_then (db_get env) (transaction env (for_each (notify_build env) bs))) (\<lambda>_ _. True)
      (\<lambda>_ w'. io_state.more w' = io_state.more w2 \<and> ?rows (t_builds (db w'))) w2" if "?rows (t_builds (db w2))" for w2
  proof -
    let ?n = "and_then (db_get env) (transaction env (for_each (notify_build env) bs))"
    have only: "db_only ?n" unfolding notify_build_def by (intro db_only_rules)
    have rows: "keeps (in_db (\<lambda>d. ?rows (t_builds d))) ?n"
      unfolding notify_build_def notify_build_finished_def notify_any_def execute_def by (intro db_rules keeps_in_db) simp
    have "in_db (\<lambda>d. ?rows (t_builds d)) w2" using that by (simp add: in_db_def)
    from ends_conj [OF ends_db_only [OF only] ends_keeps [OF rows this]] show ?thesis
      by (rule ends_mono) (simp_all add: in_db_def)
  qed
  have "ends (and_then (for_each finish_in_memory bs) (and_then (db_get env) (transaction env (for_each (notify_build env) bs))))
      (\<lambda>_ _. True) (\<lambda>_ w'. mem_steps w' = mem_steps w \<and> r_queues w' = r_queues w \<and> ?rows (t_builds (db w')) \<and>
       (\<forall>n. hm_get (r_builds w') n = (if n \<in> set (build_ids w bs) then None else hm_get (r_builds w) n))) w1"
    if w1: "io_state.more w1 = io_state.more w" "?rows (t_builds (db w1))" for w1
  proof -
    note same = same_more_fields(4,5,9,12) [OF w1(1)]
    have reg: "hm_get (r_builds (finish_all bs w1)) n = (if n \<in> set (build_ids w bs) then None else hm_get (r_builds w) n)" for n
      by (simp add: finish_all_def hm_get_removes build_ids_def same)
    show ?thesis
      unfolding ends_and_then [of "for_each finish_in_memory bs"] ends_finish_in_memory
    proof (rule ends_mono [OF notify])
      show "?rows (t_builds (db (finish_all bs w1)))" using w1(2) by (simp add: finish_all_def)
      fix a :: unit and w'
      assume w': "io_state.more w' = io_state.more (finish_all bs w1) \<and> ?rows (t_builds (db w'))"
      note same2 = same_more_fields(4,9,12) [OF conjunct1 [OF w']]
      show "mem_steps w' = mem_steps w \<and> r_queues w' = r_queues w \<and> ?rows (t_builds (db w')) \<and>
         (\<forall>n. hm_get (r_builds w') n = (if n \<in> set (build_ids w bs) then None else hm_get (r_builds w) n))"
        unfolding same2 reg using w' by (simp add: finish_all_def same)
    qed simp
  qed
  then have "ends (and_then (transaction env ?mark) (and_then (for_each finish_in_memory bs)
        (and_then (db_get env) (transaction env (for_each (notify_build env) bs)))))
      (\<lambda>_ _. True) (\<lambda>_ w'. mem_steps w' = mem_steps w \<and> r_queues w' = r_queues w \<and> ?rows (t_builds (db w')) \<and>
       (\<forall>n. hm_get (r_builds w') n = (if n \<in> set (build_ids w bs) then None else hm_get (r_builds w) n))) ?w"
    unfolding ends_and_then [of "transaction env ?mark"] by (intro ends_mono [OF tx]) simp_all
  then show ?thesis
    unfolding mark_direct_builds_def ends_and_then [of "db_get env" "and_then (transaction env ?mark) _"]
    by (rule ends_db_get [rotated]) simp
qed

lemma get_direct_builds_finished [simp]: "get_direct_builds bh (set_finished v s) = get_direct_builds bh s"
  by (simp add: get_direct_builds_def set_finished_def)

lemma drop_unowned_cell:
  "upgrade (mem_steps (drop_unowned_in hs hb w)) a = Some t \<Longrightarrow> upgrade (mem_steps w) a = Some t"
  unfolding mem_steps_drop_unowned using drop_steps_cell by (metis option.distinct(1))

lemma drop_unowned_held: "r \<in> set hs \<Longrightarrow> upgrade (mem_steps (drop_unowned_in hs hb w)) r = upgrade (mem_steps w) r"
  unfolding mem_steps_drop_unowned by (rule drop_steps_root) simp

text \<open>A step that was waited for is no dependency of a step that has been unblocked.\<close>

lemma unblocked:
  assumes "upgrade sh r = Some s" and "finished s" and "a \<in> set (rdeps (sstate s))"
    and "upgrade (make_rdeps_runnable clock sh r) a = Some t"
  shows "r \<notin> set (deps (sstate t))"
proof -
  have "step_path sh r = Some (drv_path s)" using assms(1) by (simp add: step_path_def)
  moreover have "\<exists>t0. deps (sstate t) = deps (sstate (unblock sh (clock a) (drv_path s) t0))"
    using assms(3,4) unfolding make_rdeps_runnable_cells [OF assms(1,2)] Let_def
    by (cases "a = r") (auto simp: map_option_eq_Some)
  ultimately show ?thesis by auto
qed

text \<open>
  What a handled success leaves, for a step \<open>s\<close> at \<open>r\<close> with the derivation \<open>p\<close> in the state \<open>w\<close> before the report: the rows and
  the registry of its builds, and the graph.
\<close>

definition built_exactly :: "bref list \<Rightarrow> state \<Rightarrow> state \<Rightarrow> bool" where
  "built_exactly ds w w' \<longleftrightarrow>
     rows_finished (build_ids w ds) (t_builds (db w')) \<and>
     (\<forall>n. hm_get (r_builds w') n = (if n \<in> set (build_ids w ds) then None else hm_get (r_builds w) n))"

definition waits_no_more :: "sref \<Rightarrow> sref list \<Rightarrow> step arena \<Rightarrow> bool" where
  "waits_no_more r rs sh \<longleftrightarrow> (\<forall>a \<in> set rs. \<forall>t. upgrade sh a = Some t \<longrightarrow> r \<notin> set (deps (sstate t)))"

definition succeeded :: "store_path \<Rightarrow> sref \<Rightarrow> step \<Rightarrow> state \<Rightarrow> state \<Rightarrow> bool" where
  "succeeded p r s w w' \<longleftrightarrow>
     hm_get (q_jobs (r_queues w')) p = None \<and> hm_get (q_scheduled (r_queues w')) p = None \<and>
     built_exactly (get_direct_builds (mem_builds w) s) w w' \<and> waits_no_more r (rdeps (sstate s)) (mem_steps w') \<and>
     notify_dispatch w'"

text \<open>The end of the handler, from the state in which the builds are marked.\<close>

lemma ends_release_dependents:
  assumes r: "upgrade (mem_steps w2) r = Some (set_finished True s)"
    and gone: "hm_get (q_jobs (r_queues w2)) p = None" "hm_get (q_scheduled (r_queues w2)) p = None"
    and built: "built_exactly (get_direct_builds (mem_builds w) s) w w2"
  shows "ends (and_then (drop_unowned [r] []) (and_then (unblock_dependents env r) trigger_dispatch)) (\<lambda>_ _. True)
    (\<lambda>_ w3. succeeded p r s w (leave_handler w3)) w2"
proof -
  let ?w = "drop_unowned_in [r] [] w2"
  have final: "succeeded p r s w (leave_handler w3)"
    if w3: "w3 = ?w\<lparr>tick := k, mem_steps := make_rdeps_runnable clock (mem_steps ?w) r, notify_dispatch := True\<rparr>" for w3 clock k
  proof -
    have "upgrade (mem_steps ?w) r = Some (set_finished True s)" using r by (simp add: drop_unowned_held)
    from unblocked [OF this] have "waits_no_more r (rdeps (sstate s)) (make_rdeps_runnable clock (mem_steps ?w) r)"
      by (simp add: waits_no_more_def set_finished_def)
    moreover have "upgrade (make_rdeps_runnable clock (mem_steps ?w) r) a = Some t"
      if "upgrade (mem_steps (leave_handler w3)) a = Some t" for a t
      using drop_unowned_cell [OF that [unfolded leave_handler_def]] by (simp add: w3)
    ultimately have "waits_no_more r (rdeps (sstate s)) (mem_steps (leave_handler w3))" by (auto simp: waits_no_more_def)
    moreover have "r_queues w3 = r_queues w2" "db w3 = db w2" "r_builds w3 = r_builds w2" "notify_dispatch w3" by (simp_all add: w3)
    ultimately show ?thesis
      unfolding succeeded_def built_exactly_def leave_handler_simps using gone built by (simp add: built_exactly_def)
  qed
  show ?thesis
    unfolding drop_unowned_def unblock_dependents_def trigger_dispatch_def ends_and_then ends_bind ends_ask ends_basic
    using final [OF refl] by auto
qed

text \<open>
  C2: when a report of success is handled, the step is neither queued nor scheduled any more; exactly the
  builds it is the top level of leave the registry, and their rows are finished; no step that is left
  and was known to wait for it has it among its dependencies; and the dispatcher is woken.
\<close>

theorem succeed_step_exact:
  assumes ok: "queues_ok (mem_steps w) (r_queues w)"
    and sched: "hm_get (q_scheduled (r_queues w)) p = Some item"
    and info: "upgrade (q_infos (r_queues w)) (it_step_info item) = Some i" and live: "upgrade (mem_steps w) (si_step i) = Some s"
    and run: "succeed_step env p out w = (Inr (), w')"
  shows "hm_get (q_jobs (r_queues w')) p = None \<and> hm_get (q_scheduled (r_queues w')) p = None \<and>
    rows_finished (build_ids w (get_direct_builds (mem_builds w) s)) (t_builds (db w')) \<and>
    (\<forall>n. hm_get (r_builds w') n = (if n \<in> set (build_ids w (get_direct_builds (mem_builds w) s)) then None else hm_get (r_builds w) n)) \<and>
    (\<forall>a \<in> set (rdeps (sstate s)). \<forall>t. upgrade (mem_steps w') a = Some t \<longrightarrow> si_step i \<notin> set (deps (sstate t))) \<and>
    notify_dispatch w'"
proof -
  let ?r = "si_step i" and ?q = "fst (remove_job_from_scheduled p (r_queues w))" and ?ds = "get_direct_builds (mem_builds w) s"
  have direct: "\<not> finished_in_db (the_build w b)" if "b \<in> set ?ds" for b
    using that by (auto simp: get_direct_builds_def deref_build_def split: option.splits)
  have "ends (after_success env ?r j out) (\<lambda>_ _. True) (\<lambda>_ w2. succeeded p ?r s w (leave_handler w2)) w1"
    if w1: "success_taken p item ?r w w1" for w1 j
  proof -
    have steps: "upgrade (mem_steps w1) ?r = Some (set_finished True s)" using w1 live by (simp add: success_taken_def)
    have path: "info_path (mem_steps w1) (q_infos ?q) (it_step_info item) = Some p"
      using queues_okD(1) [OF ok queues_okD(3) [OF ok sched]] sched info w1 live
      by (auto simp: remove_job_from_scheduled_def info_path_def success_taken_def set_already_scheduled_def set_finished_def deref_def)
    have gone: "hm_get (q_jobs (r_queues w1)) p = None" "hm_get (q_scheduled (r_queues w1)) p = None"
      using w1 path sched by (simp_all add: success_taken_def queues_remove_job_def Let_def remove_job_from_scheduled_def delete_conv)
    let ?w = "if ?ds = [] then w1\<lparr>r_steps := steps_remove (drv_path (the_step w1 ?r)) (r_steps w1)\<rparr> else w1"
    have mem: "mem_builds ?w = mem_builds w" "mem_steps ?w = mem_steps w1" "r_queues ?w = r_queues w1" "r_builds ?w = r_builds w"
      using w1 by (simp_all add: success_taken_def)
    have "ends (mark_direct_builds env j out ?ds) (\<lambda>_ _. True)
        (\<lambda>_ w2. mem_steps w2 = mem_steps w1 \<and> r_queues w2 = r_queues w1 \<and> built_exactly ?ds w w2) ?w"
      using ends_mark_and_notify [of ?ds ?w env j out] direct unfolding build_ids_def built_exactly_def mem by simp
    then have "ends (and_then (mark_direct_builds env j out ?ds) (and_then (drop_unowned [?r] []) (and_then (unblock_dependents env ?r) trigger_dispatch)))
      (\<lambda>_ _. True) (\<lambda>_ w2. succeeded p ?r s w (leave_handler w2)) ?w"
      unfolding ends_and_then [of "mark_direct_builds _ _ _ _"]
      by (rule ends_mono) (use gone steps in \<open>auto intro!: ends_release_dependents simp del: ends_and_then\<close>)
    moreover have "get_direct_builds (mem_builds w1) (the_step w1 ?r) = ?ds"
      unfolding deref_def steps using w1 by (simp add: success_taken_def)
    ultimately show ?thesis
      unfolding after_success_def by (cases "?ds = []") simp_all
  qed
  from ends_run [OF ends_succeed_step [OF sched info this] run] show ?thesis
    by (auto simp: succeeded_def built_exactly_def waits_no_more_def)
qed

definition ex_out :: build_output where
  "ex_out = \<lparr>bo_failed = False, bo_timings = no_timings, bo_release_name = None, bo_closure_size = 3, bo_size = 2,
     bo_products = [], bo_outputs = [(''out'', ''o'')], bo_metrics = []\<rparr>"

theorem succeed_step_exact_witness:
  "\<exists>w'. succeed_step ex_world ''a.drv'' ex_out ex_busy = (Inr (), w') \<and> hm_get (r_builds w') 7 = None \<and>
     rows_finished [7] (t_builds (db w'))"
proof -
  have "fst (succeed_step ex_world ''a.drv'' ex_out ex_busy) = Inr ()" by code_simp
  then obtain w' where run: "succeed_step ex_world ''a.drv'' ex_out ex_busy = (Inr (), w')" by (metis prod.collapse)
  obtain i where i: "upgrade (q_infos (r_queues ex_busy)) 0 = Some i" "si_step i = 0" using ex_busy_facts(2) by auto
  have "build_ids ex_busy (get_direct_builds (mem_builds ex_busy) ex_step) = [7]" by code_simp
  with succeed_step_exact [OF ex_busy_ok ex_busy_facts(1), of i ex_step, OF _ _ run] ex_busy_facts(3) i run
  show ?thesis by auto
qed

end
