(* ===== verification/Runner_Queues.thy ===== *)
theory Runner_Queues
  imports Runner_Report
begin

text \<open>
  The queues of the running runner. Handing jobs to machines goes through the contract of
  \<^verbatim>\<open>processor_contract\<close>: the runner's own processor discharges it, for it never changes a step that is
  queued, only drops steps that nobody owns. So a pass of the dispatcher over the queues keeps them
  consistent, whatever machines, database and stores answer.
\<close>

subsection \<open>The processor keeps the queued steps\<close>

definition infos_kept :: "queues \<Rightarrow> step arena \<Rightarrow> state \<Rightarrow> bool" where
  "infos_kept q sh w \<longleftrightarrow> r_queues w = q \<and>
     (\<forall>r i. upgrade (q_infos q) r = Some i \<longrightarrow> upgrade (mem_steps w) (si_step i) = upgrade sh (si_step i))"

named_theorems infos_rules \<open>handlers that keep the queued steps\<close>

lemma infos_kept_db [infos_rules]: "db_only m \<Longrightarrow> keeps (infos_kept q sh) m"
  unfolding keeps_def infos_kept_def db_only_def by (metis same_more_fields(4,12))

lemma infos_kept_frame:
  "infos_kept q sh w \<Longrightarrow> r_queues w' = r_queues w \<Longrightarrow> mem_steps w' = mem_steps w \<Longrightarrow> infos_kept q sh w'"
  by (simp add: infos_kept_def)

lemma infos_kept_drop: "infos_kept q sh w \<Longrightarrow> infos_kept q sh (drop_unowned_in hs hb w)"
proof -
  assume I: "infos_kept q sh w"
  have "upgrade (mem_steps (drop_unowned_in hs hb w)) (si_step i) = upgrade (mem_steps w) (si_step i)"
    if "upgrade (q_infos q) r = Some i" for r i
  proof -
    have "i \<in> set (live_objects (q_infos (r_queues w)))" using that I by (auto simp: in_live_objects infos_kept_def)
    then have "si_step i \<in> set (hs @ step_roots (w\<lparr>mem_builds := drop_builds (hb @ build_roots w) (mem_builds w)\<rparr>))"
      by (simp add: step_roots_def)
    then show ?thesis unfolding mem_steps_drop_unowned by (rule drop_steps_root)
  qed
  with I show ?thesis by (simp add: infos_kept_def)
qed

lemma infos_kept_memory [infos_rules]:
  "keeps (infos_kept q sh) (get_all_indirect_builds r)" "keeps (infos_kept q sh) (finish_in_memory b)"
  "keeps (infos_kept q sh) trigger_dispatch"
  by (auto simp: keeps_def get_all_indirect_builds_def finish_in_memory_def set_build_def remove_build_def
      trigger_dispatch_def and_then_def bind_def update_st_def split_beta Let_def elim!: infos_kept_frame)

lemma infos_kept_drop_io [infos_rules]: "keeps (infos_kept q sh) (drop_unowned hs hb)"
  unfolding drop_unowned_def by (rule keeps_update) (rule infos_kept_drop)

lemma infos_kept_machines [infos_rules]:
  "keeps (infos_kept q sh) (resolve_io env i c)" "keeps (infos_kept q sh) (send_to_machine env m j opts)"
  by (auto simp: keeps_def resolve_io_def send_to_machine_def bind_def ask_def Let_def split: prod.splits option.splits sum.splits
      elim!: infos_kept_frame)

lemmas infos_flow = keeps_bind keeps_and_then keeps_basic keeps_if keeps_case_option keeps_loop_from keeps_cases keeps_for_each

lemma infos_kept_inner_fail_job [infos_rules]: "keeps (infos_kept q sh) (inner_fail_job env held m j step)"
  unfolding inner_fail_job_def fail_loop_body_def by (intro infos_rules infos_flow db_only_rules)

lemma infos_kept_realise: "keeps (infos_kept q sh) (realise_drv_on_valid_machine env c)"
  unfolding realise_drv_on_valid_machine_def start_job_def Let_def by (intro infos_rules infos_flow db_only_rules)

interpretation dispatch: processor_contract mem_steps "processor env" for env
proof
  fix w w' :: state and q :: queues and c r i res
  assume run: "processor env w q c = (w', res)" and i: "upgrade (q_infos q) r = Some i"
  have "infos_kept q (mem_steps w) (w\<lparr>r_queues := q\<rparr>)" by (simp add: infos_kept_def)
  then have "infos_kept q (mem_steps w) (drop_unowned_in [] [] (w\<lparr>r_queues := q\<rparr>))" by (rule infos_kept_drop)
  from keepsI [OF infos_kept_realise this, of env c] run have "infos_kept q (mem_steps w) w'"
    by (auto simp: processor_def split: prod.splits)
  with i show "drv_path (deref (mem_steps w') (si_step i)) = drv_path (deref (mem_steps w) (si_step i))"
    by (simp add: infos_kept_def deref_def)
qed

text \<open>
  C6: a pass of the dispatcher over all queues keeps the queues consistent, whatever the machines, the
  database and the stores answer for each job, failed steps and errors included.
\<close>

theorem process_queues_keeps_ok:
  assumes "queues_ok (mem_steps w) (r_queues w)" and "process_queues env w = (r, w')"
  shows "queues_ok (mem_steps w') (r_queues w')"
proof -
  obtain w1 q n where p: "process mem_steps (processor env) (e_now env (tick w)) (w\<lparr>tick := tick w + 1\<rparr>) (r_queues w) = ((w1, q), n)"
    by (metis prod.exhaust)
  have "queues_ok (mem_steps (w\<lparr>tick := tick w + 1\<rparr>)) (r_queues w)" using assms(1) by simp
  from dispatch.process_ok [OF this p] have "queues_ok (mem_steps w1) q" .
  moreover have "w' = w1\<lparr>r_queues := q\<rparr>"
    using assms(2) p by (auto simp: process_queues_def bind_def ask_def)
  ultimately show ?thesis by simp
qed

theorem process_queues_keeps_ok_witness:
  "\<exists>r w'. process_queues ex_world (ex_busy\<lparr>r_queues := ex_queued_job\<rparr>) = (r, w') \<and> queues_ok (mem_steps w') (r_queues w')"
proof -
  have "queues_ok [Some ex_step] ex_queued_job"
    unfolding ex_queued_job_def by (rule queues_ok_insert [OF queues_ok_new]) (simp add: ex_info_def)
  then have "queues_ok (mem_steps (ex_busy\<lparr>r_queues := ex_queued_job\<rparr>)) (r_queues (ex_busy\<lparr>r_queues := ex_queued_job\<rparr>))"
    by (simp add: ex_busy_def ex_runner_def)
  from process_queues_keeps_ok [OF this surjective_pairing, of ex_world] show ?thesis by (metis prod.collapse)
qed

end
