(* ===== verification/Runner_Safe.thy ===== *)
theory Runner_Safe
  imports Runner_Keeps
begin

text \<open>
  What the runner has written stays written: no handler changes the row of a finished build, whatever
  happens in between. The argument is about the statements: those on a connection and in a transaction
  either leave the builds alone, or only change rows that are not finished, or (\<^verbatim>\<open>mark_succeeded_build\<close>)
  look first.
\<close>

subsection \<open>Statements\<close>

named_theorems settles \<open>handlers that leave finished rows alone\<close>

text \<open>The row is there, and numbers of builds are the key of the table.\<close>

definition settled :: "build_row \<Rightarrow> database \<Rightarrow> bool" where
  "settled r0 d \<longleftrightarrow> r0 \<in> set (t_builds d) \<and> br_finished r0 \<noteq> 0 \<and> distinct (map br_id (t_builds d)) \<and>
     (\<forall>r \<in> set (t_builds d). br_id r < t_next_id d)"

lemma settled_same: "settled r0 d \<Longrightarrow> t_builds d' = t_builds d \<Longrightarrow> t_next_id d' = t_next_id d \<Longrightarrow> settled r0 d'"
  by (simp add: settled_def)

lemma map_id_update: "(\<And>r. br_id (f r) = br_id r) \<Longrightarrow> map br_id (update_where c f rows) = map br_id rows"
  by (simp add: update_where_def)

lemma settled_update:
  assumes "settled r0 d" and "\<not> c r0" and ids: "\<And>r. br_id (f r) = br_id r"
  shows "settled r0 (d\<lparr>t_builds := update_where c f (t_builds d)\<rparr>)"
proof -
  have "r0 \<in> set (update_where c f (t_builds d))"
    using assms(1,2) unfolding settled_def update_where_def list.set_map by (intro image_eqI [of _ _ r0]) auto
  moreover have "br_id r < t_next_id d" if "r \<in> set (update_where c f (t_builds d))" for r
  proof -
    from that have "br_id r \<in> set (map br_id (update_where c f (t_builds d)))" unfolding list.set_map by (rule imageI)
    then have "br_id r \<in> br_id ` set (t_builds d)" unfolding map_id_update [OF ids] list.set_map .
    then show ?thesis using assms(1) unfolding settled_def by (elim imageE) simp
  qed
  ultimately show ?thesis using assms(1) map_id_update [of f c "t_builds d", OF ids] by (simp add: settled_def)
qed

lemma settled_statements:
  "keeps (in_db (settled r0)) (db_update_build_step_in_finish env u)" "keeps (in_db (settled r0)) (notify_any env c m)"
  "keeps (in_db (settled r0)) (update_build_step_output env i n s p)" "keeps (in_db (settled r0)) (insert_build_step_outputs env os)"
  "keeps (in_db (settled r0)) (db_insert_build_step env v)" "keeps (in_db (settled r0)) (insert_failed_paths env p)"
  "keeps (in_db (settled r0)) (db_update_build_step env us)" "keeps (in_db (settled r0)) (update_build_output env i s p)"
  "keeps (in_db (settled r0)) (db_insert_build_product env bp)" "keeps (in_db (settled r0)) (db_insert_build_metric env bm)"
  "keeps (in_db (settled r0)) (delete_build_products_by_build_id env i)" "keeps (in_db (settled r0)) (delete_build_metrics_by_build_id env i)"
  "keeps (in_db (settled r0)) (clear_busy env i)"
  unfolding statement_defs execute_def
  by (intro settles db_rules keeps_in_db; erule settled_same; simp)+

lemma settled_open_only [settles]:
  "keeps (in_db (settled r0)) (update_build_after_failure env i st a z c)"
  "keeps (in_db (settled r0)) (update_build_after_previous_failure env i st)" "keeps (in_db (settled r0)) (db_abort_build env i)"
  unfolding update_build_after_failure_def update_build_after_previous_failure_def db_abort_build_def execute_def
  by (intro settles db_rules keeps_in_db;
      simp add: settled_update failed_row_def abort_build_row_def settled_def [of r0 "_ :: database", THEN iffD1])+

lemma settled_debug_build [settles]: "keeps (in_db (settled r0)) (insert_debug_build env i p s)"
  unfolding insert_debug_build_def execute_def
  by (intro settles db_rules keeps_in_db) (force simp: settled_def)

lemma settled_reads [settles]:
  "keeps (in_db (settled r0)) (get_drv_path_from_build_step env i n)" "keeps (in_db (settled r0)) (check_if_paths_failed env ps)"
  "keeps (in_db (settled r0)) (get_last_build_step_id env p)" "keeps (in_db (settled r0)) (get_last_build_step_id_for_output_path env p)"
  "keeps (in_db (settled r0)) (get_last_build_step_id_for_output_with_drv env p s)"
  "keeps (in_db (settled r0)) (get_build_output_for_path env p)" "keeps (in_db (settled r0)) (get_build_products_for_build_id env i)"
  "keeps (in_db (settled r0)) (get_build_metrics_for_build_id env i)" "keeps (in_db (settled r0)) (get_not_finished_builds_fast env)"
  "keeps (in_db (settled r0)) (get_not_finished_builds env)" "keeps (in_db (settled r0)) (get_jobsets env)"
  "keeps (in_db (settled r0)) (get_jobset_scheduling_shares env i)" "keeps (in_db (settled r0)) (get_jobset_build_steps env i n)"
  "keeps (in_db (settled r0)) (alloc_build_step env i)"
  unfolding statement_defs by (intro settles db_rules)+

lemma settled_notifications [settles]:
  "keeps (in_db (settled r0)) (notify_step_finished env i n s)" "keeps (in_db (settled r0)) (notify_build_finished env i ids)"
  "keeps (in_db (settled r0)) (notify_build_started env i)" "keeps (in_db (settled r0)) (notify_step_started env i n)"
  "keeps (in_db (settled r0)) (notify_builds_added env)"
  unfolding notify_step_finished_def notify_build_finished_def notify_build_started_def notify_step_started_def
    notify_builds_added_def by (rule settled_statements)+

declare settled_statements [settles]

text \<open>Marking a build as succeeded looks whether it is open, so its row is another one.\<close>

lemma settled_mark_succeeded_build [settles]: "keeps (in_db (settled r0)) (mark_succeeded_build env m c a z)"
proof -
  let ?rest = "and_then (for_each (\<lambda>(name, p). update_build_output env (ms_id m) name p) (ms_outputs m))
          (and_then (delete_build_products_by_build_id env (ms_id m))
          (and_then (for_each (mark_insert_product env (ms_id m)) (enumerate 0 (ms_products m)))
          (and_then (delete_build_metrics_by_build_id env (ms_id m))
          (for_each (mark_insert_metric env m) (ms_metrics m)))))"
  have rest: "keeps (in_db (settled r0)) ?rest"
    unfolding mark_insert_product_def mark_insert_metric_def by (intro settles db_rules)
  have upd: "wp (db_update_build env (ms_id m) v) (\<lambda>_. in_db (settled r0)) w"
    if w: "in_db (settled r0) w" and free: "list_ex (\<lambda>r. br_id r = ms_id m \<and> br_finished r = 0) (t_builds (db w))"
    for v and w :: "'s io_state_scheme"
  proof -
    have "br_id r0 \<noteq> ms_id m"
    proof
      assume id: "br_id r0 = ms_id m"
      obtain r where r: "r \<in> set (t_builds (db w))" "br_id r = ms_id m" "br_finished r = 0" using free unfolding list_ex_iff by blast
      have "inj_on br_id (set (t_builds (db w)))" using w by (simp add: in_db_def settled_def distinct_map)
      then have "r = r0" by (rule inj_onD) (use w r id in \<open>simp_all add: in_db_def settled_def\<close>)
      with r w show False by (simp add: in_db_def settled_def)
    qed
    then show ?thesis
      using w by (auto simp: db_update_build_def execute_def wp_tx_sql in_db_def intro!: settled_update
          simp: updated_row_def split: option.splits)
  qed
  have marked: "wp (bind (of_sum (mark_update m c a z)) (\<lambda>v. and_then (db_update_build env (ms_id m) v) ?rest)) (\<lambda>_. in_db (settled r0)) w"
    if "in_db (settled r0) w" "list_ex (\<lambda>r. br_id r = ms_id m \<and> br_finished r = 0) (t_builds (db w))" for w :: "'s io_state_scheme"
    using wp_and_then_keeps [OF upd [OF that] rest] that(1) by (cases "mark_update m c a z") (simp_all add: wp_bind del: wp_and_then)
  show ?thesis
    unfolding mark_succeeded_build_def check_if_build_is_not_finished_def select_def keeps_iff_wp
    by (auto simp: wp_bind [of "tx_sql _ _"] wp_tx_sql in_db_def simp del: wp_bind wp_and_then
        intro!: marked split: option.splits)
qed

lemma settled_create_steps [settles]:
  "keeps (in_db (settled r0)) (create_build_step env start i p pf m st e pr outs)"
  "keeps (in_db (settled r0)) (create_substitution_step env start' stop i p out)"
  unfolding create_build_step_def create_substitution_step_def insert_step_loop_def by (intro settles db_rules)+

subsection \<open>Handlers\<close>

lemma settled_memory [settles]:
  "keeps (in_db (settled r0)) (set_step r f)" "keeps (in_db (settled r0)) (set_build b g)" "keeps (in_db (settled r0)) (set_machine m h)"
  "keeps (in_db (settled r0)) (set_info i k)" "keeps (in_db (settled r0)) (set_run l)" "keeps (in_db (settled r0)) (remove_build b)"
  "keeps (in_db (settled r0)) trigger_dispatch" "keeps (in_db (settled r0)) (drop_unowned hs hb)" "keeps (in_db (settled r0)) (remove_queued item)"
  "keeps (in_db (settled r0)) (fod_io ff)" "keeps (in_db (settled r0)) (add_dependency r d)" "keeps (in_db (settled r0)) (register_new_build v)"
  "keeps (in_db (settled r0)) (attach_build b r)" "keeps (in_db (settled r0)) (unqueue_step r)" "keeps (in_db (settled r0)) (apply_priorities ps)"
  unfolding set_step_def set_build_def set_machine_def set_info_def set_run_def remove_build_def trigger_dispatch_def
    drop_unowned_def remove_queued_def fod_io_def add_dependency_def register_new_build_def attach_build_def unqueue_step_def
    apply_priorities_def
  by (rule settles db_rules; simp add: Let_def split: prod.splits)+

lemma settled_scope [settles]:
  "keeps (in_db (settled r0)) m \<Longrightarrow> keeps (in_db (settled r0)) (scope m)"
  "keeps (in_db (settled r0)) m \<Longrightarrow> keeps (in_db (settled r0)) (scope_load m)"
  by (auto simp: keeps_def scope_def scope_load_def leave_handler_def in_db_def split: prod.splits)

lemma settled_raw [settles]:
  "keeps (in_db (settled r0)) (unschedule p)" "keeps (in_db (settled r0)) (get_all_indirect_builds r)"
  "keeps (in_db (settled r0)) (create_registered p rb rs)" "keeps (in_db (settled r0)) kill_cancelled"
  "keeps (in_db (settled r0)) clone_runnable_io" "keeps (in_db (settled r0)) (take_machine u)"
  by (auto simp: keeps_def in_db_def unschedule_def get_all_indirect_builds_def create_registered_def kill_cancelled_def
      clone_runnable_io_def take_machine_def Let_def split: option.splits prod.splits)

lemma settled_raw_bind:
  "(\<And>w. db (snd (m w)) = db w) \<Longrightarrow> keeps (in_db (settled r0)) m"
  by (simp add: keeps_def in_db_def)

lemma settled_take_job [settles]:
  "keeps (in_db (settled r0)) (take_job env m p)" "keeps (in_db (settled r0)) (resolve_io env i c)" "keeps (in_db (settled r0)) (send_to_machine env m j opts)"
  unfolding take_job_def resolve_io_def send_to_machine_def
  by (intro settles db_rules settled_raw_bind; auto simp: Let_def split: option.splits prod.splits sum.splits)+

lemma settled_finish_build_step [settles]: "keeps (in_db (settled r0)) (finish_build_step env i n res m)"
  unfolding finish_build_step_def finish_outputs_def by (intro settles db_rules)

lemma settled_inner_fail_job [settles]: "keeps (in_db (settled r0)) (inner_fail_job env held m j step)"
  unfolding inner_fail_job_def fail_loop_body_def fail_round_def create_failed_step_def fail_build_def remember_failed_paths_def
    finish_in_memory_def
  by (intro settles db_rules)

lemma settled_fail_step [settles]: "keeps (in_db (settled r0)) (fail_step env p result timings)"
  unfolding fail_step_def after_failure_def retry_later_def give_up_def Let_def by (intro settles db_rules)

lemma settled_succeed_step [settles]: "keeps (in_db (settled r0)) (succeed_step env p out)"
  unfolding succeed_step_def mark_direct_builds_def mark_direct_build_def notify_build_def finish_in_memory_def
    unblock_dependents_def upload_outputs_def schedule_upload_io_def Let_def
  by (intro settles db_rules) simp_all

lemma settled_checks [settles]:
  "keeps (in_db (settled r0)) (construct_log_file_path p)" "keeps (in_db (settled r0)) (check_cached_failure env r)"
  "keeps (in_db (settled r0)) (substitute_output env o1 i p)" "keeps (in_db (settled r0)) (find_missing_outputs env p os)"
  "keeps (in_db (settled r0)) (complete_step r)" "keeps (in_db (settled r0)) (leave_step held hb res)"
  unfolding construct_log_file_path_def check_cached_failure_def substitute_output_def find_missing_outputs_def
    schedule_upload_io_def complete_step_def leave_step_def
  by (intro settles db_rules; simp)+

lemma settled_substitute_outputs [settles]: "keeps (in_db (settled r0)) (substitute_outputs env i p os n)"
  by (induction os arbitrary: n) (simp_all, (intro settles db_rules; assumption?)+)

lemma settled_outputs_finished [settles]: "keeps (in_db (settled r0)) (outputs_finished env i p os)"
  unfolding outputs_finished_def by (intro settles db_rules)

lemma settled_create_step [settles]:
  "keeps (in_db (settled r0)) (create_step env fuel held hb build p rb rs)"
  "keeps (in_db (settled r0)) (create_inputs env fuel held hb build step is)"
proof (induction env fuel held hb build p rb rs and env fuel held hb build step "is" rule: create_step_create_inputs.induct)
  case (2 env fuel held hb build p rb rs)
  then show ?case unfolding create_step.simps by (intro settles db_rules)
next
  case (4 env fuel held hb build step i "is")
  then show ?case unfolding create_inputs.simps
    by (intro settles db_rules) (auto split: create_step_result.splits intro!: settles db_rules)
qed (simp_all add: settles db_rules)

lemma settled_record_previous_failure [settles]: "keeps (in_db (settled r0)) (record_previous_failure env v s)"
proof -
  have "keeps (in_db (settled r0)) (previous_step_of env p os)" for p os
    by (induction os) (auto intro!: settles db_rules split: sum.splits option.splits)
  then show ?thesis unfolding record_previous_failure_def by (intro settles db_rules)
qed

lemma settled_get_build_output_cached [settles]: "keeps (in_db (settled r0)) (get_build_output_cached env p)"
proof -
  have "keeps (in_db (settled r0)) (find_cached_output env os)" for os
    by (induction os) (auto intro!: settles db_rules)
  then show ?thesis unfolding get_build_output_cached_def by (intro settles db_rules)
qed

lemma settled_builds [settles]:
  "keeps (in_db (settled r0)) (handle_previous_failure env b s)" "keeps (in_db (settled r0)) (handle_cached_build env b)"
  "keeps (in_db (settled r0)) (abort_gced_build env b)"
  unfolding handle_previous_failure_def handle_cached_build_def abort_gced_build_def by (intro settles db_rules)+

lemma settled_create_build [settles]:
  "keeps (in_db (settled r0)) (create_build env step_fuel fuel held hb by_path b)"
  "keeps (in_db (settled r0)) (create_builds env step_fuel fuel held hb by_path is)"
proof (induction env step_fuel fuel held hb by_path b and env step_fuel fuel held hb by_path "is"
    rule: create_build_create_builds.induct)
  case (2 env step_fuel fuel held hb by_path b)
  then show ?case unfolding create_build.simps Let_def
    by (intro settles db_rules) (auto split: create_step_result.splits intro!: settles db_rules)
next
  case (4 env step_fuel fuel held hb by_path i "is")
  then show ?case unfolding create_builds.simps by (intro settles db_rules)
qed (simp_all add: settles db_rules)

lemma settled_load_builds [settles]: "keeps (in_db (settled r0)) (load_builds env step_fuel fuel by_path since is)"
  by (induction "is") (auto simp: load_one_def make_new_runnable_def intro!: settles db_rules)

lemma settled_load_rows [settles]: "keeps (in_db (settled r0)) (load_rows env rs acc)"
  by (induction rs arbitrary: acc) (auto simp: jobsets_create_io_def intro!: settles db_rules)

lemma settled_load [settles]:
  "keeps (in_db (settled r0)) (get_queued_builds env step_fuel fuel)" "keeps (in_db (settled r0)) (manually_add_queue_build env step_fuel fuel i)"
  "keeps (in_db (settled r0)) (queue_one_build env i p)" "keeps (in_db (settled r0)) (process_queue_change env)"
  "keeps (in_db (settled r0)) (shares_changed env)"
  unfolding get_queued_builds_def manually_add_queue_build_def process_new_builds_def queue_one_build_def
    process_queue_change_def shares_changed_def
  by (intro settles db_rules; simp)+

lemma settled_queue_monitor_round [settles]: "keeps (in_db (settled r0)) (queue_monitor_round env step_fuel fuel n)"
  unfolding queue_monitor_round_def by (intro settles db_rules)

lemma settled_by_uuid [settles]:
  "keeps (in_db (settled r0)) (succeed_step_by_uuid env b m out)" "keeps (in_db (settled r0)) (fail_step_by_uuid env b m res timings)"
  "keeps (in_db (settled r0)) (update_build_step_status env b m st)"
  unfolding succeed_step_by_uuid_def fail_step_by_uuid_def update_build_step_status_def machine_job_def by (intro settles db_rules)+

subsection \<open>The dispatcher\<close>

lemma settled_realise [settles]: "keeps (in_db (settled r0)) (realise_drv_on_valid_machine env c)"
  unfolding realise_drv_on_valid_machine_def start_job_def Let_def by (intro settles db_rules)

lemma settled_process_queues [settles]: "keeps (in_db (settled r0)) (process_queues env)"
proof -
  have "in_db (settled r0) (fst (processor env w q c))" if "in_db (settled r0) w" for w q c
    unfolding processor_def split_beta fst_conv
    by (rule keepsI [OF settled_realise]) (use that in \<open>simp add: in_db_def\<close>)
  then have "in_db (settled r0) (fst (fst (process mem_steps (processor env) now w q)))" if "in_db (settled r0) w" for now w q
    using that by (rule process_keeps [of "in_db (settled r0)"])
  then have "keeps (in_db (settled r0)) (\<lambda>w. case process mem_steps (processor env) now w (r_queues w) of
       ((w', q), _) \<Rightarrow> (Inr (), w'\<lparr>r_queues := q\<rparr>))" for now
    by (simp add: keeps_def in_db_def split_beta)
  then show ?thesis unfolding process_queues_def by (intro settles db_rules)
qed

lemma settled_abort_unsupported [settles]: "keeps (in_db (settled r0)) (abort_unsupported env)"
proof -
  have "keeps (in_db (settled r0)) (abort_steps env held now rs acc)" for held now rs acc
    by (induction rs arbitrary: acc) (auto simp: abort_one_def intro!: settles db_rules)
  then show ?thesis unfolding abort_unsupported_def by (intro settles db_rules) simp_all
qed

lemma settled_dispatch_round [settles]: "keeps (in_db (settled r0)) (dispatch_round env)"
proof -
  have "keeps (in_db (settled r0)) (collect_infos env rs acc)" for rs acc
    by (induction rs arbitrary: acc) (auto intro!: settles db_rules)
  then show ?thesis unfolding dispatch_round_def do_dispatch_once_def prune_jobsets_def enqueue_jobs_def
    by (intro settles db_rules) simp_all
qed

lemma settled_machines [settles]:
  "keeps (in_db (settled r0)) (state_insert_machine env m)" "keeps (in_db (settled r0)) (state_remove_machine env u)"
  "keeps (in_db (settled r0)) (remove_all_machines env)" "keeps (in_db (settled r0)) (state_clear_busy env)"
  unfolding state_insert_machine_def state_remove_machine_def remove_all_machines_def state_clear_busy_def
  by (intro settles db_rules; simp add: Let_def split: prod.splits)+

lemma settled_reload [settles]: "keeps (in_db (settled r0)) (reload env loaded)"
proof -
  have "keeps (in_db (settled r0)) (open_stores env us)" for us
    by (induction us) (auto intro!: settles db_rules)
  then show ?thesis unfolding reload_def reload_config_callback_def by (intro settles db_rules) (simp_all add: Let_def)
qed

subsection \<open>Runs of the runner\<close>

text \<open>
  What the queue runner does, one handler at a time: the queue monitor, the dispatcher, the reports of
  builders and requests to the two servers, each with whatever the outside world answers.
\<close>

inductive runner_step :: "state \<Rightarrow> state \<Rightarrow> bool" where
  monitor: "runner_step w (snd (queue_monitor_round (env :: runner_env) step_fuel fuel n w))"
| add_build: "runner_step w (snd (manually_add_queue_build (env :: runner_env) step_fuel fuel i w))"
| queue_one: "runner_step w (snd (queue_one_build (env :: runner_env) i p w))"
| dispatch: "runner_step w (snd (dispatch_round (env :: runner_env) w))"
| success: "runner_step w (snd (succeed_step_by_uuid (env :: runner_env) b m out w))"
| failure: "runner_step w (snd (fail_step_by_uuid (env :: runner_env) b m res timings w))"
| status: "runner_step w (snd (update_build_step_status (env :: runner_env) b m st w))"
| join: "runner_step w (snd (state_insert_machine (env :: runner_env) v w))"
| leave: "runner_step w (snd (state_remove_machine (env :: runner_env) u w))"
| leave_all: "runner_step w (snd (remove_all_machines (env :: runner_env) w))"
| clear: "runner_step w (snd (state_clear_busy (env :: runner_env) w))"
| new_config: "runner_step w (snd (reload (env :: runner_env) loaded w))"

lemma settled_runner_step: "runner_step w w' \<Longrightarrow> in_db (settled r0) w \<Longrightarrow> in_db (settled r0) w'"
  by (induction rule: runner_step.induct) (auto intro: keepsI settles)

text \<open>
  C5: a finished build is never touched again: whatever sequence of handlers runs, with whatever faults of
  the database and answers of the stores, the row of a build that is finished stays in the table as it
  is. Numbers of builds are the key of the table and new builds get numbers above the old ones.
\<close>

theorem finished_builds_never_change:
  assumes "runner_step\<^sup>*\<^sup>* w w'" and "r0 \<in> set (t_builds (db w))" and "br_finished r0 \<noteq> 0"
    and "distinct (map br_id (t_builds (db w)))" and "\<forall>r \<in> set (t_builds (db w)). br_id r < t_next_id (db w)"
  shows "r0 \<in> set (t_builds (db w')) \<and> distinct (map br_id (t_builds (db w')))"
proof -
  have "in_db (settled r0) w" using assms(2-5) by (simp add: in_db_def settled_def)
  with assms(1) have "in_db (settled r0) w'" by (induction rule: rtranclp_induct) (auto dest: settled_runner_step)
  then show ?thesis by (simp add: in_db_def settled_def)
qed

theorem finished_builds_never_change_witness:
  "\<exists>w'. runner_step\<^sup>*\<^sup>* (ex_runner\<lparr>db := (db ex_runner)\<lparr>t_builds := [(ex_build_row 7)\<lparr>br_finished := 1\<rparr>, ex_build_row 8], t_next_id := 9\<rparr>\<rparr>) w' \<and>
     (ex_build_row 7)\<lparr>br_finished := 1\<rparr> \<in> set (t_builds (db w'))"
proof -
  let ?w = "ex_runner\<lparr>db := (db ex_runner)\<lparr>t_builds := [(ex_build_row 7)\<lparr>br_finished := 1\<rparr>, ex_build_row 8], t_next_id := 9\<rparr>\<rparr>"
  let ?w1 = "snd (queue_one_build ex_world 1 ''a.drv'' ?w)"
  let ?w2 = "snd (queue_monitor_round ex_world 5 5 (Some ''builds_cancelled'') ?w1)"
  have "runner_step ?w ?w1" by (rule runner_step.queue_one)
  moreover have "runner_step ?w1 ?w2" by (rule runner_step.monitor)
  ultimately have run: "runner_step\<^sup>*\<^sup>* ?w ?w2" by auto
  then have "(ex_build_row 7)\<lparr>br_finished := 1\<rparr> \<in> set (t_builds (db ?w2))"
    using finished_builds_never_change [OF run, of "(ex_build_row 7)\<lparr>br_finished := 1\<rparr>"] by (simp add: ex_build_row_def)
  with run show ?thesis by blast
qed

end
