(* ===== verification/Nix_Store.thy ===== *)
theory Nix_Store
  imports Step_Info Rust_Str
begin

text \<open>
  The wrapper around the Nix store (crates/nix-utils/src/lib.rs, realisation.rs). The store itself is
  C++ behind a foreign function interface: its answers are the fields of \<open>nix_ffi\<close>. A call that runs on
  a blocking thread may lose that thread, \<open>f_joined\<close> tells for a call whether it came back. What the
  wrapper makes of the answers (conversions between printed and store paths, defaults for errors, missing
  paths) is modelled.
\<close>

subsection \<open>The foreign functions\<close>

record internal_path_info =
  ip_deriver :: string
  ip_nar_hash :: string
  ip_registration_time :: int
  ip_nar_size :: u64
  ip_refs :: "string list"
  ip_sigs :: "string list"
  ip_ca :: string

record nix_ffi =
  f_joined :: bool
  f_store_dir :: string
  f_is_valid_path :: "string \<Rightarrow> error + bool"
  f_query_path_info :: "string \<Rightarrow> error + internal_path_info"
  f_compute_closure_size :: "string \<Rightarrow> error + u64"
  f_compute_fs_closures :: "string list \<Rightarrow> bool \<Rightarrow> bool \<Rightarrow> bool \<Rightarrow> bool \<Rightarrow> error + string list"
  f_list_nar_deep :: "string \<Rightarrow> error + string"
  f_ensure_path :: "string \<Rightarrow> error + unit"
  f_try_resolve_drv :: "string \<Rightarrow> error + string"
  f_static_output_hashes :: "string \<Rightarrow> error + (string \<times> string) list"

definition asyncify :: "nix_ffi \<Rightarrow> error + 'a \<Rightarrow> error + 'a" where
  "asyncify s r = (if f_joined s then r else Inl (Rejected ''background task failed''))"

subsection \<open>Paths and their information\<close>

text \<open>
  \<^verbatim>\<open>Path::components\<close>: a root, then the pieces between slashes without the empty ones and without
  the dots, except a dot in front. \<^verbatim>\<open>Path::starts_with\<close> compares components.
\<close>

definition path_components :: "string \<Rightarrow> string list" where
  "path_components s =
     (if starts_with ''/'' s then [''/'']
      else if s = ''.'' \<or> starts_with ''./'' s then [''.''] else []) @
     filter (\<lambda>c. c \<noteq> [] \<and> c \<noteq> ''.'') (split_on (CHR ''/'') s)"

definition is_subpath :: "string \<Rightarrow> string \<Rightarrow> bool" where
  "is_subpath base path \<longleftrightarrow> take (length (path_components base)) (path_components path) = path_components base"

record path_info =
  pi_deriver :: "store_path option"
  pi_nar_hash :: string
  pi_registration_time :: int
  pi_nar_size :: u64
  pi_refs :: "store_path list"
  pi_sigs :: "string list"
  pi_ca :: "string option"

definition path_info_from :: "string \<Rightarrow> internal_path_info \<Rightarrow> path_info" where
  "path_info_from dir v =
     \<lparr>pi_deriver = (if ip_deriver v = [] then None else Some (store_path_new dir (ip_deriver v))),
      pi_nar_hash = ip_nar_hash v, pi_registration_time = ip_registration_time v,
      pi_nar_size = ip_nar_size v, pi_refs = map (store_path_new dir) (ip_refs v),
      pi_sigs = ip_sigs v, pi_ca = (if ip_ca v = [] then None else Some (ip_ca v))\<rparr>"

definition ok_or_none :: "error + 'a \<Rightarrow> 'a option" where
  "ok_or_none r = (case r of Inl _ \<Rightarrow> None | Inr a \<Rightarrow> Some a)"

definition store_print :: "nix_ffi \<Rightarrow> store_path \<Rightarrow> string" where
  "store_print s p = print_store_path (f_store_dir s) p"

definition is_valid_path :: "nix_ffi \<Rightarrow> store_path \<Rightarrow> bool" where
  "is_valid_path s p =
     (case asyncify s (f_is_valid_path s (store_print s p)) of Inl _ \<Rightarrow> False | Inr b \<Rightarrow> b)"

definition query_path_info :: "nix_ffi \<Rightarrow> store_path \<Rightarrow> path_info option" where
  "query_path_info s p =
     (case asyncify s (Inr (map_option (path_info_from (f_store_dir s))
                (ok_or_none (f_query_path_info s (store_print s p))))) of
        Inl _ \<Rightarrow> None | Inr o' \<Rightarrow> o')"

fun query_infos_loop ::
  "nix_ffi \<Rightarrow> store_path list \<Rightarrow> (store_path \<times> path_info) list \<Rightarrow> (store_path \<times> path_info) list" where
  "query_infos_loop s [] res = res"
| "query_infos_loop s (p # ps) res =
     (case map_option (path_info_from (f_store_dir s)) (ok_or_none (f_query_path_info s (store_print s p))) of
        None \<Rightarrow> query_infos_loop s ps res
      | Some info \<Rightarrow> query_infos_loop s ps (hm_insert p info res))"

definition query_path_infos :: "nix_ffi \<Rightarrow> store_path list \<Rightarrow> (store_path \<times> path_info) list" where
  "query_path_infos s paths =
     (case asyncify s (Inr (query_infos_loop s paths [])) of Inl _ \<Rightarrow> [] | Inr res \<Rightarrow> res)"

definition compute_closure_size :: "nix_ffi \<Rightarrow> store_path \<Rightarrow> u64" where
  "compute_closure_size s p =
     (case asyncify s (f_compute_closure_size s (store_print s p)) of Inl _ \<Rightarrow> 0 | Inr n \<Rightarrow> n)"

definition compute_fs_closures ::
  "nix_ffi \<Rightarrow> store_path list \<Rightarrow> bool \<Rightarrow> bool \<Rightarrow> bool \<Rightarrow> bool \<Rightarrow> error + store_path list" where
  "compute_fs_closures s paths flip_direction include_outputs include_derivers toposort =
     asyncify s
       (map_sum id (map (store_path_new (f_store_dir s)))
          (f_compute_fs_closures s (map (store_print s) paths) flip_direction include_outputs
             include_derivers toposort))"

definition query_requisites :: "nix_ffi \<Rightarrow> store_path list \<Rightarrow> bool \<Rightarrow> error + store_path list" where
  "query_requisites s drvs include_outputs =
     map_sum id rev (compute_fs_closures s drvs False include_outputs False True)"

definition list_nar_deep :: "nix_ffi \<Rightarrow> store_path \<Rightarrow> error + string" where
  "list_nar_deep s p = asyncify s (f_list_nar_deep s (store_print s p))"

definition ensure_path :: "nix_ffi \<Rightarrow> store_path \<Rightarrow> error + unit" where
  "ensure_path s p = asyncify s (f_ensure_path s (store_print s p))"

definition try_resolve_drv :: "nix_ffi \<Rightarrow> store_path \<Rightarrow> store_path option" where
  "try_resolve_drv s p =
     (case asyncify s
        (map_sum id (\<lambda>v. map_option (store_path_new (f_store_dir s)) (if v = [] then Some v else None))
           (f_try_resolve_drv s (store_print s p))) of
        Inl _ \<Rightarrow> None | Inr o' \<Rightarrow> o')"

definition static_output_hashes :: "nix_ffi \<Rightarrow> store_path \<Rightarrow> error + (string \<times> string) list" where
  "static_output_hashes s p =
     asyncify s (map_sum id (\<lambda>o'. fold (\<lambda>(n, h). hm_insert n h) o' []) (f_static_output_hashes s (store_print s p)))"

text \<open>The two queries for outputs that are not there, of a local and of a remote store, do the same.\<close>

definition query_missing_outputs :: "nix_ffi \<Rightarrow> drv_output list \<Rightarrow> drv_output list" where
  "query_missing_outputs s outs =
     List.map_filter (\<lambda>o'. case out_path o' of None \<Rightarrow> None
        | Some p \<Rightarrow> if is_valid_path s p then None else Some o') outs"

definition query_missing_paths :: "nix_ffi \<Rightarrow> store_path list \<Rightarrow> store_path list" where
  "query_missing_paths s paths = List.map_filter (\<lambda>p. if is_valid_path s p then None else Some p) paths"

definition query_missing_remote_outputs :: "nix_ffi \<Rightarrow> drv_output list \<Rightarrow> drv_output list" where
  "query_missing_remote_outputs s outs =
     List.map_filter (\<lambda>o'. case out_path o' of None \<Rightarrow> None
        | Some p \<Rightarrow> if is_valid_path s p then None else Some o') outs"

definition validate_statuscode :: "int option \<Rightarrow> error + unit" where
  "validate_statuscode code = (if code = Some 0 then Inr () else Inl (Rejected ''Command failed''))"

text \<open>
  \<^verbatim>\<open>add_root\<close> on the links of a directory; \<open>seen\<close> is what the two existence checks answer, which is
  false when they fail, and removing and linking may fail.
\<close>

definition add_root ::
  "((string \<times> string) list \<Rightarrow> string \<Rightarrow> bool) \<Rightarrow> bool \<Rightarrow> bool \<Rightarrow> nix_ffi \<Rightarrow> string \<Rightarrow> store_path \<Rightarrow>
     (string \<times> string) list \<Rightarrow> (string \<times> string) list" where
  "add_root seen remove_ok link_ok s root_dir p links =
     (let path = path_join root_dir p;
          links = (if seen links path \<and> remove_ok then hm_remove path links else links)
      in if \<not> seen links path \<and> link_ok \<and> hm_get links path = None
         then hm_insert path (store_print s p) links else links)"

subsection \<open>Realisations\<close>

record drv_output_id =
  di_drv_hash :: string
  di_output_name :: string

record shared_realisation =
  sr_id :: drv_output_id
  sr_out_path :: string
  sr_signatures :: "string list"
  sr_dependent_realisations :: "(drv_output_id \<times> string) list"

record realisation =
  re_id :: drv_output_id
  re_out_path :: store_path
  re_signatures :: "string list"
  re_dependent_realisations :: "(drv_output_id \<times> store_path) list"

definition drv_output_to_string :: "drv_output_id \<Rightarrow> string" where
  "drv_output_to_string i = di_drv_hash i @ ''!'' @ di_output_name i"

definition realisation_from :: "string \<Rightarrow> shared_realisation \<Rightarrow> realisation" where
  "realisation_from dir v =
     \<lparr>re_id = sr_id v, re_out_path = store_path_new dir (sr_out_path v), re_signatures = sr_signatures v,
      re_dependent_realisations =
        fold (\<lambda>(i, p). hm_insert i (store_path_new dir p)) (sr_dependent_realisations v) []\<rparr>"

definition query_raw_realisation :: "(string \<Rightarrow> error + 'r) \<Rightarrow> string \<Rightarrow> string \<Rightarrow> error + 'r" where
  "query_raw_realisation ffi output_hash output_name = ffi (output_hash @ ''!'' @ output_name)"

subsection \<open>What the queries answer\<close>

lemma query_infos_loop_get:
  "hm_get (query_infos_loop s ps res) p =
     (if p \<in> set ps \<and> ok_or_none (f_query_path_info s (store_print s p)) \<noteq> None
      then map_option (path_info_from (f_store_dir s)) (ok_or_none (f_query_path_info s (store_print s p)))
      else hm_get res p)"
  by (induction s ps res rule: query_infos_loop.induct) (auto split: option.splits simp: update_conv)

text \<open>The query for many paths agrees with the query for one.\<close>

lemma query_path_infos_get:
  "hm_get (query_path_infos s ps) p = (if p \<in> set ps then query_path_info s p else None)"
  by (auto simp: query_path_infos_def query_path_info_def asyncify_def query_infos_loop_get)

lemma query_missing_outputs_set:
  "o' \<in> set (query_missing_outputs s outs) \<longleftrightarrow>
     o' \<in> set outs \<and> (\<exists>p. out_path o' = Some p \<and> \<not> is_valid_path s p)"
  by (induction outs) (auto simp: query_missing_outputs_def map_filter_simps split: option.splits)

lemma query_missing_paths_eq: "query_missing_paths s ps = filter (\<lambda>p. \<not> is_valid_path s p) ps"
  by (induction ps) (auto simp: query_missing_paths_def map_filter_def)

text \<open>
  A path the store never heard of because its thread was lost counts as missing: a failed query is
  answered in the direction that uploads or builds again.
\<close>

lemma lost_query_is_missing: "\<not> f_joined s \<Longrightarrow> query_missing_paths s ps = ps"
  by (simp add: query_missing_paths_eq is_valid_path_def asyncify_def)

lemma is_subpath_refl: "is_subpath p p"
  by (simp add: is_subpath_def)

lemma is_subpath_trans: "is_subpath a b \<Longrightarrow> is_subpath b c \<Longrightarrow> is_subpath a c"
  unfolding is_subpath_def by (metis append_take_drop_id length_take min.absorb_iff2 min_def take_all_iff take_take nle_le)

text \<open>
  a step information never carries a resolved derivation. The store answers with an empty string when
  a derivation cannot be resolved and with the path of the resolved derivation when it can; the wrapper keeps
  the answer exactly when it is empty. So whatever the store answers, the resolved path of a step information
  is absent or empty, and it is absent when the store did resolve the derivation.
\<close>

theorem step_info_never_resolved:
  "resolved_drv_path (step_info_new (try_resolve_drv s) ns jh sh r) \<in> {None, Some []} \<and>
   (\<forall>v. f_try_resolve_drv s (store_print s (drv_path (deref sh r))) = Inr v \<longrightarrow> v \<noteq> [] \<longrightarrow>
      resolved_drv_path (step_info_new (try_resolve_drv s) ns jh sh r) = None)"
proof -
  have "strip_prefix (STORE_DIR dir) [] = None" for dir
    by (cases "STORE_DIR dir") (auto simp: STORE_DIR_def split: if_splits)
  then have "store_path_new dir [] = []" for dir
    by (simp add: store_path_new_def)
  then show ?thesis
    by (cases "f_try_resolve_drv s (store_print s (drv_path (deref sh r)))")
      (auto simp: step_info_new_def try_resolve_drv_def asyncify_def Let_def)
qed

definition ex_ffi :: nix_ffi where
  "ex_ffi = \<lparr>f_joined = True, f_store_dir = ''/nix/store'', f_is_valid_path = (\<lambda>_. Inr True),
     f_query_path_info = (\<lambda>_. Inl Store_Error), f_compute_closure_size = (\<lambda>_. Inr 0),
     f_compute_fs_closures = (\<lambda>ps _ _ _ _. Inr ps), f_list_nar_deep = (\<lambda>_. Inr []),
     f_ensure_path = (\<lambda>_. Inr ()), f_try_resolve_drv = (\<lambda>_. Inr ''/nix/store/r.drv''),
     f_static_output_hashes = (\<lambda>_. Inr [])\<rparr>"

theorem step_info_never_resolved_witness:
  "f_try_resolve_drv ex_ffi (store_print ex_ffi (drv_path (deref [Some (step_new ''a.drv'')] 0))) =
     Inr ''/nix/store/r.drv'' \<and>
   resolved_drv_path (step_info_new (try_resolve_drv ex_ffi) False [] [Some (step_new ''a.drv'')] 0) = None"
  using step_info_never_resolved [of ex_ffi False "[]" "[Some (step_new ''a.drv'')]" 0]
  by (simp add: ex_ffi_def)

end
