(* ===== verification/Nar_Info.thy ===== *)
theory Nar_Info
  imports Nix_Store
begin

text \<open>
  The description of a store path in a binary cache (crates/binary-cache/src/narinfo.rs) and the
  compressions it names (compression.rs): how a description is made from what the store knows, signed,
  printed and parsed. The printed store prefix is \<open>prefix\<close>, the store directory of the library is \<open>dir\<close>;
  \<open>convert_hash\<close> and \<open>sign_string\<close> are functions of the Nix library. A slice that is out of range panics.
\<close>

subsection \<open>Compressions\<close>

datatype compression = No_Compression | Xz | Bzip2 | Brotli | Zstd

fun compression_ext :: "compression \<Rightarrow> string" where
  "compression_ext No_Compression = ''nar''"
| "compression_ext Xz = ''nar.xz''"
| "compression_ext Bzip2 = ''nar.bz2''"
| "compression_ext Brotli = ''nar.br''"
| "compression_ext Zstd = ''nar.zst''"

definition content_type :: "compression \<Rightarrow> string" where
  "content_type c = ''application/x-nix-nar''"

definition content_encoding :: "compression \<Rightarrow> string" where
  "content_encoding c = ''''"

fun compression_as_str :: "compression \<Rightarrow> string" where
  "compression_as_str No_Compression = ''none''"
| "compression_as_str Xz = ''xz''"
| "compression_as_str Bzip2 = ''bz2''"
| "compression_as_str Brotli = ''br''"
| "compression_as_str Zstd = ''zstd''"

definition compression_from_str :: "string \<Rightarrow> string + compression" where
  "compression_from_str s =
     (let t = map ascii_lower (trim s)
      in if t = ''none'' then Inr No_Compression
         else if t = ''xz'' then Inr Xz
         else if t = ''bz2'' then Inr Bzip2
         else if t = ''br'' then Inr Brotli
         else if t = ''zstd'' \<or> t = ''zst'' then Inr Zstd
         else Inl t)"

lemma compression_round_trip [simp]: "compression_from_str (compression_as_str c) = Inr c"
  by (cases c; hypsubst; code_simp)

subsection \<open>Descriptions\<close>

record nar_info =
  ni_store_path :: store_path
  ni_url :: string
  ni_compression :: compression
  ni_file_hash :: "string option"
  ni_file_size :: "u64 option"
  ni_nar_hash :: string
  ni_nar_size :: u64
  ni_references :: "store_path list"
  ni_deriver :: "store_path option"
  ni_ca :: "string option"
  ni_sigs :: "string list"

type_synonym hash_converter = "string \<Rightarrow> hash_algorithm option \<Rightarrow> hash_format \<Rightarrow> error + string"

definition converted_nar_hash :: "hash_converter \<Rightarrow> string \<Rightarrow> string" where
  "converted_nar_hash convert_hash h =
     (if length h = 71
      then (case convert_hash (drop 7 h) (Some SHA256) Nix32 of Inl _ \<Rightarrow> h | Inr c \<Rightarrow> c)
      else h)"

definition nar_hash_url :: "string \<Rightarrow> store_path \<Rightarrow> error + string" where
  "nar_hash_url h path =
     (case strip_prefix ''sha256:'' h of
        Some r \<Rightarrow> Inr r
      | None \<Rightarrow> (case sp_hash_part path of None \<Rightarrow> Inl Panicked | Some p \<Rightarrow> Inr p))"

definition nar_info_simple ::
  "hash_converter \<Rightarrow> store_path \<Rightarrow> path_info \<Rightarrow> compression \<Rightarrow> error + nar_info" where
  "nar_info_simple convert_hash path info c =
     (let h = converted_nar_hash convert_hash (pi_nar_hash info)
      in map_sum id (\<lambda>u.
           \<lparr>ni_store_path = path, ni_url = ''nar/'' @ u @ ''.'' @ compression_ext c, ni_compression = c,
            ni_file_hash = None, ni_file_size = None, ni_nar_hash = h, ni_nar_size = pi_nar_size info,
            ni_references = pi_refs info, ni_deriver = pi_deriver info, ni_ca = pi_ca info, ni_sigs = []\<rparr>)
         (nar_hash_url h path))"

text \<open>The text that is signed; \<open>None\<close> inside is a description that is not signed.\<close>

definition fingerprint_path :: "string \<Rightarrow> string \<Rightarrow> nar_info \<Rightarrow> error + string option" where
  "fingerprint_path dir prefix ni =
     (let abs_path = print_store_path prefix (ni_store_path ni);
          refs = map (print_store_path prefix) (ni_references ni)
      in if length abs_path < length dir then Inl Panicked
         else if take (length dir) abs_path \<noteq> dir then Inr None
         else if length (ni_nar_hash ni) < 7 then Inl Panicked
         else if take 7 (ni_nar_hash ni) \<noteq> ''sha256:'' then Inr None
         else if length (ni_nar_hash ni) \<noteq> 59 then Inr None
         else
           (case List.find (\<lambda>r. length r < length dir \<or> take (length dir) r \<noteq> dir) refs of
              Some r \<Rightarrow> if length r < length dir then Inl Panicked else Inr None
            | None \<Rightarrow> Inr (Some (''1;'' @ abs_path @ '';'' @ ni_nar_hash ni @ '';'' @
                       nat_to_string (unat (ni_nar_size ni)) @ '';'' @ join_with (CHR '','') refs))))"

definition clear_sigs_and_sign ::
  "(string \<Rightarrow> string \<Rightarrow> string) \<Rightarrow> string \<Rightarrow> string \<Rightarrow> string list \<Rightarrow> nar_info \<Rightarrow> error + nar_info" where
  "clear_sigs_and_sign sign_string dir prefix signing_keys ni =
     (if signing_keys = [] then Inr (ni\<lparr>ni_sigs := []\<rparr>)
      else map_sum id (\<lambda>fp. case fp of
             None \<Rightarrow> ni\<lparr>ni_sigs := []\<rparr>
           | Some f \<Rightarrow> ni\<lparr>ni_sigs := map (\<lambda>k. sign_string k f) signing_keys\<rparr>)
         (fingerprint_path dir prefix (ni\<lparr>ni_sigs := []\<rparr>)))"

definition nar_info_new ::
  "hash_converter \<Rightarrow> (string \<Rightarrow> string \<Rightarrow> string) \<Rightarrow> string \<Rightarrow> string \<Rightarrow> store_path \<Rightarrow> path_info \<Rightarrow>
     compression \<Rightarrow> string list \<Rightarrow> error + nar_info" where
  "nar_info_new convert_hash sign_string dir prefix path info c signing_keys =
     (case nar_info_simple convert_hash path info c of
        Inl e \<Rightarrow> Inl e
      | Inr ni \<Rightarrow>
          map_sum id (\<lambda>ni. if ni_sigs ni = [] \<and> pi_sigs info \<noteq> [] then ni\<lparr>ni_sigs := pi_sigs info\<rparr> else ni)
            (clear_sigs_and_sign sign_string dir prefix signing_keys ni))"

definition get_ls_path :: "nar_info \<Rightarrow> error + string" where
  "get_ls_path ni =
     (case sp_hash_part (ni_store_path ni) of None \<Rightarrow> Inl Panicked | Some h \<Rightarrow> Inr (h @ ''.ls''))"

subsection \<open>Printing\<close>

definition field :: "string \<Rightarrow> string \<Rightarrow> string" where
  "field k v = k @ '': '' @ v"

definition render_lines :: "string \<Rightarrow> nar_info \<Rightarrow> string list" where
  "render_lines prefix ni =
     [field ''StorePath'' (print_store_path prefix (ni_store_path ni)),
      field ''URL'' (ni_url ni),
      field ''Compression'' (compression_as_str (ni_compression ni))] @
     (case ni_file_hash ni of None \<Rightarrow> [] | Some h \<Rightarrow> [field ''FileHash'' h]) @
     (case ni_file_size ni of None \<Rightarrow> [] | Some s \<Rightarrow> [field ''FileSize'' (nat_to_string (unat s))]) @
     [field ''NarHash'' (ni_nar_hash ni),
      field ''NarSize'' (nat_to_string (unat (ni_nar_size ni))),
      field ''References'' (join_with (CHR '' '') (ni_references ni))] @
     (case ni_deriver ni of None \<Rightarrow> [] | Some d \<Rightarrow> [field ''Deriver'' d]) @
     (case ni_ca ni of None \<Rightarrow> [] | Some ca \<Rightarrow> [field ''CA'' ca]) @
     map (field ''Sig'') (ni_sigs ni)"

definition render :: "string \<Rightarrow> nar_info \<Rightarrow> string" where
  "render prefix ni = concat (map (\<lambda>l. l @ [newline]) (render_lines prefix ni))"

subsection \<open>Parsing\<close>

datatype nar_info_error =
    MissingField string
  | InvalidField string string
  | Bad_Line nat
  | Bad_Int string int_error

record nar_parse =
  np_out :: nar_info
  have_store_path :: bool
  have_url :: bool
  have_compression :: bool
  have_nar_hash :: bool
  have_nar_size :: bool

definition nar_parse_start :: "string \<Rightarrow> nar_parse" where
  "nar_parse_start dir =
     \<lparr>np_out = \<lparr>ni_store_path = store_path_new dir ''aaaaaaaaaaaaaaaaaaaaaaaaaaaaaaaa-bla'',
        ni_url = [], ni_compression = No_Compression, ni_file_hash = None, ni_file_size = None,
        ni_nar_hash = [], ni_nar_size = 0, ni_references = [], ni_deriver = None, ni_ca = None, ni_sigs = []\<rparr>,
      have_store_path = False, have_url = False, have_compression = False, have_nar_hash = False,
      have_nar_size = False\<rparr>"

definition set_field :: "string \<Rightarrow> string \<Rightarrow> string \<Rightarrow> nar_parse \<Rightarrow> nar_info_error + nar_parse" where
  "set_field dir key val p =
     (let out = np_out p in
      if key = ''StorePath'' then
        Inr (p\<lparr>np_out := out\<lparr>ni_store_path := store_path_new dir val\<rparr>, have_store_path := True\<rparr>)
      else if key = ''URL'' then Inr (p\<lparr>np_out := out\<lparr>ni_url := val\<rparr>, have_url := True\<rparr>)
      else if key = ''Compression'' then
        (case compression_from_str val of
           Inl e \<Rightarrow> Inl (InvalidField ''Compression'' e)
         | Inr c \<Rightarrow> Inr (p\<lparr>np_out := out\<lparr>ni_compression := c\<rparr>, have_compression := True\<rparr>))
      else if key = ''FileHash'' then Inr (p\<lparr>np_out := out\<lparr>ni_file_hash := Some val\<rparr>\<rparr>)
      else if key = ''FileSize'' then
        (case parse_u64 val of
           Inl e \<Rightarrow> Inl (Bad_Int ''FileSize'' e)
         | Inr n \<Rightarrow> Inr (p\<lparr>np_out := out\<lparr>ni_file_size := Some n\<rparr>\<rparr>))
      else if key = ''NarHash'' then Inr (p\<lparr>np_out := out\<lparr>ni_nar_hash := val\<rparr>, have_nar_hash := True\<rparr>)
      else if key = ''NarSize'' then
        (case parse_u64 val of
           Inl e \<Rightarrow> Inl (Bad_Int ''NarSize'' e)
         | Inr n \<Rightarrow> Inr (p\<lparr>np_out := out\<lparr>ni_nar_size := n\<rparr>, have_nar_size := True\<rparr>))
      else if key = ''References'' then
        Inr (p\<lparr>np_out := out\<lparr>ni_references := map (store_path_new dir) (split_whitespace val)\<rparr>\<rparr>)
      else if key = ''Deriver'' then
        Inr (p\<lparr>np_out := out\<lparr>ni_deriver := (if val = [] then None else Some (store_path_new dir val))\<rparr>\<rparr>)
      else if key = ''CA'' then Inr (p\<lparr>np_out := out\<lparr>ni_ca := (if val = [] then None else Some val)\<rparr>\<rparr>)
      else if key = ''Sig'' then
        Inr (p\<lparr>np_out := (if val = [] then out else out\<lparr>ni_sigs := ni_sigs out @ [val]\<rparr>)\<rparr>)
      else Inr p)"

definition parse_line :: "string \<Rightarrow> nat \<Rightarrow> string \<Rightarrow> nar_parse \<Rightarrow> nar_info_error + nar_parse" where
  "parse_line dir line_no raw p =
     (let line = trim raw in
      if line = [] \<or> starts_with ''#'' line then Inr p
      else (case split_once (CHR '':'') line of
              None \<Rightarrow> Inl (Bad_Line line_no)
            | Some (k, v) \<Rightarrow>
                set_field dir (trim k)
                  (trim_end (case strip_prefix '' '' v of None \<Rightarrow> v | Some stripped \<Rightarrow> stripped)) p))"

fun parse_lines :: "string \<Rightarrow> nat \<Rightarrow> string list \<Rightarrow> nar_parse \<Rightarrow> nar_info_error + nar_parse" where
  "parse_lines dir idx [] p = Inr p"
| "parse_lines dir idx (l # ls) p =
     (case parse_line dir (idx + 1) l p of Inl e \<Rightarrow> Inl e | Inr p' \<Rightarrow> parse_lines dir (idx + 1) ls p')"

definition check_required :: "nar_parse \<Rightarrow> nar_info_error + nar_info" where
  "check_required p =
     (if \<not> have_store_path p then Inl (MissingField ''StorePath'')
      else if \<not> have_url p then Inl (MissingField ''URL'')
      else if \<not> have_compression p then Inl (MissingField ''Compression'')
      else if \<not> have_nar_hash p then Inl (MissingField ''NarHash'')
      else if \<not> have_nar_size p then Inl (MissingField ''NarSize'')
      else Inr (np_out p))"

definition nar_info_from_str :: "string \<Rightarrow> string \<Rightarrow> nar_info_error + nar_info" where
  "nar_info_from_str dir input =
     (case parse_lines dir 0 (lines input) (nar_parse_start dir) of
        Inl e \<Rightarrow> Inl e | Inr p \<Rightarrow> check_required p)"

subsection \<open>A printed description parses back\<close>

definition key_ok :: "string \<Rightarrow> bool" where
  "key_ok k \<longleftrightarrow> word k \<and> CHR '':'' \<notin> set k \<and> hd k \<noteq> CHR ''#''"

definition value_ok :: "string \<Rightarrow> bool" where
  "value_ok v \<longleftrightarrow> newline \<notin> set v \<and> (v = [] \<or> \<not> is_ascii_space (last v))"

definition path_ok :: "store_path \<Rightarrow> bool" where
  "path_ok p \<longleftrightarrow> word p \<and> hd p \<noteq> CHR ''/''"

definition dir_ok :: "string \<Rightarrow> bool" where
  "dir_ok dir \<longleftrightarrow> dir \<noteq> [] \<and> hd dir = CHR ''/'' \<and> last dir \<noteq> CHR ''/'' \<and> newline \<notin> set dir"

definition nar_info_ok :: "nar_info \<Rightarrow> bool" where
  "nar_info_ok ni \<longleftrightarrow>
     path_ok (ni_store_path ni) \<and> value_ok (ni_url ni) \<and> pred_option value_ok (ni_file_hash ni) \<and>
     value_ok (ni_nar_hash ni) \<and> list_all path_ok (ni_references ni) \<and> pred_option path_ok (ni_deriver ni) \<and>
     pred_option (\<lambda>v. v \<noteq> [] \<and> value_ok v) (ni_ca ni) \<and> list_all (\<lambda>v. v \<noteq> [] \<and> value_ok v) (ni_sigs ni)"

lemma space_chars [simp]: "is_ascii_space (CHR '' '')" "is_ascii_space newline" "is_ascii_space (CHR 0x0D)"
  "\<not> is_ascii_space (CHR '':'')"
  by (simp_all add: is_ascii_space_def newline_def)

lemma word_last: "word p \<Longrightarrow> p \<noteq> [] \<and> \<not> is_ascii_space (hd p) \<and> \<not> is_ascii_space (last p) \<and> newline \<notin> set p"
  using space_chars(2) by (auto simp: word_def list_all_iff)

lemma value_ok_word: "word p \<Longrightarrow> value_ok p"
  using word_last by (auto simp: value_ok_def)

lemma value_ok_append: "newline \<notin> set a \<Longrightarrow> value_ok b \<Longrightarrow> b \<noteq> [] \<Longrightarrow> value_ok (a @ b)"
  by (auto simp: value_ok_def)

lemma strip_cr_field: "value_ok v \<Longrightarrow> strip_cr (field k v) = field k v"
  using space_chars(3) by (auto simp: strip_cr_def field_def value_ok_def)

lemma trim_field:
  "key_ok k \<Longrightarrow> value_ok v \<Longrightarrow> trim (field k v) = k @ '':'' @ (if v = [] then [] else '' '' @ v)"
  using word_last [of k]
  by (cases k; cases v rule: rev_cases)
    (auto simp: key_ok_def field_def value_ok_def trim_eq trim_end_def)

lemma parse_line_field:
  assumes k: "key_ok k" and v: "value_ok v"
  shows "parse_line dir n (strip_cr (field k v)) p = set_field dir k v p"
proof -
  let ?rest = "if v = [] then [] else '' '' @ v"
  have "split_once (CHR '':'') (trim (field k v)) = Some (k, ?rest)"
    using k by (simp add: trim_field [OF k v] split_once_append key_ok_def del: append.simps(2)) (simp add: split_once_append)
  moreover have "trim k = k" using word_last [of k] k by (simp add: key_ok_def)
  moreover have "trim (field k v) \<noteq> [] \<and> \<not> starts_with ''#'' (trim (field k v))"
    unfolding trim_field [OF k v] using k by (cases k) (auto simp: key_ok_def word_def starts_with_def)
  moreover have "trim_end v = v" using v by (auto simp: value_ok_def)
  ultimately show ?thesis
    by (auto simp: parse_line_def strip_cr_field [OF v])
qed

fun set_fields :: "string \<Rightarrow> (string \<times> string) list \<Rightarrow> nar_parse \<Rightarrow> nar_info_error + nar_parse" where
  "set_fields dir [] p = Inr p"
| "set_fields dir ((k, v) # r) p = (case set_field dir k v p of Inl e \<Rightarrow> Inl e | Inr p' \<Rightarrow> set_fields dir r p')"

lemma parse_lines_fields:
  "list_all (\<lambda>(k, v). key_ok k \<and> value_ok v) kvs \<Longrightarrow>
   parse_lines dir i (map (\<lambda>(k, v). strip_cr (field k v)) kvs) p = set_fields dir kvs p"
  by (induction dir kvs p arbitrary: i rule: set_fields.induct) (auto simp: parse_line_field split: sum.splits)

lemma set_fields_append:
  "set_fields dir (xs @ ys) p = (case set_fields dir xs p of Inl e \<Rightarrow> Inl e | Inr p' \<Rightarrow> set_fields dir ys p')"
  by (induction dir xs p rule: set_fields.induct) (auto split: sum.splits)

definition opt_field :: "string \<Rightarrow> string option \<Rightarrow> (string \<times> string) list" where
  "opt_field k o' = (case o' of None \<Rightarrow> [] | Some v \<Rightarrow> [(k, v)])"

definition render_fields :: "string \<Rightarrow> nar_info \<Rightarrow> (string \<times> string) list" where
  "render_fields prefix ni =
     [(''StorePath'', print_store_path prefix (ni_store_path ni)), (''URL'', ni_url ni),
      (''Compression'', compression_as_str (ni_compression ni))] @
     opt_field ''FileHash'' (ni_file_hash ni) @
     opt_field ''FileSize'' (map_option (\<lambda>s. nat_to_string (unat s)) (ni_file_size ni)) @
     [(''NarHash'', ni_nar_hash ni), (''NarSize'', nat_to_string (unat (ni_nar_size ni))),
      (''References'', join_with (CHR '' '') (ni_references ni))] @
     opt_field ''Deriver'' (ni_deriver ni) @ opt_field ''CA'' (ni_ca ni) @
     map (\<lambda>s. (''Sig'', s)) (ni_sigs ni)"

lemma render_lines_fields: "render_lines prefix ni = map (\<lambda>(k, v). field k v) (render_fields prefix ni)"
  by (simp add: render_lines_def render_fields_def opt_field_def split: option.splits)

lemma store_path_new_ok: "dir_ok dir \<Longrightarrow> path_ok p \<Longrightarrow> store_path_new dir p = p"
  by (cases p; cases dir) (auto simp: dir_ok_def path_ok_def word_def store_path_new_def STORE_DIR_def)

lemma store_path_new_print: "dir_ok dir \<Longrightarrow> path_ok p \<Longrightarrow> store_path_new dir (print_store_path dir p) = p"
proof -
  assume d: "dir_ok dir" and p: "path_ok p"
  have "print_store_path dir p = STORE_DIR dir @ p"
    using d by (simp add: dir_ok_def print_store_path_def STORE_DIR_def)
  moreover have "strip_prefix ''/'' p = None" using p by (cases p) (auto simp: path_ok_def word_def)
  ultimately show ?thesis by (simp add: store_path_new_def del: strip_prefix.simps)
qed

lemma value_ok_number: "value_ok (nat_to_string n)"
proof -
  have "48 \<le> (of_char c :: nat)" if "c \<in> set (nat_to_string n)" for c
    using nat_to_string_digits that by blast
  then have "\<not> is_ascii_space c" if "c \<in> set (nat_to_string n)" for c
    using that by (fastforce simp: is_ascii_space_def)
  moreover have "nat_to_string n \<noteq> []" using nat_to_string_head [of n] by auto
  ultimately show ?thesis by (intro value_ok_word) (auto simp: word_def list_all_iff)
qed

lemma value_ok_words: "list_all word ps \<Longrightarrow> value_ok (join_with (CHR '' '') ps)"
proof (induction "CHR '' ''" ps rule: join_with.induct)
  case (2 p)
  then show ?case by (simp add: value_ok_word)
next
  case (3 p q ps)
  have "join_with (CHR '' '') (q # ps) \<noteq> []" using 3(2) by (cases ps) (auto simp: word_def)
  with 3 word_last [of p] show ?case
    using value_ok_append [of "p @ '' ''" "join_with (CHR '' '') (q # ps)"] by (auto simp: newline_def)
qed (simp add: value_ok_def)

lemma paths_are_words: "list_all path_ok ps \<Longrightarrow> list_all word ps"
  by (auto simp: list_all_iff path_ok_def)

lemma key_names [simp]:
  "key_ok ''StorePath''" "key_ok ''URL''" "key_ok ''Compression''" "key_ok ''FileHash''" "key_ok ''FileSize''"
  "key_ok ''NarHash''" "key_ok ''NarSize''" "key_ok ''References''" "key_ok ''Deriver''" "key_ok ''CA''"
  "key_ok ''Sig''"
  by (simp_all add: key_ok_def word_def is_ascii_space_def)

lemma value_ok_compression: "value_ok (compression_as_str c)"
  by (cases c) (simp_all add: value_ok_def newline_def is_ascii_space_def)

lemma opt_field_ok:
  "key_ok k \<Longrightarrow> pred_option value_ok o' \<Longrightarrow> list_all (\<lambda>(k, v). key_ok k \<and> value_ok v) (opt_field k o')"
  by (cases o') (auto simp: opt_field_def)

lemma render_fields_ok:
  assumes "nar_info_ok ni" and "dir_ok dir"
  shows "list_all (\<lambda>(k, v). key_ok k \<and> value_ok v) (render_fields dir ni)"
proof -
  have "value_ok (print_store_path dir (ni_store_path ni))"
    using assms value_ok_append [of "dir @ ''/''" "ni_store_path ni"] value_ok_word word_last
    by (auto simp: print_store_path_def nar_info_ok_def path_ok_def dir_ok_def newline_def word_def)
  moreover have "value_ok (join_with (CHR '' '') (ni_references ni))"
    using assms by (intro value_ok_words paths_are_words) (simp add: nar_info_ok_def)
  moreover have "pred_option value_ok (ni_deriver ni)" "pred_option value_ok (ni_ca ni)"
    "pred_option value_ok (map_option (\<lambda>s. nat_to_string (unat s)) (ni_file_size ni))"
    using assms value_ok_word value_ok_number
    by (cases "ni_deriver ni"; cases "ni_ca ni"; cases "ni_file_size ni"; simp add: nar_info_ok_def path_ok_def)+
  ultimately show ?thesis
    using assms value_ok_number value_ok_compression
    by (auto simp: render_fields_def opt_field_ok nar_info_ok_def list_all_iff [of _ "map _ _"])
      (auto simp: list_all_iff)
qed

lemma set_sigs:
  "list_all (\<lambda>v. v \<noteq> []) sigs \<Longrightarrow>
   set_fields dir (map (\<lambda>s. (''Sig'', s)) sigs) p = Inr (p\<lparr>np_out := (np_out p)\<lparr>ni_sigs := ni_sigs (np_out p) @ sigs\<rparr>\<rparr>)"
  by (induction sigs arbitrary: p) (auto simp: set_field_def Let_def)

lemma set_opt_fields:
  "set_fields dir (opt_field ''FileHash'' h) p =
     Inr (if h = None then p else p\<lparr>np_out := (np_out p)\<lparr>ni_file_hash := h\<rparr>\<rparr>)"
  "set_fields dir (opt_field ''FileSize'' (map_option (\<lambda>s. nat_to_string (unat s)) n)) p =
     Inr (if n = None then p else p\<lparr>np_out := (np_out p)\<lparr>ni_file_size := n\<rparr>\<rparr>)"
  "pred_option (\<lambda>v. v \<noteq> []) c \<Longrightarrow> set_fields dir (opt_field ''CA'' c) p =
     Inr (if c = None then p else p\<lparr>np_out := (np_out p)\<lparr>ni_ca := c\<rparr>\<rparr>)"
  "pred_option (\<lambda>v. v \<noteq> [] \<and> store_path_new dir v = v) d \<Longrightarrow> set_fields dir (opt_field ''Deriver'' d) p =
     Inr (if d = None then p else p\<lparr>np_out := (np_out p)\<lparr>ni_deriver := d\<rparr>\<rparr>)"
  by (auto simp: opt_field_def set_field_def Let_def parse_u64_print split: option.splits)

lemma set_render_fields:
  assumes ok: "nar_info_ok ni" and d: "dir_ok dir"
  shows "(case set_fields dir (render_fields dir ni) (nar_parse_start dir) of
           Inl e \<Rightarrow> Inl e | Inr p \<Rightarrow> check_required p) = Inr ni"
proof -
  have refs: "map (store_path_new dir) (split_whitespace (join_with (CHR '' '') (ni_references ni))) = ni_references ni"
    using ok store_path_new_ok [OF d]
    by (auto simp: split_whitespace_join [OF paths_are_words] nar_info_ok_def list_all_iff intro: map_idI)
  have sigs: "list_all (\<lambda>v. v \<noteq> []) (ni_sigs ni)" using ok by (simp add: nar_info_ok_def list_all_iff)
  have path: "store_path_new dir (print_store_path dir (ni_store_path ni)) = ni_store_path ni"
    using ok by (simp add: store_path_new_print [OF d] nar_info_ok_def)
  have deriver: "pred_option (\<lambda>v. v \<noteq> [] \<and> store_path_new dir v = v) (ni_deriver ni)"
    using ok store_path_new_ok [OF d] by (cases "ni_deriver ni") (auto simp: nar_info_ok_def path_ok_def word_def)
  have ca: "pred_option (\<lambda>v. v \<noteq> []) (ni_ca ni)"
    using ok by (cases "ni_ca ni") (auto simp: nar_info_ok_def)
  show ?thesis
    by (simp add: render_fields_def set_fields_append set_opt_fields deriver ca set_sigs [OF sigs]
          set_field_def refs path parse_u64_print nar_parse_start_def check_required_def Let_def)
qed

lemma nar_info_prints_back:
  assumes "nar_info_ok ni" and "dir_ok dir"
  shows "nar_info_from_str dir (render dir ni) = Inr ni"
proof -
  note ok = render_fields_ok [OF assms]
  have "newline \<notin> set l" if "l \<in> set (render_lines dir ni)" for l
    using that ok word_last
    by (fastforce simp: render_lines_fields list_all_iff field_def value_ok_def key_ok_def newline_def)
  then have "lines (render dir ni) = map strip_cr (render_lines dir ni)"
    unfolding render_def by (rule lines_concat)
  also have "\<dots> = map (\<lambda>(k, v). strip_cr (field k v)) (render_fields dir ni)"
    by (simp add: render_lines_fields comp_def case_prod_beta)
  finally show ?thesis
    using set_render_fields [OF assms] by (simp add: nar_info_from_str_def parse_lines_fields [OF ok])
qed

text \<open>
  C30: a printed description parses back. For every store directory that is absolute, without a slash at
  its end and without a line feed, and every description whose texts are single lines without white space at
  their end, whose paths are words that do not start with a slash and whose content address and
  signatures are not empty, parsing the printed description gives the same description.
\<close>

theorem nar_info_round_trip:
  assumes "nar_info_ok ni" and "dir_ok dir"
  shows "nar_info_from_str dir (render dir ni) = Inr ni"
  using assms by (rule nar_info_prints_back)

definition ex_nar_info :: nar_info where
  "ex_nar_info =
     \<lparr>ni_store_path = ''0123456789abcdfghijklmnpqrsvwxyz-hello'', ni_url = ''nar/1.nar.xz'', ni_compression = Xz,
      ni_file_hash = Some ''sha256:1'', ni_file_size = Some 7,
      ni_nar_hash = ''sha256:0123456789abcdfghijklmnpqrsvwxyz0123456789abcdfghijk'', ni_nar_size = 120,
      ni_references = [''aaaa-glibc'', ''bbbb-bash''], ni_deriver = Some ''cccc-hello.drv'', ni_ca = None,
      ni_sigs = [''key-1:sig'']\<rparr>"

theorem nar_info_round_trip_witness:
  "nar_info_from_str ''/nix/store'' (render ''/nix/store'' ex_nar_info) = Inr ex_nar_info \<and>
   nar_info_ok ex_nar_info \<and> dir_ok ''/nix/store''"
proof -
  have "nar_info_ok ex_nar_info"
    by (simp add: ex_nar_info_def nar_info_ok_def path_ok_def value_ok_def word_def is_ascii_space_def newline_def)
  moreover have "dir_ok ''/nix/store''" by code_simp
  ultimately show ?thesis using nar_info_round_trip [of ex_nar_info "''/nix/store''"] by blast
qed

subsection \<open>What is signed\<close>

definition sign_safe :: "string \<Rightarrow> nar_info \<Rightarrow> bool" where
  "sign_safe prefix ni \<longleftrightarrow>
     list_all (\<lambda>s. CHR '';'' \<notin> set s \<and> CHR '','' \<notin> set s) (prefix # ni_store_path ni # ni_references ni) \<and>
     CHR '';'' \<notin> set (ni_nar_hash ni)"

lemma print_store_path_inj [simp]: "print_store_path prefix a = print_store_path prefix b \<longleftrightarrow> a = b"
  by (simp add: print_store_path_def)

lemma nat_to_string_inj [simp]: "nat_to_string a = nat_to_string b \<longleftrightarrow> a = b"
  by (metis string_to_nat_to_string)

lemma nat_to_string_no: "(of_char c :: nat) < 48 \<or> 58 \<le> (of_char c :: nat) \<Longrightarrow> c \<notin> set (nat_to_string n)"
  using nat_to_string_digits [of c n] by auto

lemma join_with_set: "x \<in> set (join_with c ps) \<Longrightarrow> x = c \<or> (\<exists>p \<in> set ps. x \<in> set p)"
  by (induction c ps rule: join_with.induct) auto

lemma join_with_inj:
  assumes "join_with c ps = join_with c qs" and "\<forall>p \<in> set ps \<union> set qs. c \<notin> set p \<and> p \<noteq> []"
  shows "ps = qs"
proof -
  have empty: "join_with c xs = [] \<longleftrightarrow> xs = []" if "\<forall>p \<in> set xs. p \<noteq> []" for xs
    using that by (induction c xs rule: join_with.induct) auto
  show ?thesis
  proof (cases "ps = [] \<or> qs = []")
    case True
    then show ?thesis using assms empty [of ps] empty [of qs] by auto
  next
    case False
    then show ?thesis using assms by (metis UnI1 UnI2 split_join)
  qed
qed

lemma fingerprint_pieces:
  assumes "fingerprint_path dir prefix ni = Inr (Some f)" and "sign_safe prefix ni"
  shows "split_on (CHR '';'') f =
     [''1'', print_store_path prefix (ni_store_path ni), ni_nar_hash ni, nat_to_string (unat (ni_nar_size ni)),
      join_with (CHR '','') (map (print_store_path prefix) (ni_references ni))]"
proof -
  let ?refs = "map (print_store_path prefix) (ni_references ni)"
  let ?ps = "[''1'', print_store_path prefix (ni_store_path ni), ni_nar_hash ni,
      nat_to_string (unat (ni_nar_size ni)), join_with (CHR '','') ?refs]"
  have "f = join_with (CHR '';'') ?ps"
    using assms(1) by (auto simp: fingerprint_path_def Let_def split: if_splits option.splits)
  moreover have "CHR '';'' \<notin> set p" if "p \<in> set ?ps" for p
    using that assms(2) nat_to_string_no [of "CHR '';''"] join_with_set [of "CHR '';''" "CHR '',''" ?refs]
    by (auto simp: sign_safe_def print_store_path_def list_all_iff)
  ultimately show ?thesis using split_join [of ?ps "CHR '';''"] by simp
qed

text \<open>
  C31: the signed text determines what it vouches for. When two descriptions have the same fingerprint, and
  their paths are free of the separators, they agree in the store path, the hash and the size of the
  archive and the references: a signature cannot be moved to another path or another content.
\<close>

theorem fingerprint_injective:
  assumes "fingerprint_path dir prefix a = Inr (Some f)" and "fingerprint_path dir prefix b = Inr (Some f)"
    and "sign_safe prefix a" and "sign_safe prefix b"
  shows "ni_store_path a = ni_store_path b \<and> ni_nar_hash a = ni_nar_hash b \<and> ni_nar_size a = ni_nar_size b \<and>
    ni_references a = ni_references b"
proof -
  let ?pr = "print_store_path prefix"
  have eqs: "?pr (ni_store_path a) = ?pr (ni_store_path b)" "ni_nar_hash a = ni_nar_hash b"
    "nat_to_string (unat (ni_nar_size a)) = nat_to_string (unat (ni_nar_size b))"
    "join_with (CHR '','') (map ?pr (ni_references a)) = join_with (CHR '','') (map ?pr (ni_references b))"
    using fingerprint_pieces [OF assms(1,3)] fingerprint_pieces [OF assms(2,4)] by auto
  have "map ?pr (ni_references a) = map ?pr (ni_references b)"
    using eqs(4) assms(3,4)
    by (intro join_with_inj) (auto simp: sign_safe_def list_all_iff print_store_path_def)
  then have "ni_references a = ni_references b"
    by (rule map_injective) (simp add: inj_def)
  with eqs show ?thesis by (simp add: unsigned_word_eqI)
qed

theorem fingerprint_injective_witness:
  "\<exists>f. fingerprint_path ''/nix/store'' ''/nix/store'' ex_nar_info = Inr (Some f) \<and>
       sign_safe ''/nix/store'' ex_nar_info \<and>
       (\<forall>b. fingerprint_path ''/nix/store'' ''/nix/store'' b = Inr (Some f) \<longrightarrow> sign_safe ''/nix/store'' b \<longrightarrow>
          ni_store_path b = ni_store_path ex_nar_info \<and> ni_nar_hash b = ni_nar_hash ex_nar_info)"
proof -
  obtain f where f: "fingerprint_path ''/nix/store'' ''/nix/store'' ex_nar_info = Inr (Some f)"
    by (simp add: ex_nar_info_def fingerprint_path_def print_store_path_def)
  have safe: "sign_safe ''/nix/store'' ex_nar_info" by code_simp
  have "ni_store_path b = ni_store_path ex_nar_info \<and> ni_nar_hash b = ni_nar_hash ex_nar_info"
    if "fingerprint_path ''/nix/store'' ''/nix/store'' b = Inr (Some f)" "sign_safe ''/nix/store'' b" for b
    using fingerprint_injective [OF f that(1) safe that(2)] by simp
  with f safe show ?thesis by blast
qed

end
