(* ===== verification/Cache_Config.thy ===== *)
theory Cache_Config
  imports Nar_Info
begin

text \<open>
  The configuration of the binary cache (crates/binary-cache/src/cfg.rs): its defaults, the builder
  methods, the configuration read from a URI and the credentials read from a file of AWS. The parsers of
  URIs and of ini files are libraries: they are the argument \<open>parse_url\<close> and the parsed file.
  Durations are in seconds.
\<close>

subsection \<open>The client\<close>

datatype s3_scheme = HTTP | HTTPS

definition s3_scheme_from_str :: "string \<Rightarrow> string + s3_scheme" where
  "s3_scheme_from_str s =
     (let t = map ascii_lower (trim s)
      in if t = ''http'' then Inr HTTP else if t = ''https'' then Inr HTTPS else Inl t)"

record s3_credentials_config =
  access_key_id :: string
  secret_access_key :: string

record s3_client_config =
  sc_region :: string
  sc_scheme :: s3_scheme
  sc_endpoint :: "string option"
  sc_bucket :: string
  sc_profile :: "string option"
  sc_credentials :: "s3_credentials_config option"

definition s3_client_config_new :: "string \<Rightarrow> s3_client_config" where
  "s3_client_config_new bucket =
     \<lparr>sc_region = ''us-east-1'', sc_scheme = HTTPS, sc_endpoint = None, sc_bucket = bucket,
      sc_profile = None, sc_credentials = None\<rparr>"

definition with_region :: "string option \<Rightarrow> s3_client_config \<Rightarrow> s3_client_config" where
  "with_region v c = (case v of None \<Rightarrow> c | Some r \<Rightarrow> c\<lparr>sc_region := r\<rparr>)"

definition with_scheme :: "s3_scheme option \<Rightarrow> s3_client_config \<Rightarrow> s3_client_config" where
  "with_scheme v c = (case v of None \<Rightarrow> c | Some r \<Rightarrow> c\<lparr>sc_scheme := r\<rparr>)"

definition with_endpoint :: "string option \<Rightarrow> s3_client_config \<Rightarrow> s3_client_config" where
  "with_endpoint v c = c\<lparr>sc_endpoint := v\<rparr>"

definition with_profile :: "string option \<Rightarrow> s3_client_config \<Rightarrow> s3_client_config" where
  "with_profile v c = c\<lparr>sc_profile := v\<rparr>"

definition with_credentials :: "s3_credentials_config option \<Rightarrow> s3_client_config \<Rightarrow> s3_client_config" where
  "with_credentials v c = c\<lparr>sc_credentials := v\<rparr>"

subsection \<open>The cache\<close>

definition MIN_PRESIGNED_URL_EXPIRY_SECS :: u64 where
  "MIN_PRESIGNED_URL_EXPIRY_SECS = 60"

definition MAX_PRESIGNED_URL_EXPIRY_SECS :: u64 where
  "MAX_PRESIGNED_URL_EXPIRY_SECS = 24 * 60 * 60"

record s3_cache_config =
  sx_client_config :: s3_client_config
  sx_compression :: compression
  write_nar_listing :: bool
  write_debug_info :: bool
  write_realisation :: bool
  secret_key_files :: "string list"
  parallel_compression :: bool
  sx_compression_level :: "int option"
  narinfo_compression :: compression
  ls_compression :: compression
  log_compression :: compression
  buffer_size :: u64
  presigned_url_expiry :: u64

definition s3_cache_config_new :: "s3_client_config \<Rightarrow> s3_cache_config" where
  "s3_cache_config_new client =
     \<lparr>sx_client_config = client, sx_compression = Xz, write_nar_listing = False, write_debug_info = False,
      write_realisation = False, secret_key_files = [], parallel_compression = False,
      sx_compression_level = None, narinfo_compression = No_Compression, ls_compression = No_Compression,
      log_compression = No_Compression, buffer_size = 8 * 1024 * 1024, presigned_url_expiry = 3600\<rparr>"

definition with_compression :: "compression option \<Rightarrow> s3_cache_config \<Rightarrow> s3_cache_config" where
  "with_compression v c = (case v of None \<Rightarrow> c | Some x \<Rightarrow> c\<lparr>sx_compression := x\<rparr>)"

definition is_flag :: "string \<Rightarrow> bool" where
  "is_flag v \<longleftrightarrow> map ascii_lower (trim v) = ''1'' \<or> map ascii_lower (trim v) = ''true''"

definition with_write_nar_listing :: "string option \<Rightarrow> s3_cache_config \<Rightarrow> s3_cache_config" where
  "with_write_nar_listing v c = (case v of None \<Rightarrow> c | Some x \<Rightarrow> c\<lparr>write_nar_listing := is_flag x\<rparr>)"

definition with_write_debug_info :: "string option \<Rightarrow> s3_cache_config \<Rightarrow> s3_cache_config" where
  "with_write_debug_info v c = (case v of None \<Rightarrow> c | Some x \<Rightarrow> c\<lparr>write_debug_info := is_flag x\<rparr>)"

definition with_write_realisation :: "string option \<Rightarrow> s3_cache_config \<Rightarrow> s3_cache_config" where
  "with_write_realisation v c = (case v of None \<Rightarrow> c | Some x \<Rightarrow> c\<lparr>write_realisation := is_flag x\<rparr>)"

definition add_secret_key_files :: "string list \<Rightarrow> s3_cache_config \<Rightarrow> s3_cache_config" where
  "add_secret_key_files ks c = c\<lparr>secret_key_files := secret_key_files c @ ks\<rparr>"

definition with_parallel_compression :: "string option \<Rightarrow> s3_cache_config \<Rightarrow> s3_cache_config" where
  "with_parallel_compression v c = (case v of None \<Rightarrow> c | Some x \<Rightarrow> c\<lparr>parallel_compression := is_flag x\<rparr>)"

definition with_compression_level :: "int option \<Rightarrow> s3_cache_config \<Rightarrow> s3_cache_config" where
  "with_compression_level v c = (case v of None \<Rightarrow> c | Some x \<Rightarrow> c\<lparr>sx_compression_level := Some x\<rparr>)"

definition with_narinfo_compression :: "compression option \<Rightarrow> s3_cache_config \<Rightarrow> s3_cache_config" where
  "with_narinfo_compression v c = (case v of None \<Rightarrow> c | Some x \<Rightarrow> c\<lparr>narinfo_compression := x\<rparr>)"

definition with_ls_compression :: "compression option \<Rightarrow> s3_cache_config \<Rightarrow> s3_cache_config" where
  "with_ls_compression v c = (case v of None \<Rightarrow> c | Some x \<Rightarrow> c\<lparr>ls_compression := x\<rparr>)"

definition with_log_compression :: "compression option \<Rightarrow> s3_cache_config \<Rightarrow> s3_cache_config" where
  "with_log_compression v c = (case v of None \<Rightarrow> c | Some x \<Rightarrow> c\<lparr>log_compression := x\<rparr>)"

definition with_buffer_size :: "u64 option \<Rightarrow> s3_cache_config \<Rightarrow> s3_cache_config" where
  "with_buffer_size v c = (case v of None \<Rightarrow> c | Some x \<Rightarrow> c\<lparr>buffer_size := x\<rparr>)"

datatype url_parse_error =
    UriParseError
  | IntParseError int_error
  | S3SchemeParseError string
  | CompressionParseError string
  | BadSchema string
  | NoBucket
  | InvalidPresignedUrlExpiry u64 u64 u64

definition with_presigned_url_expiry :: "u64 option \<Rightarrow> s3_cache_config \<Rightarrow> url_parse_error + s3_cache_config" where
  "with_presigned_url_expiry v c =
     (case v of
        None \<Rightarrow> Inr c
      | Some x \<Rightarrow>
          if \<not> (MIN_PRESIGNED_URL_EXPIRY_SECS \<le> x \<and> x \<le> MAX_PRESIGNED_URL_EXPIRY_SECS)
          then Inl (InvalidPresignedUrlExpiry x MIN_PRESIGNED_URL_EXPIRY_SECS MAX_PRESIGNED_URL_EXPIRY_SECS)
          else Inr (c\<lparr>presigned_url_expiry := x\<rparr>))"

datatype level = Fastest | Best | Default_Level | Precise int

definition get_compression_level :: "s3_cache_config \<Rightarrow> level" where
  "get_compression_level c = (case sx_compression_level c of None \<Rightarrow> Default_Level | Some l \<Rightarrow> Precise l)"

subsection \<open>From a URI\<close>

record parsed_uri =
  u_scheme :: string
  u_authority :: string
  u_query :: "(string \<times> string) list"

definition if_ok :: "'e + 'a \<Rightarrow> ('a \<Rightarrow> 'e + 'b) \<Rightarrow> 'e + 'b" where
  "if_ok r f = (case r of Inl e \<Rightarrow> Inl e | Inr a \<Rightarrow> f a)"

text \<open>\<^verbatim>\<open>Option::map(parse).transpose().map_err(e)\<close>.\<close>

definition parse_opt :: "('f \<Rightarrow> 'e) \<Rightarrow> (string \<Rightarrow> 'f + 'a) \<Rightarrow> string option \<Rightarrow> 'e + 'a option" where
  "parse_opt e parse v =
     (case v of None \<Rightarrow> Inr None
      | Some s \<Rightarrow> (case parse s of Inl f \<Rightarrow> Inl (e f) | Inr a \<Rightarrow> Inr (Some a)))"

definition client_of_query :: "string \<Rightarrow> (string \<Rightarrow> string option) \<Rightarrow> url_parse_error + s3_client_config" where
  "client_of_query bucket q =
     if_ok (parse_opt S3SchemeParseError s3_scheme_from_str (q ''scheme'')) (\<lambda>scheme.
     Inr (with_profile (q ''profile'') (with_endpoint (q ''endpoint'') (with_scheme scheme
           (with_region (q ''region'') (s3_client_config_new bucket))))))"

definition cache_of_query ::
  "s3_client_config \<Rightarrow> (string \<Rightarrow> string option) \<Rightarrow> url_parse_error + s3_cache_config" where
  "cache_of_query client q =
     if_ok (parse_opt CompressionParseError compression_from_str (q ''compression'')) (\<lambda>comp.
     let c1 = with_parallel_compression (q ''parallel-compression'')
           (add_secret_key_files (case q ''secret-keys'' of None \<Rightarrow> []
                                   | Some s \<Rightarrow> filter (\<lambda>s. s \<noteq> []) (split_on (CHR '','') s))
           (add_secret_key_files (case q ''secret-key'' of None \<Rightarrow> [] | Some s \<Rightarrow> if s = [] then [] else [s])
           (with_write_debug_info (q ''write-debug-info'')
           (with_write_nar_listing (q ''write-nar-listing'')
           (with_compression comp (s3_cache_config_new client)))))) in
     if_ok (parse_opt IntParseError parse_i32 (q ''compression-level'')) (\<lambda>lvl.
     if_ok (parse_opt CompressionParseError compression_from_str (q ''narinfo-compression'')) (\<lambda>narinfo.
     if_ok (parse_opt CompressionParseError compression_from_str (q ''ls-compression'')) (\<lambda>ls.
     if_ok (parse_opt CompressionParseError compression_from_str (q ''log-compression'')) (\<lambda>log.
     if_ok (parse_opt IntParseError parse_u64 (q ''buffer-size'')) (\<lambda>buf.
     if_ok (parse_opt IntParseError parse_u64 (q ''presigned-url-expiry'')) (\<lambda>expiry.
     with_presigned_url_expiry expiry (with_buffer_size buf (with_log_compression log
       (with_ls_compression ls (with_narinfo_compression narinfo (with_compression_level lvl c1))))))))))))"

definition s3_cache_config_from_str ::
  "(string \<Rightarrow> parsed_uri option) \<Rightarrow> string \<Rightarrow> url_parse_error + s3_cache_config" where
  "s3_cache_config_from_str parse_url s =
     (case parse_url (map ascii_lower (trim s)) of
        None \<Rightarrow> Inl UriParseError
      | Some uri \<Rightarrow>
          if u_scheme uri \<noteq> ''s3'' then Inl (BadSchema (u_scheme uri))
          else if u_authority uri = [] then Inl NoBucket
          else
            (let query = fold (\<lambda>(k, v). hm_insert k v) (u_query uri) []
             in if_ok (client_of_query (u_authority uri) (hm_get query)) (\<lambda>client.
                cache_of_query client (hm_get query))))"

subsection \<open>Credentials\<close>

datatype config_read_error =
    EnvVarNotFound
  | ReadError string
  | ProfileMissing string
  | ValueMissing string

type_synonym ini_section = "(string \<times> string option) list"

definition find_section :: "(string \<times> ini_section) list \<Rightarrow> string \<Rightarrow> ini_section option" where
  "find_section config_map profile =
     (case hm_get config_map profile of
        Some m \<Rightarrow> Some m
      | None \<Rightarrow>
          (case hm_get config_map (''profile '' @ profile) of
             Some m \<Rightarrow> Some m
           | None \<Rightarrow> map_option snd
               (List.find (\<lambda>(n, m). trim n = profile \<or> trim n = ''profile '' @ profile) config_map)))"

definition parse_aws_credentials_file ::
  "(string \<times> ini_section) list \<Rightarrow> string \<Rightarrow> config_read_error + (string \<times> string)" where
  "parse_aws_credentials_file config_map profile =
     (case find_section config_map profile of
        None \<Rightarrow> Inl (ProfileMissing profile)
      | Some m \<Rightarrow>
          (case Option.bind (hm_get m ''aws_access_key_id'') id of
             None \<Rightarrow> Inl (ValueMissing ''aws_access_key_id'')
           | Some access_key \<Rightarrow>
               (case Option.bind (hm_get m ''aws_secret_access_key'') id of
                  None \<Rightarrow> Inl (ValueMissing ''aws_secret_access_key'')
                | Some secret_key \<Rightarrow> Inr (access_key, secret_key))))"

definition read_aws_credentials_file ::
  "(string \<Rightarrow> string option) \<Rightarrow> (string \<Rightarrow> string + (string \<times> ini_section) list) \<Rightarrow> string \<Rightarrow>
     config_read_error + (string \<times> string)" where
  "read_aws_credentials_file env_var load profile =
     (case (case env_var ''HOME'' of Some h \<Rightarrow> Some h | None \<Rightarrow> env_var ''USERPROFILE'') of
        None \<Rightarrow> Inl EnvVarNotFound
      | Some home_dir \<Rightarrow>
          (case load (home_dir @ ''/.aws/credentials'') of
             Inl e \<Rightarrow> Inl (ReadError e)
           | Inr config_map \<Rightarrow> parse_aws_credentials_file config_map profile))"

subsection \<open>What a configuration promises\<close>

lemmas builder_defs = with_compression_def with_write_nar_listing_def with_write_debug_info_def
  with_write_realisation_def add_secret_key_files_def with_parallel_compression_def with_compression_level_def
  with_narinfo_compression_def with_ls_compression_def with_log_compression_def with_buffer_size_def

lemma if_ok_Inr: "if_ok r f = Inr b \<longleftrightarrow> (\<exists>a. r = Inr a \<and> f a = Inr b)"
  by (cases r) (simp_all add: if_ok_def)

lemma parse_opt_Inr: "parse_opt e parse v = Inr (Some a) \<longleftrightarrow> (\<exists>s. v = Some s \<and> parse s = Inr a)"
  by (auto simp: parse_opt_def split: option.splits sum.splits)

definition config_wf :: "s3_cache_config \<Rightarrow> bool" where
  "config_wf c \<longleftrightarrow>
     60 \<le> unat (presigned_url_expiry c) \<and> unat (presigned_url_expiry c) \<le> 86400 \<and>
     sc_bucket (sx_client_config c) \<noteq> [] \<and> [] \<notin> set (secret_key_files c) \<and>
     pred_option (\<lambda>l. - (2 ^ 31) \<le> l \<and> l < 2 ^ 31) (sx_compression_level c)"

lemma expiry_in_range:
  "with_presigned_url_expiry v c = Inr c' \<Longrightarrow> 60 \<le> unat (presigned_url_expiry c) \<Longrightarrow>
   unat (presigned_url_expiry c) \<le> 86400 \<Longrightarrow>
   60 \<le> unat (presigned_url_expiry c') \<and> unat (presigned_url_expiry c') \<le> 86400 \<and>
   sx_client_config c' = sx_client_config c \<and> secret_key_files c' = secret_key_files c \<and>
   sx_compression_level c' = sx_compression_level c \<and> write_realisation c' = write_realisation c"
  by (auto simp: with_presigned_url_expiry_def MIN_PRESIGNED_URL_EXPIRY_SECS_def MAX_PRESIGNED_URL_EXPIRY_SECS_def
        word_le_nat_alt split: option.splits if_splits)

lemma builder_frame [simp]:
  "presigned_url_expiry (with_compression k c) = presigned_url_expiry c"
  "presigned_url_expiry (with_write_nar_listing f c) = presigned_url_expiry c"
  "presigned_url_expiry (with_write_debug_info f c) = presigned_url_expiry c"
  "presigned_url_expiry (with_parallel_compression f c) = presigned_url_expiry c"
  "presigned_url_expiry (with_compression_level l c) = presigned_url_expiry c"
  "presigned_url_expiry (with_narinfo_compression k c) = presigned_url_expiry c"
  "presigned_url_expiry (with_ls_compression k c) = presigned_url_expiry c"
  "presigned_url_expiry (with_log_compression k c) = presigned_url_expiry c"
  "presigned_url_expiry (with_buffer_size n c) = presigned_url_expiry c"
  "presigned_url_expiry (add_secret_key_files ks c) = presigned_url_expiry c"
  "sx_client_config (with_compression k c) = sx_client_config c"
  "sx_client_config (with_write_nar_listing f c) = sx_client_config c"
  "sx_client_config (with_write_debug_info f c) = sx_client_config c"
  "sx_client_config (with_parallel_compression f c) = sx_client_config c"
  "sx_client_config (with_compression_level l c) = sx_client_config c"
  "sx_client_config (with_narinfo_compression k c) = sx_client_config c"
  "sx_client_config (with_ls_compression k c) = sx_client_config c"
  "sx_client_config (with_log_compression k c) = sx_client_config c"
  "sx_client_config (with_buffer_size n c) = sx_client_config c"
  "sx_client_config (add_secret_key_files ks c) = sx_client_config c"
  "secret_key_files (with_compression k c) = secret_key_files c"
  "secret_key_files (with_write_nar_listing f c) = secret_key_files c"
  "secret_key_files (with_write_debug_info f c) = secret_key_files c"
  "secret_key_files (with_parallel_compression f c) = secret_key_files c"
  "secret_key_files (with_compression_level l c) = secret_key_files c"
  "secret_key_files (with_narinfo_compression k c) = secret_key_files c"
  "secret_key_files (with_ls_compression k c) = secret_key_files c"
  "secret_key_files (with_log_compression k c) = secret_key_files c"
  "secret_key_files (with_buffer_size n c) = secret_key_files c"
  "sx_compression_level (with_compression k c) = sx_compression_level c"
  "sx_compression_level (with_write_nar_listing f c) = sx_compression_level c"
  "sx_compression_level (with_write_debug_info f c) = sx_compression_level c"
  "sx_compression_level (with_parallel_compression f c) = sx_compression_level c"
  "sx_compression_level (with_narinfo_compression k c) = sx_compression_level c"
  "sx_compression_level (with_ls_compression k c) = sx_compression_level c"
  "sx_compression_level (with_log_compression k c) = sx_compression_level c"
  "sx_compression_level (with_buffer_size n c) = sx_compression_level c"
  "sx_compression_level (add_secret_key_files ks c) = sx_compression_level c"
  "write_realisation (with_compression k c) = write_realisation c"
  "write_realisation (with_write_nar_listing f c) = write_realisation c"
  "write_realisation (with_write_debug_info f c) = write_realisation c"
  "write_realisation (with_parallel_compression f c) = write_realisation c"
  "write_realisation (with_compression_level l c) = write_realisation c"
  "write_realisation (with_narinfo_compression k c) = write_realisation c"
  "write_realisation (with_ls_compression k c) = write_realisation c"
  "write_realisation (with_log_compression k c) = write_realisation c"
  "write_realisation (with_buffer_size n c) = write_realisation c"
  "write_realisation (add_secret_key_files ks c) = write_realisation c"
  by (simp_all add: builder_defs split: option.splits)

lemma builder_sets [simp]:
  "secret_key_files (add_secret_key_files ks c) = secret_key_files c @ ks"
  "sx_compression_level (with_compression_level v c) = (if v = None then sx_compression_level c else v)"
  by (auto simp: builder_defs split: option.splits)

lemma new_config_simps [simp]:
  "presigned_url_expiry (s3_cache_config_new client) = 3600" "sx_client_config (s3_cache_config_new client) = client"
  "secret_key_files (s3_cache_config_new client) = []" "sx_compression_level (s3_cache_config_new client) = None"
  "\<not> write_realisation (s3_cache_config_new client)"
  by (simp_all add: s3_cache_config_new_def)

lemma client_of_query_bucket:
  assumes "client_of_query bucket q = Inr c"
  shows "sc_bucket c = bucket"
proof -
  have frame: "sc_bucket (with_profile p c) = sc_bucket c" "sc_bucket (with_endpoint e c) = sc_bucket c"
    "sc_bucket (with_scheme sch c) = sc_bucket c" "sc_bucket (with_region r c) = sc_bucket c" for p e sch r c
    by (simp_all add: with_profile_def with_endpoint_def with_scheme_def with_region_def split: option.splits)
  from assms obtain sch where "c = with_profile (q ''profile'') (with_endpoint (q ''endpoint'') (with_scheme sch
           (with_region (q ''region'') (s3_client_config_new bucket))))"
    unfolding client_of_query_def if_ok_Inr by blast
  then show ?thesis by (simp add: frame s3_client_config_new_def)
qed

lemma cache_of_query_wf:
  assumes "cache_of_query client q = Inr c" and "sc_bucket client \<noteq> []"
  shows "config_wf c \<and> \<not> write_realisation c \<and> sx_client_config c = client"
proof -
  obtain comp lvl narinfo ls lg buf expiry where lvl: "parse_opt IntParseError parse_i32 (q ''compression-level'') = Inr lvl"
    and c: "with_presigned_url_expiry expiry (with_buffer_size buf (with_log_compression lg
       (with_ls_compression ls (with_narinfo_compression narinfo (with_compression_level lvl
          (with_parallel_compression (q ''parallel-compression'')
           (add_secret_key_files (case q ''secret-keys'' of None \<Rightarrow> []
                                   | Some s \<Rightarrow> filter (\<lambda>s. s \<noteq> []) (split_on (CHR '','') s))
           (add_secret_key_files (case q ''secret-key'' of None \<Rightarrow> [] | Some s \<Rightarrow> if s = [] then [] else [s])
           (with_write_debug_info (q ''write-debug-info'')
           (with_write_nar_listing (q ''write-nar-listing'')
           (with_compression comp (s3_cache_config_new client)))))))))))) = Inr c"
    using assms(1) unfolding cache_of_query_def Let_def if_ok_Inr by blast
  from expiry_in_range [OF c]
  have bounds: "60 \<le> unat (presigned_url_expiry c) \<and> unat (presigned_url_expiry c) \<le> 86400"
    and client: "sx_client_config c = client" and no_re: "\<not> write_realisation c"
    and level: "sx_compression_level c = lvl"
    and keys: "secret_key_files c =
      (case q ''secret-key'' of None \<Rightarrow> [] | Some s \<Rightarrow> if s = [] then [] else [s]) @
      (case q ''secret-keys'' of None \<Rightarrow> [] | Some s \<Rightarrow> filter (\<lambda>s. s \<noteq> []) (split_on (CHR '','') s))"
    by (simp_all split: if_splits)
  have "pred_option (\<lambda>l. - (2 ^ 31) \<le> l \<and> l < 2 ^ 31) lvl"
    using lvl parse_i32_range by (cases lvl) (auto simp: parse_opt_Inr)
  moreover have "[] \<notin> set (secret_key_files c)"
    unfolding keys by (auto split: option.splits)
  ultimately show ?thesis
    using bounds client no_re level assms(2) by (simp add: config_wf_def)
qed

text \<open>
  C34: every configuration that a URI gives is well formed: the presigned URLs live between one minute and one
  day, the bucket and the paths of the signing keys are not empty and the compression level is a 32-bit
  number; and it never asks for realisations, because no key of the query sets that flag. A URI whose
  expiry is out of these bounds is refused with the bounds.
\<close>

theorem cache_config_from_uri_wf:
  assumes "s3_cache_config_from_str parse_url s = Inr c"
  shows "config_wf c \<and> \<not> write_realisation c"
proof -
  obtain uri client where uri: "parse_url (map ascii_lower (trim s)) = Some uri" "u_authority uri \<noteq> []"
    and client: "client_of_query (u_authority uri) (hm_get (fold (\<lambda>(k, v). hm_insert k v) (u_query uri) [])) = Inr client"
    and c: "cache_of_query client (hm_get (fold (\<lambda>(k, v). hm_insert k v) (u_query uri) [])) = Inr c"
    using assms by (auto simp: s3_cache_config_from_str_def Let_def if_ok_Inr split: option.splits if_splits)
  have "sc_bucket client = u_authority uri"
    using client by (rule client_of_query_bucket)
  with uri cache_of_query_wf [OF c] show ?thesis by simp
qed

definition ex_url :: "string \<Rightarrow> parsed_uri option" where
  "ex_url s = Some \<lparr>u_scheme = ''s3'', u_authority = ''cache'', u_query = [(''presigned-url-expiry'', ''60''), (''secret-key'', ''/k'')]\<rparr>"

theorem cache_config_from_uri_wf_witness:
  "\<exists>c. s3_cache_config_from_str ex_url ''s3://cache?presigned-url-expiry=60&secret-key=/k'' = Inr c \<and>
       presigned_url_expiry c = 60 \<and> secret_key_files c = [''/k''] \<and> config_wf c"
proof -
  have "parse_u64 ''60'' = Inr 60" by (simp add: parse_u64_def to_digit_def)
  then obtain c where c: "s3_cache_config_from_str ex_url ''s3://cache?presigned-url-expiry=60&secret-key=/k'' = Inr c"
    "presigned_url_expiry c = 60" "secret_key_files c = [''/k'']"
    by (simp add: s3_cache_config_from_str_def ex_url_def client_of_query_def cache_of_query_def if_ok_def parse_opt_def
          with_presigned_url_expiry_def MIN_PRESIGNED_URL_EXPIRY_SECS_def MAX_PRESIGNED_URL_EXPIRY_SECS_def)
  from c cache_config_from_uri_wf [OF c(1)] show ?thesis by blast
qed

text \<open>
  The whole URI is put into lower case before it is parsed, so two URIs that differ in the case of a letter, in
  the path of a key as anywhere else, give the same configuration.
\<close>

lemma ascii_lower_idem [simp]: "ascii_lower (ascii_lower c) = ascii_lower c"
  by (auto simp: ascii_lower_def)

lemma ascii_lower_space [simp]: "is_ascii_space (ascii_lower c) = is_ascii_space c"
  by (auto simp: ascii_lower_def is_ascii_space_def)

lemma trim_lower: "trim (map ascii_lower s) = map ascii_lower (trim s)"
  by (simp add: trim_def dropWhile_map comp_def rev_map)

lemma from_str_ignores_case:
  "map ascii_lower s = map ascii_lower t \<Longrightarrow> s3_cache_config_from_str parse_url s = s3_cache_config_from_str parse_url t"
  by (simp add: s3_cache_config_from_str_def flip: trim_lower)

end
