(* ===== verification/S3_Cache.thy ===== *)
theory S3_Cache
  imports Cache_Config Io
begin

text \<open>
  The client of the binary cache (crates/binary-cache/src/lib.rs, streaming_hash.rs, debug_info.rs): objects in a
  bucket, uploads in one request or in parts, store paths with their listings and debug information,
  realisations, presigned URLs. The bucket is a map from locations to objects. The answer of the service to a
  request is that of the map, or an error, with or without the effect, as the script \<open>c_fault\<close> says for the
  number of the request. Reading a stream may fail as \<open>c_read_fault\<close> says. The local store, the encoders, the
  hash, signatures, the form of a location and of a link are arguments; the memory of descriptions may have
  evicted an entry when it is asked. The transfers a stream keeps in flight at the same time are run one after
  the other, in the order in which their results are taken.
\<close>

subsection \<open>Statistics\<close>

record s3_stats =
  st_put :: u64
  st_put_bytes :: u64
  st_put_time_ms :: u64
  st_get :: u64
  st_get_bytes :: u64
  st_get_time_ms :: u64
  st_head :: u64

definition s3_stats_new :: s3_stats where
  "s3_stats_new = \<lparr>st_put = 0, st_put_bytes = 0, st_put_time_ms = 0, st_get = 0, st_get_bytes = 0,
     st_get_time_ms = 0, st_head = 0\<rparr>"

definition count_put :: "u64 \<Rightarrow> nat \<Rightarrow> s3_stats \<Rightarrow> s3_stats" where
  "count_put ms n s =
     s\<lparr>st_put_time_ms := st_put_time_ms s + ms, st_put := st_put s + 1, st_put_bytes := st_put_bytes s + of_nat n\<rparr>"

definition count_get :: "u64 \<Rightarrow> nat \<Rightarrow> s3_stats \<Rightarrow> s3_stats" where
  "count_get ms n s =
     s\<lparr>st_get := st_get s + 1,
       st_get_bytes := st_get_bytes s + (if n < 2 ^ 64 then of_nat n else - 1),
       st_get_time_ms := st_get_time_ms s + ms\<rparr>"

subsection \<open>The world of a client\<close>

text \<open>
  A stream is what is left to read, what was read, and whether a read has met the end: only then has the
  hashing reader a result.
\<close>

record reader =
  rd_rest :: string
  rd_read :: string
  rd_eof :: bool

definition hashing_reader_new :: "string \<Rightarrow> reader" where
  "hashing_reader_new data = \<lparr>rd_rest = data, rd_read = [], rd_eof = False\<rparr>"

definition hash_finalize :: "(string \<Rightarrow> string) \<Rightarrow> reader \<Rightarrow> error + (string \<times> nat)" where
  "hash_finalize sha256 r =
     (if rd_eof r then Inr (sha256 (rd_read r), length (rd_read r))
      else Inl (Rejected ''Cannot finalize: stream has not been completed''))"

record s3_object =
  ob_body :: string
  ob_content_type :: string
  ob_content_encoding :: string

record cache_world =
  bucket :: "(string \<times> s3_object) list"
  narinfo_cache :: "(store_path \<times> nar_info) list"
  stats :: s3_stats
  reader :: reader
  requests :: nat

datatype file_kind = Regular_File | Directory | Other_File

record 'r cache_env =
  c_ffi :: nix_ffi
  c_convert_hash :: hash_converter
  c_sign_string :: "string \<Rightarrow> string \<Rightarrow> string"
  c_encode :: "compression \<Rightarrow> level \<Rightarrow> bool \<Rightarrow> string \<Rightarrow> string"
  c_sha256_hex :: "string \<Rightarrow> string"
  c_nar :: "store_path \<Rightarrow> string"
  c_location :: "string \<Rightarrow> string"
  c_fault :: "nat \<Rightarrow> (error \<times> bool) option"
  c_read_fault :: "nat \<Rightarrow> error option"
  c_elapsed :: "nat \<Rightarrow> u64"
  c_evicted :: "nat \<Rightarrow> store_path \<Rightarrow> bool"
  c_exists :: "string \<Rightarrow> bool"
  c_read_dir :: "string \<Rightarrow> error + (error + (string \<times> (error + file_kind))) list"
  c_link_json :: "string \<Rightarrow> string \<Rightarrow> error + string"
  c_signed_url :: "nat \<Rightarrow> string \<Rightarrow> u64 \<Rightarrow> error + string"
  c_query_realisation :: "string \<Rightarrow> error + 'r"
  c_sign_realisation :: "string \<Rightarrow> 'r \<Rightarrow> error + 'r"
  c_clear_signatures :: "'r \<Rightarrow> 'r"
  c_as_json :: "'r \<Rightarrow> string"
  c_get_id :: "'r \<Rightarrow> drv_output_id"

record s3_client =
  cl_cfg :: s3_cache_config
  cl_signing_keys :: "string list"

type_synonym 'a cache_io = "(cache_world, 'a) io"

definition s3_call :: "('r, 'e) cache_env_scheme \<Rightarrow> (cache_world \<Rightarrow> 'a \<times> cache_world) \<Rightarrow> 'a cache_io" where
  "s3_call env f w =
     (let w1 = w\<lparr>requests := requests w + 1\<rparr>
      in case c_fault env (requests w) of
           None \<Rightarrow> (case f w1 of (a, w2) \<Rightarrow> (Inr a, w2))
         | Some (e, done_anyway) \<Rightarrow> (Inl e, if done_anyway then snd (f w1) else w1))"

definition count_stats :: "(s3_stats \<Rightarrow> s3_stats) \<Rightarrow> unit cache_io" where
  "count_stats f = update_st (\<lambda>w. w\<lparr>stats := f (stats w)\<rparr>)"

subsection \<open>The client\<close>

record s3_builder =
  bu_region :: string
  bu_bucket :: string
  bu_credentials :: "(string \<times> string) option"
  bu_endpoint :: "string option"
  bu_virtual_hosted :: "bool option"
  bu_allow_http :: bool

definition construct_client ::
  "(string \<Rightarrow> string option) \<Rightarrow> (string \<Rightarrow> string + (string \<times> ini_section) list) \<Rightarrow> (s3_builder \<Rightarrow> error + 's) \<Rightarrow>
     s3_client_config \<Rightarrow> error + 's" where
  "construct_client env_var load_ini build cfg =
     (let creds =
        (case sc_credentials cfg of
           Some c \<Rightarrow> Some (access_key_id c, secret_access_key c)
         | None \<Rightarrow>
             if env_var ''AWS_ACCESS_KEY_ID'' = None \<and> env_var ''AWS_SECRET_ACCESS_KEY'' = None
             then (case read_aws_credentials_file env_var load_ini
                      (case sc_profile cfg of None \<Rightarrow> ''default'' | Some p \<Rightarrow> p) of
                     Inl _ \<Rightarrow> None | Inr ks \<Rightarrow> Some ks)
             else None)
      in build \<lparr>bu_region = sc_region cfg, bu_bucket = sc_bucket cfg, bu_credentials = creds,
           bu_endpoint = sc_endpoint cfg,
           bu_virtual_hosted = (if sc_endpoint cfg = None then None else Some False),
           bu_allow_http = (sc_scheme cfg = HTTP)\<rparr>)"

fun read_keys :: "(string \<Rightarrow> error + string) \<Rightarrow> string list \<Rightarrow> error + string list" where
  "read_keys read_file [] = Inr []"
| "read_keys read_file (p # ps) =
     (case read_file p of
        Inl e \<Rightarrow> Inl e
      | Inr k \<Rightarrow> (case read_keys read_file ps of Inl e \<Rightarrow> Inl e | Inr ks \<Rightarrow> Inr (k # ks)))"

definition s3_client_new ::
  "(string \<Rightarrow> error + string) \<Rightarrow> (s3_client_config \<Rightarrow> error + 's) \<Rightarrow> s3_cache_config \<Rightarrow> error + ('s \<times> s3_client)" where
  "s3_client_new read_file client_for cfg =
     (case read_keys read_file (secret_key_files cfg) of
        Inl e \<Rightarrow> Inl e
      | Inr keys \<Rightarrow>
          (case client_for (sx_client_config cfg) of
             Inl e \<Rightarrow> Inl e
           | Inr s3 \<Rightarrow> Inr (s3, \<lparr>cl_cfg = cfg, cl_signing_keys = keys\<rparr>)))"

subsection \<open>Objects\<close>

definition head_object :: "('r, 'e) cache_env_scheme \<Rightarrow> string \<Rightarrow> bool cache_io" where
  "head_object env key =
     bind (attempt (s3_call env (\<lambda>w. (hm_get (bucket w) (c_location env key) \<noteq> None, w)))) (\<lambda>res.
     and_then (count_stats (\<lambda>s. s\<lparr>st_head := st_head s + 1\<rparr>))
     (of_sum res))"

definition read_fault :: "('r, 'e) cache_env_scheme \<Rightarrow> unit cache_io" where
  "read_fault env w =
     (case c_read_fault env (requests w) of
        None \<Rightarrow> (Inr (), w\<lparr>requests := requests w + 1\<rparr>)
      | Some e \<Rightarrow> (Inl e, w\<lparr>requests := requests w + 1\<rparr>))"

definition elapsed :: "('r, 'e) cache_env_scheme \<Rightarrow> u64 cache_io" where
  "elapsed env = gets (\<lambda>w. c_elapsed env (requests w))"

definition get_object :: "('r, 'e) cache_env_scheme \<Rightarrow> string \<Rightarrow> string option cache_io" where
  "get_object env key =
     bind (s3_call env (\<lambda>w. (hm_get (bucket w) (c_location env key), w))) (\<lambda>res.
     case res of
       None \<Rightarrow> ok None
     | Some v \<Rightarrow>
         and_then (read_fault env)
         (bind (elapsed env) (\<lambda>ms.
          and_then (count_stats (count_get ms (length (ob_body v))))
          (ok (Some (ob_body v))))))"

text \<open>\<^verbatim>\<open>read_chunk_async\<close> fills a buffer of \<open>n\<close> bytes; it meets the end of the stream when the data runs out first.\<close>

definition take_chunk :: "nat \<Rightarrow> reader \<Rightarrow> string \<times> reader" where
  "take_chunk n r =
     (let chunk = take n (rd_rest r)
      in (chunk, \<lparr>rd_rest = drop n (rd_rest r), rd_read = rd_read r @ chunk,
                  rd_eof = (rd_eof r \<or> length (rd_rest r) < n)\<rparr>))"

definition read_chunk_async :: "('r, 'e) cache_env_scheme \<Rightarrow> nat \<Rightarrow> string cache_io" where
  "read_chunk_async env n =
     and_then (read_fault env)
     (\<lambda>w. case take_chunk n (reader w) of (chunk, r) \<Rightarrow> (Inr chunk, w\<lparr>reader := r\<rparr>))"

definition put_part :: "('r, 'e) cache_env_scheme \<Rightarrow> unit cache_io" where
  "put_part env = s3_call env (\<lambda>w. ((), w))"

definition put_object :: "('r, 'e) cache_env_scheme \<Rightarrow> string \<Rightarrow> s3_object \<Rightarrow> unit cache_io" where
  "put_object env name ob = s3_call env (\<lambda>w. ((), w\<lparr>bucket := hm_insert (c_location env name) ob (bucket w)\<rparr>))"

text \<open>One round of the loop over the parts: the parts sent so far, and the first chunk until it is taken.\<close>

definition part_round ::
  "('r, 'e) cache_env_scheme \<Rightarrow> nat \<Rightarrow> string list \<times> string option \<Rightarrow> (string list \<times> string option + string list) cache_io" where
  "part_round env n v =
     (case v of (parts, first_chunk_opt) \<Rightarrow>
       bind (case first_chunk_opt of Some c \<Rightarrow> ok c | None \<Rightarrow> read_chunk_async env n) (\<lambda>chunk.
       if chunk = [] then ok (Inr parts)
       else and_then (put_part env) (ok (Inl (parts @ [chunk], None)))))"

definition run_multipart_upload ::
  "('r, 'e) cache_env_scheme \<Rightarrow> string \<Rightarrow> string \<Rightarrow> string \<Rightarrow> string \<Rightarrow> nat \<Rightarrow> nat cache_io" where
  "run_multipart_upload env name ctype cenc first_chunk n =
     bind (loop_from (part_round env n) ([], Some first_chunk)) (\<lambda>parts.
     and_then (put_object env name \<lparr>ob_body = concat parts, ob_content_type = ctype, ob_content_encoding = cenc\<rparr>)
     (ok (length (concat parts))))"

definition upload_file ::
  "('r, 'e) cache_env_scheme \<Rightarrow> s3_client \<Rightarrow> string \<Rightarrow> string \<Rightarrow> string \<Rightarrow> unit cache_io" where
  "upload_file env cl name ctype cenc =
     (let n = unat (buffer_size (cl_cfg cl)) in
      bind (read_chunk_async env n) (\<lambda>first_chunk.
      if length first_chunk < n then
        and_then (put_object env name
          \<lparr>ob_body = first_chunk, ob_content_type = ctype, ob_content_encoding = cenc\<rparr>)
        (bind (elapsed env) (\<lambda>ms. count_stats (count_put ms (length first_chunk))))
      else
        and_then (s3_call env (\<lambda>w. ((), w)))
        (bind (attempt (run_multipart_upload env name ctype cenc first_chunk n)) (\<lambda>res.
         case res of
           Inr file_size \<Rightarrow> bind (elapsed env) (\<lambda>ms. count_stats (count_put ms file_size))
         | Inl e \<Rightarrow> ignore_err (s3_call env (\<lambda>w. ((), w)))))))"

definition set_reader :: "string \<Rightarrow> unit cache_io" where
  "set_reader data = update_st (\<lambda>w. w\<lparr>reader := hashing_reader_new data\<rparr>)"

definition get_compression_fn :: "('r, 'e) cache_env_scheme \<Rightarrow> compression \<Rightarrow> level \<Rightarrow> bool \<Rightarrow> string \<Rightarrow> string" where
  "get_compression_fn env c lvl parallel data =
     (if c = No_Compression then data else c_encode env c lvl (c = Xz \<and> parallel) data)"

definition has_extension :: "string \<Rightarrow> string \<Rightarrow> bool" where
  "has_extension ext name =
     (case path_extension name of None \<Rightarrow> False | Some e \<Rightarrow> map ascii_lower e = ext)"

definition upsert_file_stream ::
  "('r, 'e) cache_env_scheme \<Rightarrow> s3_client \<Rightarrow> string \<Rightarrow> string \<Rightarrow> string \<Rightarrow> unit cache_io" where
  "upsert_file_stream env cl name data ctype =
     (let cfg = cl_cfg cl;
          go = (\<lambda>c. and_then
                  (set_reader (get_compression_fn env c (get_compression_level cfg) (parallel_compression cfg) data))
                  (upload_file env cl name ctype (content_encoding c)))
      in if starts_with ''log/'' name then go (log_compression cfg)
         else if has_extension ''ls'' name then go (ls_compression cfg)
         else if has_extension ''narinfo'' name then go (narinfo_compression cfg)
         else and_then (set_reader data) (upload_file env cl name ctype ''''))"

definition upsert_file ::
  "('r, 'e) cache_env_scheme \<Rightarrow> s3_client \<Rightarrow> string \<Rightarrow> string \<Rightarrow> string \<Rightarrow> unit cache_io" where
  "upsert_file env cl name content ctype = upsert_file_stream env cl name content ctype"

subsection \<open>Descriptions of store paths\<close>

definition verify_references :: "nix_ffi \<Rightarrow> nar_info \<Rightarrow> error + nar_info" where
  "verify_references s ni =
     (let queried = query_path_infos s (ni_references ni)
      in case List.find (\<lambda>r. hm_get queried r = None) (ni_references ni) of
           Some r \<Rightarrow> Inl (Rejected (''the reference '' @ r @ '' is not valid''))
         | None \<Rightarrow> Inr ni)"

definition path_to_narinfo_simple :: "nix_ffi \<Rightarrow> hash_converter \<Rightarrow> store_path \<Rightarrow> error + nar_info" where
  "path_to_narinfo_simple s convert_hash path =
     (case query_path_info s path of
        None \<Rightarrow> Inl (Not_Found path)
      | Some info \<Rightarrow>
          if_ok (nar_info_simple convert_hash path info No_Compression) (verify_references s))"

definition path_to_narinfo :: "('r, 'e) cache_env_scheme \<Rightarrow> s3_client \<Rightarrow> store_path \<Rightarrow> error + nar_info" where
  "path_to_narinfo env cl path =
     (let s = c_ffi env in
      case query_path_info s path of
        None \<Rightarrow> Inl (Not_Found path)
      | Some info \<Rightarrow>
          if_ok (nar_info_new (c_convert_hash env) (c_sign_string env) (f_store_dir s) (f_store_dir s) path info
                   (sx_compression (cl_cfg cl)) (cl_signing_keys cl))
            (verify_references s))"

definition upload_listing :: "('r, 'e) cache_env_scheme \<Rightarrow> s3_client \<Rightarrow> string \<Rightarrow> string \<Rightarrow> unit cache_io" where
  "upload_listing env cl path listing = upsert_file env cl path listing ''application/json''"

definition hash_part_io :: "store_path \<Rightarrow> ('s, string) io" where
  "hash_part_io p = of_option Panicked (sp_hash_part p)"

definition upload_narinfo :: "('r, 'e) cache_env_scheme \<Rightarrow> s3_client \<Rightarrow> nar_info \<Rightarrow> string cache_io" where
  "upload_narinfo env cl ni =
     bind (hash_part_io (ni_store_path ni)) (\<lambda>base.
     and_then (upsert_file env cl (base @ ''.narinfo'') (render (f_store_dir (c_ffi env)) ni) ''text/x-nix-narinfo'')
     (ok (base @ ''.narinfo'')))"

definition cached_narinfo :: "('r, 'e) cache_env_scheme \<Rightarrow> store_path \<Rightarrow> nar_info option cache_io" where
  "cached_narinfo env p =
     gets (\<lambda>w. if c_evicted env (requests w) p then None else hm_get (narinfo_cache w) p)"

definition download_narinfo :: "('r, 'e) cache_env_scheme \<Rightarrow> store_path \<Rightarrow> nar_info option cache_io" where
  "download_narinfo env p =
     bind (cached_narinfo env p) (\<lambda>cached.
     case cached of
       Some ni \<Rightarrow> ok (Some ni)
     | None \<Rightarrow>
         bind (hash_part_io p) (\<lambda>base.
         bind (get_object env (base @ ''.narinfo'')) (\<lambda>v.
         case v of
           None \<Rightarrow> ok None
         | Some text \<Rightarrow>
             bind (of_sum (map_sum (\<lambda>_. Parse_Error text) id (nar_info_from_str (f_store_dir (c_ffi env)) text))) (\<lambda>ni.
             and_then (update_st (\<lambda>w. w\<lparr>narinfo_cache := hm_insert p ni (narinfo_cache w)\<rparr>))
             (ok (Some ni))))))"

definition download_nar :: "('r, 'e) cache_env_scheme \<Rightarrow> string \<Rightarrow> string option cache_io" where
  "download_nar env nar_url = get_object env nar_url"

definition has_narinfo :: "('r, 'e) cache_env_scheme \<Rightarrow> store_path \<Rightarrow> bool cache_io" where
  "has_narinfo env p =
     bind (cached_narinfo env p) (\<lambda>cached.
     if cached \<noteq> None then ok True
     else bind (download_narinfo env p) (\<lambda>v. ok (v \<noteq> None)))"

definition or_default :: "bool cache_io \<Rightarrow> bool cache_io" where
  "or_default m = bind (attempt m) (\<lambda>r. ok (case r of Inl _ \<Rightarrow> False | Inr b \<Rightarrow> b))"

fun cache_missing_paths :: "('r, 'e) cache_env_scheme \<Rightarrow> store_path list \<Rightarrow> store_path list cache_io" where
  "cache_missing_paths env [] = ok []"
| "cache_missing_paths env (p # ps) =
     bind (or_default (has_narinfo env p)) (\<lambda>there.
     bind (cache_missing_paths env ps) (\<lambda>rest. ok (if there then rest else p # rest)))"

fun cache_missing_outputs :: "('r, 'e) cache_env_scheme \<Rightarrow> drv_output list \<Rightarrow> drv_output list cache_io" where
  "cache_missing_outputs env [] = ok []"
| "cache_missing_outputs env (o' # os) =
     (case out_path o' of
        None \<Rightarrow> cache_missing_outputs env os
      | Some p \<Rightarrow>
          bind (or_default (has_narinfo env p)) (\<lambda>there.
          bind (cache_missing_outputs env os) (\<lambda>rest. ok (if there then rest else o' # rest))))"

subsection \<open>Realisations\<close>

definition realisation_key :: "drv_output_id \<Rightarrow> string" where
  "realisation_key i = ''realisations/'' @ drv_output_to_string i @ ''.doi''"

definition download_realisation :: "('r, 'e) cache_env_scheme \<Rightarrow> drv_output_id \<Rightarrow> string option cache_io" where
  "download_realisation env i = get_object env (realisation_key i)"

definition has_realisation :: "('r, 'e) cache_env_scheme \<Rightarrow> drv_output_id \<Rightarrow> bool cache_io" where
  "has_realisation env i = bind (download_realisation env i) (\<lambda>v. ok (v \<noteq> None))"

fun sign_all :: "('r, 'e) cache_env_scheme \<Rightarrow> string list \<Rightarrow> 'r \<Rightarrow> error + 'r" where
  "sign_all env [] r = Inr r"
| "sign_all env (k # ks) r = if_ok (c_sign_realisation env k r) (sign_all env ks)"

definition copy_realisation :: "('r, 'e) cache_env_scheme \<Rightarrow> s3_client \<Rightarrow> drv_output_id \<Rightarrow> bool \<Rightarrow> unit cache_io" where
  "copy_realisation env cl i repair =
     bind (if repair then ok False else has_realisation env i) (\<lambda>there.
     if there then ok ()
     else
       bind (of_sum (query_raw_realisation (c_query_realisation env) (di_drv_hash i) (di_output_name i))) (\<lambda>raw.
       bind (of_sum (sign_all env (cl_signing_keys cl) raw)) (\<lambda>signed.
       upsert_file env cl (realisation_key i) (c_as_json env signed) ''application/json'')))"

definition upload_realisation :: "('r, 'e) cache_env_scheme \<Rightarrow> s3_client \<Rightarrow> 'r \<Rightarrow> bool \<Rightarrow> unit cache_io" where
  "upload_realisation env cl r repair =
     (let i = c_get_id env r in
      bind (if repair then ok False else has_realisation env i) (\<lambda>there.
      if there then ok ()
      else
        bind (of_sum (sign_all env (cl_signing_keys cl) (c_clear_signatures env r))) (\<lambda>signed.
        upsert_file env cl (realisation_key i) (c_as_json env signed) ''application/json'')))"

subsection \<open>Debug information\<close>

definition is_hex :: "char \<Rightarrow> bool" where
  "is_hex c \<longleftrightarrow> (let n = of_char c :: nat in 48 \<le> n \<and> n \<le> 57 \<or> 65 \<le> n \<and> n \<le> 70 \<or> 97 \<le> n \<and> n \<le> 102)"

type_synonym dir_entries = "(error + (string \<times> (error + file_kind))) list"

text \<open>The files of one directory of build ids.\<close>

fun scan_debug_dir :: "string \<Rightarrow> dir_entries \<Rightarrow> error + (string \<times> string) list" where
  "scan_debug_dir s1 [] = Inr []"
| "scan_debug_dir s1 (Inl e # es) = Inl e"
| "scan_debug_dir s1 (Inr (s2, kind) # es) =
     (if length s2 = 44 \<and> drop 38 s2 = ''.debug'' \<and> list_all is_hex (take 38 s2)
      then if_ok kind (\<lambda>k.
           if_ok (scan_debug_dir s1 es) (\<lambda>rest.
           Inr (if k = Regular_File
                then (s1 @ take 38 s2, ''lib/debug/.build-id/'' @ s1 @ ''/'' @ s2) # rest else rest)))
      else scan_debug_dir s1 es)"

fun scan_build_ids ::
  "(string \<Rightarrow> error + dir_entries) \<Rightarrow> string \<Rightarrow> dir_entries \<Rightarrow> error + (string \<times> string) list" where
  "scan_build_ids read_dir base [] = Inr []"
| "scan_build_ids read_dir base (Inl e # es) = Inl e"
| "scan_build_ids read_dir base (Inr (s1, kind) # es) =
     (if length s1 = 2 \<and> list_all is_hex s1
      then if_ok kind (\<lambda>k.
           if k = Directory
           then if_ok (read_dir (path_join base s1)) (\<lambda>sub.
                if_ok (scan_debug_dir s1 sub) (\<lambda>here.
                if_ok (scan_build_ids read_dir base es) (\<lambda>rest. Inr (here @ rest))))
           else scan_build_ids read_dir base es)
      else scan_build_ids read_dir base es)"

definition find_debug_files :: "(string \<Rightarrow> error + dir_entries) \<Rightarrow> string \<Rightarrow> error + (string \<times> string) list" where
  "find_debug_files read_dir base = if_ok (read_dir base) (scan_build_ids read_dir base)"

definition build_id_path :: "nix_ffi \<Rightarrow> store_path \<Rightarrow> string" where
  "build_id_path s p = path_join (store_print s p) ''lib/debug/.build-id''"

definition process_debug_info ::
  "('r, 'e) cache_env_scheme \<Rightarrow> (string \<Rightarrow> string \<Rightarrow> string \<Rightarrow> unit cache_io) \<Rightarrow> string \<Rightarrow> store_path \<Rightarrow> unit cache_io" where
  "process_debug_info env create_link nar_url p =
     (let base = build_id_path (c_ffi env) p in
      if \<not> c_exists env base then ok ()
      else bind (of_sum (find_debug_files (c_read_dir env) base)) (\<lambda>files.
           for_each (\<lambda>(build_id, debug_path). create_link nar_url build_id debug_path) files))"

definition get_debug_info_build_ids :: "('r, 'e) cache_env_scheme \<Rightarrow> store_path \<Rightarrow> error + string list" where
  "get_debug_info_build_ids env p =
     (let base = build_id_path (c_ffi env) p in
      if \<not> c_exists env base then Inr []
      else map_sum id (map fst) (find_debug_files (c_read_dir env) base))"

definition create_debug_info_link ::
  "('r, 'e) cache_env_scheme \<Rightarrow> s3_client \<Rightarrow> string \<Rightarrow> string \<Rightarrow> string \<Rightarrow> unit cache_io" where
  "create_debug_info_link env cl nar_url build_id debug_path =
     (let key = ''debuginfo/'' @ build_id in
      bind (head_object env key) (\<lambda>there.
      if there then ok ()
      else bind (of_sum (c_link_json env (''../'' @ nar_url) debug_path)) (\<lambda>json.
           upsert_file env cl key json ''application/json'')))"

subsection \<open>Store paths\<close>

definition with_file_hash :: "('r, 'e) cache_env_scheme \<Rightarrow> string \<times> nat \<Rightarrow> nar_info \<Rightarrow> nar_info" where
  "with_file_hash env h ni =
     (case c_convert_hash env (fst h) (Some SHA256) Nix32 of
        Inl _ \<Rightarrow> ni
      | Inr c \<Rightarrow> ni\<lparr>ni_file_hash := Some (''sha256:'' @ c), ni_file_size := Some (of_nat (snd h))\<rparr>)"

definition copy_realisations :: "('r, 'e) cache_env_scheme \<Rightarrow> s3_client \<Rightarrow> nar_info \<Rightarrow> bool \<Rightarrow> unit cache_io" where
  "copy_realisations env cl ni repair =
     (if \<not> write_realisation (cl_cfg cl) then ok ()
      else case ni_deriver ni of
        None \<Rightarrow> ok ()
      | Some deriver \<Rightarrow>
          (case static_output_hashes (c_ffi env) deriver of
             Inl _ \<Rightarrow> ok ()
           | Inr hashes \<Rightarrow>
               for_each (\<lambda>(output_name, drv_hash).
                 copy_realisation env cl \<lparr>di_drv_hash = drv_hash, di_output_name = output_name\<rparr> repair) hashes))"

definition copy_path :: "('r, 'e) cache_env_scheme \<Rightarrow> s3_client \<Rightarrow> store_path \<Rightarrow> bool \<Rightarrow> unit cache_io" where
  "copy_path env cl path repair =
     (let cfg = cl_cfg cl in
      bind (if repair then ok False else has_narinfo env path) (\<lambda>there.
      if there then ok ()
      else
        bind (of_sum (path_to_narinfo env cl path)) (\<lambda>ni.
        and_then
          (if write_nar_listing cfg
           then bind (of_sum (list_nar_deep (c_ffi env) (ni_store_path ni))) (\<lambda>ls.
                bind (of_sum (get_ls_path ni)) (\<lambda>ls_path. upload_listing env cl ls_path ls))
           else ok ())
        (and_then
          (if write_debug_info cfg
           then process_debug_info env (create_debug_info_link env cl) (ni_url ni) (ni_store_path ni)
           else ok ())
        (and_then
          (set_reader (get_compression_fn env (ni_compression ni) (get_compression_level cfg)
             (parallel_compression cfg) (c_nar env (ni_store_path ni))))
        (and_then
          (upload_file env cl (ni_url ni) (content_type (ni_compression ni)) (content_encoding (ni_compression ni)))
        (bind (gets (\<lambda>w. hash_finalize (c_sha256_hex env) (reader w))) (\<lambda>fin.
         bind (of_sum fin) (\<lambda>h.
         and_then (copy_realisations env cl (with_file_hash env h ni) repair)
         (and_then (upload_narinfo env cl (with_file_hash env h ni)) (ok ())))))))))))"

definition copy_paths :: "('r, 'e) cache_env_scheme \<Rightarrow> s3_client \<Rightarrow> store_path list \<Rightarrow> bool \<Rightarrow> unit cache_io" where
  "copy_paths env cl paths repair = for_each (\<lambda>p. copy_path env cl p repair) paths"

end
