(* ===== verification/Presigned.thy ===== *)
theory Presigned
  imports S3_Cache
begin

text \<open>
  Uploads through presigned URLs. The server signs a URL for the archive, the listing and every piece of debug
  information that is not in the bucket yet (generate_nar_upload_presigned_url of crates/binary-cache/src/lib.rs); the
  client, who has no credentials, uploads to these URLs (presigned.rs); the server then checks that the
  objects arrived and publishes the description. A request to a signed URL writes the object at the location
  \<open>p_target\<close> of the URL. Reading the archive may fail after data was delivered, as \<open>p_nar_error\<close> says.
\<close>

subsection \<open>What is signed\<close>

record presigned_upload =
  pu_path :: string
  pu_url :: string
  pu_compression :: compression
  pu_level :: level

definition presigned_upload_new :: "string \<Rightarrow> string \<Rightarrow> compression \<Rightarrow> int \<Rightarrow> presigned_upload" where
  "presigned_upload_new path url c l =
     \<lparr>pu_path = path, pu_url = url, pu_compression = c,
      pu_level = (if l = 1 then Fastest else if 2 \<le> l \<and> l \<le> 8 then Precise l
                  else if l = 9 then Best else Default_Level)\<rparr>"

definition get_compression_level_as_i32 :: "presigned_upload \<Rightarrow> int" where
  "get_compression_level_as_i32 u =
     (case pu_level u of Fastest \<Rightarrow> 1 | Precise n \<Rightarrow> n | Best \<Rightarrow> 9 | Default_Level \<Rightarrow> 0)"

record presigned_upload_response =
  pr_nar_url :: string
  pr_nar_upload :: presigned_upload
  pr_ls_upload :: "presigned_upload option"
  pr_debug_info_upload :: "presigned_upload list"

record presigned_upload_result =
  ur_file_hash :: string
  ur_file_size :: u64

record 'r presign_env = "'r cache_env" +
  p_target :: "string \<Rightarrow> string"
  p_nar_error :: "store_path \<Rightarrow> error option"

definition signed_url :: "('r, 'e) cache_env_scheme \<Rightarrow> s3_client \<Rightarrow> string \<Rightarrow> string cache_io" where
  "signed_url env cl key w =
     (c_signed_url env (requests w) (c_location env key) (presigned_url_expiry (cl_cfg cl)),
      w\<lparr>requests := requests w + 1\<rparr>)"

definition debug_upload ::
  "('r, 'e) cache_env_scheme \<Rightarrow> s3_client \<Rightarrow> string \<Rightarrow> presigned_upload option cache_io" where
  "debug_upload env cl build_id =
     (let key = ''debuginfo/'' @ build_id in
      bind (or_default (head_object env key)) (\<lambda>there.
      if there then ok None
      else bind (signed_url env cl key) (\<lambda>url.
           ok (Some \<lparr>pu_path = key, pu_url = url, pu_compression = No_Compression, pu_level = Default_Level\<rparr>))))"

fun debug_uploads ::
  "('r, 'e) cache_env_scheme \<Rightarrow> s3_client \<Rightarrow> string list \<Rightarrow> presigned_upload list cache_io" where
  "debug_uploads env cl [] = ok []"
| "debug_uploads env cl (i # is) =
     bind (debug_upload env cl i) (\<lambda>v.
     bind (debug_uploads env cl is) (\<lambda>rest.
     ok (case v of None \<Rightarrow> rest | Some u \<Rightarrow> u # rest)))"

definition generate_nar_upload_presigned_url ::
  "('r, 'e) cache_env_scheme \<Rightarrow> s3_client \<Rightarrow> store_path \<Rightarrow> string \<Rightarrow> string list \<Rightarrow> presigned_upload_response cache_io" where
  "generate_nar_upload_presigned_url env cl path nix32_nar_hash build_ids =
     (let cfg = cl_cfg cl in
      bind (of_sum (nar_hash_url nix32_nar_hash path)) (\<lambda>h.
      let nar_url = ''nar/'' @ h @ ''.'' @ compression_ext (sx_compression cfg) in
      bind (signed_url env cl nar_url) (\<lambda>url.
      bind (if write_nar_listing cfg
            then bind (hash_part_io path) (\<lambda>base.
                 bind (signed_url env cl (base @ ''.ls'')) (\<lambda>ls_url.
                 ok (Some \<lparr>pu_path = base @ ''.ls'', pu_url = ls_url, pu_compression = ls_compression cfg,
                           pu_level = get_compression_level cfg\<rparr>)))
            else ok None) (\<lambda>ls_upload.
      bind (if write_debug_info cfg \<and> build_ids \<noteq> [] then debug_uploads env cl build_ids else ok []) (\<lambda>debug.
      ok \<lparr>pr_nar_url = nar_url,
          pr_nar_upload = \<lparr>pu_path = nar_url, pu_url = url, pu_compression = sx_compression cfg,
                           pu_level = get_compression_level cfg\<rparr>,
          pr_ls_upload = ls_upload, pr_debug_info_upload = debug\<rparr>)))))"

definition require_object :: "('r, 'e) cache_env_scheme \<Rightarrow> string \<Rightarrow> unit cache_io" where
  "require_object env key = bind (head_object env key) (\<lambda>there. if there then ok () else fail (Not_Found key))"

definition upload_narinfo_after_presigned_upload ::
  "('r, 'e) cache_env_scheme \<Rightarrow> s3_client \<Rightarrow> nar_info \<Rightarrow> string cache_io" where
  "upload_narinfo_after_presigned_upload env cl ni =
     (let dir = f_store_dir (c_ffi env) in
      and_then
        (if write_nar_listing (cl_cfg cl)
         then bind (of_sum (get_ls_path ni)) (require_object env) else ok ())
      (and_then (require_object env (ni_url ni))
      (bind (of_sum (clear_sigs_and_sign (c_sign_string env) dir dir (cl_signing_keys cl) ni)) (\<lambda>signed.
       upload_narinfo env cl signed))))"

subsection \<open>The uploading client\<close>

definition RETRY_MAX_ATTEMPTS :: nat where
  "RETRY_MAX_ATTEMPTS = 3"

text \<open>A request is repeated after an error, as often as the policy allows.\<close>

fun put_retry :: "('r, 'e) presign_env_scheme \<Rightarrow> nat \<Rightarrow> string \<Rightarrow> s3_object \<Rightarrow> unit cache_io" where
  "put_retry env retries url ob =
     bind (attempt (s3_call env (\<lambda>w. ((), w\<lparr>bucket := hm_insert (p_target env url) ob (bucket w)\<rparr>)))) (\<lambda>r.
     case r of
       Inr _ \<Rightarrow> ok ()
     | Inl e \<Rightarrow> (case retries of 0 \<Rightarrow> fail e | Suc k \<Rightarrow> put_retry env k url ob))"

text \<open>\<^verbatim>\<open>read_to_end\<close> always meets the end of the stream.\<close>

definition read_to_end :: "('r, 'e) cache_env_scheme \<Rightarrow> string cache_io" where
  "read_to_end env =
     and_then (read_fault env)
     (\<lambda>w. (Inr (rd_rest (reader w)),
           w\<lparr>reader := \<lparr>rd_rest = [], rd_read = rd_read (reader w) @ rd_rest (reader w), rd_eof = True\<rparr>\<rparr>))"

definition upload_any ::
  "('r, 'e) presign_env_scheme \<Rightarrow> presigned_upload \<Rightarrow> string option \<Rightarrow> presigned_upload_result cache_io" where
  "upload_any env u ctype =
     bind (read_to_end env) (\<lambda>buffer.
     and_then (put_retry env RETRY_MAX_ATTEMPTS (pu_url u)
       \<lparr>ob_body = buffer,
        ob_content_type = (case ctype of Some c \<Rightarrow> c | None \<Rightarrow> content_type (pu_compression u)),
        ob_content_encoding = content_encoding (pu_compression u)\<rparr>)
     (bind (elapsed env) (\<lambda>ms.
      bind (gets (\<lambda>w. hash_finalize (c_sha256_hex env) (reader w))) (\<lambda>fin.
      bind (of_sum fin) (\<lambda>h.
      and_then (count_stats (count_put ms (snd h)))
      (ok \<lparr>ur_file_hash = ''sha256:'' @
             (case c_convert_hash env (fst h) (Some SHA256) Nix32 of Inl _ \<Rightarrow> fst h | Inr c \<Rightarrow> c),
           ur_file_size = of_nat (snd h)\<rparr>))))))"

definition upload_text ::
  "('r, 'e) presign_env_scheme \<Rightarrow> string \<Rightarrow> presigned_upload \<Rightarrow> presigned_upload_result cache_io" where
  "upload_text env content u =
     and_then (set_reader (get_compression_fn env (pu_compression u) (pu_level u) False content))
     (upload_any env u (Some ''application/json''))"

definition upload_json ::
  "('r, 'e) presign_env_scheme \<Rightarrow> string \<Rightarrow> presigned_upload \<Rightarrow> presigned_upload_result cache_io" where
  "upload_json env content u = upload_text env content u"

definition upload_ls ::
  "('r, 'e) presign_env_scheme \<Rightarrow> store_path \<Rightarrow> presigned_upload \<Rightarrow> presigned_upload_result cache_io" where
  "upload_ls env p u = bind (of_sum (list_nar_deep (c_ffi env) p)) (\<lambda>ls. upload_text env ls u)"

definition upload_nar ::
  "('r, 'e) presign_env_scheme \<Rightarrow> store_path \<Rightarrow> presigned_upload \<Rightarrow> presigned_upload_result cache_io" where
  "upload_nar env p u =
     and_then (set_reader (get_compression_fn env (pu_compression u) (pu_level u) False (c_nar env p)))
     (bind (attempt (upload_any env u None)) (\<lambda>res.
      case p_nar_error env p of None \<Rightarrow> of_sum res | Some e \<Rightarrow> fail e))"

definition presigned_debug_link ::
  "('r, 'e) presign_env_scheme \<Rightarrow> presigned_upload list \<Rightarrow> string \<Rightarrow> string \<Rightarrow> string \<Rightarrow> unit cache_io" where
  "presigned_debug_link env urls nar_url build_id debug_path =
     (let key = ''debuginfo/'' @ build_id in
      case List.find (\<lambda>u. pu_path u = key) urls of
        None \<Rightarrow> fail (Rejected (''Presigned URL not found for build ID: '' @ build_id))
      | Some u \<Rightarrow>
          bind (of_sum (c_link_json env (''../'' @ nar_url) debug_path)) (\<lambda>json.
          and_then (upload_json env json u) (ok ())))"

definition process_presigned_request ::
  "('r, 'e) presign_env_scheme \<Rightarrow> nar_info \<Rightarrow> presigned_upload_response \<Rightarrow> nar_info cache_io" where
  "process_presigned_request env ni req =
     (let ni = ni\<lparr>ni_url := pr_nar_url req, ni_compression := pu_compression (pr_nar_upload req)\<rparr> in
      and_then (case pr_ls_upload req of None \<Rightarrow> ok ()
                | Some u \<Rightarrow> and_then (upload_ls env (ni_store_path ni) u) (ok ()))
      (and_then (if pr_debug_info_upload req \<noteq> []
                 then process_debug_info env (presigned_debug_link env (pr_debug_info_upload req)) (ni_url ni)
                        (ni_store_path ni)
                 else ok ())
      (bind (upload_nar env (ni_store_path ni) (pr_nar_upload req)) (\<lambda>res.
       ok (ni\<lparr>ni_file_hash := Some (ur_file_hash res), ni_file_size := Some (ur_file_size res)\<rparr>)))))"

end
