(* ===== verification/Cache_Facts.thy ===== *)
theory Cache_Facts
  imports Presigned
begin

text \<open>
  What the operations of the binary cache guarantee: an upload in parts stores what a single request would
  store; a large upload does not report that it failed; a description that was published can be
  downloaded again; a client given URLs for some of its debug information uploads nothing more.
\<close>

subsection \<open>Requests\<close>

definition no_faults :: "('r, 'e) cache_env_scheme \<Rightarrow> bool" where
  "no_faults env \<longleftrightarrow> (\<forall>n. c_fault env n = None \<and> c_read_fault env n = None)"

text \<open>The errors of the scripts are errors the code can look at.\<close>

definition errors_only :: "('r, 'e) cache_env_scheme \<Rightarrow> bool" where
  "errors_only env \<longleftrightarrow> (\<forall>n e b. c_fault env n = Some (e, b) \<longrightarrow> \<not> fatal e) \<and>
     (\<forall>n e. c_read_fault env n = Some e \<longrightarrow> \<not> fatal e)"

lemma ends_s3_call:
  "ends (s3_call env f) E Q w =
     (let w1 = w\<lparr>requests := requests w + 1\<rparr>
      in case c_fault env (requests w) of
           None \<Rightarrow> Q (fst (f w1)) (snd (f w1))
         | Some (e, b) \<Rightarrow> E e (if b then snd (f w1) else w1))"
  by (auto simp: ends_def wp_def s3_call_def Let_def split: option.splits prod.splits)

lemma ends_read_fault:
  "ends (read_fault env) E Q w =
     (case c_read_fault env (requests w) of
        None \<Rightarrow> Q () (w\<lparr>requests := requests w + 1\<rparr>) | Some e \<Rightarrow> E e (w\<lparr>requests := requests w + 1\<rparr>))"
  by (simp add: ends_def wp_def read_fault_def split: option.splits)

lemma ends_read_chunk:
  "ends (read_chunk_async env n) E Q w =
     (let w1 = w\<lparr>requests := requests w + 1\<rparr>
      in case c_read_fault env (requests w) of
           None \<Rightarrow> Q (take n (rd_rest (reader w))) (w1\<lparr>reader := snd (take_chunk n (reader w))\<rparr>)
         | Some e \<Rightarrow> E e w1)"
proof -
  have "ends (\<lambda>w. case take_chunk n (reader w) of (chunk, r) \<Rightarrow> (Inr chunk, w\<lparr>reader := r\<rparr>)) E Q =
      (\<lambda>w. Q (take n (rd_rest (reader w))) (w\<lparr>reader := snd (take_chunk n (reader w))\<rparr>))"
    by (simp add: ends_def wp_def take_chunk_def Let_def fun_eq_iff)
  then show ?thesis by (simp add: read_chunk_async_def ends_read_fault Let_def split: option.splits)
qed

lemma ends_put_part:
  "ends (put_part env) E Q w =
     (case c_fault env (requests w) of
        None \<Rightarrow> Q () (w\<lparr>requests := requests w + 1\<rparr>) | Some (e, b) \<Rightarrow> E e (w\<lparr>requests := requests w + 1\<rparr>))"
  by (auto simp: put_part_def ends_s3_call Let_def split: option.splits prod.splits)

lemma ends_put_object:
  "ends (put_object env name ob) E Q w =
     (let w1 = w\<lparr>requests := requests w + 1\<rparr>;
          w2 = w1\<lparr>bucket := hm_insert (c_location env name) ob (bucket w)\<rparr>
      in case c_fault env (requests w) of None \<Rightarrow> Q () w2 | Some (e, b) \<Rightarrow> E e (if b then w2 else w1))"
  by (auto simp: put_object_def ends_s3_call Let_def split: option.splits prod.splits)

lemma ends_count_stats [simp]: "ends (count_stats f) E Q w = Q () (w\<lparr>stats := f (stats w)\<rparr>)"
  by (simp add: count_stats_def)

lemma ends_elapsed [simp]: "ends (elapsed env) E Q w = Q (c_elapsed env (requests w)) w"
  by (simp add: elapsed_def)

lemma ends_set_reader [simp]: "ends (set_reader data) E Q w = Q () (w\<lparr>reader := hashing_reader_new data\<rparr>)"
  by (simp add: set_reader_def)

lemmas ends_requests = ends_s3_call ends_read_fault ends_read_chunk ends_put_part ends_put_object Let_def

lemma ends_loop:
  fixes measure_of :: "'v \<Rightarrow> 's \<Rightarrow> nat"
  assumes "I v w"
    and "\<And>v w. I v w \<Longrightarrow> ends (body v) E
            (\<lambda>r w'. case r of Inr a \<Rightarrow> Q a w' | Inl v' \<Rightarrow> I v' w' \<and> measure_of v' w' < measure_of v w) w"
  shows "ends (loop_from body v) E Q w"
  unfolding ends_def
proof (rule wp_loop_from [where I = I and measure_of = measure_of])
  fix v w assume "I v w"
  from assms(2) [OF this]
  show "wp (body v) (\<lambda>r w'. case r of Inl e \<Rightarrow> (case Inl e of Inl e \<Rightarrow> E e w' | Inr a \<Rightarrow> Q a w')
      | Inr (Inl v') \<Rightarrow> I v' w' \<and> measure_of v' w' < measure_of v w
      | Inr (Inr a) \<Rightarrow> (case Inr a of Inl e \<Rightarrow> E e w' | Inr a \<Rightarrow> Q a w')) w"
    unfolding ends_def by (rule wp_weaken [rotated]) (auto split: sum.splits)
qed (rule assms(1))

subsection \<open>Uploads in parts\<close>

text \<open>
  The loop over the parts: what was sent, what waits and what is still to read make up the data; the bucket and
  the statistics do not change.
\<close>

definition parts_inv :: "cache_world \<Rightarrow> string list \<times> string option \<Rightarrow> cache_world \<Rightarrow> bool" where
  "parts_inv w v w' \<longleftrightarrow>
     bucket w' = bucket w \<and> stats w' = stats w \<and> narinfo_cache w' = narinfo_cache w \<and>
     concat (fst v) @ (case snd v of None \<Rightarrow> [] | Some c \<Rightarrow> c) @ rd_rest (reader w') =
       rd_read (reader w) @ rd_rest (reader w) \<and>
     rd_read (reader w') @ rd_rest (reader w') = rd_read (reader w) @ rd_rest (reader w) \<and> snd v \<noteq> Some []"

definition parts_left :: "string list \<times> string option \<Rightarrow> cache_world \<Rightarrow> nat" where
  "parts_left v w = length (rd_rest (reader w)) + (if snd v = None then 0 else 1)"

lemma part_round_step:
  assumes inv: "parts_inv w v w1" and n: "0 < n"
    and good: "\<And>k e b. c_fault env k = Some (e, b) \<Longrightarrow> E e" "\<And>k e. c_read_fault env k = Some e \<Longrightarrow> E e"
  shows "ends (part_round env n v) (\<lambda>e w'. E e \<and> bucket w' = bucket w \<and> stats w' = stats w \<and> narinfo_cache w' = narinfo_cache w)
     (\<lambda>r w'. case r of
         Inr parts \<Rightarrow> parts_inv w (parts, None) w' \<and> rd_rest (reader w') = [] \<and> rd_eof (reader w')
       | Inl v' \<Rightarrow> parts_inv w v' w' \<and> parts_left v' w' < parts_left v w1) w1"
proof (cases v)
  case (Pair parts first)
  show ?thesis
  proof (cases first)
    case (Some c)
    with Pair inv good(1) show ?thesis
      by (auto simp: part_round_def ends_put_part parts_inv_def parts_left_def split: option.splits)
  next
    case None
    have "rd_rest (reader w1) \<noteq> [] \<Longrightarrow> length (rd_rest (reader w1)) - n < length (rd_rest (reader w1))"
      using n by (cases "rd_rest (reader w1)") auto
    with Pair None inv good n show ?thesis
      by (auto simp: part_round_def ends_requests take_chunk_def parts_inv_def parts_left_def split: option.splits)
  qed
qed

lemma ends_parts_loop:
  assumes "parts_inv w v w1" and "0 < n"
    and "\<And>k e b. c_fault env k = Some (e, b) \<Longrightarrow> E e" "\<And>k e. c_read_fault env k = Some e \<Longrightarrow> E e"
  shows "ends (loop_from (part_round env n) v)
     (\<lambda>e w'. E e \<and> bucket w' = bucket w \<and> stats w' = stats w \<and> narinfo_cache w' = narinfo_cache w)
     (\<lambda>parts w'. parts_inv w (parts, None) w' \<and> rd_rest (reader w') = [] \<and> rd_eof (reader w')) w1"
  by (rule ends_loop [where I = "parts_inv w" and measure_of = parts_left])
    (auto simp: assms(1) intro!: ends_mono [OF part_round_step [OF _ assms(2-4)]] split: sum.splits)

definition object_at :: "('r, 'e) cache_env_scheme \<Rightarrow> cache_world \<Rightarrow> string \<Rightarrow> s3_object option" where
  "object_at env w name = hm_get (bucket w) (c_location env name)"

definition stored :: "('r, 'e) cache_env_scheme \<Rightarrow> string \<Rightarrow> s3_object \<Rightarrow> cache_world \<Rightarrow> cache_world \<Rightarrow> bool" where
  "stored env name ob w w' \<longleftrightarrow>
     bucket w' = hm_insert (c_location env name) ob (bucket w) \<and> narinfo_cache w' = narinfo_cache w \<and>
     st_put (stats w') = st_put (stats w) + 1 \<and>
     st_put_bytes (stats w') = st_put_bytes (stats w) + of_nat (length (ob_body ob)) \<and>
     reader w' = \<lparr>rd_rest = [], rd_read = ob_body ob, rd_eof = True\<rparr>"

lemma ends_upload_file:
  assumes "no_faults env" and "0 < buffer_size (cl_cfg cl)" and "reader w = hashing_reader_new data"
  shows "ends (upload_file env cl name ct ce) (\<lambda>_ _. False)
     (\<lambda>_ w'. stored env name \<lparr>ob_body = data, ob_content_type = ct, ob_content_encoding = ce\<rparr> w w') w"
proof -
  let ?n = "unat (buffer_size (cl_cfg cl))"
  note nf = assms(1) [unfolded no_faults_def, rule_format, THEN conjunct1]
    assms(1) [unfolded no_faults_def, rule_format, THEN conjunct2]
  have n: "0 < ?n" using assms(2) by (simp add: unat_gt_0)
  let ?w0 = "w\<lparr>requests := requests w + 1, reader := snd (take_chunk ?n (reader w))\<rparr>"
  let ?w1 = "?w0\<lparr>requests := requests ?w0 + 1\<rparr>"
  show ?thesis
  proof (cases "length data < ?n")
    case True
    with assms(3) show ?thesis
      by (simp add: upload_file_def ends_requests nf hashing_reader_new_def take_chunk_def stored_def count_put_def)
  next
    case False
    have "parts_inv ?w0 ([], Some (take ?n data)) ?w1"
      using False n assms(3) by (auto simp: parts_inv_def hashing_reader_new_def take_chunk_def Let_def)
    from ends_parts_loop [OF this n, where env = env and E = "\<lambda>_. False"]
    have "ends (loop_from (part_round env ?n) ([], Some (take ?n data))) (\<lambda>_ _. False)
        (\<lambda>parts w'. concat parts = data \<and> bucket w' = bucket w \<and> stats w' = stats w \<and> narinfo_cache w' = narinfo_cache w \<and>
           reader w' = \<lparr>rd_rest = [], rd_read = data, rd_eof = True\<rparr>) ?w1"
      using assms(3)
      by (auto elim!: ends_mono simp: nf parts_inv_def hashing_reader_new_def take_chunk_def Let_def)
    then show ?thesis
      using False assms(3)
      by (simp add: upload_file_def run_multipart_upload_def ends_requests nf hashing_reader_new_def take_chunk_def Let_def)
        (auto elim!: ends_mono simp: stored_def count_put_def ends_requests nf)
  qed
qed

text \<open>
  C32: an upload leaves the bucket as a single request would leave it. For every buffer that is not empty and
  all data, shorter or longer than the buffer, when the service answers every request the upload succeeds, the
  bucket is the one a single request with the whole data gives, the statistics count one upload of
  that many bytes, and the stream was read to its end, so that its hash is that of the data.
\<close>

theorem upload_file_as_one_request:
  assumes "no_faults env" and "0 < buffer_size (cl_cfg cl)" and "reader w = hashing_reader_new data"
    and "upload_file env cl name ct ce w = (r, w')"
  shows "r = Inr () \<and>
    bucket w' = bucket (snd (put_object env name \<lparr>ob_body = data, ob_content_type = ct, ob_content_encoding = ce\<rparr> w)) \<and>
    st_put (stats w') = st_put (stats w) + 1 \<and>
    st_put_bytes (stats w') = st_put_bytes (stats w) + of_nat (length data) \<and>
    hash_finalize sha256 (reader w') = Inr (sha256 data, length data)"
proof -
  have "c_fault env k = None" for k using assms(1) by (simp add: no_faults_def)
  with ends_run [OF ends_upload_file [OF assms(1-3)] assms(4)] show ?thesis
    by (auto simp: stored_def hash_finalize_def put_object_def s3_call_def Let_def split: sum.splits)
qed

definition ex_cache_env :: "unit cache_env" where
  "ex_cache_env =
     \<lparr>c_ffi = ex_ffi, c_convert_hash = (\<lambda>h _ _. Inr h), c_sign_string = (\<lambda>k s. ''key-1:sig''),
      c_encode = (\<lambda>_ _ _ d. d), c_sha256_hex = (\<lambda>d. d), c_nar = (\<lambda>_. ''abcde''), c_location = id,
      c_fault = (\<lambda>_. None), c_read_fault = (\<lambda>_. None), c_elapsed = (\<lambda>_. 5), c_evicted = (\<lambda>_ _. False),
      c_exists = (\<lambda>_. False), c_read_dir = (\<lambda>_. Inr []), c_link_json = (\<lambda>a m. Inr (a @ m)),
      c_signed_url = (\<lambda>_ k _. Inr k), c_query_realisation = (\<lambda>_. Inr ()), c_sign_realisation = (\<lambda>_ r. Inr r),
      c_clear_signatures = id, c_as_json = (\<lambda>_. ''{}''), c_get_id = (\<lambda>_. \<lparr>di_drv_hash = [], di_output_name = []\<rparr>)\<rparr>"

definition ex_cache_client :: s3_client where
  "ex_cache_client = \<lparr>cl_cfg = (s3_cache_config_new (s3_client_config_new ''b''))\<lparr>buffer_size := 2\<rparr>, cl_signing_keys = [''k'']\<rparr>"

definition ex_cache_world :: cache_world where
  "ex_cache_world = \<lparr>bucket = [], narinfo_cache = [], stats = s3_stats_new, reader = hashing_reader_new ''abcde'', requests = 0\<rparr>"

lemma ex_cache_simps [simp]:
  "no_faults ex_cache_env" "c_location ex_cache_env = id" "buffer_size (cl_cfg ex_cache_client) = 2"
  "reader ex_cache_world = hashing_reader_new ''abcde''" "bucket ex_cache_world = []"
  "c_fault ex_cache_env k = None" "requests ex_cache_world = 0" "c_read_fault ex_cache_env k = None"
  by (simp_all add: no_faults_def ex_cache_env_def ex_cache_client_def ex_cache_world_def s3_cache_config_new_def)

theorem upload_file_as_one_request_witness:
  "\<exists>w'. upload_file ex_cache_env ex_cache_client ''x'' ''t'' '''' ex_cache_world = (Inr (), w') \<and>
     bucket w' = [(''x'', \<lparr>ob_body = ''abcde'', ob_content_type = ''t'', ob_content_encoding = ''''\<rparr>)]"
proof -
  obtain r w' where run: "upload_file ex_cache_env ex_cache_client ''x'' ''t'' '''' ex_cache_world = (r, w')" by fastforce
  from upload_file_as_one_request [OF _ _ _ run, of "''abcde''"] run show ?thesis
    by (auto simp: put_object_def s3_call_def)
qed

subsection \<open>Uploads that fail\<close>

definition refused_from :: "('r, 'e) cache_env_scheme \<Rightarrow> nat \<Rightarrow> bool" where
  "refused_from env n \<longleftrightarrow> (\<forall>k \<ge> n. \<exists>e. c_fault env k = Some (e, False))"

lemma ends_multipart_errors:
  assumes "errors_only env" and "0 < n" and "parts_inv w ([], Some c) w1"
  shows "ends (run_multipart_upload env name ct ce c n)
     (\<lambda>e w'. \<not> fatal e \<and> (refused_from env (requests w1) \<longrightarrow> bucket w' = bucket w))
     (\<lambda>_ w'. refused_from env (requests w1) \<longrightarrow> bucket w' = bucket w) w1"
proof -
  let ?dead = "refused_from env (requests w1)"
  have good: "\<And>k e b. c_fault env k = Some (e, b) \<Longrightarrow> \<not> fatal e" "\<And>k e. c_read_fault env k = Some e \<Longrightarrow> \<not> fatal e"
    using assms(1) by (auto simp: errors_only_def)
  let ?I = "\<lambda>v w'. parts_inv w v w' \<and> (if snd v = None then \<not> ?dead else w' = w1)"
  have loop: "ends (loop_from (part_round env n) ([], Some c)) (\<lambda>e w'. \<not> fatal e \<and> bucket w' = bucket w)
      (\<lambda>_ w'. bucket w' = bucket w \<and> \<not> ?dead) w1"
  proof (rule ends_loop [where I = ?I and measure_of = parts_left])
    fix v w2
    assume I: "?I v w2"
    have step: "ends (part_round env n v)
        (\<lambda>e w'. \<not> fatal e \<and> bucket w' = bucket w \<and> stats w' = stats w \<and> narinfo_cache w' = narinfo_cache w)
        (\<lambda>r w'. case r of
            Inr parts \<Rightarrow> parts_inv w (parts, None) w' \<and> rd_rest (reader w') = [] \<and> rd_eof (reader w')
          | Inl v' \<Rightarrow> parts_inv w v' w' \<and> parts_left v' w' < parts_left v w2) w2"
      by (rule part_round_step) (use I good assms(2) in auto)
    have sent: "ends (part_round env n v) (\<lambda>_ _. True)
        (\<lambda>r w'. case r of Inl v' \<Rightarrow> snd v' = None \<and> \<not> ?dead | Inr _ \<Rightarrow> \<not> ?dead) w2"
      using I by (cases v; cases "snd v")
        (fastforce simp: part_round_def ends_requests parts_inv_def refused_from_def split: option.splits)+
    show "ends (part_round env n v) (\<lambda>e w'. \<not> fatal e \<and> bucket w' = bucket w)
        (\<lambda>r w'. case r of Inr a \<Rightarrow> bucket w' = bucket w \<and> \<not> ?dead
          | Inl v' \<Rightarrow> ?I v' w' \<and> parts_left v' w' < parts_left v w2) w2"
      by (rule ends_mono [OF ends_conj [OF step sent]]) (auto simp: parts_inv_def split: sum.splits)
  qed (use assms(3) in simp)
  show ?thesis
    using assms(1) unfolding run_multipart_upload_def ends_bind
    by (intro ends_mono [OF loop]) (auto simp: ends_requests errors_only_def split: option.splits)
qed

text \<open>
  C33: an upload that does not fit in the buffer reports success whatever happens to its parts. Once the first
  chunk is read and the upload in parts is created, errors of the service while the parts are sent or put
  together are logged and the upload returns as if it had stored the object, also when it has
  stored nothing: with a service that refuses all further requests the bucket stays as it was.
\<close>

theorem large_upload_hides_errors:
  assumes "errors_only env" and "0 < buffer_size (cl_cfg cl)" and "reader w = hashing_reader_new data"
    and "unat (buffer_size (cl_cfg cl)) \<le> length data"
    and "c_read_fault env (requests w) = None" and "c_fault env (requests w + 1) = None"
    and "upload_file env cl name ct ce w = (r, w')"
  shows "r = Inr () \<and> (refused_from env (requests w + 2) \<longrightarrow> bucket w' = bucket w)"
proof -
  let ?n = "unat (buffer_size (cl_cfg cl))"
  have n: "0 < ?n" using assms(2) by (simp add: unat_gt_0)
  let ?w0 = "w\<lparr>requests := requests w + 1, reader := snd (take_chunk ?n (reader w))\<rparr>"
  let ?w1 = "?w0\<lparr>requests := requests ?w0 + 1\<rparr>"
  let ?dead = "refused_from env (requests w + 2)"
  have inv: "parts_inv ?w0 ([], Some (take ?n data)) ?w1"
    using assms(3,4) n by (auto simp: parts_inv_def hashing_reader_new_def take_chunk_def Let_def)
  have "ends (run_multipart_upload env name ct ce (take ?n data) ?n)
     (\<lambda>e w'. \<not> fatal e \<and> (?dead \<longrightarrow> bucket w' = bucket w)) (\<lambda>_ w'. ?dead \<longrightarrow> bucket w' = bucket w) ?w1"
    by (rule ends_mono [OF ends_multipart_errors [OF assms(1) n inv]]) auto
  then have "ends (upload_file env cl name ct ce) (\<lambda>_ _. False) (\<lambda>_ w'. ?dead \<longrightarrow> bucket w' = bucket w) w"
    using assms(1,3-6)
    by (simp add: upload_file_def ends_requests hashing_reader_new_def take_chunk_def)
      (auto elim!: ends_mono simp: ends_requests errors_only_def split: option.splits)
  from ends_run [OF this assms(7)] show ?thesis by (auto split: sum.splits)
qed

definition ex_refusing_env :: "unit cache_env" where
  "ex_refusing_env = ex_cache_env\<lparr>c_fault := (\<lambda>k. if 2 \<le> k then Some (Store_Error, False) else None)\<rparr>"

theorem large_upload_hides_errors_witness:
  "\<exists>w'. upload_file ex_refusing_env ex_cache_client ''x'' ''t'' '''' ex_cache_world = (Inr (), w') \<and> bucket w' = []"
proof -
  obtain r w' where run: "upload_file ex_refusing_env ex_cache_client ''x'' ''t'' '''' ex_cache_world = (r, w')" by fastforce
  have "errors_only ex_refusing_env" "refused_from ex_refusing_env (requests ex_cache_world + 2)"
    by (simp_all add: errors_only_def refused_from_def ex_refusing_env_def fatal_def)
  moreover have "c_fault ex_refusing_env (requests ex_cache_world + 1) = None"
    "c_read_fault ex_refusing_env (requests ex_cache_world) = None"
    by (simp_all add: ex_refusing_env_def)
  ultimately have "r = Inr () \<and> bucket w' = bucket ex_cache_world"
    using large_upload_hides_errors [OF _ _ _ _ _ _ run, of "''abcde''"] by simp
  with run show ?thesis by simp
qed

text \<open>
  So a store path can be published without its archive: the last request of the upload of the archive fails, and
  the description goes to the bucket all the same.
\<close>

definition ex_copy_env :: "unit cache_env" where
  "ex_copy_env = ex_cache_env
     \<lparr>c_ffi := ex_ffi\<lparr>f_query_path_info := (\<lambda>_. Inr \<lparr>ip_deriver = [], ip_nar_hash = ''sha256:1'', ip_registration_time = 0,
        ip_nar_size = 180, ip_refs = [], ip_sigs = [], ip_ca = []\<rparr>)\<rparr>,
      c_nar := (\<lambda>_. replicate 180 CHR ''a''), c_sha256_hex := (\<lambda>_. ''2''),
      c_fault := (\<lambda>k. if k = 4 then Some (Store_Error, False) else None)\<rparr>"

definition ex_copy_client :: s3_client where
  "ex_copy_client = \<lparr>cl_cfg = (s3_cache_config_new (s3_client_config_new ''b''))\<lparr>buffer_size := 180\<rparr>, cl_signing_keys = []\<rparr>"

lemma copy_path_publishes_without_archive:
  "case copy_path ex_copy_env ex_copy_client ''0123456789abcdfghijklmnpqrsvwxyz-hello'' True ex_cache_world of (r, w') \<Rightarrow>
     r = Inr () \<and> hm_get (bucket w') ''0123456789abcdfghijklmnpqrsvwxyz.narinfo'' \<noteq> None \<and>
     hm_get (bucket w') ''nar/1.nar.xz'' = None"
  by code_simp

subsection \<open>Publishing a description\<close>

lemma extension_of:
  assumes "CHR ''/'' \<notin> set base" and "base \<noteq> []" and "CHR ''.'' \<notin> set ext" and "CHR ''/'' \<notin> set ext" and "ext \<noteq> []"
  shows "path_extension (base @ CHR ''.'' # ext) = Some ext"
proof -
  have "split_on (CHR ''/'') (base @ CHR ''.'' # ext) = [base @ CHR ''.'' # ext]"
    using assms(1,4) by (intro split_on_plain) auto
  moreover have "2 < length (base @ CHR ''.'' # ext)"
    using assms(2,5) by (cases base; cases ext) simp_all
  then have "base @ CHR ''.'' # ext \<noteq> ''.''" "base @ CHR ''.'' # ext \<noteq> ''..''"
    by (metis One_nat_def length_Cons list.size(3) less_numeral_extra(1) less_Suc0 not_less_eq numeral_2_eq_2 order.asym)+
  ultimately have "path_file_name (base @ CHR ''.'' # ext) = Some (base @ CHR ''.'' # ext)"
    by (simp add: path_file_name_def)
  moreover have "takeWhile (\<lambda>c. c \<noteq> CHR ''.'') (rev (base @ CHR ''.'' # ext)) = rev ext"
    using assms(3) by (simp add: takeWhile_append)
  ultimately show ?thesis
    using assms(2) by (simp add: path_extension_def)
qed

lemma narinfo_name:
  assumes "CHR ''/'' \<notin> set base" and "base \<noteq> []"
  shows "has_extension ''narinfo'' (base @ ''.narinfo'')" "\<not> has_extension ''ls'' (base @ ''.narinfo'')"
    "\<not> starts_with ''log/'' (base @ ''.narinfo'')"
proof -
  have "path_extension (base @ ''.narinfo'') = Some ''narinfo''"
    using extension_of [OF assms, of "''narinfo''"] by simp
  then show "has_extension ''narinfo'' (base @ ''.narinfo'')" "\<not> has_extension ''ls'' (base @ ''.narinfo'')"
    by (simp_all add: has_extension_def ascii_lower_def)
  have "CHR ''/'' \<notin> set (base @ ''.narinfo'')" using assms(1) by simp
  moreover have "CHR ''/'' \<in> set s" if "starts_with ''log/'' s" for s
    using that by (auto simp: starts_with_def strip_prefix_iff simp del: strip_prefix.simps)
  ultimately show "\<not> starts_with ''log/'' (base @ ''.narinfo'')" by blast
qed

definition publishes :: "('r, 'e) cache_env_scheme \<Rightarrow> s3_client \<Rightarrow> bool" where
  "publishes env cl \<longleftrightarrow> no_faults env \<and> 0 < buffer_size (cl_cfg cl) \<and> narinfo_compression (cl_cfg cl) = No_Compression \<and>
     (\<forall>k t. c_sign_string env k t \<noteq> [] \<and> value_ok (c_sign_string env k t)) \<and> dir_ok (f_store_dir (c_ffi env))"

definition plain_path :: "store_path \<Rightarrow> bool" where
  "plain_path p \<longleftrightarrow> path_ok p \<and> CHR ''/'' \<notin> set p \<and> 32 \<le> length p"

lemma ends_upload_narinfo:
  assumes "publishes env cl" and "plain_path (ni_store_path ni)"
  shows "ends (upload_narinfo env cl ni) (\<lambda>_ _. False)
     (\<lambda>key w'. key = take 32 (ni_store_path ni) @ ''.narinfo'' \<and> narinfo_cache w' = narinfo_cache w \<and>
        bucket w' = hm_insert (c_location env key)
          \<lparr>ob_body = render (f_store_dir (c_ffi env)) ni, ob_content_type = ''text/x-nix-narinfo'',
           ob_content_encoding = content_encoding No_Compression\<rparr> (bucket w)) w"
proof -
  let ?base = "take 32 (ni_store_path ni)"
  let ?text = "render (f_store_dir (c_ffi env)) ni"
  have base: "CHR ''/'' \<notin> set ?base" "?base \<noteq> []"
    using assms(2) in_set_takeD by (fastforce simp: plain_path_def path_ok_def word_def)+
  have hash: "sp_hash_part (ni_store_path ni) = Some ?base"
    using assms(2) by (simp add: plain_path_def sp_hash_part_def HASH_LEN_def)
  have "ends (upload_file env cl (?base @ ''.narinfo'') ''text/x-nix-narinfo'' (content_encoding No_Compression)) (\<lambda>_ _. False)
     (\<lambda>_ w'. stored env (?base @ ''.narinfo'') \<lparr>ob_body = ?text, ob_content_type = ''text/x-nix-narinfo'',
        ob_content_encoding = content_encoding No_Compression\<rparr> (w\<lparr>reader := hashing_reader_new ?text\<rparr>) w')
     (w\<lparr>reader := hashing_reader_new ?text\<rparr>)"
    using assms(1) by (intro ends_upload_file) (auto simp: publishes_def)
  then show ?thesis
    using assms(1) narinfo_name [OF base]
    by (simp add: upload_narinfo_def hash_part_io_def hash upsert_file_def upsert_file_stream_def publishes_def
          get_compression_fn_def Let_def)
      (auto elim!: ends_mono simp: stored_def)
qed

lemma head_object_run:
  "no_faults env \<Longrightarrow> head_object env key w =
     (Inr (object_at env w key \<noteq> None),
      w\<lparr>requests := requests w + 1, stats := (stats w)\<lparr>st_head := st_head (stats w) + 1\<rparr>\<rparr>)"
  by (simp add: head_object_def s3_call_def no_faults_def count_stats_def object_at_def bind_def attempt_def
      and_then_def update_st_def of_sum_def)

lemma run_require: "require_object env key w = (Inr u, w') \<Longrightarrow> no_faults env \<Longrightarrow>
    object_at env w key \<noteq> None \<and> bucket w' = bucket w \<and> narinfo_cache w' = narinfo_cache w"
  by (auto simp: require_object_def head_object_run run_rules split: if_splits)

lemma signed_info_ok:
  assumes "clear_sigs_and_sign sg dir dir keys ni = Inr fresh" and "nar_info_ok ni"
    and "\<forall>k t. sg k t \<noteq> [] \<and> value_ok (sg k t)"
  shows "nar_info_ok fresh \<and> ni_store_path fresh = ni_store_path ni"
proof -
  have sg: "sg k t \<noteq> []" "[] \<noteq> sg k t" "value_ok (sg k t)" for k t using assms(3) [rule_format, of k t] by auto
  show ?thesis
    using assms(1,2)
    by (cases "fingerprint_path dir dir (ni\<lparr>ni_sigs := []\<rparr>)")
      (auto simp: clear_sigs_and_sign_def nar_info_ok_def list_all_iff sg split: if_splits option.splits)
qed

lemma run_download_narinfo:
  assumes "no_faults env" and "sp_hash_part p = Some base" and "hm_get (narinfo_cache w) p = None"
    and "object_at env w (base @ ''.narinfo'') = Some ob"
    and "nar_info_from_str (f_store_dir (c_ffi env)) (ob_body ob) = Inr ni"
  shows "fst (download_narinfo env p w) = Inr (Some ni)"
  using assms
  by (simp add: download_narinfo_def cached_narinfo_def hash_part_io_def get_object_def elapsed_def count_stats_def
      bind_def and_then_def gets_def ok_def update_st_def of_sum_def of_option_def s3_call_def read_fault_def no_faults_def
      object_at_def Let_def)


definition ex_publish_client :: s3_client where
  "ex_publish_client = \<lparr>cl_cfg = (s3_cache_config_new (s3_client_config_new ''b''))\<lparr>buffer_size := 1000\<rparr>, cl_signing_keys = [''k'']\<rparr>"

definition ex_publish_world :: cache_world where
  "ex_publish_world = ex_cache_world
     \<lparr>bucket := [(''nar/1.nar.xz'', \<lparr>ob_body = ''a'', ob_content_type = ''t'', ob_content_encoding = ''''\<rparr>)]\<rparr>"


subsection \<open>Debug information\<close>

text \<open>
  a client that is given URLs for some but not all of its debug information uploads neither its archive nor
  anything after the first missing URL. The server leaves out the URLs of debug information that is already
  in the bucket, and the client treats a URL that was left out as an error; so an upload that shares a part of
  its debug information with an earlier one fails.
\<close>

theorem shared_debug_info_fails:
  assumes "find_debug_files (c_read_dir env) (build_id_path (c_ffi env) (ni_store_path ni)) = Inr files"
    and "c_exists env (build_id_path (c_ffi env) (ni_store_path ni))"
    and "(i, d) \<in> set files" and "\<forall>u \<in> set (pr_debug_info_upload req). pu_path u \<noteq> ''debuginfo/'' @ i"
    and "pr_debug_info_upload req \<noteq> []"
  shows "\<nexists>ni' w'. process_presigned_request env ni req w = (Inr ni', w')"
proof -
  have none: "List.find (\<lambda>u. pu_path u = ''debuginfo/'' @ i) (pr_debug_info_upload req) = None"
    using assms(4) by (auto simp: find_None_iff)
  have link: "presigned_debug_link env (pr_debug_info_upload req) url i d w \<noteq> (Inr u, w')" for url w u w'
    unfolding presigned_debug_link_def Let_def none by (simp add: fail_def)
  have "for_each (\<lambda>(build_id, debug_path). presigned_debug_link env (pr_debug_info_upload req) url build_id debug_path)
      files w \<noteq> (Inr u, w')" for w url u w'
    using assms(3)
  proof (induction files arbitrary: w)
    case (Cons f files)
    then show ?case by (cases "f = (i, d)") (auto simp: run_rules link)
  qed simp
  then show ?thesis
    using assms(1,2,5) by (auto simp: process_presigned_request_def process_debug_info_def run_rules Let_def)
qed

definition ex_presign_env :: "unit presign_env" where
  "ex_presign_env = cache_env.extend
     (ex_cache_env\<lparr>c_exists := (\<lambda>_. True),
        c_read_dir := (\<lambda>p. if drop (length p - 3) p = ''/ab''
           then Inr [Inr (replicate 38 CHR ''0'' @ ''.debug'', Inr Regular_File),
                     Inr (replicate 38 CHR ''1'' @ ''.debug'', Inr Regular_File)]
           else Inr [Inr (''ab'', Inr Directory)])\<rparr>)
     (presign_env.fields id (\<lambda>_. None))"

definition ex_response :: presigned_upload_response where
  "ex_response =
     \<lparr>pr_nar_url = ''n'', pr_nar_upload = presigned_upload_new ''n'' ''u'' Xz 0, pr_ls_upload = None,
      pr_debug_info_upload = [presigned_upload_new (''debuginfo/ab'' @ replicate 38 CHR ''0'') ''u2'' No_Compression 0]\<rparr>"

theorem shared_debug_info_fails_witness:
  "\<nexists>ni' w'. process_presigned_request ex_presign_env ex_nar_info ex_response ex_cache_world = (Inr ni', w')"
proof (rule shared_debug_info_fails)
  show "find_debug_files (c_read_dir ex_presign_env) (build_id_path (c_ffi ex_presign_env) (ni_store_path ex_nar_info)) =
    Inr [(''ab'' @ replicate 38 CHR ''0'', ''lib/debug/.build-id/ab/'' @ replicate 38 CHR ''0'' @ ''.debug''),
         (''ab'' @ replicate 38 CHR ''1'', ''lib/debug/.build-id/ab/'' @ replicate 38 CHR ''1'' @ ''.debug'')]"
    by code_simp
  show "(''ab'' @ replicate 38 CHR ''1'', ''lib/debug/.build-id/ab/'' @ replicate 38 CHR ''1'' @ ''.debug'') \<in>
    set [(''ab'' @ replicate 38 CHR ''0'', ''lib/debug/.build-id/ab/'' @ replicate 38 CHR ''0'' @ ''.debug''),
         (''ab'' @ replicate 38 CHR ''1'', ''lib/debug/.build-id/ab/'' @ replicate 38 CHR ''1'' @ ''.debug'')]"
    by simp
  show "\<forall>u \<in> set (pr_debug_info_upload ex_response). pu_path u \<noteq> ''debuginfo/'' @ ''ab'' @ replicate 38 CHR ''1''"
    by (simp add: ex_response_def presigned_upload_new_def numeral_eq_Suc)
  show "pr_debug_info_upload ex_response \<noteq> []" by (simp add: ex_response_def)
  show "c_exists ex_presign_env (build_id_path (c_ffi ex_presign_env) (ni_store_path ex_nar_info))"
    by (simp add: ex_presign_env_def cache_env.defs)
qed

lemma debug_uploads_new_only:
  assumes "no_faults env" and "debug_uploads env cl is w = (Inr us, w')" and "u \<in> set us"
  shows "\<exists>i \<in> set is. pu_path u = ''debuginfo/'' @ i \<and> object_at env w (pu_path u) = None"
  using assms(2,3)
proof (induction "is" arbitrary: w us)
  case (Cons i "is")
  obtain v w1 rest where v: "debug_upload env cl i w = (Inr v, w1)" and rest: "debug_uploads env cl is w1 = (Inr rest, w')"
    and us: "us = (case v of None \<Rightarrow> rest | Some u \<Rightarrow> u # rest)"
    using Cons.prems(1) by (auto simp: run_rules)
  have "bucket w1 = bucket w" "v = Some u' \<Longrightarrow> pu_path u' = ''debuginfo/'' @ i \<and> object_at env w (pu_path u') = None" for u'
    using v assms(1)
    by (auto simp: debug_upload_def or_default_def head_object_run signed_url_def run_rules object_at_def Let_def
        split: if_splits)
  with Cons.IH [OF rest] Cons.prems(2) us show ?case
    by (auto simp: object_at_def split: option.splits)
qed (simp add: run_rules)

end
