(* ===== verification/Nix_Support.thy ===== *)
theory Nix_Support
  imports Nix_Store
begin

text \<open>
  What a build leaves in the directory nix-support of its outputs (crates/shared/src/lib.rs): metrics, products, a
  release name and a mark of failure. The files are arguments: a file that can be opened is its lines, of
  which a read may fail. The expressions that validate and parse are in the syntax of the crate
  regex; \<open>rmatch\<close> gives the ways an expression matches a prefix of the text in the order in which
  that crate prefers them, and a search takes the first position that has one.
\<close>

subsection \<open>Regular expressions\<close>

datatype regex =
    Some_Of "char \<Rightarrow> bool"
  | Lit char
  | Seq regex regex
  | Alt regex regex
  | Opt regex
  | Group nat regex

type_synonym captures = "nat \<Rightarrow> string option"

text \<open>\<open>Some_Of P\<close> is a class repeated at least once, greedy.\<close>

primrec rmatch :: "regex \<Rightarrow> string \<Rightarrow> captures \<Rightarrow> (string \<times> captures) list" where
  "rmatch (Some_Of P) s c = map (\<lambda>k. (drop k s, c)) (rev [1..<Suc (length (takeWhile P s))])"
| "rmatch (Lit x) s c = (case s of y # ys \<Rightarrow> if x = y then [(ys, c)] else [] | [] \<Rightarrow> [])"
| "rmatch (Seq a b) s c = concat (map (\<lambda>(r, c'). rmatch b r c') (rmatch a s c))"
| "rmatch (Alt a b) s c = rmatch a s c @ rmatch b s c"
| "rmatch (Opt a) s c = rmatch a s c @ [(s, c)]"
| "rmatch (Group i a) s c =
     map (\<lambda>(r, c'). (r, c'(i := Some (take (length s - length r) s)))) (rmatch a s c)"

fun search :: "regex \<Rightarrow> string \<Rightarrow> captures option" where
  "search r [] = (case rmatch r [] (\<lambda>_. None) of [] \<Rightarrow> None | (_, c) # _ \<Rightarrow> Some c)"
| "search r (x # xs) = (case rmatch r (x # xs) (\<lambda>_. None) of [] \<Rightarrow> search r xs | (_, c) # _ \<Rightarrow> Some c)"

definition is_match :: "regex \<Rightarrow> string \<Rightarrow> bool" where
  "is_match r s \<longleftrightarrow> search r s \<noteq> None"

definition alnum :: "char \<Rightarrow> bool" where
  "alnum c \<longleftrightarrow> (let n = of_char c :: nat in 48 \<le> n \<and> n \<le> 57 \<or> 65 \<le> n \<and> n \<le> 90 \<or> 97 \<le> n \<and> n \<le> 122)"

definition metric_name_char :: "char \<Rightarrow> bool" where
  "metric_name_char c \<longleftrightarrow> alnum c \<or> c \<in> set ''._-''"

definition metric_unit_char :: "char \<Rightarrow> bool" where
  "metric_unit_char c \<longleftrightarrow> alnum c \<or> c \<in> set ''._%-''"

definition release_name_char :: "char \<Rightarrow> bool" where
  "release_name_char c \<longleftrightarrow> alnum c \<or> c \<in> set ''.@:_-''"

definition product_name_char :: "char \<Rightarrow> bool" where
  "product_name_char c \<longleftrightarrow> alnum c \<or> c \<in> set ''.@:_ -''"

definition VALIDATE_METRICS_NAME :: regex where
  "VALIDATE_METRICS_NAME = Some_Of metric_name_char"

definition VALIDATE_METRICS_UNIT :: regex where
  "VALIDATE_METRICS_UNIT = Some_Of metric_unit_char"

definition VALIDATE_RELEASE_NAME :: regex where
  "VALIDATE_RELEASE_NAME = Some_Of release_name_char"

definition VALIDATE_PRODUCT_NAME :: regex where
  "VALIDATE_PRODUCT_NAME = Opt (Some_Of product_name_char)"

definition BUILD_PRODUCT_PARSER :: regex where
  "BUILD_PRODUCT_PARSER =
     (let kind = Some_Of (\<lambda>c. alnum c \<or> c \<in> set ''_-'');
          space = Some_Of is_ascii_space;
          plain = Some_Of (\<lambda>c. c \<noteq> CHR 0x22 \<and> \<not> is_ascii_space c \<and> c \<noteq> CHR ''<'' \<and> c \<noteq> CHR ''>'');
          quoted = Seq (Lit (CHR 0x22)) (Seq (Some_Of (\<lambda>c. c \<noteq> CHR 0x22)) (Lit (CHR 0x22)))
      in Seq (Group 1 kind) (Seq space (Seq (Group 2 kind) (Seq space
           (Seq (Group 3 (Alt quoted plain)) (Opt (Group 4 (Seq space (Group 5 plain)))))))))"

subsection \<open>Numbers\<close>

text \<open>
  \<^verbatim>\<open>str::parse\<close> of a floating point number: sign, then infinity, nan, or digits with a point and an
  exponent, rounded once.
\<close>

definition digits_of :: "string \<Rightarrow> nat" where
  "digits_of s = foldl (\<lambda>n c. 10 * n + (of_char c - 48)) 0 s"

definition is_digit :: "char \<Rightarrow> bool" where
  "is_digit c \<longleftrightarrow> to_digit c \<noteq> None"

definition parse_exponent :: "string \<Rightarrow> int option" where
  "parse_exponent s =
     (case s of
        [] \<Rightarrow> Some 0
      | e # r \<Rightarrow>
          if e \<noteq> CHR ''e'' \<and> e \<noteq> CHR ''E'' then None
          else
            (let neg = (r \<noteq> [] \<and> hd r = CHR ''-'');
                 d = (if r \<noteq> [] \<and> (hd r = CHR ''-'' \<or> hd r = CHR ''+'') then tl r else r)
             in if d = [] \<or> \<not> list_all is_digit d then None
                else Some (if neg then - int (digits_of d) else int (digits_of d))))"

definition parse_float :: "(bool \<Rightarrow> rat \<Rightarrow> rfloat) \<Rightarrow> string \<Rightarrow> rfloat option" where
  "parse_float rnd s =
     (let neg = (s \<noteq> [] \<and> hd s = CHR ''-'');
          t = (if s \<noteq> [] \<and> (hd s = CHR ''-'' \<or> hd s = CHR ''+'') then tl s else s);
          low = map ascii_lower t
      in if low = ''inf'' \<or> low = ''infinity'' then Some (Inf neg)
         else if low = ''nan'' then Some (NaN neg)
         else
           (let whole = takeWhile is_digit t;
                r1 = dropWhile is_digit t;
                frac = (if r1 \<noteq> [] \<and> hd r1 = CHR ''.'' then takeWhile is_digit (tl r1) else []);
                r2 = (if r1 \<noteq> [] \<and> hd r1 = CHR ''.'' then dropWhile is_digit (tl r1) else r1)
            in if whole = [] \<and> frac = [] then None
               else map_option (\<lambda>e. rnd neg (of_nat (digits_of (whole @ frac)) * 10 powi (e - int (length frac))))
                      (parse_exponent r2)))"

definition parse_f64 :: "string \<Rightarrow> rfloat option" where
  "parse_f64 = parse_float f64_round"

definition parse_f32 :: "string \<Rightarrow> rfloat option" where
  "parse_f32 = parse_float f32_round"

subsection \<open>Release name, metrics and products\<close>

record support_product =
  sp_path :: string
  sp_default_path :: string
  sp_type :: string
  sp_subtype :: string
  sp_product_name :: string
  sp_is_regular :: bool
  sp_sha256hash :: "string option"
  sp_file_size :: "u64 option"

record support_metric =
  sm_path :: string
  sm_name :: string
  sm_unit :: "string option"
  sm_value :: rfloat

record support =
  su_failed :: bool
  su_release_name :: "string option"
  su_metrics :: "support_metric list"
  su_products :: "support_product list"

record file_metadata =
  fm_is_regular :: bool
  fm_is_dir :: bool
  fm_size :: u64

text \<open>
  The files: an opened file is the list of its lines, a line that cannot be read ends it.
\<close>

record fs =
  fs_open :: "string \<Rightarrow> (error + string) list option"
  fs_read :: "string \<Rightarrow> string option"
  fs_exists :: "string \<Rightarrow> bool"
  fs_metadata :: "string \<Rightarrow> file_metadata option"
  fs_sha256 :: "string \<Rightarrow> string option"

definition parse_release_name :: "string \<Rightarrow> string option" where
  "parse_release_name content =
     (let c = trim content in if c \<noteq> [] \<and> is_match VALIDATE_RELEASE_NAME c then Some c else None)"

definition parse_metric :: "nix_ffi \<Rightarrow> string \<Rightarrow> store_path \<Rightarrow> support_metric option" where
  "parse_metric s line output =
     (case split_whitespace line of
        name # value # rest \<Rightarrow>
          if \<not> is_match VALIDATE_METRICS_NAME name then None
          else Some
            \<lparr>sm_path = store_print s output, sm_name = name,
             sm_unit = (case rest of [] \<Rightarrow> None
                        | u # _ \<Rightarrow> if is_match VALIDATE_METRICS_UNIT u then Some u else None),
             sm_value = (case parse_f64 value of None \<Rightarrow> Fin False 0 | Some v \<Rightarrow> v)\<rparr>
      | _ \<Rightarrow> None)"

definition unquote :: "string \<Rightarrow> string" where
  "unquote t =
     (if t \<noteq> [] \<and> hd t = CHR 0x22 \<and> last t = CHR 0x22 then butlast (tl t) else t)"

definition product_of ::
  "fs \<Rightarrow> nix_ffi \<Rightarrow> store_path \<Rightarrow> string \<Rightarrow> string \<Rightarrow> string \<Rightarrow> string option \<Rightarrow> support_product option" where
  "product_of f s output ty sub path default_path =
     (if path = [] \<or> \<not> starts_with ''/'' path then None
      else if \<not> is_subpath (f_store_dir s) path then None
      else
        (case fs_metadata f path of
           None \<Rightarrow> None
         | Some m \<Rightarrow>
             (let name0 = (if path = store_print s output then []
                           else (case path_file_name path of None \<Rightarrow> [] | Some n \<Rightarrow> n));
                  name = (if is_match VALIDATE_PRODUCT_NAME name0 then name0 else [])
              in Some
                \<lparr>sp_path = path,
                 sp_default_path = (case default_path of None \<Rightarrow> [] | Some d \<Rightarrow> d),
                 sp_type = ty, sp_subtype = sub, sp_product_name = name, sp_is_regular = fm_is_regular m,
                 sp_sha256hash = (if fm_is_regular m then fs_sha256 f path else None),
                 sp_file_size = (if fm_is_regular m then Some (fm_size m) else None)\<rparr>)))"

definition parse_build_product :: "fs \<Rightarrow> nix_ffi \<Rightarrow> store_path \<Rightarrow> string \<Rightarrow> support_product option" where
  "parse_build_product f s output line =
     (case search BUILD_PRODUCT_PARSER line of
        None \<Rightarrow> None
      | Some c \<Rightarrow>
          (case (c 1, c 2, c 3) of
             (Some ty, Some sub, Some p) \<Rightarrow> product_of f s output ty sub (unquote p) (c 5)
           | _ \<Rightarrow> None))"

text \<open>Reading a file line by line, keeping what parses; a line that cannot be read fails everything.\<close>

fun parse_file :: "(string \<Rightarrow> 'a option) \<Rightarrow> (error + string) list \<Rightarrow> error + 'a list" where
  "parse_file parse [] = Inr []"
| "parse_file parse (Inl e # ls) = Inl e"
| "parse_file parse (Inr l # ls) =
     map_sum id (\<lambda>rest. case parse l of None \<Rightarrow> rest | Some a \<Rightarrow> a # rest) (parse_file parse ls)"

fun parse_files ::
  "fs \<Rightarrow> nix_ffi \<Rightarrow> string \<Rightarrow> (store_path \<Rightarrow> string \<Rightarrow> 'a option) \<Rightarrow> store_path list \<Rightarrow> error + 'a list" where
  "parse_files f s name parse [] = Inr []"
| "parse_files f s name parse (o' # os) =
     (case fs_open f (path_join (store_print s o') name) of
        None \<Rightarrow> parse_files f s name parse os
      | Some ls \<Rightarrow>
          (case parse_file (parse o') ls of
             Inl e \<Rightarrow> Inl e
           | Inr here \<Rightarrow> map_sum id (\<lambda>rest. here @ rest) (parse_files f s name parse os)))"

definition implicit_product :: "fs \<Rightarrow> nix_ffi \<Rightarrow> drv_output \<Rightarrow> error + support_product option" where
  "implicit_product f s o' =
     (case out_path o' of
        None \<Rightarrow> Inr None
      | Some p \<Rightarrow>
          (case fs_metadata f (store_print s p) of
             None \<Rightarrow> Inr None
           | Some m \<Rightarrow>
               if \<not> fm_is_dir m then Inr None
               else
                 (case sp_name p of
                    None \<Rightarrow> Inl Panicked
                  | Some name \<Rightarrow> Inr (Some
                      \<lparr>sp_path = store_print s p, sp_default_path = [], sp_type = ''nix-build'',
                       sp_subtype = (if out_name o' = ''out'' then [] else out_name o'),
                       sp_product_name = name, sp_is_regular = False, sp_sha256hash = None, sp_file_size = None\<rparr>))))"

fun implicit_products :: "fs \<Rightarrow> nix_ffi \<Rightarrow> drv_output list \<Rightarrow> error + support_product list" where
  "implicit_products f s [] = Inr []"
| "implicit_products f s (o' # os) =
     (case implicit_product f s o' of
        Inl e \<Rightarrow> Inl e
      | Inr p \<Rightarrow> map_sum id (\<lambda>rest. case p of None \<Rightarrow> rest | Some p \<Rightarrow> p # rest) (implicit_products f s os))"

definition parse_nix_support_from_outputs :: "fs \<Rightarrow> nix_ffi \<Rightarrow> drv_output list \<Rightarrow> error + support" where
  "parse_nix_support_from_outputs f s drv_outputs =
     (let outs = List.map_filter out_path drv_outputs;
          file = (\<lambda>name o'. path_join (store_print s o') name)
      in case parse_files f s ''nix-support/hydra-metrics'' (\<lambda>o' l. parse_metric s l o') outs of
           Inl e \<Rightarrow> Inl e
         | Inr metrics \<Rightarrow>
             (let failed = list_ex (\<lambda>o'. fs_exists f (file ''nix-support/failed'' o')) outs;
                  release = find_map (\<lambda>o'. Option.bind (fs_read f (file ''nix-support/hydra-release-name'' o')) parse_release_name) outs;
                  explicit = list_ex (\<lambda>o'. fs_open f (file ''nix-support/hydra-build-products'' o') \<noteq> None) outs
              in case (if explicit
                       then parse_files f s ''nix-support/hydra-build-products'' (parse_build_product f s) outs
                       else implicit_products f s drv_outputs) of
                   Inl e \<Rightarrow> Inl e
                 | Inr products \<Rightarrow> Inr
                     \<lparr>su_failed = failed, su_release_name = release, su_metrics = metrics, su_products = products\<rparr>))"

subsection \<open>What the expressions accept\<close>

lemma rmatch_Some_Of_Nil: "rmatch (Some_Of P) s c = [] \<longleftrightarrow> s = [] \<or> \<not> P (hd s)"
  by (cases s) auto

lemma search_Some_Of: "search (Some_Of P) s \<noteq> None \<longleftrightarrow> (\<exists>x \<in> set s. P x)"
proof (induction s)
  case (Cons x xs)
  show ?case
  proof (cases "P x")
    case True
    then have "rmatch (Some_Of P) (x # xs) (\<lambda>_. None) \<noteq> []" by (simp only: rmatch_Some_Of_Nil) simp
    with True show ?thesis by (auto split: list.splits simp del: rmatch.simps)
  next
    case False
    then have "rmatch (Some_Of P) (x # xs) (\<lambda>_. None) = []" by (simp only: rmatch_Some_Of_Nil) simp
    with False Cons show ?thesis by (simp del: rmatch.simps)
  qed
qed simp

lemma is_match_Some_Of: "is_match (Some_Of P) s \<longleftrightarrow> (\<exists>x \<in> set s. P x)"
  unfolding is_match_def by (rule search_Some_Of)

lemma is_match_Opt: "is_match (Opt r) s"
  by (cases s) (auto simp: is_match_def split: list.splits)

text \<open>
  the validation of a release name only asks for one valid character. The expression is not anchored, so
  the trimmed content of the file is accepted exactly when some character of it is allowed, whatever the
  others are. (The name of a product is not validated at all, \<open>is_match_Opt\<close>.)
\<close>

theorem release_name_validation:
  "parse_release_name content = Some t \<longleftrightarrow> t = trim content \<and> (\<exists>c \<in> set t. release_name_char c)"
  by (auto simp: parse_release_name_def VALIDATE_RELEASE_NAME_def is_match_Some_Of Let_def)

theorem release_name_validation_witness:
  "parse_release_name ''<a href=x>'' = Some ''<a href=x>'' \<and> \<not> list_all release_name_char ''<a href=x>''"
proof -
  have "trim ''<a href=x>'' = ''<a href=x>''" "release_name_char (CHR ''a'')" "\<not> list_all release_name_char ''<a href=x>''"
    by (simp_all add: is_ascii_space_def release_name_char_def alnum_def)
  with release_name_validation [of "''<a href=x>''" "''<a href=x>''"] show ?thesis by auto
qed

subsection \<open>Where products are\<close>

lemma split_on_join: "split_on c (a @ c # b) = split_on c a @ split_on c b"
  by (induction a) (auto split: list.splits)

lemma path_components_child:
  "dir \<noteq> [] \<Longrightarrow> hd dir = CHR ''/'' \<Longrightarrow>
   path_components (dir @ CHR ''/'' # rest) = path_components dir @ filter (\<lambda>c. c \<noteq> [] \<and> c \<noteq> ''.'') (split_on (CHR ''/'') rest)"
  by (cases dir) (auto simp: path_components_def starts_with_def split_on_join)

text \<open>Everything below the store directory counts as inside, parent components included.\<close>

lemma is_subpath_child: "dir \<noteq> [] \<Longrightarrow> hd dir = CHR ''/'' \<Longrightarrow> is_subpath dir (dir @ CHR ''/'' # rest)"
  by (simp add: is_subpath_def path_components_child)

lemma product_may_leave_store: "is_subpath ''/nix/store'' ''/nix/store/../../etc/passwd''"
  using is_subpath_child [of "''/nix/store''" "''../../etc/passwd''"] by simp

definition product_ok :: "fs \<Rightarrow> nix_ffi \<Rightarrow> support_product \<Rightarrow> bool" where
  "product_ok f s p \<longleftrightarrow>
     is_subpath (f_store_dir s) (sp_path p) \<and>
     (\<exists>m. fs_metadata f (sp_path p) = Some m \<and>
        (sp_is_regular p \<longrightarrow> fm_is_regular m \<and> sp_file_size p = Some (fm_size m)) \<and>
        (\<not> sp_is_regular p \<longrightarrow> sp_file_size p = None \<and> sp_sha256hash p = None))"

lemma parse_build_product_ok: "parse_build_product f s o' l = Some p \<Longrightarrow> product_ok f s p"
  by (auto simp: parse_build_product_def product_of_def product_ok_def Let_def split: option.splits if_splits)

lemma parse_file_mem: "parse_file parse ls = Inr as \<Longrightarrow> a \<in> set as \<Longrightarrow> \<exists>l. Inr l \<in> set ls \<and> parse l = Some a"
proof (induction parse ls arbitrary: as rule: parse_file.induct)
  case (3 parse l ls)
  then obtain rest where "parse_file parse ls = Inr rest" "as = (case parse l of None \<Rightarrow> rest | Some a \<Rightarrow> a # rest)"
    by (cases "parse_file parse ls") auto
  with 3 show ?case by (auto split: option.splits)
qed simp_all

lemma parse_files_mem:
  "parse_files f s name parse os = Inr as \<Longrightarrow> a \<in> set as \<Longrightarrow> \<exists>o' l. o' \<in> set os \<and> parse o' l = Some a"
proof (induction f s name parse os arbitrary: as rule: parse_files.induct)
  case (2 f s name parse o' os)
  then show ?case
    by (cases "parse_files f s name parse os") (fastforce split: option.splits sum.splits dest: parse_file_mem)+
qed simp

lemma implicit_products_ok:
  assumes "implicit_products f s os = Inr ps" and "p \<in> set ps" and "f_store_dir s \<noteq> []" and "hd (f_store_dir s) = CHR ''/''"
  shows "product_ok f s p \<and> sp_type p = ''nix-build''"
  using assms(1,2)
proof (induction os arbitrary: ps)
  case (Cons o' os)
  then obtain q rest where q: "implicit_product f s o' = Inr q" "implicit_products f s os = Inr rest"
    "ps = (case q of None \<Rightarrow> rest | Some p \<Rightarrow> p # rest)"
    by (cases "implicit_products f s os") (auto split: sum.splits)
  have "product_ok f s p' \<and> sp_type p' = ''nix-build''" if "q = Some p'" for p'
    using q(1) that is_subpath_child [OF assms(3,4)]
    by (auto simp: implicit_product_def product_ok_def store_print_def print_store_path_def split: option.splits if_splits)
  with Cons.IH [OF q(2)] Cons.prems(2) q(3) show ?case by (auto split: option.splits)
qed simp


definition ex_fs :: fs where
  "ex_fs = \<lparr>fs_open = (\<lambda>p. if drop (length p - 8) p = ''products'' then Some [Inr ''file iso /nix/store/x/a.iso index''] else None),
     fs_read = (\<lambda>_. None), fs_exists = (\<lambda>_. False),
     fs_metadata = (\<lambda>_. Some \<lparr>fm_is_regular = True, fm_is_dir = False, fm_size = 7\<rparr>), fs_sha256 = (\<lambda>_. Some ''00'')\<rparr>"

definition ex_outputs :: "drv_output list" where
  "ex_outputs = [\<lparr>out_name = ''out'', out_path = Some ''x'', out_hash = None, out_hash_algo = None\<rparr>]"


end
