(* ===== verification/Builder_System.thy ===== *)
theory Builder_System
  imports Nix_Support Machine Io
begin

text \<open>
  What a builder knows of its machine (builder/src/system.rs), its counters (metrics.rs) and its command line
  (config.rs). The files of the kernel are arguments: what procfs makes of a file, or the text of a file, by
  its absolute path; a relative path is taken from the working directory \<open>sy_cwd\<close>. This is the Linux variant.
\<close>

subsection \<open>Counters\<close>

record b_metrics =
  substituting_path_count :: u64
  uploading_path_count :: u64
  downloading_path_count :: u64

definition b_metrics_default :: b_metrics where
  "b_metrics_default = \<lparr>substituting_path_count = 0, uploading_path_count = 0, downloading_path_count = 0\<rparr>"

definition add_substituting_path :: "u64 \<Rightarrow> b_metrics \<Rightarrow> b_metrics" where
  "add_substituting_path v m = m\<lparr>substituting_path_count := substituting_path_count m + v\<rparr>"

definition sub_substituting_path :: "u64 \<Rightarrow> b_metrics \<Rightarrow> b_metrics" where
  "sub_substituting_path v m = m\<lparr>substituting_path_count := substituting_path_count m - v\<rparr>"

definition add_uploading_path :: "u64 \<Rightarrow> b_metrics \<Rightarrow> b_metrics" where
  "add_uploading_path v m = m\<lparr>uploading_path_count := uploading_path_count m + v\<rparr>"

definition sub_uploading_path :: "u64 \<Rightarrow> b_metrics \<Rightarrow> b_metrics" where
  "sub_uploading_path v m = m\<lparr>uploading_path_count := uploading_path_count m - v\<rparr>"

definition add_downloading_path :: "u64 \<Rightarrow> b_metrics \<Rightarrow> b_metrics" where
  "add_downloading_path v m = m\<lparr>downloading_path_count := downloading_path_count m + v\<rparr>"

definition sub_downloading_path :: "u64 \<Rightarrow> b_metrics \<Rightarrow> b_metrics" where
  "sub_downloading_path v m = m\<lparr>downloading_path_count := downloading_path_count m - v\<rparr>"

subsection \<open>The command line\<close>

record builder_cli =
  bcli_gateway_endpoint :: string
  bcli_ping_interval :: u64
  bcli_speed_factor :: rfloat
  bcli_max_jobs :: u32
  bcli_build_dir_avail_threshold :: rfloat
  bcli_store_avail_threshold :: rfloat
  bcli_load1_threshold :: rfloat
  bcli_cpu_psi_threshold :: rfloat
  bcli_mem_psi_threshold :: rfloat
  bcli_io_psi_threshold :: "rfloat option"
  bcli_server_root_ca_cert_path :: "string option"
  bcli_client_cert_path :: "string option"
  bcli_client_key_path :: "string option"
  bcli_domain_name :: "string option"
  bcli_systems :: "string list option"
  bcli_supported_features :: "string list option"
  bcli_mandatory_features :: "string list option"
  bcli_use_substitutes :: bool
  bcli_authorization_file :: "string option"

definition b_mtls_enabled :: "builder_cli \<Rightarrow> bool" where
  "b_mtls_enabled c \<longleftrightarrow> bcli_server_root_ca_cert_path c \<noteq> None \<and> bcli_client_cert_path c \<noteq> None \<and>
     bcli_client_key_path c \<noteq> None \<and> bcli_domain_name c \<noteq> None"

definition b_mtls_configured_correctly :: "builder_cli \<Rightarrow> bool" where
  "b_mtls_configured_correctly c \<longleftrightarrow> b_mtls_enabled c \<or>
     bcli_server_root_ca_cert_path c = None \<and> bcli_client_cert_path c = None \<and>
     bcli_client_key_path c = None \<and> bcli_domain_name c = None"

text \<open>Certificate, identity and domain name; a missing option or file is an error.\<close>

definition b_get_mtls :: "(string \<Rightarrow> string option) \<Rightarrow> builder_cli \<Rightarrow> error + string \<times> (string \<times> string) \<times> string" where
  "b_get_mtls read c =
     (case bcli_server_root_ca_cert_path c of
        None \<Rightarrow> Inl (Rejected ''server_root_ca_cert_path not provided'')
      | Some ca \<Rightarrow>
     (case bcli_client_cert_path c of
        None \<Rightarrow> Inl (Rejected ''client_cert_path not provided'')
      | Some cert \<Rightarrow>
     (case bcli_client_key_path c of
        None \<Rightarrow> Inl (Rejected ''client_key_path not provided'')
      | Some key \<Rightarrow>
     (case bcli_domain_name c of
        None \<Rightarrow> Inl (Rejected ''domain_name not provided'')
      | Some domain \<Rightarrow>
     (case read ca of None \<Rightarrow> Inl (Not_Found ca)
      | Some ca_pem \<Rightarrow>
     (case read cert of None \<Rightarrow> Inl (Not_Found cert)
      | Some cert_pem \<Rightarrow>
     (case read key of None \<Rightarrow> Inl (Not_Found key)
      | Some key_pem \<Rightarrow> Inr (ca_pem, (cert_pem, key_pem), domain))))))))"

definition get_authorization_token :: "(string \<Rightarrow> string option) \<Rightarrow> builder_cli \<Rightarrow> error + string option" where
  "get_authorization_token read c =
     (case bcli_authorization_file c of
        None \<Rightarrow> Inr None
      | Some path \<Rightarrow>
          (case read path of None \<Rightarrow> Inl (Not_Found path) | Some t \<Rightarrow> Inr (Some (trim t))))"

subsection \<open>The machine\<close>

record system_env =
  sy_cwd :: string
  sy_cpuinfo :: "error + (string \<times> string) list \<times> nat"
  sy_meminfo :: "error + u64 \<times> u64 option"
  sy_loadavg :: "error + rfloat \<times> rfloat \<times> rfloat"
  sy_exists :: "string \<Rightarrow> bool"
  sy_pressure :: "string \<Rightarrow> (m_pressure \<times> m_pressure) option"
  sy_read :: "string \<Rightarrow> string option"
  sy_statvfs :: "string \<Rightarrow> error + u64 \<times> u64 \<times> u64"
  sy_var :: "string \<Rightarrow> string option"
  sy_nan_sign :: bool

record base_system_info =
  si_cpu_count :: nat
  si_bogomips :: rfloat
  si_total_memory :: u64

definition base_system_info_new :: "system_env \<Rightarrow> error + base_system_info" where
  "base_system_info_new sy =
     (case sy_cpuinfo sy of
        Inl e \<Rightarrow> Inl e
      | Inr (info, cores) \<Rightarrow>
          (case sy_meminfo sy of
             Inl e \<Rightarrow> Inl e
           | Inr (mem_total, _) \<Rightarrow> Inr
               \<lparr>si_cpu_count = cores,
                si_bogomips = (case Option.bind (hm_get info ''bogomips'') parse_f32 of None \<Rightarrow> Fin False 0 | Some v \<Rightarrow> v),
                si_total_memory = mem_total\<rparr>))"

definition get_f32 :: "(string \<times> string) list \<Rightarrow> string \<Rightarrow> error + rfloat" where
  "get_f32 m value =
     (case Option.bind (hm_get m value) parse_f32 of None \<Rightarrow> Inl (Parse_Error value) | Some v \<Rightarrow> Inr v)"

definition get_total :: "(string \<times> string) list \<Rightarrow> error + u64" where
  "get_total m =
     (case hm_get m ''total'' of
        None \<Rightarrow> Inl (Parse_Error ''total'')
      | Some v \<Rightarrow> (case parse_u64 v of Inl _ \<Rightarrow> Inl (Parse_Error ''total'') | Inr n \<Rightarrow> Inr n))"

definition pressure_fields :: "string \<Rightarrow> (string \<times> string) list" where
  "pressure_fields values =
     fold (\<lambda>kv m. case split_on (CHR ''='') kv of [k, v] \<Rightarrow> hm_insert k v m | _ \<Rightarrow> m) (split_whitespace values) []"

text \<open>A line that is only the word \<^verbatim>\<open>some\<close> or \<^verbatim>\<open>full\<close> is too short for the slice \<^verbatim>\<open>line[5..]\<close>.\<close>

definition parse_pressure_record :: "string \<Rightarrow> error + m_pressure" where
  "parse_pressure_record line =
     (if \<not> starts_with ''some'' line \<and> \<not> starts_with ''full'' line then Inl (Parse_Error line)
      else if length line < 5 then Inl Panicked
      else
        (let parsed = pressure_fields (drop 5 line) in
         case get_f32 parsed ''avg10'' of Inl e \<Rightarrow> Inl e | Inr a10 \<Rightarrow>
         (case get_f32 parsed ''avg60'' of Inl e \<Rightarrow> Inl e | Inr a60 \<Rightarrow>
         (case get_f32 parsed ''avg300'' of Inl e \<Rightarrow> Inl e | Inr a300 \<Rightarrow>
         (case get_total parsed of Inl e \<Rightarrow> Inl e | Inr t \<Rightarrow>
          Inr \<lparr>avg10 = a10, avg60 = a60, avg300 = a300, p_total = t\<rparr>)))))"

definition from_file :: "system_env \<Rightarrow> string \<Rightarrow> (m_pressure \<times> m_pressure) option" where
  "from_file sy path = sy_pressure sy (path_join (sy_cwd sy) path)"

definition pressure_state_new :: "system_env \<Rightarrow> error + pressure_state option" where
  "pressure_state_new sy =
     (if \<not> sy_exists sy ''/proc/pressure'' then Inr None
      else
        (let cpu_psi = from_file sy ''proc/pressure/cpu'';
             mem_psi = from_file sy ''/proc/pressure/memory'';
             io_psi = from_file sy ''/proc/pressure/io'';
             irq = (case sy_read sy ''/proc/pressure/irq'' of
                      None \<Rightarrow> Inr None
                    | Some v \<Rightarrow> (case parse_pressure_record v of
                                   Inl e \<Rightarrow> if fatal e then Inl e else Inr None | Inr p \<Rightarrow> Inr (Some p)))
         in map_sum id (\<lambda>irq_psi_full. Some
              \<lparr>cpu_some = map_option fst cpu_psi, mem_some = map_option fst mem_psi, mem_full = map_option snd mem_psi,
               io_some = map_option fst io_psi, io_full = map_option snd io_psi, irq_full = irq_psi_full\<rparr>) irq))"

record system_load =
  sl_load_avg_1 :: rfloat
  sl_load_avg_5 :: rfloat
  sl_load_avg_15 :: rfloat
  sl_mem_usage :: u64
  sl_pressure :: "pressure_state option"
  sl_build_dir_free_percent :: rfloat
  sl_store_free_percent :: rfloat

definition percent :: "rfloat \<Rightarrow> rfloat" where
  "percent f = (case f of NaN s \<Rightarrow> NaN s | Inf s \<Rightarrow> Inf s | Fin s m \<Rightarrow> f64_round s (m * 100))"

definition get_mount_free_percent :: "system_env \<Rightarrow> string \<Rightarrow> error + rfloat" where
  "get_mount_free_percent sy dest =
     (case sy_statvfs sy dest of
        Inl e \<Rightarrow> Inl e
      | Inr (blocks, available, block_size) \<Rightarrow>
          (let total_bytes = blocks * block_size; free_bytes = available * block_size
           in Inr (percent
                (f64_div (sy_nan_sign sy) (f64_of_int (uint free_bytes)) (f64_of_int (uint total_bytes))))))"

definition system_load_new :: "system_env \<Rightarrow> string \<Rightarrow> error + system_load" where
  "system_load_new sy build_dir =
     (case sy_meminfo sy of
        Inl e \<Rightarrow> Inl e
      | Inr (mem_total, available) \<Rightarrow>
          (case sy_loadavg sy of
             Inl e \<Rightarrow> Inl e
           | Inr (one, five, fifteen) \<Rightarrow>
               (let dir = (case sy_var sy ''NIX_STORE_DIR'' of None \<Rightarrow> ''/nix/store'' | Some d \<Rightarrow> d);
                    free = (\<lambda>d. case get_mount_free_percent sy d of Inl _ \<Rightarrow> Fin False 0 | Inr p \<Rightarrow> p)
                in case pressure_state_new sy of
                     Inl e \<Rightarrow> Inl e
                   | Inr psi \<Rightarrow> Inr
                       \<lparr>sl_load_avg_1 = one, sl_load_avg_5 = five, sl_load_avg_15 = fifteen,
                        sl_mem_usage = mem_total - (case available of None \<Rightarrow> 0 | Some a \<Rightarrow> a), sl_pressure = psi,
                        sl_build_dir_free_percent = free build_dir, sl_store_free_percent = free dir\<rparr>)))"

end
