(* ===== verification/Grpc.thy ===== *)
theory Grpc
  imports Runner_Dispatch Presigned
begin

text \<open>
  The service builders talk to (queue-runner/src/server/grpc.rs). A builder opens a tunnel, which registers its
  machine; the task of the tunnel then reacts to the timer, to messages of the runner for the machine and
  to messages of the builder until the connection ends, and then unregisters the machine. The other
  requests report progress and results, ask for requisites, and arrange uploads with signed URLs.

  A tunnel keeps the messages it sent and whether somebody still reads them: a send fails exactly when the
  receiver is gone (a full channel makes it wait, which is left out). The channel to the task is the message
  queue of the machine object of the tunnel; the task has a clone of the machine, so the senders are never
  all gone while it runs. Text forms of identifiers, the version of the protocol and the local store
  are arguments. A spawned task runs right after the request that spawned it.
\<close>

subsection \<open>Answers\<close>

record grpc_env = runner_env +
  g_uuid_parse :: "string \<Rightarrow> uuid option"
  g_uuid_str :: "uuid \<Rightarrow> string"
  g_version :: string
  g_store :: nix_ffi

text \<open>An error of the handler becomes a status; a panic does not answer.\<close>

datatype rpc_error = Status grpc_status | Crash error

type_synonym ('s, 'a) rpc = "'s \<Rightarrow> (rpc_error + 'a) \<times> 's"

definition map_err :: "grpc_status \<Rightarrow> ('s, 'a) io \<Rightarrow> ('s, 'a) rpc" where
  "map_err st m w =
     (case m w of
        (Inr a, w') \<Rightarrow> (Inr a, w')
      | (Inl e, w') \<Rightarrow> (Inl (if fatal e then Crash e else Status st), w'))"

definition spawn :: "('s, 'a) io \<Rightarrow> 's \<Rightarrow> 's" where
  "spawn task w = snd (task w)"

definition parse_id :: "(string \<Rightarrow> uuid option) \<Rightarrow> string \<Rightarrow> string \<Rightarrow> grpc_status + uuid" where
  "parse_id parse what s =
     (case parse s of
        None \<Rightarrow> Inl (Invalid_Argument (what @ '' is not a valid uuid.''))
      | Some u \<Rightarrow> Inr u)"

definition parse_ids :: "(string \<Rightarrow> uuid option) \<Rightarrow> string \<Rightarrow> string \<Rightarrow> grpc_status + uuid \<times> uuid" where
  "parse_ids parse build_id machine_id =
     (case parse_id parse ''build_id'' build_id of
        Inl e \<Rightarrow> Inl e
      | Inr b \<Rightarrow>
          (case parse_id parse ''machine_id'' machine_id of
             Inl e \<Rightarrow> Inl e
           | Inr m \<Rightarrow> Inr (b, m)))"

record version_check_request =
  vc_version :: string
  vc_machine_id :: string
  vc_hostname :: string

record version_check_response =
  vr_compatible :: bool
  vr_server_version :: string

definition check_version :: "'e grpc_env_scheme \<Rightarrow> version_check_request \<Rightarrow> version_check_response" where
  "check_version env req =
     (let server_version = g_version env in
      if vc_version req = server_version
      then \<lparr>vr_compatible = True, vr_server_version = server_version\<rparr>
      else \<lparr>vr_compatible = False, vr_server_version = server_version\<rparr>)"

subsection \<open>The tunnel\<close>

datatype builder_message = Join join_message | Ping ping_message

datatype runner_message =
    Join_Response string u32
  | Simple_Ping string
  | Forward runner_request

text \<open>The error of a stream with its sources; an error of h2 shows an input error only when asked for it.\<close>

datatype io_kind = Broken_Pipe | Other_Kind

datatype cause = Io_Error io_kind | H2_Error "io_kind option" | Other_Cause

type_synonym stream_error = "cause list"

fun match_for_io_error :: "stream_error \<Rightarrow> io_kind option" where
  "match_for_io_error [] = None"
| "match_for_io_error (Io_Error k # cs) = Some k"
| "match_for_io_error (H2_Error (Some k) # cs) = Some k"
| "match_for_io_error (H2_Error None # cs) = match_for_io_error cs"
| "match_for_io_error (Other_Cause # cs) = match_for_io_error cs"

definition handle_message :: "'e grpc_env_scheme \<Rightarrow> builder_message \<Rightarrow> (state, unit) io" where
  "handle_message env msg =
     (case msg of
        Join _ \<Rightarrow> ok ()
      | Ping p \<Rightarrow>
          (case g_uuid_parse env (pm_machine_id p) of
             None \<Rightarrow> ok ()
           | Some machine_id \<Rightarrow>
               bind (gets (\<lambda>w. get_machine_by_id machine_id (r_machines w))) (\<lambda>found.
               case found of
                 None \<Rightarrow> ok ()
               | Some r \<Rightarrow>
                   bind (now_io env) (\<lambda>now.
                   set_machine r (\<lambda>m. m\<lparr>m_stats_of := store_ping (as_second now) p (m_stats_of m)\<rparr>)))))"

record tunnel =
  tn_machine_id :: uuid
  tn_machine :: mref
  tn_sent :: "(stream_error + runner_message) list"
  tn_receiver :: bool
  tn_running :: bool

definition send_out :: "stream_error + runner_message \<Rightarrow> tunnel \<Rightarrow> tunnel option" where
  "send_out msg tn = (if tn_receiver tn then Some (tn\<lparr>tn_sent := tn_sent tn @ [msg]\<rparr>) else None)"

text \<open>The first message of the stream: none, an error, an empty message or a message.\<close>

definition open_tunnel ::
  "'e grpc_env_scheme \<Rightarrow> (stream_error + builder_message option) option \<Rightarrow> (state, tunnel) rpc" where
  "open_tunnel env first w =
     (case first of
        Some (Inr (Some (Join v))) \<Rightarrow>
          (case bind (now_io env) (\<lambda>now. of_sum (machine_new (g_uuid_parse env) now v
                  (cfg_use_presigned_uploads (config w)) (cfg_forced_substituters (config w)))) w of
             (Inl e, w1) \<Rightarrow> (Inl (Status (Invalid_Argument ''Machine is not valid'')), w1)
           | (Inr m, w1) \<Rightarrow>
               (case bind (state_insert_machine env m) (\<lambda>u.
                       bind (gets (\<lambda>w. get_machine_by_id u (r_machines w))) (\<lambda>r.
                       bind (of_option (Not_Found ''machine'') r) (\<lambda>r. ok (u, r)))) w1 of
                  (Inl e, w2) \<Rightarrow> (Inl (Crash e), w2)
                | (Inr (u, r), w2) \<Rightarrow>
                    (case send_out (Inr (Join_Response (g_uuid_str env u) (cfg_max_concurrent_downloads (config w2))))
                            \<lparr>tn_machine_id = u, tn_machine = r, tn_sent = [], tn_receiver = True, tn_running = True\<rparr> of
                       None \<Rightarrow> (Inl (Status (Internal ''Failed to send join Response.'')), w2)
                     | Some tn \<Rightarrow> (Inr tn, w2))))
      | _ \<Rightarrow> (Inl (Status (Invalid_Argument ''No Ping message was sent'')), w))"

text \<open>
  The end of the task: the machine is unregistered under its identifier, the channel is closed when the task
  drops its receiver.
\<close>

definition leave_tunnel :: "'e grpc_env_scheme \<Rightarrow> tunnel \<Rightarrow> (state, tunnel) io" where
  "leave_tunnel env tn =
     and_then (state_remove_machine env (tn_machine_id tn))
     (and_then (set_machine (tn_machine tn) (\<lambda>m. m\<lparr>msg_queue_open := False\<rparr>))
     (ok (tn\<lparr>tn_running := False\<rparr>)))"

definition send_or_leave ::
  "'e grpc_env_scheme \<Rightarrow> stream_error + runner_message \<Rightarrow> tunnel \<Rightarrow> (state, tunnel) io" where
  "send_or_leave env msg tn =
     (case send_out msg tn of Some tn' \<Rightarrow> ok tn' | None \<Rightarrow> leave_tunnel env tn)"

datatype tunnel_event =
    Ping_Tick
  | From_Runner
  | From_Builder "(stream_error + builder_message option) option"

text \<open>One turn of the loop of the task, for the event that is ready.\<close>

definition tunnel_turn :: "'e grpc_env_scheme \<Rightarrow> tunnel_event \<Rightarrow> tunnel \<Rightarrow> (state, tunnel) io" where
  "tunnel_turn env ev tn =
     (case ev of
        Ping_Tick \<Rightarrow> send_or_leave env (Inr (Simple_Ping ''ping'')) tn
      | From_Runner \<Rightarrow>
          bind (gets (\<lambda>w. upgrade (mem_machines w) (tn_machine tn))) (\<lambda>found.
          case found of
            None \<Rightarrow> leave_tunnel env tn
          | Some m \<Rightarrow>
              (case msg_queue m of
                 [] \<Rightarrow> ok tn
               | msg # rest \<Rightarrow>
                   and_then (set_machine (tn_machine tn) (\<lambda>m. m\<lparr>msg_queue := rest\<rparr>))
                   (send_or_leave env (Inr (Forward (into_request (g_uuid_str env) msg))) tn)))
      | From_Builder None \<Rightarrow> leave_tunnel env tn
      | From_Builder (Some (Inr None)) \<Rightarrow> ok tn
      | From_Builder (Some (Inr (Some msg))) \<Rightarrow> and_then (handle_message env msg) (ok tn)
      | From_Builder (Some (Inl err)) \<Rightarrow>
          if match_for_io_error err = Some Broken_Pipe then leave_tunnel env tn
          else send_or_leave env (Inl err) tn)"

subsection \<open>Logs\<close>

text \<open>
  A log arrives in chunks. The first chunk names the derivation and creates the file, or empties it; the
  files are a map from paths to contents. Reading the stream, opening and writing may fail;
  \<open>lo_write\<close> is the status an input error becomes.
\<close>

record log_chunk =
  lc_drv :: string
  lc_data :: string

type_synonym files = "(string \<times> string) list"

record log_io =
  lo_open_ok :: "string \<Rightarrow> bool"
  lo_write :: "nat \<Rightarrow> grpc_status option"

definition new_log_file :: "log_io \<Rightarrow> string \<Rightarrow> store_path \<Rightarrow> (files, string) io" where
  "new_log_file l dir p =
     bind (of_sum (log_file_path dir p)) (\<lambda>file.
     if lo_open_ok l file then and_then (update_st (hm_insert file [])) (ok file) else fail Store_Error)"

definition write_all :: "log_io \<Rightarrow> nat \<Rightarrow> string \<Rightarrow> string \<Rightarrow> (files, unit) rpc" where
  "write_all l n file data w =
     (case lo_write l n of
        Some st \<Rightarrow> (Inl (Status st), w)
      | None \<Rightarrow> (Inr (), hm_insert file ((case hm_get w file of None \<Rightarrow> [] | Some c \<Rightarrow> c) @ data) w))"

fun write_chunks ::
  "log_io \<Rightarrow> string \<Rightarrow> string \<Rightarrow> nat \<Rightarrow> string option \<Rightarrow> (grpc_status + log_chunk) list \<Rightarrow> (files, unit) rpc" where
  "write_chunks l nix_dir dir n out_file [] w = (Inr (), w)"
| "write_chunks l nix_dir dir n out_file (Inl st # cs) w = (Inl (Status st), w)"
| "write_chunks l nix_dir dir n out_file (Inr c # cs) w =
     (case out_file of
        Some file \<Rightarrow>
          (case write_all l n file (lc_data c) w of
             (Inl e, w1) \<Rightarrow> (Inl e, w1)
           | (Inr _, w1) \<Rightarrow> write_chunks l nix_dir dir (Suc n) out_file cs w1)
      | None \<Rightarrow>
          (case map_err (Internal ''Failed to create log file.'') (new_log_file l dir (store_path_new nix_dir (lc_drv c))) w of
             (Inl e, w1) \<Rightarrow> (Inl e, w1)
           | (Inr file, w1) \<Rightarrow>
               (case write_all l n file (lc_data c) w1 of
                  (Inl e, w2) \<Rightarrow> (Inl e, w2)
                | (Inr _, w2) \<Rightarrow> write_chunks l nix_dir dir (Suc n) (Some file) cs w2)))"

definition build_log ::
  "log_io \<Rightarrow> string \<Rightarrow> string \<Rightarrow> (grpc_status + log_chunk) list \<Rightarrow> (files, unit) rpc" where
  "build_log l nix_dir dir stream = write_chunks l nix_dir dir 0 None stream"

subsection \<open>Reports\<close>

datatype proto_step_status =
  PPreparing | PConnecting | PSeningInputs | PBuilding | PWaitingForLocalSlot | PReceivingOutputs | PPostProcessing

fun step_status_from :: "proto_step_status \<Rightarrow> step_status" where
  "step_status_from PPreparing = Preparing"
| "step_status_from PConnecting = Connecting"
| "step_status_from PSeningInputs = SendingInputs"
| "step_status_from PBuilding = Building"
| "step_status_from PWaitingForLocalSlot = WaitingForLocalSlot"
| "step_status_from PReceivingOutputs = ReceivingOutputs"
| "step_status_from PPostProcessing = PostProcessing"

record step_update =
  sup_build_id :: string
  sup_machine_id :: string
  sup_step_status :: proto_step_status

definition build_step_update :: "'e grpc_env_scheme \<Rightarrow> step_update \<Rightarrow> (state, unit) rpc" where
  "build_step_update env req w =
     (case parse_ids (g_uuid_parse env) (sup_build_id req) (sup_machine_id req) of
        Inl st \<Rightarrow> (Inl (Status st), w)
      | Inr (build_id, machine_id) \<Rightarrow>
          (Inr (), spawn (update_build_step_status env build_id machine_id (step_status_from (sup_step_status req))) w))"

definition complete_build :: "'e grpc_env_scheme \<Rightarrow> build_result_info \<Rightarrow> (state, unit) rpc" where
  "complete_build env req w =
     (case parse_ids (g_uuid_parse env) (bri_build_id req) (bri_machine_id req) of
        Inl st \<Rightarrow> (Inl (Status st), w)
      | Inr (build_id, machine_id) \<Rightarrow>
          (Inr (), spawn
             (if bri_result_state req = PSuccess
              then succeed_step_by_uuid env build_id machine_id (build_output_from_result (e_nix_dir env) req)
              else fail_step_by_uuid env build_id machine_id (build_result_state_from (bri_result_state req))
                     (build_timings_new (bri_import_time_ms req) (bri_build_time_ms req) (bri_upload_time_ms req))) w))"

subsection \<open>The store\<close>

definition fetch_drv_requisites :: "'e grpc_env_scheme \<Rightarrow> string \<Rightarrow> bool \<Rightarrow> rpc_error + string list" where
  "fetch_drv_requisites env path include_outputs =
     (case query_requisites (g_store env) [store_path_new (f_store_dir (g_store env)) path] include_outputs of
        Inl e \<Rightarrow> Inl (if fatal e then Crash e else Status (Internal ''failed to toposort drv.''))
      | Inr requisites \<Rightarrow> Inr requisites)"

definition has_path :: "'e grpc_env_scheme \<Rightarrow> string \<Rightarrow> bool" where
  "has_path env path = is_valid_path (g_store env) (store_path_new (f_store_dir (g_store env)) path)"

subsection \<open>Uploads with signed URLs\<close>

record wire_upload =
  wu_path :: string
  wu_url :: string
  wu_compression :: string
  wu_compression_level :: int

definition wire_upload_of :: "presigned_upload \<Rightarrow> wire_upload" where
  "wire_upload_of u =
     \<lparr>wu_path = pu_path u, wu_url = pu_url u, wu_compression = compression_as_str (pu_compression u),
      wu_compression_level = get_compression_level_as_i32 u\<rparr>"

record presigned_nar_request =
  nq_store_path :: string
  nq_nar_hash :: string
  nq_debug_info_build_ids :: "string list"

record presigned_url_request =
  uq_build_id :: string
  uq_machine_id :: string
  uq_request :: "presigned_nar_request list"

record presigned_nar_response =
  np_store_path :: string
  np_nar_url :: string
  np_nar_upload :: "wire_upload option"
  np_ls_upload :: "wire_upload option"
  np_debug_info_upload :: "wire_upload list"

definition nar_response :: "store_path \<Rightarrow> presigned_upload_response \<Rightarrow> presigned_nar_response" where
  "nar_response p r =
     \<lparr>np_store_path = p, np_nar_url = pr_nar_url r, np_nar_upload = Some (wire_upload_of (pr_nar_upload r)),
      np_ls_upload = map_option wire_upload_of (pr_ls_upload r),
      np_debug_info_upload = map wire_upload_of (pr_debug_info_upload r)\<rparr>"

fun presign_all ::
  "('r, 'c) cache_env_scheme \<Rightarrow> s3_client \<Rightarrow> presigned_nar_request list \<Rightarrow> (cache_world, presigned_nar_response list) rpc" where
  "presign_all cenv remote_store [] w = (Inr [], w)"
| "presign_all cenv remote_store (q # qs) w =
     (let p = store_path_new (f_store_dir (c_ffi cenv)) (nq_store_path q) in
      case map_err (Internal ''Failed to generate presigned URL'')
             (generate_nar_upload_presigned_url cenv remote_store p (nq_nar_hash q) (nq_debug_info_build_ids q)) w of
        (Inl e, w1) \<Rightarrow> (Inl e, w1)
      | (Inr r, w1) \<Rightarrow>
          (case presign_all cenv remote_store qs w1 of
             (Inl e, w2) \<Rightarrow> (Inl e, w2)
           | (Inr rs, w2) \<Rightarrow> (Inr (nar_response p r # rs), w2)))"

definition first_store :: "s3_client list \<Rightarrow> grpc_status + s3_client" where
  "first_store stores =
     (case stores of [] \<Rightarrow> Inl (Failed_Precondition ''No remote store configured'') | s # _ \<Rightarrow> Inr s)"

definition request_presigned_url ::
  "'e grpc_env_scheme \<Rightarrow> ('r, 'c) cache_env_scheme \<Rightarrow> s3_client list \<Rightarrow> presigned_url_request \<Rightarrow>
     (cache_world, presigned_nar_response list) rpc" where
  "request_presigned_url env cenv stores req w =
     (case parse_ids (g_uuid_parse env) (uq_build_id req) (uq_machine_id req) of
        Inl st \<Rightarrow> (Inl (Status st), w)
      | Inr _ \<Rightarrow>
          (case first_store stores of
             Inl st \<Rightarrow> (Inl (Status st), w)
           | Inr remote_store \<Rightarrow> presign_all cenv remote_store (uq_request req) w))"

record presigned_upload_complete =
  uc_build_id :: string
  uc_machine_id :: string
  uc_store_path :: string
  uc_url :: string
  uc_compression :: string
  uc_file_hash :: string
  uc_file_size :: u64
  uc_nar_hash :: string
  uc_nar_size :: u64
  uc_references :: "string list"
  uc_deriver :: "string option"
  uc_ca :: "string option"

definition narinfo_of :: "string \<Rightarrow> s3_client \<Rightarrow> presigned_upload_complete \<Rightarrow> nar_info" where
  "narinfo_of nix_dir remote_store req =
     \<lparr>ni_store_path = store_path_new nix_dir (uc_store_path req), ni_url = uc_url req,
      ni_compression = sx_compression (cl_cfg remote_store), ni_file_hash = Some (uc_file_hash req),
      ni_file_size = Some (uc_file_size req), ni_nar_hash = uc_nar_hash req, ni_nar_size = uc_nar_size req,
      ni_references = map (store_path_new nix_dir) (uc_references req),
      ni_deriver = map_option (store_path_new nix_dir) (uc_deriver req), ni_ca = uc_ca req, ni_sigs = []\<rparr>"

definition notify_presigned_upload_complete ::
  "'e grpc_env_scheme \<Rightarrow> ('r, 'c) cache_env_scheme \<Rightarrow> s3_client list \<Rightarrow> state \<Rightarrow> presigned_upload_complete \<Rightarrow>
     (cache_world, unit) rpc" where
  "notify_presigned_upload_complete env cenv stores st req w =
     (case parse_ids (g_uuid_parse env) (uc_build_id req) (uc_machine_id req) of
        Inl e \<Rightarrow> (Inl (Status e), w)
      | Inr (build_id, machine_id) \<Rightarrow>
          (case Option.bind (get_machine_by_id machine_id (r_machines st)) (upgrade (mem_machines st)) of
             None \<Rightarrow> (Inl (Status (Status_Not_Found ''Machine not found'')), w)
           | Some machine \<Rightarrow>
               (case get_job_drv_for_build_id build_id machine of
                  None \<Rightarrow> (Inl (Status (Status_Not_Found ''Job not found for this build_id'')), w)
                | Some _ \<Rightarrow>
                    (case first_store stores of
                       Inl e \<Rightarrow> (Inl (Status e), w)
                     | Inr remote_store \<Rightarrow>
                         (case map_err (Internal ''Failed to upload narinfo'')
                                (upload_narinfo_after_presigned_upload cenv remote_store
                                   (narinfo_of (f_store_dir (c_ffi cenv)) remote_store req)) w of
                            (Inl e, w1) \<Rightarrow> (Inl e, w1)
                          | (Inr _, w1) \<Rightarrow> (Inr (), w1))))))"

end
