(* ===== verification/Builder.thy ===== *)
theory Builder
  imports Builder_System Grpc
begin

text \<open>
  The builder (builder/src/state.rs, grpc.rs, main.rs): it takes requests of the runner from the tunnel, runs each
  build as a task and reports the result. A task imports the requisites of the derivation, builds it,
  uploads the outputs and describes them.

  The world of a builder is its state, its tasks, the paths that are valid in its store, the links that protect
  paths from the garbage collector, and the requests the runner has accepted. What the runner, the store and
  the clock answer is the argument \<open>builder_env\<close>, by the number \<open>b_tick\<close> of the question. A request that fails
  may have been accepted all the same. The futures of a buffered stream run one after the other, in order; a
  task runs in one piece.
\<close>

subsection \<open>The state\<close>

datatype job_failure =
    Build_Failed error
  | Preparing_Failed error
  | Import_Failed error
  | Upload_Failed error
  | Post_Processing_Failed error

fun result_state_from :: "job_failure \<Rightarrow> proto_result_state" where
  "result_state_from (Build_Failed _) = PBuildFailure"
| "result_state_from (Preparing_Failed _) = PPreparingFailure"
| "result_state_from (Import_Failed _) = PImportFailure"
| "result_state_from (Upload_Failed _) = PUploadFailure"
| "result_state_from (Post_Processing_Failed _) = PPostProcessingFailure"

record builder_config =
  bc_ping_interval :: u64
  bc_speed_factor :: rfloat
  bc_max_jobs :: u32
  bc_build_dir_avail_threshold :: rfloat
  bc_store_avail_threshold :: rfloat
  bc_load1_threshold :: rfloat
  bc_cpu_psi_threshold :: rfloat
  bc_mem_psi_threshold :: rfloat
  bc_io_psi_threshold :: "rfloat option"
  bc_gcroots :: string
  bc_systems :: "string list"
  bc_supported_features :: "string list"
  bc_mandatory_features :: "string list"
  bc_cgroups :: bool
  bc_use_substitutes :: bool

text \<open>
  \<^verbatim>\<open>BuildInfo\<close> has the handle of its task; the flag \<^verbatim>\<open>was_cancelled\<close> is shared with the task and kept there.
\<close>

record build_info =
  bi_drv_path :: store_path
  bi_handle :: nat

datatype task_end = Running | Ended | Aborted_Task

record task =
  tk_message :: build_request
  tk_build_id :: uuid
  tk_was_cancelled :: bool
  tk_end :: task_end

record builder =
  b_id :: uuid
  b_hostname :: string
  b_config :: builder_config
  b_max_concurrent_downloads :: u32
  b_active_builds :: "(uuid \<times> build_info) list"
  b_halt :: bool
  b_metrics :: b_metrics
  b_status :: string
  b_tasks :: "task list"
  b_tick :: nat
  b_valid :: "store_path list"
  b_links :: "(string \<times> string) list"
  b_root_dirs :: "string list"
  b_updates :: "step_update list"
  b_reports :: "build_result_info list"
  b_timings :: build_timings
  b_cache :: cache_world

record 'r builder_env =
  be_uuid_parse :: "string \<Rightarrow> uuid option"
  be_uuid_str :: "uuid \<Rightarrow> string"
  be_new_uuid :: "nat \<Rightarrow> string"
  be_system :: "nat \<Rightarrow> system_env"
  be_substituters :: "nat \<Rightarrow> string list"
  be_nix_version :: string
  be_build_dir :: string
  be_mkdir :: "nat \<Rightarrow> string \<Rightarrow> error option"
  be_rmdir :: "nat \<Rightarrow> string \<Rightarrow> error option"
  be_root :: "nat \<Rightarrow> ((string \<times> string) list \<Rightarrow> string \<Rightarrow> bool) \<times> bool \<times> bool"
  be_elapsed :: "nat \<Rightarrow> nat"
  be_answer :: "nat \<Rightarrow> error option \<times> bool"
  be_requisites :: "nat \<Rightarrow> string \<Rightarrow> bool \<Rightarrow> error + string list"
  be_has_path :: "nat \<Rightarrow> string \<Rightarrow> error + bool"
  be_stream_files :: "nat \<Rightarrow> string list \<Rightarrow> error option"
  be_import :: "nat \<Rightarrow> store_path list \<Rightarrow> error option \<times> store_path list"
  be_substitute :: "nat \<Rightarrow> store_path \<Rightarrow> error option \<times> store_path list"
  be_query_drv :: "nat \<Rightarrow> store_path \<Rightarrow> error + derivation option"
  be_realise :: "nat \<Rightarrow> store_path \<Rightarrow> build_options \<Rightarrow> error + (error + string) list"
  be_wait :: "nat \<Rightarrow> error + int option"
  be_built :: "nat \<Rightarrow> store_path \<Rightarrow> store_path list"
  be_build_log :: "nat \<Rightarrow> log_chunk list \<Rightarrow> error option"
  be_export :: "nat \<Rightarrow> store_path list \<Rightarrow> error option"
  be_build_result :: "nat \<Rightarrow> store_path list \<Rightarrow> error option"
  be_support :: "nat \<Rightarrow> drv_output list \<Rightarrow> error + support"
  be_retries :: nat
  be_cache :: "'r presign_env"
  be_request_url :: "presigned_url_request \<Rightarrow> (cache_world, presigned_nar_response list) rpc"
  be_notify :: "presigned_upload_complete \<Rightarrow> (cache_world, unit) rpc"

abbreviation the_store :: "('r, 'e) builder_env_scheme \<Rightarrow> nix_ffi" where
  "the_store env \<equiv> c_ffi (be_cache env)"

type_synonym 'a builder_io = "(builder, 'a) io"

definition b_ask :: "(nat \<Rightarrow> 'a) \<Rightarrow> 'a builder_io" where
  "b_ask f w = (Inr (f (b_tick w)), w\<lparr>b_tick := b_tick w + 1\<rparr>)"

definition b_try :: "(nat \<Rightarrow> error + 'a) \<Rightarrow> 'a builder_io" where
  "b_try f = bind (b_ask f) of_sum"

definition of_err :: "error option \<Rightarrow> ('s, unit) io" where
  "of_err e = (case e of None \<Rightarrow> ok () | Some e \<Rightarrow> fail e)"

text \<open>The cache is reached over the network; a status of the runner is an error like others.\<close>

definition in_cache :: "'a cache_io \<Rightarrow> 'a builder_io" where
  "in_cache m w = (case m (b_cache w) of (r, c) \<Rightarrow> (r, w\<lparr>b_cache := c\<rparr>))"

definition rpc_result :: "rpc_error + 'a \<Rightarrow> error + 'a" where
  "rpc_result r = (case r of Inl (Status _) \<Rightarrow> Inl Store_Error | Inl (Crash _) \<Rightarrow> Inl Store_Error | Inr a \<Rightarrow> Inr a)"

definition call :: "(cache_world, 'a) rpc \<Rightarrow> 'a builder_io" where
  "call m = in_cache (\<lambda>c. case m c of (r, c') \<Rightarrow> (rpc_result r, c'))"

definition count :: "(b_metrics \<Rightarrow> b_metrics) \<Rightarrow> unit builder_io" where
  "count f = update_st (\<lambda>w. w\<lparr>b_metrics := f (b_metrics w)\<rparr>)"

subsection \<open>Messages about the machine\<close>

text \<open>\<^verbatim>\<open>State::new\<close>, once the client is connected; \<open>defaults\<close> are the platform, further platforms and features of Nix.\<close>

definition gcroots_dir :: "(string \<Rightarrow> string option) \<Rightarrow> error + string" where
  "gcroots_dir var =
     (case var ''LOGNAME'' of
        None \<Rightarrow> Inl (Not_Found ''LOGNAME not set'')
      | Some logname \<Rightarrow>
          (let dir = (case var ''NIX_STATE_DIR'' of None \<Rightarrow> ''/nix/var/nix/'' | Some d \<Rightarrow> d)
           in Inr (path_join (path_join (path_join dir ''gcroots/per-user'') logname) ''hydra-roots'')))"

definition builder_config_new ::
  "string \<Rightarrow> string list \<Rightarrow> string list \<Rightarrow> bool \<Rightarrow> string \<Rightarrow> builder_cli \<Rightarrow> builder_config" where
  "builder_config_new this_system extra_platforms system_features use_cgroups gcroots c =
     \<lparr>bc_ping_interval = bcli_ping_interval c, bc_speed_factor = bcli_speed_factor c, bc_max_jobs = bcli_max_jobs c,
      bc_build_dir_avail_threshold = bcli_build_dir_avail_threshold c,
      bc_store_avail_threshold = bcli_store_avail_threshold c, bc_load1_threshold = bcli_load1_threshold c,
      bc_cpu_psi_threshold = bcli_cpu_psi_threshold c, bc_mem_psi_threshold = bcli_mem_psi_threshold c,
      bc_io_psi_threshold = bcli_io_psi_threshold c, bc_gcroots = gcroots,
      bc_systems = (case bcli_systems c of None \<Rightarrow> this_system # extra_platforms | Some s \<Rightarrow> s),
      bc_supported_features = (case bcli_supported_features c of None \<Rightarrow> system_features | Some f \<Rightarrow> f),
      bc_mandatory_features = (case bcli_mandatory_features c of None \<Rightarrow> [] | Some f \<Rightarrow> f),
      bc_cgroups = use_cgroups, bc_use_substitutes = bcli_use_substitutes c\<rparr>"

definition get_join_message :: "('r, 'e) builder_env_scheme \<Rightarrow> join_message builder_io" where
  "get_join_message env =
     bind (b_try (\<lambda>t. base_system_info_new (be_system env t))) (\<lambda>sys.
     bind (if si_cpu_count sys < 2 ^ 32 then ok (of_nat (si_cpu_count sys)) else fail Int_Conversion) (\<lambda>cpus.
     bind (b_ask (be_substituters env)) (\<lambda>subs.
     gets (\<lambda>w. let c = b_config w in
       \<lparr>jm_machine_id = be_uuid_str env (b_id w), jm_systems = bc_systems c, jm_hostname = b_hostname w,
        jm_cpu_count = cpus, jm_bogomips = si_bogomips sys, jm_speed_factor = bc_speed_factor c,
        jm_max_jobs = bc_max_jobs c, jm_build_dir_avail_threshold = bc_build_dir_avail_threshold c,
        jm_store_avail_threshold = bc_store_avail_threshold c, jm_load1_threshold = bc_load1_threshold c,
        jm_cpu_psi_threshold = bc_cpu_psi_threshold c, jm_mem_psi_threshold = bc_mem_psi_threshold c,
        jm_io_psi_threshold = bc_io_psi_threshold c, jm_total_mem = si_total_memory sys,
        jm_supported_features = bc_supported_features c, jm_mandatory_features = bc_mandatory_features c,
        jm_cgroups = bc_cgroups c, jm_substituters = subs, jm_use_substitutes = bc_use_substitutes c,
        jm_nix_version = be_nix_version env\<rparr>))))"

definition get_ping_message :: "('r, 'e) builder_env_scheme \<Rightarrow> ping_message builder_io" where
  "get_ping_message env =
     bind (b_try (\<lambda>t. system_load_new (be_system env t) (be_build_dir env))) (\<lambda>sys.
     gets (\<lambda>w.
       \<lparr>pm_machine_id = be_uuid_str env (b_id w), pm_load1 = sl_load_avg_1 sys, pm_load5 = sl_load_avg_5 sys,
        pm_load15 = sl_load_avg_15 sys, pm_mem_usage = sl_mem_usage sys, pm_pressure = sl_pressure sys,
        pm_build_dir_free_percent = sl_build_dir_free_percent sys, pm_store_free_percent = sl_store_free_percent sys,
        pm_current_substituting_path_count = substituting_path_count (b_metrics w),
        pm_current_uploading_path_count = uploading_path_count (b_metrics w),
        pm_current_downloading_path_count = downloading_path_count (b_metrics w)\<rparr>))"

subsection \<open>Active builds\<close>

definition publish_builds_to_sd_notify :: "unit builder_io" where
  "publish_builds_to_sd_notify = update_st (\<lambda>w.
     let active = map (\<lambda>(_, b). bi_drv_path b) (b_active_builds w)
     in w\<lparr>b_status := (if active = [] then ''Building 0 drvs''
          else ''Building '' @ nat_to_string (length active) @ '' drvs: '' @ drop 2 (concat (map (\<lambda>d. '', '' @ d) active)))\<rparr>)"

definition contains_build :: "store_path \<Rightarrow> builder \<Rightarrow> bool" where
  "contains_build the_drv w \<longleftrightarrow> list_ex (\<lambda>(_, b). bi_drv_path b = the_drv) (b_active_builds w)"

definition insert_new_build :: "uuid \<Rightarrow> build_info \<Rightarrow> unit builder_io" where
  "insert_new_build build_id b =
     and_then (update_st (\<lambda>w. w\<lparr>b_active_builds := hm_insert build_id b (b_active_builds w)\<rparr>))
     publish_builds_to_sd_notify"

definition remove_active_build :: "uuid \<Rightarrow> build_info option builder_io" where
  "remove_active_build build_id =
     bind (\<lambda>w. (Inr (hm_get (b_active_builds w) build_id),
                w\<lparr>b_active_builds := hm_remove build_id (b_active_builds w)\<rparr>)) (\<lambda>b.
     and_then publish_builds_to_sd_notify (ok b))"

text \<open>\<^verbatim>\<open>BuildInfo::abort\<close>: the task is told, and stopped when it is still running.\<close>

definition abort_task :: "nat \<Rightarrow> task list \<Rightarrow> task list" where
  "abort_task i ts =
     (if i < length ts
      then ts[i := (ts ! i)\<lparr>tk_was_cancelled := True,
                             tk_end := (if tk_end (ts ! i) = Running then Aborted_Task else tk_end (ts ! i))\<rparr>]
      else ts)"

definition b_abort_build :: "('r, 'e) builder_env_scheme \<Rightarrow> string \<Rightarrow> unit builder_io" where
  "b_abort_build env build_id_text =
     (case be_uuid_parse env build_id_text of
        None \<Rightarrow> fail (Parse_Error build_id_text)
      | Some build_id \<Rightarrow>
          bind (remove_active_build build_id) (\<lambda>b.
          case b of
            None \<Rightarrow> ok ()
          | Some b \<Rightarrow> update_st (\<lambda>w. w\<lparr>b_tasks := abort_task (bi_handle b) (b_tasks w)\<rparr>)))"

definition abort_all_active_builds :: "unit builder_io" where
  "abort_all_active_builds = update_st (\<lambda>w.
     w\<lparr>b_tasks := fold (\<lambda>(_, b). abort_task (bi_handle b)) (b_active_builds w) (b_tasks w), b_active_builds := []\<rparr>)"

definition enable_halt :: "unit builder_io" where
  "enable_halt = update_st (\<lambda>w. w\<lparr>b_halt := True\<rparr>)"

text \<open>
  \<^verbatim>\<open>schedule_build\<close> up to the spawned task, and the whole of it: the new build is entered after its task was
  spawned.
\<close>

definition spawn_build :: "('r, 'e) builder_env_scheme \<Rightarrow> build_request \<Rightarrow> (uuid \<times> build_info) option builder_io" where
  "spawn_build env m w =
     (if b_halt w then (Inl (Rejected ''State set to halt.''), w)
      else
        (let the_drv = store_path_new (f_store_dir (the_store env)) (breq_drv m) in
         if contains_build the_drv w then (Inr None, w)
         else case be_uuid_parse env (breq_build_id m) of
                None \<Rightarrow> (Inl (Parse_Error (breq_build_id m)), w)
              | Some build_id \<Rightarrow>
                  (Inr (Some (build_id, \<lparr>bi_drv_path = the_drv, bi_handle = length (b_tasks w)\<rparr>)),
                   w\<lparr>b_tasks := b_tasks w @
                      [\<lparr>tk_message = m, tk_build_id = build_id, tk_was_cancelled = False, tk_end = Running\<rparr>]\<rparr>)))"

definition schedule_build :: "('r, 'e) builder_env_scheme \<Rightarrow> build_request \<Rightarrow> unit builder_io" where
  "schedule_build env m =
     bind (spawn_build env m) (\<lambda>spawned.
     case spawned of None \<Rightarrow> ok () | Some (build_id, b) \<Rightarrow> insert_new_build build_id b)"

definition handle_request :: "('r, 'e) builder_env_scheme \<Rightarrow> runner_message \<Rightarrow> unit builder_io" where
  "handle_request env request =
     (case request of
        Join_Response _ n \<Rightarrow> update_st (\<lambda>w. w\<lparr>b_max_concurrent_downloads := n\<rparr>)
      | Forward (Request_Config n) \<Rightarrow> update_st (\<lambda>w. w\<lparr>b_max_concurrent_downloads := n\<rparr>)
      | Simple_Ping _ \<Rightarrow> ok ()
      | Forward (Request_Build m) \<Rightarrow> schedule_build env m
      | Forward (Request_Abort build_id) \<Rightarrow> b_abort_build env build_id)"

text \<open>
  The messages of the tunnel: an error of a request is logged, ten failed deliveries in a row end the stream
  with an error. The counter is an \<^verbatim>\<open>i32\<close> and never larger than ten.
\<close>

fun take_messages ::
  "('r, 'e) builder_env_scheme \<Rightarrow> nat \<Rightarrow> (stream_error + runner_message option) list \<Rightarrow> unit builder_io" where
  "take_messages env failures [] = ok ()"
| "take_messages env failures (Inr (Some v) # ms) =
     and_then (ignore_err (handle_request env v)) (take_messages env 0 ms)"
| "take_messages env failures (Inr None # ms) = take_messages env 0 ms"
| "take_messages env failures (Inl e # ms) =
     (if failures + 1 = 10 then fail (Rejected ''Failed to communicate over the channel.'')
      else take_messages env (failures + 1) ms)"

definition check_version_compatibility :: "string \<Rightarrow> error + version_check_response \<Rightarrow> error + unit" where
  "check_version_compatibility version response =
     (case response of
        Inl e \<Rightarrow> Inl e
      | Inr r \<Rightarrow> if \<not> vr_compatible r then Inl (Rejected ''API version mismatch'') else Inr ())"

definition clear_gcroots :: "('r, 'e) builder_env_scheme \<Rightarrow> unit builder_io" where
  "clear_gcroots env =
     bind (gets (\<lambda>w. bc_gcroots (b_config w))) (\<lambda>dir.
     and_then (bind (b_ask (\<lambda>t. be_rmdir env t dir)) of_err)
     (and_then (update_st (\<lambda>w. w\<lparr>b_links := [], b_root_dirs := []\<rparr>))
     (bind (b_ask (\<lambda>t. be_mkdir env t dir)) of_err)))"

definition stop_application :: "('r, 'e) builder_env_scheme \<Rightarrow> unit builder_io" where
  "stop_application env =
     and_then enable_halt (and_then abort_all_active_builds (ignore_err (clear_gcroots env)))"

end
