(* ===== verification/Builder_Task.thy ===== *)
theory Builder_Task
  imports Builder
begin

text \<open>
  The task of a build (builder/src/state.rs, process_build and the functions below it): importing the requisites,
  building, uploading the outputs, and the report. The number of retries of a request is that of the crate
  backon, an argument. Asking the own store whether it has a path does not fail.
\<close>

subsection \<open>Importing\<close>

definition add_root_io :: "('r, 'e) builder_env_scheme \<Rightarrow> string \<Rightarrow> store_path \<Rightarrow> unit builder_io" where
  "add_root_io env gcroot p =
     bind (b_ask (be_root env)) (\<lambda>(seen, remove_ok, link_ok).
     update_st (\<lambda>w. w\<lparr>b_links := add_root seen remove_ok link_ok (the_store env) gcroot p (b_links w)\<rparr>))"

definition filter_missing :: "('r, 'e) builder_env_scheme \<Rightarrow> string \<Rightarrow> store_path \<Rightarrow> store_path option builder_io" where
  "filter_missing env gcroot p =
     bind (gets (\<lambda>w. p \<in> set (b_valid w))) (\<lambda>valid.
     if valid then and_then (add_root_io env gcroot p) (ok None) else ok (Some p))"

fun filter_paths :: "('r, 'e) builder_env_scheme \<Rightarrow> string \<Rightarrow> store_path list \<Rightarrow> store_path list builder_io" where
  "filter_paths env gcroot [] = ok []"
| "filter_paths env gcroot (p # ps) =
     bind (filter_missing env gcroot p) (\<lambda>r.
     bind (filter_paths env gcroot ps) (\<lambda>rest.
     ok (case r of None \<Rightarrow> rest | Some q \<Rightarrow> q # rest)))"

text \<open>Substituting a path may add others, its references; it may add paths and fail.\<close>

definition substitute_path :: "('r, 'e) builder_env_scheme \<Rightarrow> store_path \<Rightarrow> unit builder_io" where
  "substitute_path env p =
     bind (b_ask (\<lambda>t. be_substitute env t p)) (\<lambda>(e, new).
     and_then (update_st (\<lambda>w. w\<lparr>b_valid := new @ b_valid w\<rparr>)) (of_err e))"

definition substitute_paths :: "('r, 'e) builder_env_scheme \<Rightarrow> store_path list \<Rightarrow> unit builder_io" where
  "substitute_paths env paths = for_each (substitute_path env) paths"

text \<open>The part of \<^verbatim>\<open>import_paths\<close> that asks the runner.\<close>

definition download_paths :: "('r, 'e) builder_env_scheme \<Rightarrow> string \<Rightarrow> store_path list \<Rightarrow> unit builder_io" where
  "download_paths env gcroot paths =
     and_then (bind (b_ask (\<lambda>t. be_stream_files env t paths)) of_err)
     (and_then (count (add_downloading_path (of_nat (length paths))))
     (bind (b_ask (\<lambda>t. be_import env t paths)) (\<lambda>(e, new).
      and_then (update_st (\<lambda>w. w\<lparr>b_valid := new @ b_valid w\<rparr>))
      (and_then (count (sub_downloading_path (of_nat (length paths))))
      (and_then (of_err e)
      (for_each (add_root_io env gcroot) paths))))))"

definition substitute_first ::
  "('r, 'e) builder_env_scheme \<Rightarrow> string \<Rightarrow> store_path list \<Rightarrow> store_path list builder_io" where
  "substitute_first env gcroot paths =
     and_then (count (add_substituting_path (of_nat (length paths))))
     (and_then (ignore_err (substitute_paths env paths))
     (and_then (count (sub_substituting_path (of_nat (length paths))))
     (filter_paths env gcroot paths)))"

definition import_paths ::
  "('r, 'e) builder_env_scheme \<Rightarrow> string \<Rightarrow> store_path list \<Rightarrow> bool \<Rightarrow> bool \<Rightarrow> unit builder_io" where
  "import_paths env gcroot paths filter_them subst =
     bind (if filter_them then filter_paths env gcroot paths else ok paths) (\<lambda>paths.
     if subst
     then bind (substitute_first env gcroot paths) (\<lambda>paths.
          if paths = [] then ok () else download_paths env gcroot paths)
     else download_paths env gcroot paths)"

text \<open>\<^verbatim>\<open>slice::chunks\<close>, which panics on a size of zero.\<close>

function chunks :: "nat \<Rightarrow> 'a list \<Rightarrow> 'a list list" where
  "chunks n xs = (if n = 0 \<or> xs = [] then [] else take n xs # chunks n (drop n xs))"
  by pat_completeness auto
termination
  by (relation "measure (\<lambda>(n, xs). length xs)") auto

declare chunks.simps [simp del]

definition import_chunks ::
  "('r, 'e) builder_env_scheme \<Rightarrow> string \<Rightarrow> nat \<Rightarrow> store_path list \<Rightarrow> bool \<Rightarrow> bool \<Rightarrow> unit builder_io" where
  "import_chunks env gcroot n paths filter_them subst =
     (if n = 0 then fail Panicked
      else for_each (\<lambda>c. import_paths env gcroot c filter_them subst) (chunks n paths))"

definition fetch_requisites :: "('r, 'e) builder_env_scheme \<Rightarrow> store_path \<Rightarrow> bool \<Rightarrow> store_path list builder_io" where
  "fetch_requisites env the_drv include_outputs =
     bind (b_try (\<lambda>t. be_requisites env t the_drv include_outputs)) (\<lambda>rs.
     ok (map (store_path_new (f_store_dir (the_store env))) rs))"

definition import_requisites ::
  "('r, 'e) builder_env_scheme \<Rightarrow> string \<Rightarrow> store_path \<Rightarrow> store_path list \<Rightarrow> nat \<Rightarrow> bool \<Rightarrow> unit builder_io" where
  "import_requisites env gcroot the_drv requisites n subst =
     bind (filter_paths env gcroot requisites) (\<lambda>requisites.
     and_then (import_chunks env gcroot n (filter (\<lambda>p. \<not> is_drv p) requisites) True subst)
     (and_then (import_chunks env gcroot n (filter is_drv requisites) True False)
     (bind (fetch_requisites env the_drv True) (\<lambda>full.
      bind (filter_paths env gcroot full) (\<lambda>full.
      import_chunks env gcroot n full False subst)))))"

subsection \<open>Uploading\<close>

fun missing_at_runner :: "('r, 'e) builder_env_scheme \<Rightarrow> store_path list \<Rightarrow> store_path list builder_io" where
  "missing_at_runner env [] = ok []"
| "missing_at_runner env (p # ps) =
     bind (b_ask (\<lambda>t. be_has_path env t p)) (\<lambda>r.
     bind (missing_at_runner env ps) (\<lambda>rest.
     ok (case r of Inr True \<Rightarrow> rest | _ \<Rightarrow> p # rest)))"

text \<open>An upload that fails leaves the counter raised.\<close>

definition upload_nars_regular :: "('r, 'e) builder_env_scheme \<Rightarrow> store_path list \<Rightarrow> unit builder_io" where
  "upload_nars_regular env nars =
     bind (missing_at_runner env nars) (\<lambda>nars.
     if nars = [] then ok ()
     else
       and_then (count (add_uploading_path (of_nat (length nars))))
       (and_then (bind (b_ask (\<lambda>t. be_export env t nars)) of_err)
       (and_then (bind (b_ask (\<lambda>t. be_build_result env t nars)) of_err)
       (count (sub_uploading_path (of_nat (length nars)))))))"

fun nars_to_request ::
  "('r, 'e) builder_env_scheme \<Rightarrow> bool \<Rightarrow> store_path list \<Rightarrow> error + presigned_nar_request list" where
  "nars_to_request env debug [] = Inr []"
| "nars_to_request env debug (p # ps) =
     (case (if debug then get_debug_info_build_ids (be_cache env) p else Inr []) of
        Inl e \<Rightarrow> Inl e
      | Inr ids \<Rightarrow>
          (case nars_to_request env debug ps of
             Inl e \<Rightarrow> Inl e
           | Inr rest \<Rightarrow>
               (case query_path_info (the_store env) p of
                  None \<Rightarrow> Inr rest
                | Some info \<Rightarrow> Inr
                    (\<lparr>nq_store_path = p, nq_nar_hash = pi_nar_hash info, nq_debug_info_build_ids = ids\<rparr> # rest))))"

definition upload_of_wire :: "wire_upload \<Rightarrow> presigned_upload" where
  "upload_of_wire u =
     presigned_upload_new (wu_path u) (wu_url u)
       (case compression_from_str (wu_compression u) of Inl _ \<Rightarrow> No_Compression | Inr c \<Rightarrow> c) (wu_compression_level u)"

definition response_of_wire :: "presigned_nar_response \<Rightarrow> wire_upload \<Rightarrow> presigned_upload_response" where
  "response_of_wire r nar =
     \<lparr>pr_nar_url = np_nar_url r, pr_nar_upload = upload_of_wire nar,
      pr_ls_upload = map_option upload_of_wire (np_ls_upload r),
      pr_debug_info_upload = map upload_of_wire (np_debug_info_upload r)\<rparr>"

definition completion :: "string \<Rightarrow> string \<Rightarrow> store_path \<Rightarrow> string \<Rightarrow> u64 \<Rightarrow> nar_info \<Rightarrow> presigned_upload_complete" where
  "completion build_id machine_id nar_path file_hash file_size ni =
     \<lparr>uc_build_id = build_id, uc_machine_id = machine_id, uc_store_path = nar_path, uc_url = ni_url ni,
      uc_compression = compression_as_str (ni_compression ni), uc_file_hash = file_hash, uc_file_size = file_size,
      uc_nar_hash = ni_nar_hash ni, uc_nar_size = ni_nar_size ni, uc_references = ni_references ni,
      uc_deriver = ni_deriver ni, uc_ca = ni_ca ni\<rparr>"

definition upload_single_nar_presigned ::
  "('r, 'e) builder_env_scheme \<Rightarrow> string \<Rightarrow> string \<Rightarrow> presigned_nar_response \<Rightarrow> unit builder_io" where
  "upload_single_nar_presigned env build_id machine_id response =
     (let nar_path = store_path_new (f_store_dir (the_store env)) (np_store_path response) in
      bind (of_sum (path_to_narinfo_simple (the_store env) (c_convert_hash (be_cache env)) nar_path)) (\<lambda>ni.
      bind (of_option (Rejected ''nar_upload information is missing'') (np_nar_upload response)) (\<lambda>nar_upload.
      bind (in_cache (process_presigned_request (be_cache env) ni (response_of_wire response nar_upload))) (\<lambda>updated.
      case (ni_file_hash updated, ni_file_size updated) of
        (Some file_hash, Some file_size) \<Rightarrow>
          call (be_notify env (completion build_id machine_id nar_path file_hash file_size updated))
      | _ \<Rightarrow> ok ()))))"

definition upload_nars_presigned ::
  "('r, 'e) builder_env_scheme \<Rightarrow> store_path list \<Rightarrow> bool \<Rightarrow> string \<Rightarrow> string \<Rightarrow> unit builder_io" where
  "upload_nars_presigned env output_paths debug build_id machine_id =
     (let paths_to_upload = (case query_requisites (the_store env) output_paths True of Inl _ \<Rightarrow> [] | Inr ps \<Rightarrow> ps) in
      bind (of_sum (nars_to_request env debug paths_to_upload)) (\<lambda>nars.
      if length nars \<noteq> length paths_to_upload
      then fail (Rejected ''Mismatch between paths_to_upload and paths_with_narhash'')
      else
        bind (call (be_request_url env
                \<lparr>uq_build_id = build_id, uq_machine_id = machine_id, uq_request = nars\<rparr>)) (\<lambda>responses.
        if length responses \<noteq> length paths_to_upload
        then fail (Rejected ''Mismatch between requested NARs and presigned URLs'')
        else for_each (upload_single_nar_presigned env build_id machine_id) responses)))"

definition upload_nars ::
  "('r, 'e) builder_env_scheme \<Rightarrow> store_path list \<Rightarrow> string \<Rightarrow> string \<Rightarrow> bool option \<Rightarrow> unit builder_io" where
  "upload_nars env nars build_id machine_id presigned_url_opts =
     (case presigned_url_opts of
        Some debug \<Rightarrow> upload_nars_presigned env nars debug build_id machine_id
      | None \<Rightarrow> upload_nars_regular env nars)"

subsection \<open>The result\<close>

definition wire_output_of :: "('r, 'e) builder_env_scheme \<Rightarrow> (store_path \<times> path_info) list \<Rightarrow> drv_output \<Rightarrow> wire_output" where
  "wire_output_of env pathinfos o1 =
     (case out_path o1 of
        Some p \<Rightarrow>
          (case hm_get pathinfos p of
             Some info \<Rightarrow> Withpath
               \<lparr>owp_name = out_name o1, owp_path = p, owp_closure_size = compute_closure_size (the_store env) p,
                owp_nar_size = pi_nar_size info, owp_nar_hash = pi_nar_hash info\<rparr>
           | None \<Rightarrow> Nameonly (out_name o1))
      | None \<Rightarrow> Nameonly (out_name o1))"

definition wire_support :: "support \<Rightarrow> nix_support" where
  "wire_support s =
     \<lparr>ns_failed = su_failed s, ns_release_name = su_release_name s,
      ns_metrics = map (\<lambda>m. \<lparr>bm_name = sm_name m, bm_unit = sm_unit m, bm_value = sm_value m\<rparr>) (su_metrics s),
      ns_products = map (\<lambda>p. \<lparr>wp_path = sp_path p, wp_default_path = sp_default_path p, wp_type = sp_type p,
        wp_subtype = sp_subtype p, wp_name = sp_product_name p, wp_is_regular = sp_is_regular p,
        wp_sha256hash = sp_sha256hash p, wp_file_size = sp_file_size p\<rparr>) (su_products s)\<rparr>"

definition as_u64 :: "nat \<Rightarrow> error + u64" where
  "as_u64 n = (case u64_try_from (int n) of None \<Rightarrow> Inl Int_Conversion | Some v \<Rightarrow> Inr v)"

definition or_zero :: "error + u64 \<Rightarrow> u64" where
  "or_zero r = (case r of Inl _ \<Rightarrow> 0 | Inr v \<Rightarrow> v)"

definition new_success_build_result_info ::
  "('r, 'e) builder_env_scheme \<Rightarrow> derivation \<Rightarrow> build_timings \<Rightarrow> string \<Rightarrow> string \<Rightarrow> build_result_info builder_io" where
  "new_success_build_result_info env drv_info timings build_id machine_id =
     (let pathinfos = query_path_infos (the_store env) (List.map_filter out_path (outputs drv_info)) in
      bind (b_try (\<lambda>t. be_support env t (outputs drv_info))) (\<lambda>support.
      bind (of_sum (as_u64 (import_elapsed timings))) (\<lambda>import_ms.
      bind (of_sum (as_u64 (build_elapsed timings))) (\<lambda>build_ms.
      bind (of_sum (as_u64 (upload_elapsed timings))) (\<lambda>upload_ms.
      ok \<lparr>bri_build_id = build_id, bri_machine_id = machine_id, bri_import_time_ms = import_ms,
          bri_build_time_ms = build_ms, bri_upload_time_ms = upload_ms, bri_result_state = PSuccess,
          bri_nix_support = Some (wire_support support),
          bri_outputs = map (\<lambda>o1. Some (wire_output_of env pathinfos o1)) (outputs drv_info)\<rparr>)))))"

definition send_update :: "('r, 'e) builder_env_scheme \<Rightarrow> build_request \<Rightarrow> proto_step_status \<Rightarrow> unit builder_io" where
  "send_update env m status =
     bind (b_ask (be_answer env)) (\<lambda>(e, accepted).
     update_st (\<lambda>w. if e = None \<or> accepted
       then w\<lparr>b_updates := b_updates w @
              [\<lparr>sup_build_id = breq_build_id m, sup_machine_id = be_uuid_str env (b_id w), sup_step_status = status\<rparr>]\<rparr>
       else w))"

fun submit :: "('r, 'e) builder_env_scheme \<Rightarrow> nat \<Rightarrow> build_result_info \<Rightarrow> unit builder_io" where
  "submit env retries body =
     bind (b_ask (be_answer env)) (\<lambda>(e, accepted).
     and_then (update_st (\<lambda>w. if e = None \<or> accepted then w\<lparr>b_reports := b_reports w @ [body]\<rparr> else w))
     (case e of
        None \<Rightarrow> ok ()
      | Some e \<Rightarrow> (case retries of 0 \<Rightarrow> fail e | Suc k \<Rightarrow> submit env k body)))"

declare submit.simps [simp del]

subsection \<open>The task\<close>

datatype job_exit = Failed job_failure | Died error

type_synonym 'a job_io = "builder \<Rightarrow> (job_exit + 'a) \<times> builder"

definition failing_as :: "(error \<Rightarrow> job_failure) \<Rightarrow> 'a builder_io \<Rightarrow> 'a job_io" where
  "failing_as f m w =
     (case m w of
        (Inr a, w') \<Rightarrow> (Inr a, w')
      | (Inl e, w') \<Rightarrow> (Inl (if fatal e then Died e else Failed (f e)), w'))"

definition job_bind :: "'a job_io \<Rightarrow> ('a \<Rightarrow> 'b job_io) \<Rightarrow> 'b job_io" where
  "job_bind m k w = (case m w of (Inl e, w') \<Rightarrow> (Inl e, w') | (Inr a, w') \<Rightarrow> k a w')"

definition job_then :: "unit job_io \<Rightarrow> 'b job_io \<Rightarrow> 'b job_io" where
  "job_then m k = job_bind m (\<lambda>_. k)"

definition get_gcroot :: "('r, 'e) builder_env_scheme \<Rightarrow> string builder_io" where
  "get_gcroot env =
     bind (b_ask (be_new_uuid env)) (\<lambda>prefix.
     bind (gets (\<lambda>w. path_join (bc_gcroots (b_config w)) prefix)) (\<lambda>dir.
     and_then (bind (b_ask (\<lambda>t. be_mkdir env t dir)) of_err)
     (and_then (update_st (\<lambda>w. w\<lparr>b_root_dirs := dir # b_root_dirs w\<rparr>)) (ok dir))))"

text \<open>\<^verbatim>\<open>Drop for Gcroot\<close>: leaving the scope removes the directory with its links.\<close>

definition drop_gcroot :: "string \<Rightarrow> builder \<Rightarrow> builder" where
  "drop_gcroot dir w =
     w\<lparr>b_root_dirs := filter (\<lambda>d. d \<noteq> dir) (b_root_dirs w),
       b_links := filter (\<lambda>(path, _). \<not> is_subpath dir path) (b_links w)\<rparr>"

fun log_chunks :: "store_path \<Rightarrow> (error + string) list \<Rightarrow> log_chunk list" where
  "log_chunks the_drv (Inr chunk # cs) = \<lparr>lc_drv = the_drv, lc_data = chunk @ [newline]\<rparr> # log_chunks the_drv cs"
| "log_chunks the_drv _ = []"

definition run_builder ::
  "('r, 'e) builder_env_scheme \<Rightarrow> build_request \<Rightarrow> string \<Rightarrow> store_path \<Rightarrow> store_path \<Rightarrow> derivation \<Rightarrow> unit builder_io" where
  "run_builder env m gcroot the_drv target drv_info =
     bind (b_try (\<lambda>t. be_realise env t target
             (build_options_complete (breq_max_log_size m) (breq_max_silent_time m) (breq_build_timeout m)))) (\<lambda>log.
     and_then (bind (b_ask (\<lambda>t. be_build_log env t (log_chunks the_drv log))) of_err)
     (bind (b_try (be_wait env)) (\<lambda>status.
      and_then (of_sum (validate_statuscode status))
      (bind (b_ask (\<lambda>t. be_built env t target)) (\<lambda>new.
       and_then (update_st (\<lambda>w. w\<lparr>b_valid := new @ b_valid w\<rparr>))
       (for_each (add_root_io env gcroot) (List.map_filter out_path (outputs drv_info))))))))"

definition set_timings :: "('r, 'e) builder_env_scheme \<Rightarrow> (nat \<Rightarrow> build_timings \<Rightarrow> build_timings) \<Rightarrow> unit builder_io" where
  "set_timings env f =
     bind (b_ask (be_elapsed env)) (\<lambda>ms. update_st (\<lambda>w. w\<lparr>b_timings := f ms (b_timings w)\<rparr>))"

definition import_phase ::
  "('r, 'e) builder_env_scheme \<Rightarrow> build_request \<Rightarrow> string \<Rightarrow> store_path \<Rightarrow> store_path \<Rightarrow> derivation builder_io" where
  "import_phase env m gcroot the_drv target =
     bind (fetch_requisites env target False) (\<lambda>requisites.
     bind (gets (\<lambda>w. (unat (b_max_concurrent_downloads w), bc_use_substitutes (b_config w)))) (\<lambda>(n, subst).
     and_then (import_requisites env gcroot target requisites n subst)
     (and_then (set_timings env (\<lambda>ms t. t\<lparr>import_elapsed := ms\<rparr>))
     (bind (b_try (\<lambda>t. be_query_drv env t the_drv)) (\<lambda>found.
      of_option (Rejected ''drv not found'') found)))))"

definition upload_phase :: "('r, 'e) builder_env_scheme \<Rightarrow> build_request \<Rightarrow> derivation \<Rightarrow> unit builder_io" where
  "upload_phase env m drv_info =
     bind (gets (\<lambda>w. be_uuid_str env (b_id w))) (\<lambda>machine_id.
     and_then (upload_nars env (List.map_filter out_path (outputs drv_info)) (breq_build_id m) machine_id
                 (breq_presigned_url_opts m))
     (set_timings env (\<lambda>ms t. t\<lparr>upload_elapsed := ms\<rparr>)))"

definition report_phase :: "('r, 'e) builder_env_scheme \<Rightarrow> build_request \<Rightarrow> derivation \<Rightarrow> unit builder_io" where
  "report_phase env m drv_info =
     bind (gets (\<lambda>w. (b_timings w, be_uuid_str env (b_id w)))) (\<lambda>(timings, machine_id).
     bind (new_success_build_result_info env drv_info timings (breq_build_id m) machine_id) (\<lambda>results.
     submit env (be_retries env) results))"

definition process_in_gcroot ::
  "('r, 'e) builder_env_scheme \<Rightarrow> build_request \<Rightarrow> string \<Rightarrow> unit job_io" where
  "process_in_gcroot env m gcroot =
     (let dir = f_store_dir (the_store env);
          the_drv = store_path_new dir (breq_drv m);
          target = (case breq_resolved_drv m of None \<Rightarrow> the_drv | Some v \<Rightarrow> store_path_new dir v)
      in job_then (failing_as Import_Failed (send_update env m PSeningInputs))
         (job_bind (failing_as Import_Failed (import_phase env m gcroot the_drv target)) (\<lambda>drv_info.
          job_then (failing_as Build_Failed (send_update env m PBuilding))
          (job_then (failing_as Build_Failed (run_builder env m gcroot the_drv target drv_info))
          (job_then (failing_as Build_Failed (set_timings env (\<lambda>ms t. t\<lparr>build_elapsed := ms\<rparr>)))
          (job_then (failing_as Upload_Failed (send_update env m PReceivingOutputs))
          (job_then (failing_as Upload_Failed (upload_phase env m drv_info))
          (job_then (failing_as Post_Processing_Failed (send_update env m PPostProcessing))
          (failing_as Post_Processing_Failed (report_phase env m drv_info)))))))))) "

definition process_build :: "('r, 'e) builder_env_scheme \<Rightarrow> build_request \<Rightarrow> unit job_io" where
  "process_build env m w =
     (case failing_as Preparing_Failed (get_gcroot env) w of
        (Inl e, w1) \<Rightarrow> (Inl e, w1)
      | (Inr gcroot, w1) \<Rightarrow>
          (case process_in_gcroot env m gcroot w1 of (r, w2) \<Rightarrow> (r, drop_gcroot gcroot w2)))"

definition failed_build :: "('r, 'e) builder_env_scheme \<Rightarrow> uuid \<Rightarrow> job_failure \<Rightarrow> builder \<Rightarrow> build_result_info" where
  "failed_build env build_id f w =
     \<lparr>bri_build_id = be_uuid_str env build_id, bri_machine_id = be_uuid_str env (b_id w),
      bri_import_time_ms = or_zero (as_u64 (import_elapsed (b_timings w))),
      bri_build_time_ms = or_zero (as_u64 (build_elapsed (b_timings w))),
      bri_upload_time_ms = or_zero (as_u64 (upload_elapsed (b_timings w))),
      bri_result_state = result_state_from f, bri_nix_support = None, bri_outputs = []\<rparr>"

definition end_task :: "nat \<Rightarrow> builder \<Rightarrow> builder" where
  "end_task i w = w\<lparr>b_tasks := (b_tasks w)[i := (b_tasks w ! i)\<lparr>tk_end := Ended\<rparr>]\<rparr>"

text \<open>The body of a spawned task; a panic ends it without any of the rest.\<close>

definition run_task :: "('r, 'e) builder_env_scheme \<Rightarrow> nat \<Rightarrow> builder \<Rightarrow> builder" where
  "run_task env i w =
     (let t = b_tasks w ! i in
      case process_build env (tk_message t)
             (w\<lparr>b_timings := \<lparr>import_elapsed = 0, build_elapsed = 0, upload_elapsed = 0\<rparr>\<rparr>) of
        (Inr _, w1) \<Rightarrow> end_task i (snd (remove_active_build (tk_build_id t) w1))
      | (Inl (Failed f), w1) \<Rightarrow>
          if tk_was_cancelled (b_tasks w1 ! i) then end_task i w1
          else
            (let w2 = snd (remove_active_build (tk_build_id t) w1)
             in end_task i (snd (submit env (be_retries env) (failed_build env (tk_build_id t) f w2) w2)))
      | (Inl (Died e), w1) \<Rightarrow> end_task i w1)"

end
