(* ===== verification/Grpc_Tunnels.thy ===== *)
theory Grpc_Tunnels
  imports Grpc Runner_Safe
begin

text \<open>
  The tunnels of the builders as an implementation of a set of connected machines. All handlers of the runner but
  those of machines leave the registry alone; opening a tunnel adds its machine and the end of a tunnel takes
  it out. So a registered machine always has a tunnel whose task runs, and the other way round when no two
  builders use the same identifier, as builders take random ones.
\<close>

subsection \<open>Handlers that leave the registry alone\<close>

named_theorems registry_rules \<open>handlers that leave the registered machines alone\<close>

definition registry_is :: "(uuid \<times> mref) list \<Rightarrow> state \<Rightarrow> bool" where
  "registry_is bu w \<longleftrightarrow> by_uuid (r_machines w) = bu"

lemma registry_db_only: "db_only m \<Longrightarrow> keeps (registry_is bu) m"
  unfolding db_only_def keeps_def registry_is_def by (metis same_more_fields(8))

lemmas [registry_rules] = db_only_rules keeps_bind keeps_and_then keeps_basic keeps_attempt keeps_ignore_err keeps_for_each keeps_if
  keeps_case_option keeps_loop_from keeps_loop_io keeps_cases

lemmas registry_statements [registry_rules] = db_only_statements [THEN registry_db_only]
  db_only_sql [THEN registry_db_only] db_only_transaction [THEN registry_db_only]
  db_only_create_build_step [THEN registry_db_only] db_only_create_substitution_step [THEN registry_db_only]
  db_only_mark_succeeded_build [THEN registry_db_only] db_only_finish_build_step [THEN registry_db_only]
  db_only_fail_round [THEN registry_db_only] db_only_checks [THEN registry_db_only]
  db_only_substitute_outputs [THEN registry_db_only] db_only_basic [THEN registry_db_only]

lemma registry_update [registry_rules]: "(\<And>w. by_uuid (r_machines (f w)) = by_uuid (r_machines w)) \<Longrightarrow> keeps (registry_is bu) (update_st f)"
  by (rule keeps_update) (simp add: registry_is_def)

lemma registry_memory [registry_rules]:
  "keeps (registry_is bu) (set_step r f)" "keeps (registry_is bu) (set_build b g)" "keeps (registry_is bu) (set_machine m h)"
  "keeps (registry_is bu) (set_info i k)" "keeps (registry_is bu) (set_run l)" "keeps (registry_is bu) (remove_build b)"
  "keeps (registry_is bu) trigger_dispatch" "keeps (registry_is bu) (drop_unowned hs hb)"
  "keeps (registry_is bu) (remove_queued item)" "keeps (registry_is bu) (fod_io ff)"
  "keeps (registry_is bu) (add_dependency r d)" "keeps (registry_is bu) (register_new_build v)"
  "keeps (registry_is bu) (attach_build b r)" "keeps (registry_is bu) (unqueue_step r)"
  "keeps (registry_is bu) (apply_priorities ps)"
  unfolding set_step_def set_build_def set_machine_def set_info_def set_run_def remove_build_def trigger_dispatch_def
    drop_unowned_def remove_queued_def fod_io_def add_dependency_def register_new_build_def attach_build_def unqueue_step_def
    apply_priorities_def
  by (rule registry_update; simp add: Let_def split: prod.splits)+

lemma registry_scope [registry_rules]:
  "keeps (registry_is bu) m \<Longrightarrow> keeps (registry_is bu) (scope m)"
  "keeps (registry_is bu) m \<Longrightarrow> keeps (registry_is bu) (scope_load m)"
  by (auto simp: keeps_def scope_def scope_load_def leave_handler_def registry_is_def split: prod.splits)

lemma registry_raw [registry_rules]:
  "keeps (registry_is bu) (unschedule p)" "keeps (registry_is bu) (get_all_indirect_builds r)"
  "keeps (registry_is bu) (create_registered p rb rs)" "keeps (registry_is bu) kill_cancelled"
  "keeps (registry_is bu) clone_runnable_io"
  by (auto simp: keeps_def registry_is_def unschedule_def get_all_indirect_builds_def create_registered_def kill_cancelled_def
      clone_runnable_io_def Let_def split: option.splits prod.splits)

lemma registry_raw_bind:
  "(\<And>w. by_uuid (r_machines (snd (m w))) = by_uuid (r_machines w)) \<Longrightarrow> keeps (registry_is bu) m"
  by (simp add: keeps_def registry_is_def)

lemma registry_take_job [registry_rules]:
  "keeps (registry_is bu) (take_job env m p)" "keeps (registry_is bu) (resolve_io env i c)"
  "keeps (registry_is bu) (send_to_machine env m j opts)"
  unfolding take_job_def resolve_io_def send_to_machine_def
  by (intro registry_rules registry_raw_bind; auto simp: Let_def split: option.splits prod.splits sum.splits)+

lemma registry_inner_fail_job [registry_rules]: "keeps (registry_is bu) (inner_fail_job env held m j step)"
  unfolding inner_fail_job_def fail_loop_body_def finish_in_memory_def by (intro registry_rules; simp add: Let_def)+

lemma registry_fail_step [registry_rules]: "keeps (registry_is bu) (fail_step env p result timings)"
  unfolding fail_step_def after_failure_def retry_later_def give_up_def Let_def by (intro registry_rules; simp add: Let_def)+

lemma registry_succeed_step [registry_rules]: "keeps (registry_is bu) (succeed_step env p out)"
  unfolding succeed_step_def mark_direct_builds_def mark_direct_build_def notify_build_def finish_in_memory_def
    unblock_dependents_def upload_outputs_def schedule_upload_io_def Let_def
  by (intro registry_rules; simp)+

lemma registry_by_uuid [registry_rules]:
  "keeps (registry_is bu) (succeed_step_by_uuid env b m out)" "keeps (registry_is bu) (fail_step_by_uuid env b m res timings)"
  "keeps (registry_is bu) (update_build_step_status env b m st)"
  unfolding succeed_step_by_uuid_def fail_step_by_uuid_def update_build_step_status_def machine_job_def by (intro registry_rules; simp add: Let_def)+

lemma registry_checks [registry_rules]:
  "keeps (registry_is bu) (find_missing_outputs env p os)" "keeps (registry_is bu) (complete_step r)"
  "keeps (registry_is bu) (leave_step held hb res)"
  unfolding find_missing_outputs_def schedule_upload_io_def complete_step_def leave_step_def
  by (intro registry_rules; simp)+

lemma registry_outputs_finished [registry_rules]: "keeps (registry_is bu) (outputs_finished env i p os)"
  unfolding outputs_finished_def by (intro registry_rules; simp add: Let_def)+

lemma registry_create_step [registry_rules]:
  "keeps (registry_is bu) (create_step env fuel held hb build p rb rs)"
  "keeps (registry_is bu) (create_inputs env fuel held hb build step is)"
proof (induction env fuel held hb build p rb rs and env fuel held hb build step "is" rule: create_step_create_inputs.induct)
  case (2 env fuel held hb build p rb rs)
  then show ?case unfolding create_step.simps by (intro registry_rules; simp add: Let_def)+
next
  case (4 env fuel held hb build step i "is")
  then show ?case unfolding create_inputs.simps
    by (intro registry_rules) (auto split: create_step_result.splits intro!: registry_rules)
qed (simp_all add: registry_rules)

lemma registry_builds [registry_rules]:
  "keeps (registry_is bu) (handle_previous_failure env b s)" "keeps (registry_is bu) (handle_cached_build env b)"
  "keeps (registry_is bu) (abort_gced_build env b)"
  unfolding handle_previous_failure_def handle_cached_build_def abort_gced_build_def by (intro registry_rules; simp add: Let_def)+

lemma registry_create_build [registry_rules]:
  "keeps (registry_is bu) (create_build env step_fuel fuel held hb by_path b)"
  "keeps (registry_is bu) (create_builds env step_fuel fuel held hb by_path is)"
proof (induction env step_fuel fuel held hb by_path b and env step_fuel fuel held hb by_path "is"
    rule: create_build_create_builds.induct)
  case (2 env step_fuel fuel held hb by_path b)
  then show ?case unfolding create_build.simps Let_def
    by (intro registry_rules) (auto split: create_step_result.splits intro!: registry_rules)
next
  case (4 env step_fuel fuel held hb by_path i "is")
  then show ?case unfolding create_builds.simps by (intro registry_rules; simp add: Let_def)+
qed (simp_all add: registry_rules)

lemma registry_load [registry_rules]:
  "keeps (registry_is bu) (get_queued_builds env step_fuel fuel)"
  "keeps (registry_is bu) (manually_add_queue_build env step_fuel fuel i)" "keeps (registry_is bu) (queue_one_build env i p)"
  "keeps (registry_is bu) (process_queue_change env)" "keeps (registry_is bu) (shares_changed env)"
proof -
  have loads: "keeps (registry_is bu) (load_builds env step_fuel fuel by_path since is)" for by_path since "is"
    by (induction "is") (auto simp: load_one_def make_new_runnable_def intro!: registry_rules)
  have rows: "keeps (registry_is bu) (load_rows env rs acc)" for rs acc
    by (induction rs arbitrary: acc) (auto simp: jobsets_create_io_def intro!: registry_rules)
  show "keeps (registry_is bu) (get_queued_builds env step_fuel fuel)"
    "keeps (registry_is bu) (manually_add_queue_build env step_fuel fuel i)" "keeps (registry_is bu) (queue_one_build env i p)"
    "keeps (registry_is bu) (process_queue_change env)" "keeps (registry_is bu) (shares_changed env)"
    unfolding get_queued_builds_def manually_add_queue_build_def process_new_builds_def queue_one_build_def
      process_queue_change_def shares_changed_def
    by (intro registry_rules loads rows; simp)+
qed

lemma registry_queue_monitor_round [registry_rules]: "keeps (registry_is bu) (queue_monitor_round env step_fuel fuel n)"
  unfolding queue_monitor_round_def by (intro registry_rules; simp add: Let_def)+

lemma registry_process_queues [registry_rules]: "keeps (registry_is bu) (process_queues env)"
proof -
  have realise: "keeps (registry_is bu) (realise_drv_on_valid_machine env c)" for c
    unfolding realise_drv_on_valid_machine_def start_job_def Let_def by (intro registry_rules; simp add: Let_def)+
  have "registry_is bu (fst (processor env w q c))" if "registry_is bu w" for w q c
    unfolding processor_def split_beta fst_conv
    by (rule keepsI [OF realise]) (use that in \<open>simp add: registry_is_def\<close>)
  then have "registry_is bu (fst (fst (process mem_steps (processor env) now w q)))" if "registry_is bu w" for now w q
    using that by (rule process_keeps [of "registry_is bu"])
  then have "keeps (registry_is bu) (\<lambda>w. case process mem_steps (processor env) now w (r_queues w) of
       ((w', q), _) \<Rightarrow> (Inr (), w'\<lparr>r_queues := q\<rparr>))" for now
    by (simp add: keeps_def registry_is_def split_beta)
  then show ?thesis unfolding process_queues_def by (intro registry_rules; simp add: Let_def)+
qed

lemma registry_dispatch_round [registry_rules]: "keeps (registry_is bu) (dispatch_round env)"
proof -
  have infos: "keeps (registry_is bu) (collect_infos env rs acc)" for rs acc
    by (induction rs arbitrary: acc) (auto intro!: registry_rules)
  have "keeps (registry_is bu) (abort_steps env held now rs acc)" for held now rs acc
    by (induction rs arbitrary: acc) (auto simp: abort_one_def intro!: registry_rules)
  then have "keeps (registry_is bu) (abort_unsupported env)"
    unfolding abort_unsupported_def by (intro registry_rules; simp)+
  with infos show ?thesis unfolding dispatch_round_def do_dispatch_once_def prune_jobsets_def enqueue_jobs_def
    by (intro registry_rules; simp)+
qed

lemma registry_reload [registry_rules]: "keeps (registry_is bu) (reload env loaded)"
proof -
  have "keeps (registry_is bu) (open_stores env us)" for us
    by (induction us) (auto intro!: registry_rules)
  then show ?thesis unfolding reload_def reload_config_callback_def
    by (intro registry_rules; simp add: Let_def)
qed

subsection \<open>Machines that join and leave\<close>

definition registered :: "state \<Rightarrow> uuid set" where
  "registered w = {u. get_machine_by_id u (r_machines w) \<noteq> None}"

lemma registered_is: "registry_is bu w \<Longrightarrow> registered w = {u. hm_get bu u \<noteq> None}"
  by (simp add: registered_def registry_is_def get_machine_by_id_def)

lemma registered_keeps: "keeps (registry_is (by_uuid (r_machines w))) m \<Longrightarrow> m w = (r, w') \<Longrightarrow> registered w' = registered w"
  using keepsD [of "registry_is (by_uuid (r_machines w))" m w r w'] by (simp add: registered_is registry_is_def)

lemma registered_insert:
  assumes "state_insert_machine env m w = (r, w')"
  shows "r = Inr (m_id m) \<and> registered w' = insert (m_id m) (registered w)"
  using assms
  by (auto simp: state_insert_machine_def and_then_def bind_def update_st_def trigger_dispatch_def ok_def Let_def
      insert_machine_def registered_def get_machine_by_id_def update_conv split: prod.splits if_splits)

lemma registered_take: "take_machine u w = (r, w') \<Longrightarrow> registered w' = registered w - {u}"
  by (auto simp: take_machine_def remove_machine_def Let_def registered_def get_machine_by_id_def delete_conv
      split: prod.splits option.splits if_splits)

lemma registered_remove:
  assumes "state_remove_machine env u w = (r, w')"
  shows "registered w' = registered w - {u}"
proof -
  obtain js w1 where take: "take_machine u w = (Inr js, w1)"
    by (simp add: take_machine_def split_beta)
  then have "for_each (\<lambda>j. ignore_err (fail_step env (job_path j) PreparingFailure no_timings)) js w1 = (r, w')"
    using assms by (simp add: state_remove_machine_def bind_def)
  then have "registered w' = registered w1"
    by (rule registered_keeps [rotated]) (intro registry_rules)
  with registered_take [OF take] show ?thesis by simp
qed

lemma leave_tunnel_registered:
  assumes "leave_tunnel env tn w = (r, w')"
  shows "registered w' = registered w - {tn_machine_id tn}" and "\<And>tn'. r = Inr tn' \<Longrightarrow> tn' = tn\<lparr>tn_running := False\<rparr>"
proof -
  obtain r1 w1 where rm: "state_remove_machine env (tn_machine_id tn) w = (r1, w1)" by fastforce
  with assms have "registered w' = registered w1"
    by (cases r1) (auto simp: leave_tunnel_def and_then_def bind_def set_machine_def update_st_def ok_def registered_def)
  with registered_remove [OF rm] show "registered w' = registered w - {tn_machine_id tn}" by simp
  show "tn' = tn\<lparr>tn_running := False\<rparr>" if "r = Inr tn'" for tn'
    using assms that by (auto simp: leave_tunnel_def run_rules set_machine_def)
qed

lemma send_or_leave_cases:
  assumes "send_or_leave env msg tn w = (r, w')"
  shows "(\<exists>tn'. r = Inr tn' \<and> w' = w \<and> tn_running tn' = tn_running tn \<and> tn_machine_id tn' = tn_machine_id tn) \<or>
    leave_tunnel env tn w = (r, w')"
  using assms by (auto simp: send_or_leave_def send_out_def ok_def split: if_splits)

lemma registry_handle_message: "keeps (registry_is bu) (handle_message env msg)"
proof (cases msg)
  case (Ping p)
  then show ?thesis by (cases "g_uuid_parse env (pm_machine_id p)") (simp_all add: handle_message_def registry_rules)
qed (simp add: handle_message_def registry_rules)

lemma handle_message_ok: "\<exists>w'. handle_message env msg w = (Inr (), w')"
  by (auto simp: handle_message_def bind_def gets_def ok_def now_io_def set_machine_def update_st_def
      split: builder_message.splits option.splits)

lemma registered_set_machine: "registered (snd (set_machine r f w)) = registered w"
  by (simp add: set_machine_def update_st_def registered_def)

lemma tunnel_turn_cases:
  assumes "tunnel_turn env ev tn w = (r, w')"
  shows "(\<exists>tn'. r = Inr tn' \<and> registered w' = registered w \<and> tn_running tn' = tn_running tn \<and>
       tn_machine_id tn' = tn_machine_id tn) \<or>
    (\<exists>w0. registered w0 = registered w \<and> leave_tunnel env tn w0 = (r, w'))"
proof (cases ev)
  case Ping_Tick
  then show ?thesis using assms send_or_leave_cases [of env _ tn w r w'] by (auto simp: tunnel_turn_def)
next
  case From_Runner
  show ?thesis
  proof (cases "upgrade (mem_machines w) (tn_machine tn)")
    case None
    then show ?thesis using assms From_Runner by (auto simp: tunnel_turn_def bind_def gets_def)
  next
    case (Some m)
    show ?thesis
    proof (cases "msg_queue m")
      case Nil
      then show ?thesis using assms From_Runner Some by (auto simp: tunnel_turn_def bind_def gets_def ok_def)
    next
      case (Cons msg rest)
      let ?w = "snd (set_machine (tn_machine tn) (\<lambda>m. m\<lparr>msg_queue := rest\<rparr>) w)"
      have "send_or_leave env (Inr (Forward (into_request (g_uuid_str env) msg))) tn ?w = (r, w')"
        using assms From_Runner Some Cons
        by (simp add: tunnel_turn_def bind_def gets_def and_then_def set_machine_def update_st_def)
      from send_or_leave_cases [OF this] registered_set_machine show ?thesis by metis
    qed
  qed
next
  case (From_Builder x)
  consider "x = None" | "x = Some (Inr None)" | msg where "x = Some (Inr (Some msg))" | err where "x = Some (Inl err)"
    by (metis option.exhaust sum.exhaust)
  then show ?thesis
  proof cases
    case (3 msg)
    obtain w1 where run: "handle_message env msg w = (Inr (), w1)" using handle_message_ok by metis
    have "registered w1 = registered w" by (rule registered_keeps [OF registry_handle_message run])
    then show ?thesis using assms From_Builder 3 run by (auto simp: tunnel_turn_def and_then_def bind_def ok_def)
  next
    case (4 err)
    then show ?thesis using assms From_Builder send_or_leave_cases [of env _ tn w r w']
      by (auto simp: tunnel_turn_def split: if_splits)
  qed (use assms From_Builder in \<open>auto simp: tunnel_turn_def ok_def\<close>)
qed

lemma open_tunnel_cases:
  assumes "open_tunnel env first w = (r, w')"
  shows "(\<exists>tn. r = Inr tn \<and> tn_running tn \<and> tn_receiver tn \<and> registered w' = insert (tn_machine_id tn) (registered w)) \<or>
    (\<exists>e. r = Inl e \<and> registered w' = registered w)"
proof (cases "\<exists>v. first = Some (Inr (Some (Join v)))")
  case True
  then obtain v where first: "first = Some (Inr (Some (Join v)))" by blast
  let ?w1 = "w\<lparr>tick := tick w + 1\<rparr>"
  have same: "registered ?w1 = registered w" by (simp add: registered_def)
  show ?thesis
  proof (cases "machine_new (g_uuid_parse env) (e_now env (tick w)) v
      (cfg_use_presigned_uploads (config w)) (cfg_forced_substituters (config w))")
    case (Inl e)
    then show ?thesis using assms first same by (auto simp: open_tunnel_def bind_def now_io_def of_sum_def)
  next
    case (Inr m)
    obtain r2 w2 where ins: "state_insert_machine env m ?w1 = (r2, w2)" by fastforce
    have r2: "r2 = Inr (m_id m)" and reg: "registered w2 = insert (m_id m) (registered w)"
      using registered_insert [OF ins] same by auto
    then obtain ref where "get_machine_by_id (m_id m) (r_machines w2) = Some ref"
      unfolding registered_def by blast
    then show ?thesis using assms first Inr ins reg r2
      by (auto simp: open_tunnel_def bind_def now_io_def of_sum_def gets_def of_option_def ok_def send_out_def)
  qed
next
  case False
  then have "open_tunnel env first w = (Inl (Status (Invalid_Argument ''No Ping message was sent'')), w)"
    by (auto simp: open_tunnel_def split: option.splits sum.splits builder_message.splits)
  with assms show ?thesis by auto
qed

subsection \<open>The server\<close>

text \<open>
  What the runner does between the events of tunnels, one handler at a time; machines only come and go
  through tunnels. (\<^verbatim>\<open>remove_all_machines\<close> runs when the runner stops.)
\<close>

inductive handler_step :: "state \<Rightarrow> state \<Rightarrow> bool" where
  monitor: "handler_step w (snd (queue_monitor_round (env :: grpc_env) step_fuel fuel n w))"
| add_build: "handler_step w (snd (manually_add_queue_build (env :: grpc_env) step_fuel fuel i w))"
| queue_one: "handler_step w (snd (queue_one_build (env :: grpc_env) i p w))"
| dispatch: "handler_step w (snd (dispatch_round (env :: grpc_env) w))"
| report: "handler_step w (snd (complete_build (env :: grpc_env) req w))"
| progress: "handler_step w (snd (build_step_update (env :: grpc_env) upd w))"
| new_config: "handler_step w (snd (reload (env :: grpc_env) loaded w))"

record server =
  sv_state :: state
  sv_tunnels :: "tunnel list"

datatype server_label = Joined uuid | Gone uuid | Silent

inductive server_step :: "server \<Rightarrow> server_label \<Rightarrow> server \<Rightarrow> bool" where
  opened: "open_tunnel (env :: grpc_env) first (sv_state sv) = (Inr tn, w') \<Longrightarrow>
    server_step sv (Joined (tn_machine_id tn)) \<lparr>sv_state = w', sv_tunnels = sv_tunnels sv @ [tn]\<rparr>"
| refused: "open_tunnel (env :: grpc_env) first (sv_state sv) = (Inl e, w') \<Longrightarrow>
    server_step sv Silent (sv\<lparr>sv_state := w'\<rparr>)"
| turn: "i < length (sv_tunnels sv) \<Longrightarrow> tn_running (sv_tunnels sv ! i) \<Longrightarrow>
    tunnel_turn (env :: grpc_env) ev (sv_tunnels sv ! i) (sv_state sv) = (Inr tn', w') \<Longrightarrow>
    server_step sv (if tn_running tn' then Silent else Gone (tn_machine_id (sv_tunnels sv ! i)))
      \<lparr>sv_state = w', sv_tunnels = (sv_tunnels sv)[i := tn']\<rparr>"
| died: "i < length (sv_tunnels sv) \<Longrightarrow> tn_running (sv_tunnels sv ! i) \<Longrightarrow>
    tunnel_turn (env :: grpc_env) ev (sv_tunnels sv ! i) (sv_state sv) = (Inl e, w') \<Longrightarrow>
    server_step sv (Gone (tn_machine_id (sv_tunnels sv ! i)))
      \<lparr>sv_state = w', sv_tunnels = (sv_tunnels sv)[i := (sv_tunnels sv ! i)\<lparr>tn_running := False\<rparr>]\<rparr>"
| hang_up: "i < length (sv_tunnels sv) \<Longrightarrow>
    server_step sv Silent (sv\<lparr>sv_tunnels := (sv_tunnels sv)[i := (sv_tunnels sv ! i)\<lparr>tn_receiver := False\<rparr>]\<rparr>)"
| handler: "handler_step (sv_state sv) w' \<Longrightarrow> server_step sv Silent (sv\<lparr>sv_state := w'\<rparr>)"

text \<open>The specification: a set of identifiers that machines join and leave.\<close>

fun connections :: "server_label \<Rightarrow> uuid set \<Rightarrow> uuid set" where
  "connections (Joined u) S = insert u S"
| "connections (Gone u) S = S - {u}"
| "connections Silent S = S"

lemma handler_step_registered: "handler_step w w' \<Longrightarrow> registered w' = registered w"
proof (induction rule: handler_step.induct)
  case (report w env req)
  show ?case
    by (auto simp: complete_build_def spawn_def split: sum.splits intro!: registered_keeps [OF _ prod.collapse [symmetric]] registry_rules)
next
  case (progress w env upd)
  show ?case
    by (auto simp: build_step_update_def spawn_def split: sum.splits intro!: registered_keeps [OF _ prod.collapse [symmetric]] registry_rules)
qed (rule registered_keeps [OF _ prod.collapse [symmetric]], rule registry_rules)+

lemma tunnels_abstract:
  assumes "server_step sv l sv'"
  shows "registered (sv_state sv') = connections l (registered (sv_state sv))"
  using assms
proof (induction rule: server_step.induct)
  case (opened env first sv tn w')
  from open_tunnel_cases [OF opened] show ?case by simp
next
  case (refused env first sv e w')
  from open_tunnel_cases [OF refused] show ?case by simp
next
  case (turn i sv env ev tn' w')
  from tunnel_turn_cases [OF turn(3)] show ?case
  proof (elim disjE exE conjE)
    fix w0 assume "leave_tunnel env (sv_tunnels sv ! i) w0 = (Inr tn', w')" "registered w0 = registered (sv_state sv)"
    then show ?thesis using leave_tunnel_registered [of env "sv_tunnels sv ! i" w0 "Inr tn'" w'] by simp
  qed (use turn(2) in auto)
next
  case (died i sv env ev e w')
  from tunnel_turn_cases [OF died(3)] show ?case
    using leave_tunnel_registered(1) by fastforce
next
  case (handler sv w')
  then show ?case by (simp add: handler_step_registered)
qed simp

text \<open>
  C11: the tunnels refine a set of connected machines: whatever happens, opening a tunnel adds the machine of
  its join message to the registered machines and changes nothing else of them, the end of the task of a
  tunnel, by the end of the connection, an error or a panic, takes out its machine, and no other event and no
  other handler of the runner changes which machines are registered.
\<close>

theorem tunnels_refine_connections:
  assumes "server_step sv l sv'"
  shows "registered (sv_state sv') = connections l (registered (sv_state sv))"
  by (rule tunnels_abstract [OF assms])

definition ex_grpc :: grpc_env where
  "ex_grpc = runner_env.extend ex_world
     (grpc_env.fields (\<lambda>s. if s = [] then None else Some (length s)) nat_to_string ''1.0'' ex_ffi)"

definition ex_server :: server where
  "ex_server = \<lparr>sv_state = ex_runner, sv_tunnels = []\<rparr>"

lemma ex_opened:
  "\<exists>tn w'. open_tunnel ex_grpc (Some (Inr (Some (Join (ex_join\<lparr>jm_machine_id := ''abc''\<rparr>))))) (sv_state ex_server) = (Inr tn, w') \<and>
     tn_machine_id tn = 3"
proof -
  let ?r = "open_tunnel ex_grpc (Some (Inr (Some (Join (ex_join\<lparr>jm_machine_id := ''abc''\<rparr>))))) (sv_state ex_server)"
  have "(case fst ?r of Inl _ \<Rightarrow> False | Inr tn \<Rightarrow> tn_machine_id tn = 3)" by code_simp
  then show ?thesis by (cases ?r; cases "fst ?r") auto
qed

lemma ex_server_empty: "registered (sv_state ex_server) = {}"
  by (simp add: registered_def ex_server_def ex_runner_def state_new_def machines_new_def get_machine_by_id_def)

theorem tunnels_refine_connections_witness:
  "\<exists>sv'. server_step ex_server (Joined 3) sv' \<and> registered (sv_state sv') = {3}"
proof -
  obtain tn w' where run: "open_tunnel ex_grpc (Some (Inr (Some (Join (ex_join\<lparr>jm_machine_id := ''abc''\<rparr>))))) (sv_state ex_server) = (Inr tn, w')"
    and id: "tn_machine_id tn = 3" using ex_opened by blast
  from server_step.opened [OF run] id
  have step: "server_step ex_server (Joined 3) \<lparr>sv_state = w', sv_tunnels = sv_tunnels ex_server @ [tn]\<rparr>" by simp
  from tunnels_refine_connections [OF step] have "registered w' = {3}" by (simp add: ex_server_empty)
  with step show ?thesis by (metis select_convs(1))
qed

subsection \<open>Registered machines are connected\<close>

definition running_at :: "server \<Rightarrow> nat \<Rightarrow> uuid \<Rightarrow> bool" where
  "running_at sv i u \<longleftrightarrow> i < length (sv_tunnels sv) \<and> tn_running (sv_tunnels sv ! i) \<and> tn_machine_id (sv_tunnels sv ! i) = u"

definition connected :: "server \<Rightarrow> uuid set" where
  "connected sv = {u. \<exists>i. running_at sv i u}"

text \<open>What a step does to the running tunnels: one may be added, or one may stop.\<close>

lemma tunnel_turn_tunnel:
  assumes "tunnel_turn env ev tn w = (Inr tn', w')"
  shows "tn_machine_id tn' = tn_machine_id tn"
  using tunnel_turn_cases [OF assms] leave_tunnel_registered(2) by fastforce

lemma running_at_update:
  assumes "i < length (sv_tunnels sv)" and "tn_machine_id tn' = tn_machine_id (sv_tunnels sv ! i)" and "tn_running (sv_tunnels sv ! i)"
  shows "running_at \<lparr>sv_state = w', sv_tunnels = (sv_tunnels sv)[i := tn']\<rparr> j u \<longleftrightarrow>
    running_at sv j u \<and> (j = i \<longrightarrow> tn_running tn')"
  using assms by (cases "j = i") (auto simp: running_at_def)

lemma server_step_running:
  assumes "server_step sv l sv'"
  shows "(case l of
      Joined u \<Rightarrow> \<forall>j v. running_at sv' j v \<longleftrightarrow> running_at sv j v \<or> j = length (sv_tunnels sv) \<and> v = u
    | Gone u \<Rightarrow> \<exists>i. running_at sv i u \<and> (\<forall>j v. running_at sv' j v \<longleftrightarrow> running_at sv j v \<and> j \<noteq> i)
    | Silent \<Rightarrow> \<forall>j v. running_at sv' j v \<longleftrightarrow> running_at sv j v)"
  using assms
proof (induction rule: server_step.induct)
  case (opened env first sv tn w')
  from open_tunnel_cases [OF opened] have "tn_running tn" by auto
  then show ?case by (auto simp: running_at_def nth_append less_Suc_eq)
next
  case (turn i sv env ev tn' w')
  note at = running_at_update [OF turn(1) tunnel_turn_tunnel [OF turn(3)] turn(2)]
  have "running_at sv i (tn_machine_id (sv_tunnels sv ! i))" using turn by (simp add: running_at_def)
  then show ?case using turn(2) by (cases "tn_running tn'") (auto simp: at)
next
  case (died i sv env ev e w')
  note at = running_at_update [OF died(1) _ died(2), of "(sv_tunnels sv ! i)\<lparr>tn_running := False\<rparr>"]
  have "running_at sv i (tn_machine_id (sv_tunnels sv ! i))" using died by (simp add: running_at_def)
  then show ?case by (auto simp: at)
next
  case (hang_up i sv)
  then show ?case by (auto simp: running_at_def nth_list_update)
qed (simp_all add: running_at_def)

text \<open>Builders take a random identifier when they start, so no two of them have the same.\<close>

definition fresh_step :: "server \<Rightarrow> server \<Rightarrow> bool" where
  "fresh_step sv sv' \<longleftrightarrow> (\<exists>l. server_step sv l sv' \<and> (\<forall>u. l = Joined u \<longrightarrow> u \<notin> connected sv))"

definition server_ok :: "server \<Rightarrow> bool" where
  "server_ok sv \<longleftrightarrow> registered (sv_state sv) = connected sv \<and>
     (\<forall>i j u. running_at sv i u \<longrightarrow> running_at sv j u \<longrightarrow> i = j)"

lemma server_ok_step:
  assumes "fresh_step sv sv'" and ok: "server_ok sv"
  shows "server_ok sv'"
proof -
  obtain l where step: "server_step sv l sv'" and fresh: "\<And>u. l = Joined u \<Longrightarrow> u \<notin> connected sv"
    using assms(1) unfolding fresh_step_def by blast
  have reg: "registered (sv_state sv') = connections l (connected sv)"
    using tunnels_abstract [OF step] ok by (simp add: server_ok_def)
  have uniq: "i = j" if "running_at sv i u" "running_at sv j u" for i j u
    using ok that unfolding server_ok_def by blast
  from server_step_running [OF step] reg fresh uniq show ?thesis
    by (cases l) (auto simp: server_ok_def connected_def, (metis running_at_def less_irrefl)+)
qed

interpretation server_life:
  invariant_system "\<lambda>sv. sv_tunnels sv = [] \<and> registered (sv_state sv) = {}" fresh_step server_ok
proof unfold_locales
  show "server_ok sv" if "sv_tunnels sv = [] \<and> registered (sv_state sv) = {}" for sv
    using that by (simp add: server_ok_def connected_def running_at_def)
qed (rule server_ok_step)

text \<open>
  C12: in every state the server reaches, the registered machines are exactly those with a tunnel whose task
  runs, however the events of the tunnels and all other handlers interleave, with whatever answers of the
  database, the stores and the network, as long as no builder joins under the identifier of a connected one.
\<close>

theorem registered_machines_connected:
  assumes "fresh_step\<^sup>*\<^sup>* sv0 sv" and "sv_tunnels sv0 = []" and "registered (sv_state sv0) = {}"
  shows "registered (sv_state sv) = connected sv"
  using server_life.inv_reachable [OF _ assms(1)] assms(2,3) by (simp add: server_ok_def)

theorem registered_machines_connected_witness:
  "\<exists>sv. fresh_step\<^sup>*\<^sup>* ex_server sv \<and> registered (sv_state sv) = connected sv \<and> 3 \<in> connected sv"
proof -
  obtain tn w' where run: "open_tunnel ex_grpc (Some (Inr (Some (Join (ex_join\<lparr>jm_machine_id := ''abc''\<rparr>))))) (sv_state ex_server) = (Inr tn, w')"
    and id: "tn_machine_id tn = 3" using ex_opened by blast
  let ?sv = "\<lparr>sv_state = w', sv_tunnels = sv_tunnels ex_server @ [tn]\<rparr>"
  have "fresh_step ex_server ?sv"
    using server_step.opened [OF run] unfolding fresh_step_def by (force simp: connected_def running_at_def ex_server_def)
  then have steps: "fresh_step\<^sup>*\<^sup>* ex_server ?sv" by auto
  have "registered (sv_state ?sv) = connected ?sv"
    by (rule registered_machines_connected [OF steps]) (simp add: ex_server_def, rule ex_server_empty)
  moreover have "3 \<in> connected ?sv"
    using open_tunnel_cases [OF run] id by (force simp: connected_def running_at_def ex_server_def)
  ultimately show ?thesis using steps by blast
qed

text \<open>
  Without that the registry can lose a connected machine: the end of one of two tunnels of a machine
  unregisters the machine, whichever of the two is registered.
\<close>

lemma second_tunnel_unregistered:
  assumes "server_step sv (Gone u) sv'" and "running_at sv i u" and "running_at sv j u" and "i \<noteq> j"
  shows "u \<in> connected sv' \<and> u \<notin> registered (sv_state sv')"
proof -
  have "\<exists>k. running_at sv' k u"
    using server_step_running [OF assms(1)] assms(2-4) by simp metis
  then show ?thesis using tunnels_abstract [OF assms(1)] by (auto simp: connected_def)
qed

end
