(* ===== verification/Grpc_Facts.thy ===== *)
theory Grpc_Facts
  imports Grpc_Tunnels Cache_Facts
begin

text \<open>
  What the requests of builders do: logs, reports and uploads with signed URLs.
\<close>

subsection \<open>Logs\<close>

lemma write_all_run:
  "lo_write l n = None \<Longrightarrow> write_all l n file data w =
     (Inr (), hm_insert file ((case hm_get w file of None \<Rightarrow> [] | Some c \<Rightarrow> c) @ data) w)"
  by (simp add: write_all_def)

definition holds_log :: "string \<Rightarrow> string \<Rightarrow> files \<Rightarrow> files \<Rightarrow> bool" where
  "holds_log file content fs w \<longleftrightarrow> hm_get w file = Some content \<and> (\<forall>f. f \<noteq> file \<longrightarrow> hm_get w f = hm_get fs f)"

lemma write_chunks_open:
  assumes "holds_log file content fs w" and "\<And>k. lo_write l k = None" and "rest = [] \<or> (\<exists>st more. rest = Inl st # more)"
  shows "\<exists>w'. write_chunks l nix_dir dir n (Some file) (map Inr cs @ rest) w =
      ((case rest of Inl st # _ \<Rightarrow> Inl (Status st) | _ \<Rightarrow> Inr ()), w') \<and>
    holds_log file (content @ concat (map lc_data cs)) fs w'"
  using assms(1)
proof (induction cs arbitrary: n content w)
  case Nil
  then show ?case using assms(3) by auto
next
  case (Cons c cs)
  let ?w = "hm_insert file (content @ lc_data c) w"
  have "holds_log file (content @ lc_data c) fs ?w"
    using Cons.prems by (simp add: holds_log_def update_conv)
  from Cons.IH [OF this, of "Suc n"] show ?case
    using Cons.prems assms(2) by (simp add: write_all_run holds_log_def)
qed

text \<open>
  C38: a log that arrives in chunks ends up, in order and complete, in the file of the derivation that the first
  chunk names, whatever was in the file before and whatever derivations later chunks name, and no other
  file changes. When the stream breaks off, the file holds what arrived before and the request
  fails with the status of the stream.
\<close>

theorem build_log_content:
  assumes "log_file_path dir (store_path_new nix_dir (lc_drv c)) = Inr file" and "lo_open_ok l file"
    and "\<And>k. lo_write l k = None" and "rest = [] \<or> (\<exists>st more. rest = Inl st # more)"
  shows "\<exists>w. build_log l nix_dir dir (map Inr (c # cs) @ rest) fs =
      ((case rest of Inl st # _ \<Rightarrow> Inl (Status st) | _ \<Rightarrow> Inr ()), w) \<and>
    hm_get w file = Some (concat (map lc_data (c # cs))) \<and> (\<forall>f. f \<noteq> file \<longrightarrow> hm_get w f = hm_get fs f)"
proof -
  have new: "new_log_file l dir (store_path_new nix_dir (lc_drv c)) fs = (Inr file, hm_insert file [] fs)"
    using assms(1,2) by (simp add: new_log_file_def bind_def of_sum_def and_then_def update_st_def ok_def)
  let ?w = "hm_insert file (lc_data c) (hm_insert file [] fs)"
  have "holds_log file (lc_data c) fs ?w" by (simp add: holds_log_def update_conv)
  from write_chunks_open [OF this assms(3,4), of nix_dir dir "Suc 0" cs] new assms(3)
  show ?thesis by (simp add: build_log_def map_err_def write_all_run update_conv holds_log_def)
qed

theorem build_log_content_witness:
  "\<exists>w. build_log \<lparr>lo_open_ok = (\<lambda>_. True), lo_write = (\<lambda>_. None)\<rparr> ''/nix/store'' ''/logs''
       [Inr \<lparr>lc_drv = ''abcd.drv'', lc_data = ''x''\<rparr>, Inr \<lparr>lc_drv = ''other'', lc_data = ''y''\<rparr>, Inl (Internal ''reset'')]
       [(''/logs/ab/cd.drv'', ''old'')] = (Inl (Status (Internal ''reset'')), w) \<and>
     hm_get w ''/logs/ab/cd.drv'' = Some ''xy''"
proof -
  have path: "log_file_path ''/logs'' (store_path_new ''/nix/store'' (lc_drv \<lparr>lc_drv = ''abcd.drv'', lc_data = ''x''\<rparr>)) =
      Inr ''/logs/ab/cd.drv''" by code_simp
  from build_log_content [OF path, of "\<lparr>lo_open_ok = (\<lambda>_. True), lo_write = (\<lambda>_. None)\<rparr>" "[Inl (Internal ''reset'')]"
      "[\<lparr>lc_drv = ''other'', lc_data = ''y''\<rparr>]" "[(''/logs/ab/cd.drv'', ''old'')]"]
  show ?thesis by auto
qed

subsection \<open>Reports\<close>

definition job_known :: "state \<Rightarrow> uuid \<Rightarrow> uuid \<Rightarrow> bool" where
  "job_known w machine_id build_id \<longleftrightarrow>
     (\<exists>r m. get_machine_by_id machine_id (r_machines w) = Some r \<and> upgrade (mem_machines w) r = Some m \<and>
       get_job_drv_for_build_id build_id m \<noteq> None)"

lemma machine_job_unknown:
  assumes "\<not> job_known w m b"
  shows "\<exists>e. machine_job b m w = (Inl e, w)"
  using assms
  by (cases "Option.bind (get_machine_by_id m (r_machines w)) (upgrade (mem_machines w))")
     (auto simp: machine_job_def bind_def gets_def of_option_def fail_def ok_def job_known_def Option.bind_eq_Some_conv
       split: option.splits)

text \<open>
  C39: a report is only acted on when it names a job of a registered machine. A report with a malformed
  identifier is refused; one that names an unknown machine, or a job the machine does not have (it was
  cancelled, failed by a disconnect, or reported before), is answered like any other and changes nothing.
\<close>

theorem complete_build_known_jobs_only:
  "(g_uuid_parse env (bri_build_id req) = None \<or> g_uuid_parse env (bri_machine_id req) = None \<longrightarrow>
      (\<exists>what. complete_build env req w = (Inl (Status (Invalid_Argument what)), w))) \<and>
   (\<forall>b m. g_uuid_parse env (bri_build_id req) = Some b \<and> g_uuid_parse env (bri_machine_id req) = Some m \<and>
      \<not> job_known w m b \<longrightarrow> complete_build env req w = (Inr (), w))"
proof (intro conjI impI allI; (elim conjE)?)
  assume "g_uuid_parse env (bri_build_id req) = None \<or> g_uuid_parse env (bri_machine_id req) = None"
  then show "\<exists>what. complete_build env req w = (Inl (Status (Invalid_Argument what)), w)"
    by (auto simp: complete_build_def parse_ids_def parse_id_def split: option.splits)
next
  fix b m
  assume ids: "g_uuid_parse env (bri_build_id req) = Some b" "g_uuid_parse env (bri_machine_id req) = Some m"
    and "\<not> job_known w m b"
  then obtain e where "machine_job b m w = (Inl e, w)" using machine_job_unknown by blast
  with ids show "complete_build env req w = (Inr (), w)"
    by (simp add: complete_build_def parse_ids_def parse_id_def spawn_def succeed_step_by_uuid_def fail_step_by_uuid_def bind_def)
qed

theorem complete_build_known_jobs_only_witness:
  "\<exists>req. complete_build ex_grpc req ex_runner = (Inr (), ex_runner)"
proof -
  let ?req = "\<lparr>bri_build_id = ''ab'', bri_machine_id = ''abc'', bri_import_time_ms = 0, bri_build_time_ms = 0,
    bri_upload_time_ms = 0, bri_result_state = PSuccess, bri_nix_support = None, bri_outputs = []\<rparr>"
  have "\<not> job_known ex_runner 3 2" using ex_server_empty by (auto simp: job_known_def registered_def ex_server_def)
  moreover have "g_uuid_parse ex_grpc (bri_build_id ?req) = Some 2" "g_uuid_parse ex_grpc (bri_machine_id ?req) = Some 3"
    by (simp_all add: ex_grpc_def grpc_env.defs runner_env.defs)
  ultimately have "complete_build ex_grpc ?req ex_runner = (Inr (), ex_runner)"
    using complete_build_known_jobs_only [of ex_grpc ?req ex_runner] by blast
  then show ?thesis ..
qed

end
