(* ===== verification/Builder_Facts.thy ===== *)
theory Builder_Facts
  imports Builder_Task Grpc_Facts
begin

text \<open>
  Properties of the builder: what an import leaves behind, which builds are active, and what is reported.
\<close>

lemma run_b_ask [run_rules]: "b_ask f w = (Inr a, w') \<longleftrightarrow> a = f (b_tick w) \<and> w' = w\<lparr>b_tick := b_tick w + 1\<rparr>"
  by (auto simp: b_ask_def)

lemma run_of_err [run_rules]: "of_err e w = (Inr u, w') \<longleftrightarrow> e = None \<and> w' = w"
  by (auto simp: of_err_def ok_def fail_def split: option.splits)

lemma run_b_try [run_rules]: "b_try f w = (Inr a, w') \<longleftrightarrow> f (b_tick w) = Inr a \<and> w' = w\<lparr>b_tick := b_tick w + 1\<rparr>"
  by (auto simp: b_try_def run_rules)

lemma run_count [run_rules]: "count f w = (Inr u, w') \<longleftrightarrow> w' = w\<lparr>b_metrics := f (b_metrics w)\<rparr>"
  by (auto simp: count_def run_rules)

lemma run_for_each:
  assumes "for_each f xs w = (Inr u, w')" and "R w w" and "\<And>a b c. R a b \<Longrightarrow> R b c \<Longrightarrow> R a c"
    and "\<And>x a b v. x \<in> set xs \<Longrightarrow> f x a = (Inr v, b) \<Longrightarrow> R a b \<and> Q x b"
    and "\<And>x a b. Q x a \<Longrightarrow> R a b \<Longrightarrow> Q x b" and "\<And>a. R a a"
  shows "R w w' \<and> (\<forall>x \<in> set xs. Q x w')"
  using assms(1,4)
proof (induction xs arbitrary: w)
  case Nil
  then show ?case using assms(6) by (simp add: run_rules)
next
  case (Cons x xs)
  obtain v w1 where one: "f x w = (Inr v, w1)" and rest: "for_each f xs w1 = (Inr u, w')"
    using Cons.prems(1) by (auto simp: run_rules)
  have "R w1 w' \<and> (\<forall>y \<in> set xs. Q y w')" by (rule Cons.IH [OF rest]) (use Cons.prems(2) in auto)
  moreover have "R w w1 \<and> Q x w1" using Cons.prems(2) [OF _ one] by simp
  ultimately show ?case using assms(3,5) by auto
qed

subsection \<open>Imports\<close>

text \<open>
  What is relied on: links can be created, and an import that succeeds has made the paths it was asked for valid.
\<close>

definition links_work :: "('r, 'e) builder_env_scheme \<Rightarrow> bool" where
  "links_work env \<longleftrightarrow> (\<forall>t. be_root env t = ((\<lambda>links p. hm_get links p \<noteq> None), True, True))"

definition imports_work :: "('r, 'e) builder_env_scheme \<Rightarrow> bool" where
  "imports_work env \<longleftrightarrow> (\<forall>t ps. fst (be_import env t ps) = None \<longrightarrow> set ps \<subseteq> set (snd (be_import env t ps)))"

definition grows :: "builder \<Rightarrow> builder \<Rightarrow> bool" where
  "grows w w' \<longleftrightarrow> set (b_valid w) \<subseteq> set (b_valid w') \<and>
     (\<forall>k. hm_get (b_links w) k \<noteq> None \<longrightarrow> hm_get (b_links w') k \<noteq> None)"

definition rooted :: "string \<Rightarrow> store_path \<Rightarrow> builder \<Rightarrow> bool" where
  "rooted gcroot p w \<longleftrightarrow> p \<in> set (b_valid w) \<and> hm_get (b_links w) (path_join gcroot p) \<noteq> None"

lemma grows_refl [simp]: "grows w w" by (simp add: grows_def)

lemma grows_trans: "grows a b \<Longrightarrow> grows b c \<Longrightarrow> grows a c" unfolding grows_def by blast

lemma rooted_grows: "rooted g p w \<Longrightarrow> grows w w' \<Longrightarrow> rooted g p w'"
  unfolding rooted_def grows_def by blast

lemma grows_same [simp]: "b_valid w' = b_valid w \<Longrightarrow> b_links w' = b_links w \<Longrightarrow> grows w w'"
  by (simp add: grows_def)

lemma run_add_root:
  assumes "links_work env" and "add_root_io env g p w = (Inr u, w')"
  shows "grows w w' \<and> b_valid w' = b_valid w \<and> hm_get (b_links w') (path_join g p) \<noteq> None"
  using assms by (auto simp: add_root_io_def run_rules links_work_def add_root_def Let_def grows_def update_conv delete_conv
      split: if_splits)

lemma run_filter_missing:
  assumes "links_work env" and "filter_missing env g p w = (Inr r, w')"
  shows "grows w w' \<and> (case r of None \<Rightarrow> rooted g p w' | Some q \<Rightarrow> q = p)"
proof (cases "p \<in> set (b_valid w)")
  case True
  with assms(2) obtain u where "add_root_io env g p w = (Inr u, w')" "r = None"
    by (auto simp: filter_missing_def run_rules)
  with run_add_root [OF assms(1), of g p w] True show ?thesis by (auto simp: rooted_def)
next
  case False
  with assms(2) show ?thesis by (auto simp: filter_missing_def run_rules)
qed

lemma run_filter_paths:
  assumes "links_work env" and "filter_paths env g ps w = (Inr qs, w')"
  shows "grows w w' \<and> (\<forall>p \<in> set ps. p \<in> set qs \<or> rooted g p w')"
  using assms(2)
proof (induction ps arbitrary: w qs)
  case (Cons p ps)
  obtain r w1 rest where one: "filter_missing env g p w = (Inr r, w1)" and rest: "filter_paths env g ps w1 = (Inr rest, w')"
    and qs: "qs = (case r of None \<Rightarrow> rest | Some q \<Rightarrow> q # rest)"
    using Cons.prems by (auto simp: run_rules)
  have 1: "grows w w1 \<and> (case r of None \<Rightarrow> rooted g p w1 | Some q \<Rightarrow> q = p)" by (rule run_filter_missing [OF assms(1) one])
  have 2: "grows w1 w' \<and> (\<forall>p \<in> set ps. p \<in> set rest \<or> rooted g p w')" by (rule Cons.IH [OF rest])
  have "grows w w'" using 1 2 grows_trans by blast
  moreover have "p \<in> set qs \<or> rooted g p w'" using 1 2 rooted_grows qs by (cases r) auto
  moreover have "set rest \<subseteq> set qs" using qs by (cases r) auto
  ultimately show ?case using 2 by auto
qed (simp add: run_rules)

lemma run_roots:
  assumes "links_work env" and "for_each (add_root_io env g) ps w = (Inr u, w')"
  shows "grows w w' \<and> b_valid w' = b_valid w \<and> (\<forall>p \<in> set ps. hm_get (b_links w') (path_join g p) \<noteq> None)"
proof -
  let ?R = "\<lambda>a b. grows a b \<and> b_valid b = b_valid a"
  have "?R w w' \<and> (\<forall>p \<in> set ps. hm_get (b_links w') (path_join g p) \<noteq> None)"
  proof (rule run_for_each [OF assms(2)])
    show "?R a b \<and> hm_get (b_links b) (path_join g p) \<noteq> None" if "add_root_io env g p a = (Inr v, b)" for p a b v
      using run_add_root [OF assms(1) that] by simp
  qed (auto simp: grows_def)
  then show ?thesis by simp
qed

lemma run_download_paths:
  assumes "links_work env" and "imports_work env" and "download_paths env g ps w = (Inr u, w')"
  shows "grows w w' \<and> (\<forall>p \<in> set ps. rooted g p w')"
proof -
  let ?count = "sub_downloading_path (of_nat (length ps)) (add_downloading_path (of_nat (length ps)) (b_metrics w))"
  obtain new where imp: "be_import env (Suc (b_tick w)) ps = (None, new)"
    and roots: "for_each (add_root_io env g) ps
      (w\<lparr>b_tick := Suc (Suc (b_tick w)), b_valid := new @ b_valid w, b_metrics := ?count\<rparr>) = (Inr u, w')"
    using assms(3) by (auto simp: download_paths_def run_rules split: prod.splits)
  let ?w1 = "w\<lparr>b_tick := Suc (Suc (b_tick w)), b_valid := new @ b_valid w, b_metrics := ?count\<rparr>"
  have "set ps \<subseteq> set new" using assms(2) imp unfolding imports_work_def by (metis fst_conv snd_conv)
  moreover have "grows w ?w1" by (auto simp: grows_def)
  ultimately show ?thesis using run_roots [OF assms(1) roots] grows_trans [of w ?w1 w'] by (auto simp: rooted_def)
qed

lemma keeps_b_ask: "(\<And>w n. I w \<Longrightarrow> I (w\<lparr>b_tick := n\<rparr>)) \<Longrightarrow> keeps I (b_ask f)"
  by (simp add: keeps_def b_ask_def)

lemma keeps_of_err [keeps_rules]: "keeps I (of_err e)"
  by (simp add: of_err_def keeps_basic split: option.splits)

lemma grows_substitute_paths:
  assumes "substitute_paths env ps w = (r, w')"
  shows "grows w w'"
proof -
  have "keeps (grows w) (substitute_paths env ps)"
    unfolding substitute_paths_def substitute_path_def
    by (intro keeps_rules keeps_cases keeps_update keeps_b_ask) (auto simp: grows_def)
  from keepsD [OF this grows_refl assms] show ?thesis .
qed

lemma run_substitute_first:
  assumes "links_work env" and "substitute_first env g ps w = (Inr qs, w')"
  shows "grows w w' \<and> (\<forall>p \<in> set ps. p \<in> set qs \<or> rooted g p w')"
proof -
  let ?w1 = "w\<lparr>b_metrics := add_substituting_path (of_nat (length ps)) (b_metrics w)\<rparr>"
  obtain r w2 where sub: "substitute_paths env ps ?w1 = (r, w2)"
    and filt: "filter_paths env g ps (w2\<lparr>b_metrics := sub_substituting_path (of_nat (length ps)) (b_metrics w2)\<rparr>) = (Inr qs, w')"
    using assms(2) by (auto simp: substitute_first_def run_rules ignore_err_def)
  have "grows w w2" using grows_substitute_paths [OF sub] by (simp add: grows_def)
  then have "grows w (w2\<lparr>b_metrics := sub_substituting_path (of_nat (length ps)) (b_metrics w2)\<rparr>)"
    by (simp add: grows_def)
  with run_filter_paths [OF assms(1) filt] show ?thesis by (blast intro: grows_trans)
qed

lemma run_import_paths:
  assumes "links_work env" and "imports_work env" and "import_paths env g ps filt subst w = (Inr u, w')"
  shows "grows w w' \<and> (\<forall>p \<in> set ps. rooted g p w')"
proof -
  obtain qs w1 where filter: "(if filt then filter_paths env g ps else ok ps) w = (Inr qs, w1)"
    and rest: "(if subst then bind (substitute_first env g qs) (\<lambda>ps. if ps = [] then ok () else download_paths env g ps)
        else download_paths env g qs) w1 = (Inr u, w')"
    using assms(3) by (auto simp: import_paths_def run_bind)
  have 1: "grows w w1 \<and> (\<forall>p \<in> set ps. p \<in> set qs \<or> rooted g p w1)"
    using filter run_filter_paths [OF assms(1)] by (cases filt) (auto simp: run_rules)
  have 2: "grows w1 w' \<and> (\<forall>p \<in> set qs. rooted g p w')"
  proof (cases subst)
    case True
    obtain rs w2 where sub: "substitute_first env g qs w1 = (Inr rs, w2)"
      and down: "(if rs = [] then ok () else download_paths env g rs) w2 = (Inr u, w')"
      using rest True by (auto simp: run_bind)
    have "grows w2 w' \<and> (\<forall>p \<in> set rs. rooted g p w')"
      using down run_download_paths [OF assms(1,2)] by (cases "rs = []") (auto simp: run_rules)
    with run_substitute_first [OF assms(1) sub] show ?thesis by (blast intro: grows_trans rooted_grows)
  next
    case False
    then show ?thesis using rest run_download_paths [OF assms(1,2)] by simp
  qed
  from 1 2 show ?thesis by (blast intro: grows_trans rooted_grows)
qed

lemma concat_chunks: "0 < n \<Longrightarrow> concat (chunks n xs) = xs"
proof (induction n xs rule: chunks.induct)
  case (1 n xs)
  then show ?case by (cases "xs = []") (simp_all add: chunks.simps [of n xs] chunks.simps [of n "[]"])
qed

lemma run_import_chunks:
  assumes "links_work env" and "imports_work env" and "import_chunks env g n ps filt subst w = (Inr u, w')"
  shows "grows w w' \<and> (\<forall>p \<in> set ps. rooted g p w')"
proof -
  have n: "0 < n" and run: "for_each (\<lambda>c. import_paths env g c filt subst) (chunks n ps) w = (Inr u, w')"
    using assms(3) by (auto simp: import_chunks_def run_rules split: if_splits)
  have "grows w w' \<and> (\<forall>c \<in> set (chunks n ps). \<forall>p \<in> set c. rooted g p w')"
    by (rule run_for_each [OF run]) (auto dest: run_import_paths [OF assms(1,2)] intro: grows_trans rooted_grows)
  moreover have "set ps = (\<Union>c \<in> set (chunks n ps). set c)"
    using concat_chunks [OF n, of ps] set_concat [of "chunks n ps"] by simp
  ultimately show ?thesis by blast
qed

text \<open>
  C14: an import that succeeds is complete: every requisite the runner named, with and without the outputs of
  the inputs, is valid in the store of the builder and protected by a link in the directory of the
  build, however many of them were there before, were substituted or were downloaded, in whichever chunks, and
  although failures to substitute are ignored; and nothing that was valid or protected before is lost.
\<close>

theorem import_requisites_complete:
  assumes "links_work env" and "imports_work env"
    and "import_requisites env g target requisites n subst w = (Inr u, w')"
  shows "\<exists>t rs. be_requisites env t target True = Inr rs \<and>
    (\<forall>p \<in> set requisites \<union> set (map (store_path_new (f_store_dir (the_store env))) rs). rooted g p w') \<and> grows w w'"
proof -
  obtain reqs w1 w2 w3 w4 rs t full w5
    where f1: "filter_paths env g requisites w = (Inr reqs, w1)"
    and i1: "import_chunks env g n (filter (\<lambda>p. \<not> is_drv p) reqs) True subst w1 = (Inr (), w2)"
    and i2: "import_chunks env g n (filter is_drv reqs) True False w2 = (Inr (), w3)"
    and fetch: "be_requisites env t target True = Inr rs" and w4: "w4 = w3\<lparr>b_tick := Suc (b_tick w3)\<rparr>"
    and f2: "filter_paths env g (map (store_path_new (f_store_dir (the_store env))) rs) w4 = (Inr full, w5)"
    and i3: "import_chunks env g n full False subst w5 = (Inr u, w')"
    using assms(3) by (auto simp: import_requisites_def fetch_requisites_def run_rules)
  note fs = run_filter_paths [OF assms(1)] and cs = run_import_chunks [OF assms(1,2)]
  have "grows w3 w4" using w4 by (simp add: grows_def)
  with fs [OF f1] cs [OF i1] cs [OF i2] fs [OF f2] cs [OF i3]
  have "grows w1 w'" "grows w2 w'" "grows w3 w'" "grows w w'" by (meson grows_trans)+
  have "rooted g p w'" if "p \<in> set requisites" for p
  proof (cases "p \<in> set reqs")
    case True
    then have "rooted g p w2 \<or> rooted g p w3" using cs [OF i1] cs [OF i2] by auto
    then show ?thesis using \<open>grows w2 w'\<close> \<open>grows w3 w'\<close> rooted_grows by blast
  qed (use fs [OF f1] that \<open>grows w1 w'\<close> rooted_grows in blast)
  moreover have "rooted g p w'" if "p \<in> set (map (store_path_new (f_store_dir (the_store env))) rs)" for p
    using fs [OF f2] cs [OF i3] that rooted_grows by blast
  ultimately show ?thesis using fetch \<open>grows w w'\<close> by blast
qed

definition ex_serving :: state where
  "ex_serving = ex_runner\<lparr>mem_machines := [Some (ex_machine\<lparr>m_jobs := [job_new 2 7 ''a.drv'' None]\<rparr>)],
     r_machines := machines_new\<lparr>by_uuid := [(3, 0)]\<rparr>\<rparr>"

definition ex_system :: system_env where
  "ex_system = \<lparr>sy_cwd = ''/var/lib'', sy_cpuinfo = Inr ([], 4), sy_meminfo = Inr (1000, Some 400),
     sy_loadavg = Inr (Fin False 1, Fin False 1, Fin False 1), sy_exists = (\<lambda>_. True),
     sy_pressure = (\<lambda>p. if p = ''/proc/pressure/cpu''
        then (let r = \<lparr>avg10 = Fin False 90, avg60 = Fin False 90, avg300 = Fin False 90, p_total = 1\<rparr> in Some (r, r)) else None),
     sy_read = (\<lambda>_. None), sy_statvfs = (\<lambda>_. Inr (100, 50, 4096)), sy_var = (\<lambda>_. None), sy_nan_sign = False\<rparr>"

definition ex_builder_env :: "unit builder_env" where
  "ex_builder_env =
     \<lparr>be_uuid_parse = (\<lambda>s. if s = [] then None else Some (length s)), be_uuid_str = (\<lambda>n. replicate n CHR ''i''),
      be_new_uuid = (\<lambda>_. ''tmp''), be_system = (\<lambda>_. ex_system), be_substituters = (\<lambda>_. []), be_nix_version = ''2.30'',
      be_build_dir = ''/tmp'', be_mkdir = (\<lambda>_ _. None), be_rmdir = (\<lambda>_ _. None),
      be_root = (\<lambda>_. ((\<lambda>links p. hm_get links p \<noteq> None), True, True)), be_elapsed = (\<lambda>_. 5),
      be_answer = (\<lambda>_. (None, True)), be_requisites = (\<lambda>_ _ outs. Inr (if outs then [''s'', ''i.drv'', ''o''] else [''s'', ''i.drv''])),
      be_has_path = (\<lambda>_ _. Inr False), be_stream_files = (\<lambda>_ _. None), be_import = (\<lambda>_ ps. (None, ps)),
      be_substitute = (\<lambda>_ p. (Some Store_Error, [])),
      be_query_drv = (\<lambda>_ p. Inr (Some \<lparr>drv_env = [], input_drvs = [], outputs = [\<lparr>out_name = ''out'', out_path = Some ''r'', out_hash = None, out_hash_algo = None\<rparr>],
        drv_name = ''a.drv'', drv_system = ''x86_64-linux''\<rparr>)),
      be_realise = (\<lambda>_ _ _. Inr [Inr ''line'']), be_wait = (\<lambda>_. Inr (Some 0)), be_built = (\<lambda>_ _. [''r'']),
      be_build_log = (\<lambda>_ _. None), be_export = (\<lambda>_ _. None), be_build_result = (\<lambda>_ _. None),
      be_support = (\<lambda>_ _. Inr \<lparr>su_failed = False, su_release_name = None, su_metrics = [], su_products = []\<rparr>),
      be_retries = 3, be_cache = cache_env.extend ex_cache_env (presign_env.fields id (\<lambda>_. None)),
      be_request_url = request_presigned_url ex_grpc ex_cache_env [ex_publish_client],
      be_notify = notify_presigned_upload_complete ex_grpc ex_cache_env [ex_publish_client] ex_serving\<rparr>"

definition ex_builder :: builder where
  "ex_builder =
     \<lparr>b_id = 3, b_hostname = ''b'', b_config =
        \<lparr>bc_ping_interval = 10, bc_speed_factor = Fin False 1, bc_max_jobs = 4, bc_build_dir_avail_threshold = Fin False 10,
         bc_store_avail_threshold = Fin False 10, bc_load1_threshold = Fin False 8, bc_cpu_psi_threshold = Fin False 75,
         bc_mem_psi_threshold = Fin False 80, bc_io_psi_threshold = None, bc_gcroots = ''/roots'', bc_systems = [''x86_64-linux''],
         bc_supported_features = [], bc_mandatory_features = [], bc_cgroups = False, bc_use_substitutes = True\<rparr>,
      b_max_concurrent_downloads = 5, b_active_builds = [], b_halt = False, b_metrics = b_metrics_default, b_status = [],
      b_tasks = [], b_tick = 0, b_valid = [''s''], b_links = [], b_root_dirs = [], b_updates = [], b_reports = [],
      b_timings = \<lparr>import_elapsed = 0, build_elapsed = 0, upload_elapsed = 0\<rparr>, b_cache = ex_cache_world\<rparr>"

lemma ex_builder_works: "links_work ex_builder_env" "imports_work ex_builder_env"
  by (simp_all add: links_work_def imports_work_def ex_builder_env_def)

theorem import_requisites_complete_witness:
  "\<exists>w'. import_requisites ex_builder_env ''/roots/tmp'' ''a.drv'' [''s'', ''i.drv''] 2 True ex_builder = (Inr (), w') \<and>
     rooted ''/roots/tmp'' ''o'' w'"
proof -
  let ?r = "import_requisites ex_builder_env ''/roots/tmp'' ''a.drv'' [''s'', ''i.drv''] 2 True ex_builder"
  have "fst ?r = Inr ()" by code_simp
  then obtain w' where run: "?r = (Inr (), w')" by (cases ?r) simp
  from import_requisites_complete [OF ex_builder_works run]
  obtain rs where "rs = [''s'', ''i.drv'', ''o'']"
    and "\<forall>p \<in> set (map (store_path_new (f_store_dir (the_store ex_builder_env))) rs). rooted ''/roots/tmp'' p w'"
    by (auto simp: ex_builder_env_def)
  moreover have "store_path_new (f_store_dir (the_store ex_builder_env)) ''o'' = ''o''" by code_simp
  ultimately have "rooted ''/roots/tmp'' ''o'' w'" by fastforce
  with run show ?thesis by blast
qed

end
