(* ===== verification/Builder_Active.thy ===== *)
theory Builder_Active
  imports Builder_Facts
begin

text \<open>
  Which builds of a builder are active, and what it reports. The phases of a task only change the store, the
  counters, the links and what the runner was told; of the state of the builder itself the task only
  changes the entry of its build, at its end.
\<close>

subsection \<open>What the phases of a task leave alone\<close>

named_theorems core_rules \<open>handlers that leave the state of the builder and its reports alone\<close>

definition fixed :: "builder \<Rightarrow> builder \<Rightarrow> bool" where
  "fixed v w \<longleftrightarrow> b_tasks w = b_tasks v \<and> b_active_builds w = b_active_builds v \<and> b_halt w = b_halt v \<and> b_id w = b_id v \<and>
     b_config w = b_config v \<and> b_max_concurrent_downloads w = b_max_concurrent_downloads v \<and> b_reports w = b_reports v"

lemma fixed_refl [simp]: "fixed v v" by (simp add: fixed_def)

lemma fixed_trans: "fixed u v \<Longrightarrow> fixed v w \<Longrightarrow> fixed u w" by (simp add: fixed_def)

lemma fixed_update [core_rules]: "(\<And>w. fixed w (f w)) \<Longrightarrow> keeps (fixed v) (update_st f)"
  by (rule keeps_update) (rule fixed_trans)

lemmas [core_rules] = keeps_bind keeps_and_then keeps_basic keeps_attempt keeps_ignore_err keeps_for_each keeps_if
  keeps_case_option keeps_cases keeps_of_err

lemma fixed_ask [core_rules]: "keeps (fixed v) (b_ask f)" "keeps (fixed v) (b_try g)" "keeps (fixed v) (count h)"
  "keeps (fixed v) (in_cache m)" "keeps (fixed v) (call q)"
  by (auto simp: b_try_def count_def call_def b_ask_def in_cache_def keeps_def bind_def of_sum_def update_st_def fixed_def
      split: prod.splits sum.splits)

lemma fixed_roots [core_rules]: "keeps (fixed v) (add_root_io env g p)" "keeps (fixed v) (filter_missing env g p)"
proof -
  show root: "keeps (fixed v) (add_root_io env g p)"
    unfolding add_root_io_def by (intro core_rules) (simp add: fixed_def split: prod.splits)
  show "keeps (fixed v) (filter_missing env g p)"
    unfolding filter_missing_def by (intro core_rules root)
qed

lemma fixed_lists [core_rules]: "keeps (fixed v) (filter_paths env g ps)" "keeps (fixed v) (missing_at_runner env ps)"
  by (induction ps) (auto intro!: core_rules)

lemma fixed_import [core_rules]:
  "keeps (fixed v) (download_paths env g ps)" "keeps (fixed v) (substitute_first env g ps)"
  "keeps (fixed v) (fetch_requisites env d b)"
  unfolding download_paths_def substitute_first_def substitute_paths_def substitute_path_def fetch_requisites_def
  by (intro core_rules; simp add: fixed_def)+

lemma fixed_import_requisites [core_rules]: "keeps (fixed v) (import_requisites env g d rs n subst)"
  unfolding import_requisites_def import_chunks_def import_paths_def by (intro core_rules)

lemma fixed_upload [core_rules]: "keeps (fixed v) (upload_nars env ps i m opts)"
proof -
  have "keeps (fixed v) (upload_single_nar_presigned env i m r)" for r
    unfolding upload_single_nar_presigned_def Let_def by (auto intro!: core_rules split: prod.splits option.splits)
  then show ?thesis
    unfolding upload_nars_def upload_nars_regular_def upload_nars_presigned_def Let_def by (intro core_rules)
qed

lemma fixed_phases [core_rules]:
  "keeps (fixed v) (send_update env m s)" "keeps (fixed v) (set_timings env f)" "keeps (fixed v) (get_gcroot env)"
  "keeps (fixed v) (run_builder env m g d t info)" "keeps (fixed v) (new_success_build_result_info env info tm i mi)"
  unfolding send_update_def set_timings_def get_gcroot_def run_builder_def new_success_build_result_info_def Let_def
  by (intro core_rules; simp add: fixed_def)+

lemma fixed_import_phase [core_rules]: "keeps (fixed v) (import_phase env m g d t)"
  unfolding import_phase_def by (intro core_rules; simp add: fixed_def)

lemma fixed_upload_phase [core_rules]: "keeps (fixed v) (upload_phase env m info)"
  unfolding upload_phase_def by (intro core_rules)

subsection \<open>The report\<close>

text \<open>The runner has accepted \<open>n\<close> more requests, all with the same report.\<close>

definition reported :: "nat \<Rightarrow> build_result_info \<Rightarrow> builder \<Rightarrow> builder \<Rightarrow> bool" where
  "reported n body v w \<longleftrightarrow> b_reports w = b_reports v @ replicate n body \<and> fixed v (w\<lparr>b_reports := b_reports v\<rparr>)"

lemma reported_0: "reported 0 body v w \<longleftrightarrow> fixed v w"
  by (auto simp: reported_def fixed_def)

lemma reported_append: "reported n body u v \<Longrightarrow> reported k body v w \<Longrightarrow> reported (n + k) body u w"
  by (auto simp: reported_def fixed_def replicate_add)

lemma submit_run:
  assumes "submit env k body w = (r, w')"
  shows "\<exists>n. reported n body w w' \<and> (r = Inr () \<longrightarrow> 0 < n) \<and>
    ((\<exists>j\<le>k. fst (be_answer env (b_tick w + j)) = None) \<longrightarrow> r = Inr ())"
  using assms
proof (induction k arbitrary: w)
  case (0 w)
  then show ?case
    by (cases "be_answer env (b_tick w)"; cases "fst (be_answer env (b_tick w))")
       (auto simp: submit.simps [of env 0] bind_def b_ask_def and_then_def update_st_def ok_def fail_def reported_def fixed_def
         intro: exI [of _ 0] exI [of _ 1] split: if_splits)
next
  case (Suc k w)
  obtain e acc where ans: "be_answer env (b_tick w) = (e, acc)" by fastforce
  let ?w1 = "w\<lparr>b_tick := Suc (b_tick w), b_reports := b_reports w @ (if e = None \<or> acc then [body] else [])\<rparr>"
  have one: "reported (if e = None \<or> acc then 1 else 0) body w ?w1" by (simp add: reported_def fixed_def)
  show ?case
  proof (cases e)
    case None
    then have "r = Inr ()" "w' = ?w1" using Suc.prems ans
      by (auto simp: submit.simps [of env "Suc k"] bind_def b_ask_def and_then_def update_st_def ok_def)
    then show ?thesis using one None by (intro exI [of _ 1]) simp
  next
    case (Some e')
    have rest: "submit env k body ?w1 = (r, w')" using Suc.prems ans Some
      by (auto simp: submit.simps [of env "Suc k"] bind_def b_ask_def and_then_def update_st_def split: if_splits)
    from Suc.IH [OF rest] obtain n where n: "reported n body ?w1 w'" "r = Inr () \<longrightarrow> 0 < n"
      "(\<exists>j\<le>k. fst (be_answer env (Suc (b_tick w) + j)) = None) \<longrightarrow> r = Inr ()" by auto
    have later: "\<exists>j\<le>k. fst (be_answer env (Suc (b_tick w) + j)) = None"
      if some: "\<exists>j\<le>Suc k. fst (be_answer env (b_tick w + j)) = None"
    proof -
      obtain j where j: "j \<le> Suc k" "fst (be_answer env (b_tick w + j)) = None" using some by blast
      have "j \<noteq> 0" using j(2) by (intro notI) (simp add: ans Some)
      then obtain i where i: "j = Suc i" using not0_implies_Suc by blast
      show ?thesis using j by (intro exI [of _ i]) (simp add: i)
    qed
    have "r = Inr () \<longrightarrow> 0 < (if e = None \<or> acc then 1 else 0) + n" using n(2) by simp
    moreover have "(\<exists>j\<le>Suc k. fst (be_answer env (b_tick w + j)) = None) \<longrightarrow> r = Inr ()" using n(3) later by blast
    ultimately show ?thesis using reported_append [OF one n(1)] by blast
  qed
qed

subsection \<open>A task\<close>

lemma failing_as_cases:
  "failing_as f m w = (r, w') \<Longrightarrow> (\<exists>a. r = Inr a \<and> m w = (Inr a, w')) \<or>
     (\<exists>e. m w = (Inl e, w') \<and> r = Inl (if fatal e then Died e else Failed (f e)))"
  by (auto simp: failing_as_def split: prod.splits sum.splits)

lemma failing_as_result:
  "failing_as f m w = (r, w') \<Longrightarrow> \<exists>q. m w = (q, w') \<and> (\<forall>a. q = Inr a \<longrightarrow> r = Inr a) \<and> (\<forall>e. q = Inl e \<longrightarrow> (\<exists>x. r = Inl x))"
  by (auto simp: failing_as_def split: prod.splits sum.splits)

lemma fixed_failing_as: "keeps (fixed v) m \<Longrightarrow> fixed v w \<Longrightarrow> failing_as f m w = (r, w') \<Longrightarrow> fixed v w'"
  using failing_as_cases [of f m w r w'] keepsD [of "fixed v" m w _ w'] by blast

text \<open>A job that stops with the builder as it was, or comes to a last phase.\<close>

definition comes_to :: "builder \<Rightarrow> (job_exit + 'a \<Rightarrow> builder \<Rightarrow> bool) \<Rightarrow> 'a job_io \<Rightarrow> bool" where
  "comes_to v Q m \<longleftrightarrow> (\<forall>w r w'. fixed v w \<longrightarrow> m w = (r, w') \<longrightarrow> (\<exists>e. r = Inl e \<and> fixed v w') \<or> Q r w')"

lemma comes_to_bind:
  assumes m: "keeps (fixed v) m" and k: "\<And>a. comes_to v Q (k a)"
  shows "comes_to v Q (job_bind (failing_as f m) k)"
  unfolding comes_to_def
proof (intro allI impI)
  fix w r w' assume w: "fixed v w" and run: "job_bind (failing_as f m) k w = (r, w')"
  obtain r1 w1 where one: "failing_as f m w = (r1, w1)" by fastforce
  have w1: "fixed v w1" by (rule fixed_failing_as [OF m w one])
  show "(\<exists>e. r = Inl e \<and> fixed v w') \<or> Q r w'"
  proof (cases r1)
    case (Inr a)
    then have "k a w1 = (r, w')" using run one by (simp add: job_bind_def)
    then show ?thesis using k w1 unfolding comes_to_def by blast
  qed (use run one w1 in \<open>auto simp: job_bind_def\<close>)
qed

lemma comes_to_then: "keeps (fixed v) m \<Longrightarrow> comes_to v Q k \<Longrightarrow> comes_to v Q (job_then (failing_as f m) k)"
  unfolding job_then_def by (rule comes_to_bind)

text \<open>Only the last phase reports.\<close>

lemma process_in_gcroot_cases:
  assumes "process_in_gcroot env m g v = (r, w')"
  shows "(\<exists>e. r = Inl e \<and> fixed v w') \<or>
    (\<exists>info w. fixed v w \<and> failing_as Post_Processing_Failed (report_phase env m info) w = (r, w'))"
proof -
  let ?Q = "\<lambda>r w'. \<exists>info w. fixed v w \<and> failing_as Post_Processing_Failed (report_phase env m info) w = (r, w')"
  have last: "comes_to v ?Q (failing_as Post_Processing_Failed (report_phase env m info))" for info
    unfolding comes_to_def by blast
  have "comes_to v ?Q (process_in_gcroot env m g)"
    unfolding process_in_gcroot_def Let_def by (intro comes_to_then comes_to_bind core_rules last)
  then show ?thesis using assms fixed_refl unfolding comes_to_def by blast
qed

lemma report_phase_cases:
  assumes "report_phase env m info w = (r, w')"
  shows "(\<exists>e. r = Inl e \<and> fixed w w') \<or>
    (\<exists>body w1. fixed w w1 \<and> bri_result_state body = PSuccess \<and> bri_build_id body = breq_build_id m \<and>
       bri_machine_id body = be_uuid_str env (b_id w) \<and> submit env (be_retries env) body w1 = (r, w'))"
proof -
  obtain r1 w1 where new: "new_success_build_result_info env info (b_timings w) (breq_build_id m) (be_uuid_str env (b_id w)) w = (r1, w1)"
    by fastforce
  have w1: "fixed w w1" by (rule keepsD [OF fixed_phases(5) fixed_refl new])
  show ?thesis
  proof (cases r1)
    case (Inl e)
    then show ?thesis using assms new w1 by (auto simp: report_phase_def bind_def gets_def)
  next
    case (Inr body)
    have "bri_result_state body = PSuccess \<and> bri_build_id body = breq_build_id m \<and> bri_machine_id body = be_uuid_str env (b_id w)"
      using new unfolding Inr by (auto simp: new_success_build_result_info_def run_rules Let_def)
    moreover have "submit env (be_retries env) body w1 = (r, w')"
      using assms new Inr by (simp add: report_phase_def bind_def gets_def)
    ultimately show ?thesis using w1 by blast
  qed
qed

text \<open>The runner answers at least one of the requests the builder makes in a row before it gives up.\<close>

definition answered :: "('r, 'e) builder_env_scheme \<Rightarrow> bool" where
  "answered env \<longleftrightarrow> (\<forall>t. \<exists>j \<le> be_retries env. fst (be_answer env (t + j)) = None)"

lemma submit_answered:
  assumes "answered env" and "submit env (be_retries env) body w = (r, w')"
  shows "r = Inr () \<and> (\<exists>n. 0 < n \<and> reported n body w w')"
  using submit_run [OF assms(2)] assms(1) unfolding answered_def by metis

lemma reported_fixed: "fixed u v \<Longrightarrow> reported n body v w \<Longrightarrow> reported n body u w"
  by (simp add: reported_def fixed_def)

lemma process_build_reports:
  assumes "answered env" and "process_build env m w = (r, w')"
  shows "(\<exists>e. r = Inl e \<and> fixed w w') \<or>
    (r = Inr () \<and> (\<exists>n body. 0 < n \<and> reported n body w w' \<and> bri_result_state body = PSuccess \<and>
       bri_build_id body = breq_build_id m \<and> bri_machine_id body = be_uuid_str env (b_id w)))"
proof -
  obtain r1 w1 where root: "failing_as Preparing_Failed (get_gcroot env) w = (r1, w1)" by fastforce
  have w1: "fixed w w1" by (rule fixed_failing_as [OF fixed_phases(3) fixed_refl root])
  show ?thesis
  proof (cases r1)
    case (Inl e)
    then show ?thesis using assms(2) root w1 by (auto simp: process_build_def)
  next
    case (Inr g)
    obtain r2 w2 where run: "process_in_gcroot env m g w1 = (r2, w2)" by fastforce
    have r: "r = r2" "w' = drop_gcroot g w2" using assms(2) root Inr run by (auto simp: process_build_def)
    have drop: "fixed w2 w'" by (simp add: r drop_gcroot_def fixed_def)
    from process_in_gcroot_cases [OF run] show ?thesis
    proof (elim disjE exE conjE)
      fix e assume "r2 = Inl e" "fixed w1 w2"
      then show ?thesis using r w1 drop by (blast intro: fixed_trans)
    next
      fix info w0 assume w0: "fixed w1 w0" and as: "failing_as Post_Processing_Failed (report_phase env m info) w0 = (r2, w2)"
      obtain q where last: "report_phase env m info w0 = (q, w2)" and r2: "\<And>a. q = Inr a \<Longrightarrow> r2 = Inr a" "\<And>e. q = Inl e \<Longrightarrow> \<exists>x. r2 = Inl x"
        using failing_as_result [OF as] by blast
      have w: "fixed w w0" using w1 w0 by (rule fixed_trans)
      from report_phase_cases [OF last] show ?thesis
      proof (elim disjE exE conjE)
        fix e assume "q = Inl e" "fixed w0 w2"
        then show ?thesis using r r2 w drop by (metis fixed_trans)
      next
        fix body w3 assume w3: "fixed w0 w3" "submit env (be_retries env) body w3 = (q, w2)"
          and body: "bri_result_state body = PSuccess" "bri_build_id body = breq_build_id m"
            "bri_machine_id body = be_uuid_str env (b_id w0)"
        obtain n where n: "0 < n" "reported n body w3 w2" "q = Inr ()" using submit_answered [OF assms(1) w3(2)] by blast
        have "reported n body w w2" by (rule reported_fixed [OF fixed_trans [OF w w3(1)] n(2)])
        then have "reported n body w w'" using drop by (simp add: reported_def fixed_def)
        moreover have "b_id w0 = b_id w" using w by (simp add: fixed_def)
        ultimately show ?thesis using n r r2 body by (intro disjI2 conjI exI [of _ n] exI [of _ body]) simp_all
      qed
    qed
  qed
qed

lemma run_remove_active_build:
  "b_reports (snd (remove_active_build u w)) = b_reports w" "b_id (snd (remove_active_build u w)) = b_id w"
  "b_active_builds (snd (remove_active_build u w)) = hm_remove u (b_active_builds w)"
  "b_tasks (snd (remove_active_build u w)) = b_tasks w" "b_halt (snd (remove_active_build u w)) = b_halt w"
  by (simp_all add: remove_active_build_def bind_def and_then_def publish_builds_to_sd_notify_def update_st_def ok_def Let_def)

lemma end_task_simps [simp]:
  "b_reports (end_task i w) = b_reports w" "b_active_builds (end_task i w) = b_active_builds w"
  "b_id (end_task i w) = b_id w" "b_halt (end_task i w) = b_halt w"
  by (simp_all add: end_task_def)

text \<open>
  C13: a build is reported, once for each request the runner accepts and with one result. When the task of a build
  that was not cancelled ends in any way but a panic, and the runner answers at least one of the requests the
  builder makes in a row, then the runner has accepted at least one report from this machine; all of them
  are the same; they say success exactly when every phase succeeded, and else name the phase that failed; and
  the build is no longer active. A task that panics reports nothing and leaves the build active.
\<close>

theorem task_reports_result:
  assumes "answered env" and "\<not> tk_was_cancelled (b_tasks w ! i)"
    and "process_build env (tk_message (b_tasks w ! i))
      (w\<lparr>b_timings := \<lparr>import_elapsed = 0, build_elapsed = 0, upload_elapsed = 0\<rparr>\<rparr>) = (r, w1)"
  shows "case r of
      Inl (Died e) \<Rightarrow> b_reports (run_task env i w) = b_reports w \<and> b_active_builds (run_task env i w) = b_active_builds w
    | _ \<Rightarrow> (\<exists>n body. 0 < n \<and> b_reports (run_task env i w) = b_reports w @ replicate n body \<and>
          bri_machine_id body = be_uuid_str env (b_id w) \<and>
          bri_result_state body = (case r of Inl (Failed f) \<Rightarrow> result_state_from f | _ \<Rightarrow> PSuccess)) \<and>
        b_active_builds (run_task env i w) = hm_remove (tk_build_id (b_tasks w ! i)) (b_active_builds w)"
proof -
  let ?t = "b_tasks w ! i"
  note cases = process_build_reports [OF assms(1,3)]
  consider (ok) "r = Inr ()" | (failed) f where "r = Inl (Failed f)" | (died) e where "r = Inl (Died e)"
    by (metis (full_types) job_exit.exhaust old.sum.exhaust unit.exhaust)
  then show ?thesis
  proof cases
    case ok
    then obtain n body where "0 < n" "reported n body w w1" "bri_result_state body = PSuccess"
      "bri_machine_id body = be_uuid_str env (b_id w)"
      using cases by (auto simp: reported_def fixed_def)
    moreover have "run_task env i w = end_task i (snd (remove_active_build (tk_build_id ?t) w1))"
      using assms(3) ok by (simp add: run_task_def Let_def)
    ultimately show ?thesis unfolding ok
      by (auto simp: run_remove_active_build reported_def fixed_def)
  next
    case (failed f)
    have w1: "fixed w w1" using cases failed by (auto simp: fixed_def)
    let ?w2 = "snd (remove_active_build (tk_build_id ?t) w1)"
    let ?body = "failed_build env (tk_build_id ?t) f ?w2"
    obtain q w3 where sub: "submit env (be_retries env) ?body ?w2 = (q, w3)" by fastforce
    have run: "run_task env i w = end_task i w3"
      using assms(2,3) failed w1 sub by (simp add: run_task_def Let_def fixed_def)
    obtain n where "0 < n" "reported n ?body ?w2 w3" using submit_answered [OF assms(1) sub] by blast
    moreover have "bri_result_state ?body = result_state_from f" "bri_machine_id ?body = be_uuid_str env (b_id w)"
      using w1 by (simp_all add: failed_build_def run_remove_active_build fixed_def)
    ultimately show ?thesis unfolding failed run using w1
      by (auto simp: run_remove_active_build reported_def fixed_def)
  next
    case (died e)
    have "fixed w w1" using cases died by (auto simp: fixed_def)
    moreover have "run_task env i w = end_task i w1" using assms(3) died by (simp add: run_task_def Let_def)
    ultimately show ?thesis unfolding died by (simp add: fixed_def)
  qed
qed

definition ex_request :: build_request where
  "ex_request = \<lparr>breq_build_id = ''ii'', breq_drv = ''a.drv'', breq_resolved_drv = None, breq_max_log_size = 0,
     breq_max_silent_time = 0, breq_build_timeout = 0, breq_presigned_url_opts = None\<rparr>"

definition ex_scheduled :: builder where
  "ex_scheduled = snd (schedule_build ex_builder_env ex_request ex_builder)"

lemma ex_scheduled_task:
  "b_tasks ex_scheduled = [\<lparr>tk_message = ex_request, tk_build_id = 2, tk_was_cancelled = False, tk_end = Running\<rparr>]"
  "b_reports ex_scheduled = []" "b_id ex_scheduled = 3"
  by (simp_all add: ex_scheduled_def schedule_build_def spawn_build_def bind_def ex_builder_def contains_build_def
      ex_builder_env_def ex_request_def insert_new_build_def and_then_def update_st_def publish_builds_to_sd_notify_def Let_def)

theorem task_reports_result_witness:
  "\<exists>n body. 0 < n \<and> b_reports (run_task (ex_builder_env\<lparr>be_mkdir := \<lambda>_ _. Some Store_Error\<rparr>) 0 ex_scheduled) = replicate n body \<and>
     bri_result_state body = PPreparingFailure"
proof -
  let ?env = "ex_builder_env\<lparr>be_mkdir := \<lambda>_ _. Some Store_Error\<rparr>"
  let ?w = "ex_scheduled\<lparr>b_timings := \<lparr>import_elapsed = 0, build_elapsed = 0, upload_elapsed = 0\<rparr>\<rparr>"
  have ans: "answered ?env" by (auto simp: answered_def ex_builder_env_def)
  have go: "\<not> tk_was_cancelled (b_tasks ex_scheduled ! 0)" by (simp add: ex_scheduled_task)
  have "\<exists>w1. process_build ?env (tk_message (b_tasks ex_scheduled ! 0)) ?w = (Inl (Failed (Preparing_Failed Store_Error)), w1)"
    by (simp add: process_build_def failing_as_def get_gcroot_def bind_def b_ask_def gets_def and_then_def of_err_def fail_def
        fatal_def)
  then obtain w1 where "process_build ?env (tk_message (b_tasks ex_scheduled ! 0)) ?w = (Inl (Failed (Preparing_Failed Store_Error)), w1)" ..
  from task_reports_result [OF ans go this] show ?thesis by (auto simp: ex_scheduled_task)
qed

subsection \<open>Active builds\<close>

lemma fixed_but_reports_submit:
  "submit env k body w = (r, w') \<Longrightarrow> fixed w (w'\<lparr>b_reports := b_reports w\<rparr>)"
  using submit_run [of env k body w r w'] by (auto simp: reported_def)

lemma process_build_core:
  assumes "process_build env m w = (r, w')"
  shows "fixed w (w'\<lparr>b_reports := b_reports w\<rparr>)"
proof -
  obtain r1 w1 where root: "failing_as Preparing_Failed (get_gcroot env) w = (r1, w1)" by fastforce
  have w1: "fixed w w1" by (rule fixed_failing_as [OF fixed_phases(3) fixed_refl root])
  show ?thesis
  proof (cases r1)
    case (Inl e)
    then show ?thesis using assms root w1 by (auto simp: process_build_def fixed_def)
  next
    case (Inr g)
    obtain r2 w2 where run: "process_in_gcroot env m g w1 = (r2, w2)" by fastforce
    have w': "w' = drop_gcroot g w2" using assms root Inr run by (auto simp: process_build_def)
    have "fixed w1 (w2\<lparr>b_reports := b_reports w1\<rparr>)"
      using process_in_gcroot_cases [OF run]
    proof (elim disjE exE conjE)
      fix info w0 assume w0: "fixed w1 w0" and as: "failing_as Post_Processing_Failed (report_phase env m info) w0 = (r2, w2)"
      obtain q where "report_phase env m info w0 = (q, w2)" using failing_as_result [OF as] by (elim exE conjE)
      from report_phase_cases [OF this] have "fixed w0 (w2\<lparr>b_reports := b_reports w0\<rparr>)"
        by (auto dest!: fixed_but_reports_submit simp: fixed_def)
      with w0 show ?thesis by (simp add: fixed_def)
    qed (simp add: fixed_def)
    with w1 show ?thesis by (simp add: w' drop_gcroot_def fixed_def)
  qed
qed

text \<open>The end of a task: its mark, and at most its own entry among the active builds.\<close>

lemma run_task_core:
  fixes w :: builder and i :: nat
  defines "t \<equiv> b_tasks w ! i"
  shows "b_tasks (run_task env i w) = (b_tasks w)[i := t\<lparr>tk_end := Ended\<rparr>] \<and> b_halt (run_task env i w) = b_halt w \<and>
    (b_active_builds (run_task env i w) = b_active_builds w \<or>
     b_active_builds (run_task env i w) = hm_remove (tk_build_id t) (b_active_builds w))"
proof -
  obtain r w1 where run: "process_build env (tk_message t)
      (w\<lparr>b_timings := \<lparr>import_elapsed = 0, build_elapsed = 0, upload_elapsed = 0\<rparr>\<rparr>) = (r, w1)" by fastforce
  have w1: "b_tasks w1 = b_tasks w" "b_halt w1 = b_halt w" "b_active_builds w1 = b_active_builds w"
    using process_build_core [OF run] by (simp_all add: fixed_def)
  let ?w2 = "snd (remove_active_build (tk_build_id t) w1)"
  have sub: "b_tasks (snd (submit env k body ?w2)) = b_tasks w" "b_halt (snd (submit env k body ?w2)) = b_halt w"
    "b_active_builds (snd (submit env k body ?w2)) = hm_remove (tk_build_id t) (b_active_builds w)" for k body
    using fixed_but_reports_submit [of env k body ?w2 "fst (submit env k body ?w2)" "snd (submit env k body ?w2)"] w1
    by (simp_all add: fixed_def run_remove_active_build)
  show ?thesis
    using run w1 sub
    by (auto simp: run_task_def Let_def t_def end_task_def run_remove_active_build split: sum.splits job_exit.splits)
qed

text \<open>
  A builder at work. Requests are taken one at a time; between spawning a task and entering its build, other
  tasks and the new one may end, and the builder may be stopped. The build that is still to be entered is
  the second component.
\<close>

inductive builder_step ::
  "('r, 'e) builder_env_scheme \<Rightarrow> builder \<times> (uuid \<times> build_info) option \<Rightarrow> builder \<times> (uuid \<times> build_info) option \<Rightarrow> bool"
  for env where
  spawn: "spawn_build env m w = (Inr (Some p), w') \<Longrightarrow> builder_step env (w, None) (w', Some p)"
| enter: "builder_step env (w, Some (u, b)) (snd (insert_new_build u b w), None)"
| request: "(\<And>m. req \<noteq> Forward (Request_Build m)) \<Longrightarrow> builder_step env (w, None) (snd (handle_request env req w), None)"
| finish: "i < length (b_tasks w) \<Longrightarrow> tk_end (b_tasks w ! i) = Running \<Longrightarrow> builder_step env (w, p) (run_task env i w, p)"
| stop: "builder_step env (w, p) (snd (stop_application env w), p)"

definition active_distinct :: "builder \<times> (uuid \<times> build_info) option \<Rightarrow> bool" where
  "active_distinct s \<longleftrightarrow>
     (\<forall>u v b c. hm_get (b_active_builds (fst s)) u = Some b \<and> hm_get (b_active_builds (fst s)) v = Some c \<and>
        bi_drv_path b = bi_drv_path c \<longrightarrow> u = v) \<and>
     (\<forall>u b v c. snd s = Some (u, b) \<and> hm_get (b_active_builds (fst s)) v = Some c \<longrightarrow> bi_drv_path c \<noteq> bi_drv_path b)"

lemma contains_build_get: "hm_get (b_active_builds w) u = Some b \<Longrightarrow> contains_build (bi_drv_path b) w"
  by (auto simp: contains_build_def list_ex_iff dest: map_of_SomeD)

lemma run_insert_new_build:
  "insert_new_build u b w = (Inr (), snd (insert_new_build u b w))"
  "b_active_builds (snd (insert_new_build u b w)) = hm_insert u b (b_active_builds w)"
  "b_tasks (snd (insert_new_build u b w)) = b_tasks w" "b_halt (snd (insert_new_build u b w)) = b_halt w"
  by (simp_all add: insert_new_build_def and_then_def bind_def update_st_def publish_builds_to_sd_notify_def Let_def)

lemma run_clear_gcroots: "b_active_builds (snd (clear_gcroots env w)) = b_active_builds w"
  by (auto simp: clear_gcroots_def and_then_def bind_def gets_def b_ask_def of_err_def ok_def fail_def update_st_def split: option.splits)

lemma run_stop_application: "b_active_builds (snd (stop_application env w)) = []"
proof -
  have "b_active_builds (snd (ignore_err (clear_gcroots env) w)) = b_active_builds w" for w
    using run_clear_gcroots [of env w]
    by (auto simp: ignore_err_def bind_def attempt_def ok_def split: prod.splits sum.splits)
  then show ?thesis
    by (simp add: stop_application_def and_then_def bind_def enable_halt_def abort_all_active_builds_def update_st_def)
qed

lemma active_distinct_subset:
  "active_distinct (w, p) \<Longrightarrow> (\<And>u b. hm_get (b_active_builds w') u = Some b \<Longrightarrow> hm_get (b_active_builds w) u = Some b) \<Longrightarrow>
   active_distinct (w', p)"
  unfolding active_distinct_def fst_conv snd_conv by (intro conjI allI impI; (elim conjE)?) blast+

lemma run_handle_request:
  assumes "\<And>m. req \<noteq> Forward (Request_Build m)" and "hm_get (b_active_builds (snd (handle_request env req w))) u = Some b"
  shows "hm_get (b_active_builds w) u = Some b"
  using assms
  by (auto simp: handle_request_def b_abort_build_def bind_def update_st_def ok_def fail_def remove_active_build_def and_then_def
      publish_builds_to_sd_notify_def Let_def delete_conv split: runner_message.splits runner_request.splits option.splits if_splits)

lemma active_distinct_step:
  assumes "builder_step env s s'" and "active_distinct s"
  shows "active_distinct s'"
  using assms
proof (induction rule: builder_step.induct)
  case (spawn m w p w')
  then have "\<not> contains_build (bi_drv_path (snd p)) w" "b_active_builds w' = b_active_builds w"
    by (auto simp: spawn_build_def Let_def split: if_splits option.splits)
  then have "bi_drv_path c \<noteq> bi_drv_path (snd p)" if "hm_get (b_active_builds w') v = Some c" for v c
    using contains_build_get [of w v c] that by auto
  then show ?case using spawn.prems \<open>b_active_builds w' = b_active_builds w\<close> by (auto simp: active_distinct_def)
next
  case (enter w u b)
  then have old: "x = y" if "hm_get (b_active_builds w) x = Some c" "hm_get (b_active_builds w) y = Some d"
      "bi_drv_path c = bi_drv_path d" for x y c d
    using that unfolding active_distinct_def by auto
  have fresh: "bi_drv_path c \<noteq> bi_drv_path b" if "hm_get (b_active_builds w) y = Some c" for y c
    using enter.prems that unfolding active_distinct_def by auto
  show ?case
    unfolding active_distinct_def fst_conv snd_conv run_insert_new_build(2) update_conv
    by (intro conjI allI impI; (elim conjE)?) (auto split: if_splits dest: old fresh dest!: sym [of "bi_drv_path b"])
next
  case (request req w)
  show ?case by (rule active_distinct_subset [OF request.prems]) (rule run_handle_request [OF request.hyps])
next
  case (finish i w p)
  have "hm_get (b_active_builds w) u = Some b" if "hm_get (b_active_builds (run_task env i w)) u = Some b" for u b
    using run_task_core [of env i w] that by (auto simp: delete_conv split: if_splits)
  then show ?case by (rule active_distinct_subset [OF finish.prems])
next
  case (stop w p)
  then show ?case by (auto simp: active_distinct_def run_stop_application)
qed

interpretation builder_life: invariant_system
  "\<lambda>s. snd s = None \<and> b_active_builds (fst s) = []" "builder_step env" active_distinct for env
proof unfold_locales
  show "active_distinct s" if "snd s = None \<and> b_active_builds (fst s) = []" for s
    using that by (simp add: active_distinct_def)
qed (rule active_distinct_step)

text \<open>
  C15: in every state a builder reaches there is at most one active build for a derivation, however its tasks,
  the requests of the runner, and stopping interleave, also between spawning a task and entering its build.
\<close>

theorem active_builds_distinct:
  assumes "(builder_step env)\<^sup>*\<^sup>* (w0, None) (w, p)" and "b_active_builds w0 = []"
    and "hm_get (b_active_builds w) u = Some b" and "hm_get (b_active_builds w) v = Some c"
    and "bi_drv_path b = bi_drv_path c"
  shows "u = v"
  using builder_life.inv_reachable [OF _ assms(1)] assms(2-5) unfolding active_distinct_def by auto

lemma ex_spawn:
  "spawn_build ex_builder_env ex_request ex_builder =
     (Inr (Some (2, \<lparr>bi_drv_path = ''a.drv'', bi_handle = 0\<rparr>)),
      ex_builder\<lparr>b_tasks := [\<lparr>tk_message = ex_request, tk_build_id = 2, tk_was_cancelled = False, tk_end = Running\<rparr>]\<rparr>)"
proof -
  have "store_path_new (f_store_dir (the_store ex_builder_env)) ''a.drv'' = ''a.drv''" by code_simp
  then show ?thesis
    by (simp add: spawn_build_def Let_def ex_request_def ex_builder_def contains_build_def)
       (simp add: ex_builder_env_def)
qed

theorem active_builds_distinct_witness:
  "\<exists>w b. (builder_step ex_builder_env)\<^sup>*\<^sup>* (ex_builder, None) (w, None) \<and> hm_get (b_active_builds w) 2 = Some b \<and>
     (\<forall>v c. hm_get (b_active_builds w) v = Some c \<and> bi_drv_path b = bi_drv_path c \<longrightarrow> v = 2)"
proof -
  let ?b = "\<lparr>bi_drv_path = ''a.drv'', bi_handle = 0\<rparr>"
  let ?w1 = "ex_builder\<lparr>b_tasks := [\<lparr>tk_message = ex_request, tk_build_id = 2, tk_was_cancelled = False, tk_end = Running\<rparr>]\<rparr>"
  let ?w = "snd (insert_new_build 2 ?b ?w1)"
  have "builder_step ex_builder_env (ex_builder, None) (?w1, Some (2, ?b))" by (rule builder_step.spawn [OF ex_spawn])
  moreover have "builder_step ex_builder_env (?w1, Some (2, ?b)) (?w, None)" by (rule builder_step.enter)
  ultimately have run: "(builder_step ex_builder_env)\<^sup>*\<^sup>* (ex_builder, None) (?w, None)" by auto
  have empty: "b_active_builds ex_builder = []" by (simp add: ex_builder_def)
  have get: "hm_get (b_active_builds ?w) 2 = Some ?b" by (simp add: run_insert_new_build(2) update_conv)
  have "v = 2" if "hm_get (b_active_builds ?w) v = Some c" "bi_drv_path ?b = bi_drv_path c" for v c
    using active_builds_distinct [OF run empty get that] by simp
  with run get show ?thesis by blast
qed



subsection \<open>A limit of zero downloads\<close>

text \<open>
  A runner may set the limit of concurrent downloads of a builder to zero. The import of a build that gets its list of
  requisites then panics when it splits the list into chunks, so no build succeeds any more, and a task that comes this far
  is not reported and stays active.
\<close>

lemma zero_downloads_panic:
  assumes "filter_paths env g rs w = (Inr rs', w')"
  shows "import_requisites env g d rs 0 subst w = (Inl Panicked, w')"
  using assms by (simp add: import_requisites_def import_chunks_def bind_def and_then_def fail_def)

lemma zero_downloads_no_import:
  assumes "b_max_concurrent_downloads w = 0"
  shows "import_phase env m g d t w \<noteq> (Inr info, w')"
proof
  assume "import_phase env m g d t w = (Inr info, w')"
  then obtain rs w1 u w2 where fetch: "fetch_requisites env t False w = (Inr rs, w1)"
    and imp: "import_requisites env g t rs (unat (b_max_concurrent_downloads w1)) (bc_use_substitutes (b_config w1)) w1 = (Inr u, w2)"
    by (auto simp: import_phase_def run_rules)
  have "fixed w w1" using keepsD [OF fixed_import(3) fixed_refl fetch] .
  then have "b_max_concurrent_downloads w1 = 0" using assms by (simp add: fixed_def)
  with imp show False by (auto simp: import_requisites_def import_chunks_def run_rules)
qed

lemma zero_downloads_no_success:
  assumes "b_max_concurrent_downloads w = 0"
  shows "process_build env m w \<noteq> (Inr u, w')"
proof
  assume "process_build env m w = (Inr u, w')"
  then obtain g w1 w2 where root: "failing_as Preparing_Failed (get_gcroot env) w = (Inr g, w1)"
    and run: "process_in_gcroot env m g w1 = (Inr u, w2)"
    by (auto simp: process_build_def split: prod.splits sum.splits)
  have "fixed w w1" by (rule fixed_failing_as [OF fixed_phases(3) fixed_refl root])
  moreover obtain x w3 where up: "failing_as Import_Failed (send_update env m PSeningInputs) w1 = (Inr x, w3)"
    and rest: "\<exists>info d t w4. failing_as Import_Failed (import_phase env m g d t) w3 = (Inr info, w4)"
    using run by (auto simp: process_in_gcroot_def Let_def job_then_def job_bind_def split: prod.splits sum.splits)
  moreover have "fixed w1 w3" by (rule fixed_failing_as [OF fixed_phases(1) fixed_refl up])
  ultimately have "b_max_concurrent_downloads w3 = 0" using assms by (simp add: fixed_def)
  with rest show False
    using zero_downloads_no_import [of w3] by (blast dest: failing_as_cases)
qed

end
