(* ===== verification/Builder_Wire.thy ===== *)
theory Builder_Wire
  imports Builder_Task Cache_Facts
begin

text \<open>
  What the server and a builder tell each other about an upload through presigned URLs. The server signs URLs for an
  archive (\<open>Presigned\<close>) and sends them (\<open>Grpc\<close>); the builder reads them, uploads, and sends back a description of what it
  uploaded (\<open>Builder_Task\<close>); the server makes the description again that it will sign and publish. The two conversions on each side
  fit together: nothing is lost but a compression level outside the range of the message, and the server ends with the
  description of the builder.
\<close>

definition level_survives :: "level \<Rightarrow> bool" where
  "level_survives l = (case l of Precise n \<Rightarrow> 2 \<le> n \<and> n \<le> 8 | _ \<Rightarrow> True)"

lemma wire_upload_round_trip: "upload_of_wire (wire_upload_of u) = u \<longleftrightarrow> level_survives (pu_level u)"
  by (cases u; cases "pu_level u")
    (auto simp: upload_of_wire_def wire_upload_of_def presigned_upload_new_def get_compression_level_as_i32_def level_survives_def)

definition uploads_of :: "presigned_upload_response \<Rightarrow> presigned_upload list" where
  "uploads_of r = pr_nar_upload r # (case pr_ls_upload r of None \<Rightarrow> [] | Some u \<Rightarrow> [u]) @ pr_debug_info_upload r"

lemma response_round_trip:
  assumes "list_all (level_survives \<circ> pu_level) (uploads_of r)"
  shows "response_of_wire (nar_response p r) (wire_upload_of (pr_nar_upload r)) = r"
  using assms
  by (cases r; cases "pr_ls_upload r")
    (auto simp: response_of_wire_def nar_response_def uploads_of_def list_all_iff wire_upload_round_trip intro!: map_idI)

lemma completion_round_trip:
  assumes "dir_ok dir" and "nar_info_ok ni" and "ni_file_hash ni = Some fh" and "ni_file_size ni = Some fs"
  shows "narinfo_of dir cl (completion b m (ni_store_path ni) fh fs ni) =
    ni\<lparr>ni_compression := sx_compression (cl_cfg cl), ni_sigs := []\<rparr>"
proof -
  have "store_path_new dir p = p" if "path_ok p" for p using store_path_new_ok [OF assms(1) that] .
  with assms(2-4) show ?thesis
    by (cases ni) (auto simp: narinfo_of_def completion_def nar_info_ok_def list_all_iff intro!: map_idI option.map_ident_strong)
qed

lemma debug_uploads_levels:
  "debug_uploads env cl ids w = (Inr us, w') \<Longrightarrow> list_all (level_survives \<circ> pu_level) us"
proof (induction ids arbitrary: w us w')
  case (Cons i ids)
  then obtain v w1 rest where "debug_upload env cl i w = (Inr v, w1)" "debug_uploads env cl ids w1 = (Inr rest, w')"
    and us: "us = (case v of None \<Rightarrow> rest | Some u \<Rightarrow> u # rest)"
    by (auto simp: run_rules)
  with Cons.IH [OF this(2)] show ?case
    by (auto simp: debug_upload_def Let_def run_rules level_survives_def split: option.splits if_splits)
qed (simp add: run_rules)

lemma signed_response:
  assumes "generate_nar_upload_presigned_url env cl path h ids w = (Inr r, w')"
  shows "pu_compression (pr_nar_upload r) = sx_compression (cl_cfg cl)"
    and "level_survives (get_compression_level (cl_cfg cl)) \<Longrightarrow> list_all (level_survives \<circ> pu_level) (uploads_of r)"
  using assms debug_uploads_levels
  by (auto simp: generate_nar_upload_presigned_url_def Let_def run_rules uploads_of_def split: if_splits)

lemma run_process_presigned:
  assumes "process_presigned_request env ni req w = (Inr updated, w')"
  shows "\<exists>fh fs. updated = ni\<lparr>ni_url := pr_nar_url req, ni_compression := pu_compression (pr_nar_upload req),
    ni_file_hash := Some fh, ni_file_size := Some fs\<rparr>"
  using assms by (auto simp: process_presigned_request_def Let_def run_rules)

lemma simple_narinfo:
  "path_to_narinfo_simple s conv p = Inr ni \<Longrightarrow> ni_store_path ni = p \<and> ni_sigs ni = []"
  by (auto simp: path_to_narinfo_simple_def nar_info_simple_def Let_def if_ok_Inr verify_references_def map_sum_def
      split: option.splits sum.splits)

text \<open>
  C29: the server publishes what the builder uploaded. When the server has signed the URLs for a store path with a compression
  level that a message can carry, the builder reads exactly the response that the server made; and when its upload succeeds, the
  description that the server makes from the report of the builder is the one the builder has: the same path,
  URL, compression, hashes, sizes, references, deriver and content address, without signatures.
\<close>

theorem presigned_description_agrees:
  assumes "generate_nar_upload_presigned_url cenv cl p h ids v = (Inr r, v')"
    and "level_survives (get_compression_level (cl_cfg cl))"
    and "path_to_narinfo_simple s conv p = Inr ni"
    and "process_presigned_request benv ni (response_of_wire (nar_response p r) (wire_upload_of (pr_nar_upload r))) w = (Inr updated, w')"
    and "dir_ok dir" and "nar_info_ok updated"
  shows "response_of_wire (nar_response p r) (wire_upload_of (pr_nar_upload r)) = r \<and>
    (\<exists>fh fs. ni_file_hash updated = Some fh \<and> ni_file_size updated = Some fs \<and>
       narinfo_of dir cl (completion b m p fh fs updated) = updated)"
proof -
  have r: "response_of_wire (nar_response p r) (wire_upload_of (pr_nar_upload r)) = r"
    by (rule response_round_trip [OF signed_response(2) [OF assms(1,2)]])
  obtain fh fs where u: "updated = ni\<lparr>ni_url := pr_nar_url r, ni_compression := pu_compression (pr_nar_upload r),
      ni_file_hash := Some fh, ni_file_size := Some fs\<rparr>"
    using run_process_presigned [OF assms(4)] unfolding r by blast
  have "ni_store_path ni = p" "ni_sigs ni = []" using simple_narinfo [OF assms(3)] by simp_all
  then have "narinfo_of dir cl (completion b m p fh fs updated) = updated"
    using completion_round_trip [OF assms(5,6), of fh fs cl b m] by (simp add: u signed_response(1) [OF assms(1)])
  with r u show ?thesis by simp
qed

definition ex_wire_path :: store_path where
  "ex_wire_path = ''0123456789abcdfghijklmnpqrsvwxyz-a''"

definition ex_wire_ffi :: nix_ffi where
  "ex_wire_ffi = ex_ffi\<lparr>f_query_path_info := (\<lambda>_. Inr
     \<lparr>ip_deriver = [], ip_nar_hash = ''sha256:abc'', ip_registration_time = 0, ip_nar_size = 5, ip_refs = [], ip_sigs = [], ip_ca = []\<rparr>)\<rparr>"

definition ex_wire_env :: "unit presign_env" where
  "ex_wire_env = cache_env.extend ex_cache_env (presign_env.fields id (\<lambda>_. None))"

definition ex_signed :: presigned_upload_response where
  "ex_signed =
     (case fst (generate_nar_upload_presigned_url ex_cache_env ex_publish_client ex_wire_path ''sha256:abc'' [] ex_cache_world) of
        Inr r \<Rightarrow> r | Inl _ \<Rightarrow> ex_response)"

definition ex_built :: nar_info where
  "ex_built = (case path_to_narinfo_simple ex_wire_ffi (\<lambda>h _ _. Inr h) ex_wire_path of Inr ni \<Rightarrow> ni | Inl _ \<Rightarrow> ex_nar_info)"

definition ex_uploaded :: nar_info where
  "ex_uploaded = (case fst (process_presigned_request ex_wire_env ex_built
     (response_of_wire (nar_response ex_wire_path ex_signed) (wire_upload_of (pr_nar_upload ex_signed))) ex_cache_world) of
       Inr ni \<Rightarrow> ni | Inl _ \<Rightarrow> ex_nar_info)"

theorem presigned_description_agrees_witness:
  "\<exists>fh fs. ni_file_hash ex_uploaded = Some fh \<and> ni_file_size ex_uploaded = Some fs \<and>
     narinfo_of ''/nix/store'' ex_publish_client (completion ''b'' ''m'' ex_wire_path fh fs ex_uploaded) = ex_uploaded"
proof -
  obtain a v where gen: "generate_nar_upload_presigned_url ex_cache_env ex_publish_client ex_wire_path ''sha256:abc'' [] ex_cache_world = (a, v)"
    by fastforce
  have "fst (generate_nar_upload_presigned_url ex_cache_env ex_publish_client ex_wire_path ''sha256:abc'' [] ex_cache_world) = Inr ex_signed"
    by code_simp
  with gen have a: "a = Inr ex_signed" by simp
  obtain c w where pro: "process_presigned_request ex_wire_env ex_built
     (response_of_wire (nar_response ex_wire_path ex_signed) (wire_upload_of (pr_nar_upload ex_signed))) ex_cache_world = (c, w)"
    by fastforce
  have "fst (process_presigned_request ex_wire_env ex_built
     (response_of_wire (nar_response ex_wire_path ex_signed) (wire_upload_of (pr_nar_upload ex_signed))) ex_cache_world) = Inr ex_uploaded"
    by code_simp
  with pro have c: "c = Inr ex_uploaded" by simp
  have built: "path_to_narinfo_simple ex_wire_ffi (\<lambda>h _ _. Inr h) ex_wire_path = Inr ex_built" by code_simp
  have "level_survives (get_compression_level (cl_cfg ex_publish_client))" by code_simp
  moreover have "dir_ok ''/nix/store''" by (simp add: dir_ok_def newline_def)
  moreover have up: "ex_uploaded =
      \<lparr>ni_store_path = ex_wire_path, ni_url = ''nar/abc.nar.xz'', ni_compression = Xz, ni_file_hash = Some ''sha256:abcde'',
       ni_file_size = Some 5, ni_nar_hash = ''sha256:abc'', ni_nar_size = 5, ni_references = [], ni_deriver = None, ni_ca = None,
       ni_sigs = []\<rparr>" by code_simp
  have "nar_info_ok ex_uploaded"
    unfolding up by (simp add: ex_wire_path_def nar_info_ok_def path_ok_def value_ok_def word_def is_ascii_space_def newline_def)
  ultimately show ?thesis
    using presigned_description_agrees [OF gen [unfolded a] _ built pro [unfolded c]] by blast
qed

end
