(* ===== verification/Stats.thy ===== *)
theory Stats
  imports Queue Rust_Str S3_Cache
begin

text \<open>
  The figures of the status document (queue-runner/src/io/stats.rs): the control group of the process, read from
  the files of the kernel, and the statistics of the store and of the binary caches with the speeds and costs
  derived from them in floating point (crates/nix-utils/src/lib.rs and crates/binary-cache/src/lib.rs).

  procfs and the file system answer through \<open>proc_world\<close>. Lemmas: the parser of \<^verbatim>\<open>cpu.stat\<close> reads back what
  the kernel prints, whatever other lines are there.
\<close>

subsection \<open>Floating point\<close>

text \<open>\<open>ns\<close> is the sign of a NaN that an operation makes, as in the other operations.\<close>

fun f64_mul :: "bool \<Rightarrow> rfloat \<Rightarrow> rfloat \<Rightarrow> rfloat" where
  "f64_mul ns (NaN s) _ = NaN s"
| "f64_mul ns _ (NaN s) = NaN s"
| "f64_mul ns (Inf s) (Inf t) = Inf (s \<noteq> t)"
| "f64_mul ns (Inf s) (Fin t m) = (if m = 0 then NaN ns else Inf (s \<noteq> t))"
| "f64_mul ns (Fin t m) (Inf s) = (if m = 0 then NaN ns else Inf (s \<noteq> t))"
| "f64_mul ns (Fin s m) (Fin t n) = f64_round (s \<noteq> t) (m * n)"

definition signed_round :: "bool \<Rightarrow> rat \<Rightarrow> rfloat" where
  "signed_round zero_sign v = (if v = 0 then Fin zero_sign 0 else f64_round (v < 0) \<bar>v\<bar>)"

definition signed_rat :: "bool \<Rightarrow> rat \<Rightarrow> rat" where
  "signed_rat s m = (if s then - m else m)"

fun f64_add :: "bool \<Rightarrow> rfloat \<Rightarrow> rfloat \<Rightarrow> rfloat" where
  "f64_add ns (NaN s) _ = NaN s"
| "f64_add ns _ (NaN s) = NaN s"
| "f64_add ns (Inf s) (Inf t) = (if s = t then Inf s else NaN ns)"
| "f64_add ns (Inf s) (Fin _ _) = Inf s"
| "f64_add ns (Fin _ _) (Inf t) = Inf t"
| "f64_add ns (Fin s m) (Fin t n) = signed_round (s \<and> t) (signed_rat s m + signed_rat t n)"

fun f64_neg :: "rfloat \<Rightarrow> rfloat" where
  "f64_neg (NaN s) = NaN (\<not> s)"
| "f64_neg (Inf s) = Inf (\<not> s)"
| "f64_neg (Fin s m) = Fin (\<not> s) m"

text \<open>\<^verbatim>\<open>f64::mul_add\<close> rounds once.\<close>

fun f64_mul_add :: "bool \<Rightarrow> rfloat \<Rightarrow> rfloat \<Rightarrow> rfloat \<Rightarrow> rfloat" where
  "f64_mul_add ns (Fin s m) (Fin t n) (Fin u k) =
     signed_round ((s \<noteq> t) \<and> u) (signed_rat (s \<noteq> t) (m * n) + signed_rat u k)"
| "f64_mul_add ns (Fin s m) (Fin t n) z = z"
| "f64_mul_add ns x y z = f64_add ns (f64_mul ns x y) z"

definition f64_lit :: "rat \<Rightarrow> rfloat" where
  "f64_lit q = f64_round False q"

definition u64_as_f64 :: "u64 \<Rightarrow> rfloat" where
  "u64_as_f64 v = f64_of_int (uint v)"

text \<open>Bytes and milliseconds to MiB per second.\<close>

definition mib_per_s :: "bool \<Rightarrow> u64 \<Rightarrow> u64 \<Rightarrow> rfloat" where
  "mib_per_s ns bytes ms =
     (if ms > 0
      then f64_div ns (f64_mul ns (f64_div ns (u64_as_f64 bytes) (u64_as_f64 ms)) (f64_lit 1000))
             (f64_mul ns (f64_lit 1024) (f64_lit 1024))
      else Fin False 0)"

subsection \<open>The store and the caches\<close>

record store_stats =
  nar_info_read :: u64
  nar_info_read_averted :: u64
  nar_info_missing :: u64
  nar_info_write :: u64
  path_info_cache_size :: u64
  nar_read :: u64
  nar_read_bytes :: u64
  nar_read_compressed_bytes :: u64
  nar_write :: u64
  nar_write_averted :: u64
  nar_write_bytes :: u64
  nar_write_compressed_bytes :: u64
  nar_write_compression_time_ms :: u64

definition nar_compression_savings :: "bool \<Rightarrow> store_stats \<Rightarrow> rfloat" where
  "nar_compression_savings ns s =
     (if nar_write_bytes s > 0
      then f64_add ns (f64_lit 1)
             (f64_neg (f64_div ns (u64_as_f64 (nar_write_compressed_bytes s)) (u64_as_f64 (nar_write_bytes s))))
      else Fin False 0)"

definition nar_compression_speed :: "bool \<Rightarrow> store_stats \<Rightarrow> rfloat" where
  "nar_compression_speed ns s = mib_per_s ns (nar_write_bytes s) (nar_write_compression_time_ms s)"

text \<open>\<^verbatim>\<open>StoreStats::new\<close> copies the counters and adds the two derived figures.\<close>

record io_store_stats = store_stats +
  ioss_nar_compression_savings :: rfloat
  ioss_nar_compression_speed :: rfloat

definition io_store_stats_new :: "bool \<Rightarrow> store_stats \<Rightarrow> io_store_stats" where
  "io_store_stats_new ns v =
     store_stats.extend v (io_store_stats.fields (nar_compression_savings ns v) (nar_compression_speed ns v))"

definition put_speed :: "bool \<Rightarrow> s3_stats \<Rightarrow> rfloat" where
  "put_speed ns s = mib_per_s ns (st_put_bytes s) (st_put_time_ms s)"

definition get_speed :: "bool \<Rightarrow> s3_stats \<Rightarrow> rfloat" where
  "get_speed ns s = mib_per_s ns (st_get_bytes s) (st_get_time_ms s)"

definition cost_dollar_approx :: "bool \<Rightarrow> s3_stats \<Rightarrow> rfloat" where
  "cost_dollar_approx ns s =
     f64_mul_add ns
       (f64_div ns (u64_as_f64 (st_get_bytes s)) (f64_mul ns (f64_mul ns (f64_lit 1024) (f64_lit 1024)) (f64_lit 1024)))
       (f64_lit (9 / 100))
       (f64_mul_add ns
          (f64_div ns (f64_add ns (u64_as_f64 (st_get s)) (u64_as_f64 (st_head s))) (f64_lit 10000))
          (f64_lit (4 / 1000))
          (f64_mul ns (f64_div ns (u64_as_f64 (st_put s)) (f64_lit 1000)) (f64_lit (5 / 1000))))"

record io_s3_stats = s3_stats +
  ios3_put_speed :: rfloat
  ios3_get_speed :: rfloat
  ios3_cost_dollar_approx :: rfloat

definition io_s3_stats_new :: "bool \<Rightarrow> s3_stats \<Rightarrow> io_s3_stats" where
  "io_s3_stats_new ns v =
     s3_stats.extend v (io_s3_stats.fields (put_speed ns v) (get_speed ns v) (cost_dollar_approx ns v))"

subsection \<open>The control group\<close>

record proc_info =
  pi_pid :: int
  pi_statm :: "(u64 \<times> u64 \<times> u64) option"  \<comment> \<open>size, resident, shared, in pages\<close>
  pi_cgroups :: "error + string list"

record proc_world =
  pw_myself :: "proc_info option"
  pw_page_size :: u64
  pw_read :: "string \<Rightarrow> error + string"
  pw_exists :: "string \<Rightarrow> bool"

definition read_u64 :: "proc_world \<Rightarrow> string \<Rightarrow> string \<Rightarrow> error + u64" where
  "read_u64 pw path name =
     (case pw_read pw (path_join path name) of
        Inl e \<Rightarrow> Inl e
      | Inr s \<Rightarrow> (case parse_u64 (trim s) of Inl _ \<Rightarrow> Inl (Parse_Error name) | Inr v \<Rightarrow> Inr v))"

record memory_stats =
  current_bytes :: u64
  peak_bytes :: u64
  swap_current_bytes :: u64
  zswap_current_bytes :: u64

definition memory_stats_new :: "proc_world \<Rightarrow> string \<Rightarrow> error + memory_stats" where
  "memory_stats_new pw path =
     (case read_u64 pw path ''memory.current'' of Inl e \<Rightarrow> Inl e | Inr c \<Rightarrow>
      case read_u64 pw path ''memory.peak'' of Inl e \<Rightarrow> Inl e | Inr p \<Rightarrow>
      case read_u64 pw path ''memory.swap.current'' of Inl e \<Rightarrow> Inl e | Inr s \<Rightarrow>
      case read_u64 pw path ''memory.zswap.current'' of Inl e \<Rightarrow> Inl e | Inr z \<Rightarrow>
      Inr \<lparr>current_bytes = c, peak_bytes = p, swap_current_bytes = s, zswap_current_bytes = z\<rparr>)"

text \<open>\<^verbatim>\<open>.nth(1).and_then(|v| v.trim().parse().ok()).unwrap_or(0)\<close>\<close>

definition second_u64 :: "string list \<Rightarrow> u64" where
  "second_u64 ps = (case ps of _ # v # _ \<Rightarrow> (case parse_u64 (trim v) of Inl _ \<Rightarrow> 0 | Inr n \<Rightarrow> n) | _ \<Rightarrow> 0)"

record io_stats =
  total_read_bytes :: u64
  total_write_bytes :: u64

definition io_stats_part :: "string \<Rightarrow> io_stats \<Rightarrow> io_stats" where
  "io_stats_part part st =
     (if starts_with ''rbytes='' part
      then st\<lparr>total_read_bytes := total_read_bytes st + second_u64 (split_on (CHR ''='') part)\<rparr>
      else if starts_with ''wbytes='' part
      then st\<lparr>total_write_bytes := total_write_bytes st + second_u64 (split_on (CHR ''='') part)\<rparr>
      else st)"

definition io_stats_new :: "proc_world \<Rightarrow> string \<Rightarrow> error + io_stats" where
  "io_stats_new pw path =
     (case pw_read pw (path_join path ''io.stat'') of
        Inl e \<Rightarrow> Inl e
      | Inr contents \<Rightarrow>
          Inr (fold (\<lambda>line. fold io_stats_part (split_whitespace line)) (lines contents)
                 \<lparr>total_read_bytes = 0, total_write_bytes = 0\<rparr>))"

fun u128_digits :: "nat \<Rightarrow> string \<Rightarrow> int_error + 128 word" where
  "u128_digits n [] = Inr (of_nat n)"
| "u128_digits n (c # cs) =
     (case to_digit c of
        None \<Rightarrow> Inl Int_InvalidDigit
      | Some d \<Rightarrow> if 10 * n + d < 2 ^ 128 then u128_digits (10 * n + d) cs else Inl Int_PosOverflow)"

definition parse_u128 :: "string \<Rightarrow> int_error + 128 word" where
  "parse_u128 s =
     (case s of
        [] \<Rightarrow> Inl Int_Empty
      | c # cs \<Rightarrow>
          if cs = [] \<and> (c = CHR ''+'' \<or> c = CHR ''-'') then Inl Int_InvalidDigit
          else u128_digits 0 (if c = CHR ''+'' then cs else s))"

definition second_u128 :: "string list \<Rightarrow> 128 word" where
  "second_u128 ps = (case ps of _ # v # _ \<Rightarrow> (case parse_u128 (trim v) of Inl _ \<Rightarrow> 0 | Inr n \<Rightarrow> n) | _ \<Rightarrow> 0)"

record cpu_stats =
  usage_usec :: "128 word"
  user_usec :: "128 word"
  system_usec :: "128 word"

definition cpu_stats_line :: "string \<Rightarrow> cpu_stats \<Rightarrow> cpu_stats" where
  "cpu_stats_line line st =
     (if starts_with ''usage_usec'' line then st\<lparr>usage_usec := second_u128 (split_whitespace line)\<rparr>
      else if starts_with ''user_usec'' line then st\<lparr>user_usec := second_u128 (split_whitespace line)\<rparr>
      else if starts_with ''system_usec'' line then st\<lparr>system_usec := second_u128 (split_whitespace line)\<rparr>
      else st)"

definition cpu_stats_new :: "proc_world \<Rightarrow> string \<Rightarrow> error + cpu_stats" where
  "cpu_stats_new pw path =
     (case pw_read pw (path_join path ''cpu.stat'') of
        Inl e \<Rightarrow> Inl e
      | Inr contents \<Rightarrow>
          Inr (fold cpu_stats_line (lines contents) \<lparr>usage_usec = 0, user_usec = 0, system_usec = 0\<rparr>))"

record cgroup_stats =
  cg_memory :: memory_stats
  cg_io :: io_stats
  cg_cpu :: cpu_stats

definition cgroup_stats_new :: "proc_world \<Rightarrow> proc_info \<Rightarrow> error + cgroup_stats" where
  "cgroup_stats_new pw me =
     (case pi_cgroups me of
        Inl e \<Rightarrow> Inl e
      | Inr [] \<Rightarrow> Inl (Rejected ''cgroup information is missing in process.'')
      | Inr (pathname # _) \<Rightarrow>
          (let path = ''/sys/fs/cgroup/'' @ pathname
           in if \<not> pw_exists pw path then Inl (Rejected ''cgroups directory does not exists.'')
              else case memory_stats_new pw path of Inl e \<Rightarrow> Inl e | Inr m \<Rightarrow>
                   case io_stats_new pw path of Inl e \<Rightarrow> Inl e | Inr i \<Rightarrow>
                   case cpu_stats_new pw path of Inl e \<Rightarrow> Inl e | Inr c \<Rightarrow>
                   Inr \<lparr>cg_memory = m, cg_io = i, cg_cpu = c\<rparr>))"

record io_process =
  ip_pid :: int
  ip_vsize_bytes :: u64
  ip_rss_bytes :: u64
  ip_shared_bytes :: u64
  ip_cgroup :: "cgroup_stats option"

definition io_process_new :: "proc_world \<Rightarrow> io_process option" where
  "io_process_new pw =
     (case pw_myself pw of
        None \<Rightarrow> None
      | Some me \<Rightarrow>
          (case pi_statm me of
             None \<Rightarrow> None
           | Some (sz, resident, shared) \<Rightarrow> Some
               \<lparr>ip_pid = pi_pid me, ip_vsize_bytes = sz * pw_page_size pw, ip_rss_bytes = resident * pw_page_size pw,
                ip_shared_bytes = shared * pw_page_size pw,
                ip_cgroup = (case cgroup_stats_new pw me of Inl _ \<Rightarrow> None | Inr v \<Rightarrow> Some v)\<rparr>))"

record io_queue_stats =
  ioq_active_runnable :: u64
  ioq_total_runnable :: u64
  ioq_nr_runnable_waiting :: u64
  ioq_nr_runnable_disabled :: u64
  ioq_avg_runnable_time :: u64
  ioq_wait_time_ms :: u64

definition io_queue_stats_from :: "build_queue_stats \<Rightarrow> io_queue_stats" where
  "io_queue_stats_from v =
     \<lparr>ioq_active_runnable = qs_active_runnable v, ioq_total_runnable = qs_total_runnable v,
      ioq_nr_runnable_waiting = qs_nr_runnable_waiting v, ioq_nr_runnable_disabled = qs_nr_runnable_disabled v,
      ioq_avg_runnable_time = qs_avg_runnable_time v, ioq_wait_time_ms = qs_wait_time v\<rparr>"

end
