(* ===== verification/Views.thy ===== *)
theory Views
  imports Stats Runner_Dispatch
begin

text \<open>
  What the runner shows of its state over HTTP (queue-runner/src/io): a machine with its statistics and whether it
  takes another job (machine.rs), and the documents of the answers (response_types.rs, uploads.rs, build.rs).

  Asking a machine whether it has capacity resets its count of recent jobs once the time for it is over, so
  even looking at the machines writes to them; \<open>Http\<close> shows that nothing else is written.
\<close>

subsection \<open>Machines\<close>

text \<open>\<^verbatim>\<open>Pressure\<close> and \<^verbatim>\<open>PressureState\<close> have the fields of the state, which are copied one by one.\<close>

definition io_pressure_from :: "m_pressure \<Rightarrow> m_pressure" where
  "io_pressure_from v = \<lparr>avg10 = avg10 v, avg60 = avg60 v, avg300 = avg300 v, p_total = p_total v\<rparr>"

record io_machine_stats =
  ims_current_jobs :: u64
  ims_nr_steps_done :: u64
  ims_avg_step_time_ms :: u64
  ims_avg_step_import_time_ms :: u64
  ims_avg_step_build_time_ms :: u64
  ims_avg_step_upload_time_ms :: u64
  ims_total_step_time_ms :: u64
  ims_total_step_import_time_ms :: u64
  ims_total_step_build_time_ms :: u64
  ims_total_step_upload_time_ms :: u64
  ims_idle_since :: int
  ims_last_failure :: int
  ims_disabled_until :: int
  ims_consecutive_failures :: u64
  ims_last_ping :: int
  ims_since_last_ping :: int
  ims_load1 :: rfloat
  ims_load5 :: rfloat
  ims_load15 :: rfloat
  ims_mem_usage :: u64
  ims_pressure :: "pressure_state option"
  ims_build_dir_free_percent :: rfloat
  ims_store_free_percent :: rfloat
  ims_current_uploading_path_count :: u64
  ims_current_downloading_path_count :: u64
  ims_jobs_in_last_30s_start :: int
  ims_jobs_in_last_30s_count :: u64
  ims_failed_builds :: u64
  ims_succeeded_builds :: u64

definition average :: "u64 \<Rightarrow> u64 \<Rightarrow> u64" where
  "average total_ms n = (if n > 0 then total_ms div n else 0)"

definition io_machine_stats_from :: "m_stats \<Rightarrow> int \<Rightarrow> io_machine_stats" where
  "io_machine_stats_from st now =
     (let n = nr_steps_done st
      in \<lparr>ims_current_jobs = current_jobs st, ims_nr_steps_done = n,
          ims_avg_step_time_ms = average (total_step_time_ms st) n,
          ims_avg_step_import_time_ms = average (total_step_import_time_ms st) n,
          ims_avg_step_build_time_ms = average (total_step_build_time_ms st) n,
          ims_avg_step_upload_time_ms = average (total_step_upload_time_ms st) n,
          ims_total_step_time_ms = total_step_time_ms st,
          ims_total_step_import_time_ms = total_step_import_time_ms st,
          ims_total_step_build_time_ms = total_step_build_time_ms st,
          ims_total_step_upload_time_ms = total_step_upload_time_ms st,
          ims_idle_since = idle_since st, ims_last_failure = last_failure st, ims_disabled_until = disabled_until st,
          ims_consecutive_failures = consecutive_failures st, ims_last_ping = last_ping st,
          ims_since_last_ping = wrap_i64 (now - last_ping st),
          ims_load1 = load1 st, ims_load5 = load5 st, ims_load15 = load15 st, ims_mem_usage = mem_usage st,
          ims_pressure = map_option (\<lambda>p.
            \<lparr>cpu_some = map_option io_pressure_from (cpu_some p), mem_some = map_option io_pressure_from (mem_some p),
             mem_full = map_option io_pressure_from (mem_full p), io_some = map_option io_pressure_from (io_some p),
             io_full = map_option io_pressure_from (io_full p), irq_full = map_option io_pressure_from (irq_full p)\<rparr>)
            (pressure st),
          ims_build_dir_free_percent = build_dir_free_percent st, ims_store_free_percent = store_free_percent st,
          ims_current_uploading_path_count = current_uploading_path_count st,
          ims_current_downloading_path_count = current_downloading_count st,
          ims_jobs_in_last_30s_start = jobs_in_last_30s_start st, ims_jobs_in_last_30s_count = jobs_in_last_30s_count st,
          ims_failed_builds = failed_builds st, ims_succeeded_builds = succeeded_builds st\<rparr>)"

record io_machine =
  im_systems :: "string list"
  im_hostname :: string
  im_uptime :: rfloat
  im_cpu_count :: u32
  im_bogomips :: rfloat
  im_speed_factor :: rfloat
  im_max_jobs :: u32
  im_build_dir_avail_threshold :: rfloat
  im_store_avail_threshold :: rfloat
  im_load1_threshold :: rfloat
  im_cpu_psi_threshold :: rfloat
  im_mem_psi_threshold :: rfloat
  im_io_psi_threshold :: "rfloat option"
  im_score :: rfloat
  im_total_mem :: u64
  im_supported_features :: "string list"
  im_mandatory_features :: "string list"
  im_cgroups :: bool
  im_substituters :: "string list"
  im_use_substitutes :: bool
  im_nix_version :: string
  im_stats :: io_machine_stats
  im_jobs :: "store_path list"
  im_has_capacity :: bool
  im_has_dynamic_capacity :: bool
  im_has_static_capacity :: bool

text \<open>
  \<^verbatim>\<open>Machine::from_state\<close>, with the machine that the call of \<^verbatim>\<open>has_capacity\<close> leaves: \<open>time\<close> is the clock at
  the start, \<open>now\<close> the clock, in seconds, in \<^verbatim>\<open>has_capacity\<close>.
\<close>

definition from_state ::
  "'e runner_env_scheme \<Rightarrow> machine_sort_fn \<Rightarrow> machine_free_fn \<Rightarrow> timestamp \<Rightarrow> int \<Rightarrow> machine \<Rightarrow> io_machine \<times> machine" where
  "from_state env sort_fn free_fn time now m =
     (let (m', cap) = has_capacity now free_fn m
      in (\<lparr>im_systems = m_systems m, im_hostname = hostname m,
           im_uptime = (case e_total_secs env time (joined_at m) of None \<Rightarrow> Fin False 0 | Some d \<Rightarrow> d),
           im_cpu_count = cpu_count m, im_bogomips = bogomips m, im_speed_factor = speed_factor m,
           im_max_jobs = max_jobs m, im_build_dir_avail_threshold = build_dir_avail_threshold m,
           im_store_avail_threshold = store_avail_threshold m, im_load1_threshold = load1_threshold m,
           im_cpu_psi_threshold = cpu_psi_threshold m, im_mem_psi_threshold = mem_psi_threshold m,
           im_io_psi_threshold = io_psi_threshold m, im_score = score (e_nan_sign env) sort_fn m,
           im_total_mem = total_mem m, im_supported_features = supported_features m,
           im_mandatory_features = mandatory_features m, im_cgroups = cgroups m, im_substituters = substituters m,
           im_use_substitutes = use_substitutes m, im_nix_version = nix_version m,
           im_stats = io_machine_stats_from (m_stats_of m) (as_second time), im_jobs = map job_path (m_jobs m),
           im_has_capacity = cap, im_has_dynamic_capacity = has_dynamic_capacity m',
           im_has_static_capacity = has_static_capacity m'\<rparr>, m'))"

definition view_machine :: "'e runner_env_scheme \<Rightarrow> mref \<Rightarrow> (state, (string \<times> io_machine) option) io" where
  "view_machine env r =
     bind (now_io env) (\<lambda>time. bind (now_io env) (\<lambda>now. (\<lambda>w.
       case upgrade (mem_machines w) r of
         None \<Rightarrow> (Inr None, w)
       | Some m \<Rightarrow>
           (let (v, m') = from_state env (cfg_machine_sort_fn (config w)) (cfg_machine_free_fn (config w)) time (as_second now) m
            in (Inr (Some (hostname m, v)), w\<lparr>mem_machines := modify (mem_machines w) r (\<lambda>_. m')\<rparr>)))))"

text \<open>The views of all machines, collected in a map by host name.\<close>

primrec view_machines_from ::
  "'e runner_env_scheme \<Rightarrow> mref list \<Rightarrow> (string \<times> io_machine) list \<Rightarrow> (state, (string \<times> io_machine) list) io" where
  "view_machines_from env [] acc = ok acc"
| "view_machines_from env (r # rs) acc =
     bind (view_machine env r) (\<lambda>v.
     view_machines_from env rs (case v of None \<Rightarrow> acc | Some (h, m) \<Rightarrow> hm_insert h m acc))"

definition view_machines :: "'e runner_env_scheme \<Rightarrow> (state, (string \<times> io_machine) list) io" where
  "view_machines env = bind (gets (\<lambda>w. get_all_machines (r_machines w))) (\<lambda>rs. view_machines_from env rs [])"

subsection \<open>Documents\<close>

definition queue_view :: "state \<Rightarrow> siref list \<Rightarrow> io_step_info list" where
  "queue_view w rs = List.map_filter (\<lambda>r. map_option (io_step_info_from (mem_steps w)) (upgrade (q_infos (r_queues w)) r)) rs"

text \<open>\<^verbatim>\<open>Queues::clone_inner\<close> and \<^verbatim>\<open>BuildQueue::clone_inner\<close>, with the entries that are still there.\<close>

definition queues_view :: "state \<Rightarrow> (string \<times> io_step_info list) list" where
  "queues_view w =
     List.map_filter (\<lambda>(s, r). map_option (\<lambda>b. (s, queue_view w (bq_jobs b))) (upgrade (q_bufs (r_queues w)) r))
       (q_inner (r_queues w))"

record build_payload =
  bp_drv :: string
  bp_jobset_id :: int

record build_one_payload =
  bop_build_id :: int

end
