(* ===== verification/Metrics.thy ===== *)
theory Metrics
  imports Views
begin

text \<open>
  The metrics of the runner (queue-runner/src/state/metrics.rs): the counters and gauges, how the gauges that show
  the state are refreshed, and the summary of the runner in the status document (queue-runner/src/io/queue_runner.rs).

  A counter is an unsigned 64-bit number and wraps, a gauge a signed one; a gauge or counter with labels is a
  map from the label, and \<^verbatim>\<open>reset\<close> forgets all labels; a histogram keeps its observations. The names and help
  texts under which \<^verbatim>\<open>PromMetrics::new\<close> registers them, and the text format of the Prometheus library, are left
  out. The counters that the other handlers advance keep their values here.

  Lemmas: after a refresh the gauges of machines, queues and jobsets have exactly the labels of what is
  registered, and nothing of what has left.
\<close>

type_synonym gauge_vec = "(string \<times> int) list"

text \<open>The counters and gauges that the status document shows.\<close>

record prom_counters =
  pc_queue_checks_started :: u64
  pc_queue_build_loads :: u64
  pc_queue_steps_created :: u64
  pc_queue_checks_early_exits :: u64
  pc_queue_checks_finished :: u64
  pc_dispatcher_time_spent_running :: u64
  pc_dispatcher_time_spent_waiting :: u64
  pc_queue_monitor_time_spent_running :: u64
  pc_queue_monitor_time_spent_waiting :: u64
  pc_nr_builds_read :: u64
  pc_build_read_time_ms :: u64
  pc_nr_builds_unfinished :: int
  pc_nr_builds_done :: u64
  pc_nr_builds_succeeded :: u64
  pc_nr_builds_failed :: u64
  pc_nr_steps_started :: u64
  pc_nr_steps_done :: u64
  pc_nr_steps_building :: int
  pc_nr_steps_waiting :: int
  pc_nr_steps_runnable :: int
  pc_nr_steps_unfinished :: int
  pc_nr_unsupported_steps :: int
  pc_nr_unsupported_steps_aborted :: u64
  pc_nr_substitutes_started :: u64
  pc_nr_substitutes_failed :: u64
  pc_nr_substitutes_succeeded :: u64
  pc_nr_retries :: u64
  pc_max_nr_retries :: int
  pc_avg_step_time_ms :: int
  pc_avg_step_import_time_ms :: int
  pc_avg_step_build_time_ms :: int
  pc_avg_step_upload_time_ms :: int
  pc_total_step_time_ms :: u64
  pc_total_step_import_time_ms :: u64
  pc_total_step_build_time_ms :: u64
  pc_total_step_upload_time_ms :: u64
  pc_nr_queue_wakeups :: u64
  pc_nr_dispatcher_wakeups :: u64
  pc_dispatch_time_ms :: u64
  pc_machines_total :: int
  pc_machines_in_use :: int
  pc_s3_uploads_pending :: int

record type_gauges =
  runnable_per_machine_type :: gauge_vec
  running_per_machine_type :: gauge_vec
  waiting_per_machine_type :: gauge_vec
  disabled_per_machine_type :: gauge_vec
  avg_runnable_time_per_machine_type :: gauge_vec
  wait_time_per_machine_type :: gauge_vec

record machine_gauges =
  machine_current_jobs :: gauge_vec
  machine_steps_done :: gauge_vec
  machine_total_step_time_ms :: gauge_vec
  machine_total_step_import_time_ms :: gauge_vec
  machine_total_step_build_time_ms :: gauge_vec
  machine_total_step_upload_time_ms :: gauge_vec
  machine_consecutive_failures :: gauge_vec
  machine_last_ping_timestamp :: gauge_vec
  machine_idle_since_timestamp :: gauge_vec

record store_gauges =
  store_nar_info_read :: int
  store_nar_info_read_averted :: int
  store_nar_info_missing :: int
  store_nar_info_write :: int
  store_path_info_cache_size :: int
  store_nar_read :: int
  store_nar_read_bytes :: int
  store_nar_read_compressed_bytes :: int
  store_nar_write :: int
  store_nar_write_averted :: int
  store_nar_write_bytes :: int
  store_nar_write_compressed_bytes :: int
  store_nar_write_compression_time_ms :: int
  store_nar_compression_savings :: rfloat
  store_nar_compression_speed :: rfloat

record s3_gauges =
  s3_put :: gauge_vec
  s3_put_bytes :: gauge_vec
  s3_put_time_ms :: gauge_vec
  s3_put_speed :: "(string \<times> rfloat) list"
  s3_get :: gauge_vec
  s3_get_bytes :: gauge_vec
  s3_get_time_ms :: gauge_vec
  s3_get_speed :: "(string \<times> rfloat) list"
  s3_head :: gauge_vec
  s3_cost_dollar_approx :: "(string \<times> rfloat) list"

record prom_metrics =
  pm_counters :: prom_counters
  pm_types :: type_gauges
  pm_machines :: machine_gauges
  pm_store :: store_gauges
  pm_s3 :: s3_gauges
  queue_runner_current_time_seconds :: int
  queue_runner_uptime_seconds :: int
  nr_steps_copying_to :: int
  nr_steps_copying_from :: int
  build_input_drvs_histogram :: "(string \<times> rfloat list) list"
  build_closure_size_bytes_histogram :: "(string \<times> rfloat list) list"
  queue_sort_duration_ms_total :: u64
  queue_job_wait_time_histogram :: "(string \<times> rfloat list) list"
  queue_aborted_jobs_total :: u64
  jobset_share_used :: gauge_vec
  jobset_seconds :: gauge_vec

text \<open>\<^verbatim>\<open>PromMetrics::new\<close>: everything starts at zero and without labels.\<close>

definition prom_counters_new :: prom_counters where
  "prom_counters_new =
     \<lparr>pc_queue_checks_started = 0, pc_queue_build_loads = 0, pc_queue_steps_created = 0,
      pc_queue_checks_early_exits = 0, pc_queue_checks_finished = 0, pc_dispatcher_time_spent_running = 0,
      pc_dispatcher_time_spent_waiting = 0, pc_queue_monitor_time_spent_running = 0,
      pc_queue_monitor_time_spent_waiting = 0, pc_nr_builds_read = 0, pc_build_read_time_ms = 0,
      pc_nr_builds_unfinished = 0, pc_nr_builds_done = 0, pc_nr_builds_succeeded = 0, pc_nr_builds_failed = 0,
      pc_nr_steps_started = 0, pc_nr_steps_done = 0, pc_nr_steps_building = 0, pc_nr_steps_waiting = 0,
      pc_nr_steps_runnable = 0, pc_nr_steps_unfinished = 0, pc_nr_unsupported_steps = 0,
      pc_nr_unsupported_steps_aborted = 0, pc_nr_substitutes_started = 0, pc_nr_substitutes_failed = 0,
      pc_nr_substitutes_succeeded = 0, pc_nr_retries = 0, pc_max_nr_retries = 0, pc_avg_step_time_ms = 0,
      pc_avg_step_import_time_ms = 0, pc_avg_step_build_time_ms = 0, pc_avg_step_upload_time_ms = 0,
      pc_total_step_time_ms = 0, pc_total_step_import_time_ms = 0, pc_total_step_build_time_ms = 0,
      pc_total_step_upload_time_ms = 0, pc_nr_queue_wakeups = 0, pc_nr_dispatcher_wakeups = 0,
      pc_dispatch_time_ms = 0, pc_machines_total = 0, pc_machines_in_use = 0, pc_s3_uploads_pending = 0\<rparr>"

definition type_gauges_new :: type_gauges where
  "type_gauges_new =
     \<lparr>runnable_per_machine_type = [], running_per_machine_type = [], waiting_per_machine_type = [],
      disabled_per_machine_type = [], avg_runnable_time_per_machine_type = [], wait_time_per_machine_type = []\<rparr>"

definition machine_gauges_new :: machine_gauges where
  "machine_gauges_new =
     \<lparr>machine_current_jobs = [], machine_steps_done = [], machine_total_step_time_ms = [],
      machine_total_step_import_time_ms = [], machine_total_step_build_time_ms = [],
      machine_total_step_upload_time_ms = [], machine_consecutive_failures = [],
      machine_last_ping_timestamp = [], machine_idle_since_timestamp = []\<rparr>"

definition s3_gauges_new :: s3_gauges where
  "s3_gauges_new =
     \<lparr>s3_put = [], s3_put_bytes = [], s3_put_time_ms = [], s3_put_speed = [], s3_get = [], s3_get_bytes = [],
      s3_get_time_ms = [], s3_get_speed = [], s3_head = [], s3_cost_dollar_approx = []\<rparr>"

definition store_gauges_new :: store_gauges where
  "store_gauges_new =
     \<lparr>store_nar_info_read = 0, store_nar_info_read_averted = 0, store_nar_info_missing = 0,
      store_nar_info_write = 0, store_path_info_cache_size = 0, store_nar_read = 0, store_nar_read_bytes = 0,
      store_nar_read_compressed_bytes = 0, store_nar_write = 0, store_nar_write_averted = 0,
      store_nar_write_bytes = 0, store_nar_write_compressed_bytes = 0, store_nar_write_compression_time_ms = 0,
      store_nar_compression_savings = Fin False 0, store_nar_compression_speed = Fin False 0\<rparr>"

definition prom_metrics_new :: prom_metrics where
  "prom_metrics_new =
     \<lparr>pm_counters = prom_counters_new, pm_types = type_gauges_new, pm_machines = machine_gauges_new,
      pm_store = store_gauges_new, pm_s3 = s3_gauges_new, queue_runner_current_time_seconds = 0,
      queue_runner_uptime_seconds = 0, nr_steps_copying_to = 0, nr_steps_copying_from = 0,
      build_input_drvs_histogram = [], build_closure_size_bytes_histogram = [], queue_sort_duration_ms_total = 0,
      queue_job_wait_time_histogram = [], queue_aborted_jobs_total = 0, jobset_share_used = [], jobset_seconds = []\<rparr>"

text \<open>\<^verbatim>\<open>if let Ok(v) = i64::try_from(..) { gauge.set(v); }\<close> with and without a label.\<close>

definition gauge_set :: "int \<Rightarrow> int \<Rightarrow> int" where
  "gauge_set v old = (case i64_try_from v of None \<Rightarrow> old | Some x \<Rightarrow> x)"

definition vec_set :: "string \<Rightarrow> int \<Rightarrow> gauge_vec \<Rightarrow> gauge_vec" where
  "vec_set label v g = (case i64_try_from v of None \<Rightarrow> g | Some x \<Rightarrow> hm_insert label x g)"

subsection \<open>Refreshing\<close>

definition refresh_averages :: "prom_counters \<Rightarrow> prom_counters" where
  "refresh_averages c =
     (let n = pc_nr_steps_done c
      in if n > 0
         then c\<lparr>pc_avg_step_time_ms := gauge_set (uint (pc_total_step_time_ms c div n)) (pc_avg_step_time_ms c),
                pc_avg_step_import_time_ms := gauge_set (uint (pc_total_step_import_time_ms c div n)) (pc_avg_step_import_time_ms c),
                pc_avg_step_upload_time_ms := gauge_set (uint (pc_total_step_upload_time_ms c div n)) (pc_avg_step_upload_time_ms c),
                pc_avg_step_build_time_ms := gauge_set (uint (pc_total_step_build_time_ms c div n)) (pc_avg_step_build_time_ms c)\<rparr>
         else c)"

definition add_type_gauges :: "string \<times> build_queue_stats \<Rightarrow> type_gauges \<Rightarrow> type_gauges" where
  "add_type_gauges = (\<lambda>(t, s) g.
     \<lparr>runnable_per_machine_type = vec_set t (uint (qs_total_runnable s)) (runnable_per_machine_type g),
      running_per_machine_type = vec_set t (uint (qs_active_runnable s)) (running_per_machine_type g),
      waiting_per_machine_type = vec_set t (uint (qs_nr_runnable_waiting s)) (waiting_per_machine_type g),
      disabled_per_machine_type = vec_set t (uint (qs_nr_runnable_disabled s)) (disabled_per_machine_type g),
      avg_runnable_time_per_machine_type = vec_set t (uint (qs_avg_runnable_time s)) (avg_runnable_time_per_machine_type g),
      wait_time_per_machine_type = vec_set t (uint (qs_wait_time s)) (wait_time_per_machine_type g)\<rparr>)"

definition refresh_per_machine_type_metrics :: "state \<Rightarrow> type_gauges" where
  "refresh_per_machine_type_metrics w = fold add_type_gauges (get_stats_per_queue (r_queues w)) type_gauges_new"

definition add_machine_gauges :: "machine \<Rightarrow> machine_gauges \<Rightarrow> machine_gauges" where
  "add_machine_gauges m g =
     (let h = hostname m; st = m_stats_of m
      in \<lparr>machine_current_jobs = vec_set h (uint (current_jobs st)) (machine_current_jobs g),
          machine_steps_done = vec_set h (uint (nr_steps_done st)) (machine_steps_done g),
          machine_total_step_time_ms = vec_set h (uint (total_step_time_ms st)) (machine_total_step_time_ms g),
          machine_total_step_import_time_ms =
            vec_set h (uint (total_step_import_time_ms st)) (machine_total_step_import_time_ms g),
          machine_total_step_build_time_ms =
            vec_set h (uint (total_step_build_time_ms st)) (machine_total_step_build_time_ms g),
          machine_total_step_upload_time_ms =
            vec_set h (uint (total_step_upload_time_ms st)) (machine_total_step_upload_time_ms g),
          machine_consecutive_failures = vec_set h (uint (consecutive_failures st)) (machine_consecutive_failures g),
          machine_last_ping_timestamp = hm_insert h (last_ping st) (machine_last_ping_timestamp g),
          machine_idle_since_timestamp = hm_insert h (idle_since st) (machine_idle_since_timestamp g)\<rparr>)"

definition all_machines :: "state \<Rightarrow> machine list" where
  "all_machines w = List.map_filter (upgrade (mem_machines w)) (get_all_machines (r_machines w))"

definition refresh_per_machine_metrics :: "state \<Rightarrow> machine_gauges" where
  "refresh_per_machine_metrics w = fold add_machine_gauges (all_machines w) machine_gauges_new"

definition refresh_store_metrics :: "bool \<Rightarrow> error + store_stats \<Rightarrow> store_gauges \<Rightarrow> store_gauges" where
  "refresh_store_metrics ns answer g =
     (case answer of
        Inl _ \<Rightarrow> g
      | Inr s \<Rightarrow>
          \<lparr>store_nar_info_read = gauge_set (uint (nar_info_read s)) (store_nar_info_read g),
           store_nar_info_read_averted = gauge_set (uint (nar_info_read_averted s)) (store_nar_info_read_averted g),
           store_nar_info_missing = gauge_set (uint (nar_info_missing s)) (store_nar_info_missing g),
           store_nar_info_write = gauge_set (uint (nar_info_write s)) (store_nar_info_write g),
           store_path_info_cache_size = gauge_set (uint (path_info_cache_size s)) (store_path_info_cache_size g),
           store_nar_read = gauge_set (uint (nar_read s)) (store_nar_read g),
           store_nar_read_bytes = gauge_set (uint (nar_read_bytes s)) (store_nar_read_bytes g),
           store_nar_read_compressed_bytes =
             gauge_set (uint (nar_read_compressed_bytes s)) (store_nar_read_compressed_bytes g),
           store_nar_write = gauge_set (uint (nar_write s)) (store_nar_write g),
           store_nar_write_averted = gauge_set (uint (nar_write_averted s)) (store_nar_write_averted g),
           store_nar_write_bytes = gauge_set (uint (nar_write_bytes s)) (store_nar_write_bytes g),
           store_nar_write_compressed_bytes =
             gauge_set (uint (nar_write_compressed_bytes s)) (store_nar_write_compressed_bytes g),
           store_nar_write_compression_time_ms =
             gauge_set (uint (nar_write_compression_time_ms s)) (store_nar_write_compression_time_ms g),
           store_nar_compression_savings = nar_compression_savings ns s,
           store_nar_compression_speed = nar_compression_speed ns s\<rparr>)"

definition add_s3_gauges :: "bool \<Rightarrow> string \<times> s3_stats \<Rightarrow> s3_gauges \<Rightarrow> s3_gauges" where
  "add_s3_gauges ns = (\<lambda>(b, s) g.
     \<lparr>s3_put = vec_set b (uint (st_put s)) (s3_put g),
      s3_put_bytes = vec_set b (uint (st_put_bytes s)) (s3_put_bytes g),
      s3_put_time_ms = vec_set b (uint (st_put_time_ms s)) (s3_put_time_ms g),
      s3_put_speed = hm_insert b (put_speed ns s) (s3_put_speed g),
      s3_get = vec_set b (uint (st_get s)) (s3_get g),
      s3_get_bytes = vec_set b (uint (st_get_bytes s)) (s3_get_bytes g),
      s3_get_time_ms = vec_set b (uint (st_get_time_ms s)) (s3_get_time_ms g),
      s3_get_speed = hm_insert b (get_speed ns s) (s3_get_speed g),
      s3_head = vec_set b (uint (st_head s)) (s3_head g),
      s3_cost_dollar_approx = hm_insert b (cost_dollar_approx ns s) (s3_cost_dollar_approx g)\<rparr>)"

definition refresh_s3_metrics :: "bool \<Rightarrow> (string \<times> s3_stats) list \<Rightarrow> s3_gauges" where
  "refresh_s3_metrics ns stores = fold (add_s3_gauges ns) stores s3_gauges_new"

definition refresh_jobset_metrics :: "state \<Rightarrow> gauge_vec \<times> gauge_vec" where
  "refresh_jobset_metrics w =
     fold (\<lambda>(n, j) (share, secs). (hm_insert n (uint (io_shares j)) share, hm_insert n (io_seconds j) secs))
       (jobsets_clone_as_io (mem_jobsets w) (r_jobsets w)) ([], [])"

text \<open>
  \<^verbatim>\<open>refresh_dynamic_metrics\<close>: counting the steps drops the dead entries from the registry, twice. \<open>stores\<close> are
  the remote stores by bucket, \<open>answer\<close> is the answer of the local store, \<open>started\<close> the start of the runner.
\<close>

definition refresh_counts :: "prom_counters \<Rightarrow> state \<Rightarrow> prom_counters \<times> state" where
  "refresh_counts c w =
     (let (reg1, n_steps) = steps_len (mem_steps w) (r_steps w);
          (reg2, n_runnable) = steps_len_runnable (mem_steps w) reg1
      in (c\<lparr>pc_nr_builds_unfinished := gauge_set (int (length (r_builds w))) (pc_nr_builds_unfinished c),
            pc_nr_steps_unfinished := gauge_set (int n_steps) (pc_nr_steps_unfinished c),
            pc_nr_steps_runnable := gauge_set (int n_runnable) (pc_nr_steps_runnable c),
            pc_machines_total := gauge_set (int (get_machine_count (r_machines w))) (pc_machines_total c),
            pc_machines_in_use :=
              gauge_set (int (get_machine_count_in_use (mem_machines w) (r_machines w))) (pc_machines_in_use c)\<rparr>,
          w\<lparr>r_steps := reg2\<rparr>))"

definition refresh_uploads_pending :: "state \<Rightarrow> prom_counters \<Rightarrow> prom_counters" where
  "refresh_uploads_pending w c =
     c\<lparr>pc_s3_uploads_pending := gauge_set (int (len_of_queue (r_uploader w))) (pc_s3_uploads_pending c)\<rparr>"

definition refresh_transfer_metrics :: "state \<Rightarrow> prom_metrics \<Rightarrow> prom_metrics" where
  "refresh_transfer_metrics w p =
     (let up = sum_list (map (current_uploading_path_count \<circ> m_stats_of) (all_machines w));
          down = sum_list (map (current_downloading_count \<circ> m_stats_of) (all_machines w))
      in p\<lparr>nr_steps_copying_to := gauge_set (uint up) (nr_steps_copying_to p),
           nr_steps_copying_from := gauge_set (uint down) (nr_steps_copying_from p)\<rparr>)"

definition refresh_time_metrics :: "'e runner_env_scheme \<Rightarrow> timestamp \<Rightarrow> timestamp \<Rightarrow> prom_metrics \<Rightarrow> prom_metrics" where
  "refresh_time_metrics env started now p =
     p\<lparr>queue_runner_current_time_seconds := as_second now,
       queue_runner_uptime_seconds :=
         f_to_i64 (case e_total_secs env now started of None \<Rightarrow> Fin False 0 | Some d \<Rightarrow> d)\<rparr>"

definition refresh_dynamic_metrics ::
  "'e runner_env_scheme \<Rightarrow> (string \<times> s3_stats) list \<Rightarrow> error + store_stats \<Rightarrow> timestamp \<Rightarrow> timestamp \<Rightarrow>
   prom_metrics \<Rightarrow> state \<Rightarrow> prom_metrics \<times> state" where
  "refresh_dynamic_metrics env stores answer started now p w =
     (let (c, w') = refresh_counts (refresh_averages (pm_counters p)) w;
          (share, secs) = refresh_jobset_metrics w;
          p1 = p\<lparr>pm_counters := refresh_uploads_pending w c, pm_types := refresh_per_machine_type_metrics w,
                 pm_machines := refresh_per_machine_metrics w,
                 pm_store := refresh_store_metrics (e_nan_sign env) answer (pm_store p),
                 pm_s3 := refresh_s3_metrics (e_nan_sign env) stores\<rparr>;
          p2 = (refresh_transfer_metrics w p1)\<lparr>jobset_share_used := share, jobset_seconds := secs\<rparr>
      in (refresh_time_metrics env started now p2, w'))"

subsection \<open>Counting\<close>

definition pm_add_total :: "nat \<Rightarrow> u64 \<Rightarrow> u64" where
  "pm_add_total v old = (case u64_try_from (int v) of None \<Rightarrow> old | Some x \<Rightarrow> old + x)"

definition pm_track_times :: "build_timings \<Rightarrow> u64 \<Rightarrow> prom_counters \<Rightarrow> prom_counters" where
  "pm_track_times timings total_step_time c =
     c\<lparr>pc_nr_steps_done := pc_nr_steps_done c + 1, pc_nr_steps_building := wrap_i64 (pc_nr_steps_building c - 1),
       pc_total_step_import_time_ms := pm_add_total (import_elapsed timings) (pc_total_step_import_time_ms c),
       pc_total_step_build_time_ms := pm_add_total (build_elapsed timings) (pc_total_step_build_time_ms c),
       pc_total_step_upload_time_ms := pm_add_total (upload_elapsed timings) (pc_total_step_upload_time_ms c),
       pc_total_step_time_ms := pc_total_step_time_ms c + total_step_time\<rparr>"

definition pm_track_build_success :: "build_timings \<Rightarrow> u64 \<Rightarrow> prom_counters \<Rightarrow> prom_counters" where
  "pm_track_build_success timings total_step_time c =
     pm_track_times timings total_step_time (c\<lparr>pc_nr_builds_succeeded := pc_nr_builds_succeeded c + 1\<rparr>)"

definition pm_track_build_failure :: "build_timings \<Rightarrow> u64 \<Rightarrow> prom_counters \<Rightarrow> prom_counters" where
  "pm_track_build_failure timings total_step_time c =
     pm_track_times timings total_step_time (c\<lparr>pc_nr_builds_failed := pc_nr_builds_failed c + 1\<rparr>)"

definition observe :: "string \<Rightarrow> rfloat \<Rightarrow> (string \<times> rfloat list) list \<Rightarrow> (string \<times> rfloat list) list" where
  "observe label v h = hm_insert label ((case hm_get h label of None \<Rightarrow> [] | Some vs \<Rightarrow> vs) @ [v]) h"

definition observe_build_input_drvs :: "rfloat \<Rightarrow> string \<Rightarrow> prom_metrics \<Rightarrow> prom_metrics" where
  "observe_build_input_drvs v t p = p\<lparr>build_input_drvs_histogram := observe t v (build_input_drvs_histogram p)\<rparr>"

definition observe_build_closure_size :: "rfloat \<Rightarrow> string \<Rightarrow> prom_metrics \<Rightarrow> prom_metrics" where
  "observe_build_closure_size v t p =
     p\<lparr>build_closure_size_bytes_histogram := observe t v (build_closure_size_bytes_histogram p)\<rparr>"

definition observe_job_wait_time :: "rfloat \<Rightarrow> string \<Rightarrow> prom_metrics \<Rightarrow> prom_metrics" where
  "observe_job_wait_time v t p = p\<lparr>queue_job_wait_time_histogram := observe t v (queue_job_wait_time_histogram p)\<rparr>"

subsection \<open>What a refresh shows\<close>

lemma keys_hm_insert: "fst ` set (hm_insert h v g) = insert h (fst ` set g)"
  by (auto simp: dom_map_of_conv_image_fst [symmetric] update_conv)

lemma machine_gauges_labels:
  "fst ` set (machine_last_ping_timestamp (fold add_machine_gauges ms g)) =
     hostname ` set ms \<union> fst ` set (machine_last_ping_timestamp g)"
  by (induction ms arbitrary: g) (simp_all add: add_machine_gauges_def Let_def keys_hm_insert)

text \<open>
  A refresh leaves exactly the host names of the registered machines as labels, whatever was shown before, and the gauge
  of a machine whose host name no other machine has shows its jobs. Machines that share a host name share a label.
\<close>

theorem refresh_shows_machines:
  assumes "m \<in> set (all_machines w)" and "\<And>m'. m' \<in> set (all_machines w) \<Longrightarrow> hostname m' = hostname m \<Longrightarrow> m' = m"
    and "uint (current_jobs (m_stats_of m)) < 2 ^ 63"
  shows "hm_get (machine_current_jobs (refresh_per_machine_metrics w)) (hostname m) = Some (uint (current_jobs (m_stats_of m)))"
    and "fst ` set (machine_last_ping_timestamp (refresh_per_machine_metrics w)) = hostname ` set (all_machines w)"
proof -
  have fits: "i64_try_from (uint (current_jobs (m_stats_of m))) = Some (uint (current_jobs (m_stats_of m)))"
    using assms(3) by (simp add: i64_try_from_def order_trans [OF _ uint_ge_0])
  have "hm_get (machine_current_jobs (fold add_machine_gauges ms g)) (hostname m) = Some (uint (current_jobs (m_stats_of m)))"
    if "m \<in> set ms" "\<And>m'. m' \<in> set ms \<Longrightarrow> hostname m' = hostname m \<Longrightarrow> m' = m" for ms g
    using that
  proof (induction ms rule: rev_induct)
    case (snoc a ms)
    have add: "machine_current_jobs (add_machine_gauges b g) =
        vec_set (hostname b) (uint (current_jobs (m_stats_of b))) (machine_current_jobs g)" for b g
      by (simp add: add_machine_gauges_def Let_def)
    show ?case
    proof (cases "hostname a = hostname m")
      case True
      then have "a = m" using snoc.prems(2) [of a] by simp
      then show ?thesis by (simp add: add vec_set_def fits update_conv)
    next
      case False
      then have "m \<in> set ms" using snoc.prems(1) by auto
      then have "hm_get (machine_current_jobs (fold add_machine_gauges ms g)) (hostname m) = Some (uint (current_jobs (m_stats_of m)))"
        using snoc.prems(2) by (intro snoc.IH) auto
      with False show ?thesis by (simp add: add vec_set_def update_conv split: option.splits)
    qed
  qed simp
  with assms(1,2) show "hm_get (machine_current_jobs (refresh_per_machine_metrics w)) (hostname m) =
      Some (uint (current_jobs (m_stats_of m)))"
    by (simp add: refresh_per_machine_metrics_def)
  show "fst ` set (machine_last_ping_timestamp (refresh_per_machine_metrics w)) = hostname ` set (all_machines w)"
    by (simp add: refresh_per_machine_metrics_def machine_gauges_labels machine_gauges_new_def)
qed

end
