(* ===== verification/Http.thy ===== *)
theory Http
  imports Metrics
begin

text \<open>
  The HTTP server of the runner (queue-runner/src/server/http.rs): the table of routes, the handlers, how an error
  becomes an answer, and the documents the handlers send (queue-runner/src/io/queue_runner.rs and response_types.rs).

  A handler has the result type of the source inside the state passing of the runner: a value or an \<open>http_error\<close>,
  while a panic or a loop that does not end is outside of both. \<open>web\<close> is the state of the runner together with what the
  documents show besides: the metrics, the start of the runner, and the statistics of the remote stores. The
  library that turns documents into JSON and parses the bodies of requests, the text format of the metrics, and
  the texts of errors are arguments (\<open>web_env\<close>); reading the body of a request may fail. The listener and the
  connections (\<^verbatim>\<open>Server::run\<close>) are left out.

  Lemmas in \<open>Http_Facts\<close>: which requests are answered and how; that no GET request changes what the runner works
  on; whether a build is active.
\<close>

subsection \<open>Documents\<close>

record queue_runner_stats =
  qr_status :: string
  qr_time :: timestamp
  qr_uptime :: rfloat
  qr_proc :: "io_process option"
  qr_supported_features :: "string list"
  qr_build_count :: nat
  qr_jobset_count :: nat
  qr_step_count :: nat
  qr_runnable_count :: nat
  qr_queue_stats :: "(string \<times> io_queue_stats) list"
  qr_counters :: prom_counters

record dump_response =
  dr_queue_runner :: queue_runner_stats
  dr_machines :: "(string \<times> io_machine) list"
  dr_jobsets :: "(string \<times> io_jobset) list"
  dr_store :: "io_store_stats option"
  dr_s3 :: "(string \<times> io_s3_stats) list"

datatype http_body =
    Empty_Body
  | Error_Body string
  | Dump_Body dump_response
  | Machines_Body "(string \<times> io_machine) list" nat
  | Jobsets_Body "(string \<times> io_jobset) list" nat
  | Builds_Body "io_build list" nat
  | Steps_Body "io_step list" nat
  | Queue_Body "(string \<times> io_step_info list) list"
  | Step_Info_Body "io_step_info list" nat
  | Uploads_Body "store_path list" nat
  | Active_Body bool

text \<open>The store and the remote stores answer with their statistics.\<close>

definition dump_response_new ::
  "bool \<Rightarrow> queue_runner_stats \<Rightarrow> (string \<times> io_machine) list \<Rightarrow> (string \<times> io_jobset) list \<Rightarrow> error + store_stats \<Rightarrow>
   (string \<times> s3_stats) list \<Rightarrow> http_body" where
  "dump_response_new ns queue_stats ms jobsets local_stats stores = Dump_Body
     \<lparr>dr_queue_runner = queue_stats, dr_machines = ms, dr_jobsets = jobsets,
      dr_store = (case local_stats of Inl _ \<Rightarrow> None | Inr v \<Rightarrow> Some (io_store_stats_new ns v)),
      dr_s3 = fold (\<lambda>(b, v). hm_insert b (io_s3_stats_new ns v)) stores []\<rparr>"

definition queue_response :: "(string \<times> io_step_info list) list \<Rightarrow> http_body" where
  "queue_response queues = Queue_Body queues"

definition machines_response :: "(string \<times> io_machine) list \<Rightarrow> http_body" where
  "machines_response ms = Machines_Body ms (length ms)"

definition jobsets_response :: "(string \<times> io_jobset) list \<Rightarrow> http_body" where
  "jobsets_response js = Jobsets_Body js (length js)"

definition builds_response :: "io_build list \<Rightarrow> http_body" where
  "builds_response bs = Builds_Body bs (length bs)"

definition steps_response :: "io_step list \<Rightarrow> http_body" where
  "steps_response ss = Steps_Body ss (length ss)"

definition step_info_response :: "io_step_info list \<Rightarrow> http_body" where
  "step_info_response ss = Step_Info_Body ss (length ss)"

definition uploads_response :: "store_path list \<Rightarrow> http_body" where
  "uploads_response ps = Uploads_Body ps (length ps)"

subsection \<open>Requests, answers and errors\<close>

datatype http_error =
    Err_Uuid error
  | Err_SerdeJson error
  | Err_HyperHttp error
  | Err_Hyper error
  | Err_Io error
  | Err_Anyhow error
  | Err_Sqlx error
  | Err_NotFound
  | Err_Fatal

definition get_status :: "http_error \<Rightarrow> nat" where
  "get_status e = (case e of Err_NotFound \<Rightarrow> 404 | _ \<Rightarrow> 500)"

record http_request =
  rq_method :: string
  rq_path :: string
  rq_body :: "error + string"

record http_response =
  hr_status :: nat
  hr_content_type :: string
  hr_body :: string

record web_env = runner_env +
  wb_json :: "http_body \<Rightarrow> error + string"
  wb_build_payload :: "string \<Rightarrow> error + build_payload"
  wb_build_one_payload :: "string \<Rightarrow> error + build_one_payload"
  wb_encode_metrics :: "prom_metrics \<Rightarrow> error + string"
  wb_show_error :: "error \<Rightarrow> string"
  wb_store_stats :: "nat \<Rightarrow> error + store_stats"
  wb_proc :: "nat \<Rightarrow> proc_world"

definition get_body :: "'e web_env_scheme \<Rightarrow> http_error \<Rightarrow> http_body" where
  "get_body env e = Error_Body
     (let quote = (\<lambda>what x. what @ '' error: `'' @ wb_show_error env x @ ''`'')
      in case e of
           Err_Uuid x \<Rightarrow> quote ''uuid'' x
         | Err_SerdeJson x \<Rightarrow> quote ''serde json'' x
         | Err_HyperHttp x \<Rightarrow> quote ''hyper http'' x
         | Err_Hyper x \<Rightarrow> quote ''hyper'' x
         | Err_Io x \<Rightarrow> quote ''std io'' x
         | Err_Anyhow x \<Rightarrow> quote ''anyhow'' x
         | Err_Sqlx x \<Rightarrow> quote ''db'' x
         | Err_NotFound \<Rightarrow> ''Not found''
         | Err_Fatal \<Rightarrow> ''Fatal'')"

definition construct_json_response :: "'e web_env_scheme \<Rightarrow> nat \<Rightarrow> http_body \<Rightarrow> http_error + http_response" where
  "construct_json_response env status data =
     (case wb_json env data of
        Inl e \<Rightarrow> Inl (Err_SerdeJson e)
      | Inr s \<Rightarrow> Inr \<lparr>hr_status = status, hr_content_type = ''application/json'', hr_body = s\<rparr>)"

definition construct_json_ok_response :: "'e web_env_scheme \<Rightarrow> http_body \<Rightarrow> http_error + http_response" where
  "construct_json_ok_response env data = construct_json_response env 200 data"

subsection \<open>Handlers\<close>

record web =
  w_state :: state
  w_metrics :: prom_metrics
  w_started_at :: timestamp
  w_stores :: "(string \<times> s3_stats) list"

type_synonym 'a http = "(web, http_error + 'a) io"

definition in_state :: "(state, 'a) io \<Rightarrow> (web, 'a) io" where
  "in_state m = (\<lambda>w. case m (w_state w) of (r, s) \<Rightarrow> (r, w\<lparr>w_state := s\<rparr>))"

text \<open>The question mark on a result of another error type, and on a result of the same.\<close>

definition raising :: "(error \<Rightarrow> http_error) \<Rightarrow> (state, 'a) io \<Rightarrow> 'a http" where
  "raising f m = bind (attempt (in_state m)) (\<lambda>r. ok (case r of Inl e \<Rightarrow> Inl (f e) | Inr a \<Rightarrow> Inr a))"

definition hbind :: "'a http \<Rightarrow> ('a \<Rightarrow> 'b http) \<Rightarrow> 'b http" where
  "hbind m k = bind m (\<lambda>r. case r of Inl e \<Rightarrow> ok (Inl e) | Inr a \<Rightarrow> k a)"

definition answer :: "'e web_env_scheme \<Rightarrow> (web, http_body) io \<Rightarrow> http_response http" where
  "answer env m = bind m (\<lambda>b. ok (construct_json_ok_response env b))"

definition refresh_metrics :: "'e web_env_scheme \<Rightarrow> (web, unit) io" where
  "refresh_metrics env =
     bind (in_state (ask (wb_store_stats env))) (\<lambda>stats.
     bind (in_state (now_io env)) (\<lambda>now.
     update_st (\<lambda>w.
       let (p, s) = refresh_dynamic_metrics env (w_stores w) stats (w_started_at w) now (w_metrics w) (w_state w)
       in w\<lparr>w_metrics := p, w_state := s\<rparr>)))"

definition count_steps :: "(state, nat \<times> nat) io" where
  "count_steps = (\<lambda>w.
     let (reg1, n) = steps_len (mem_steps w) (r_steps w);
         (reg2, k) = steps_len_runnable (mem_steps w) reg1
     in (Inr (n, k), w\<lparr>r_steps := reg2\<rparr>))"

definition queue_runner_stats_new :: "'e web_env_scheme \<Rightarrow> (web, queue_runner_stats) io" where
  "queue_runner_stats_new env =
     bind (gets w_state) (\<lambda>s.
     bind (in_state count_steps) (\<lambda>(n, k).
     and_then (refresh_metrics env)
     (bind (in_state (now_io env)) (\<lambda>time.
      bind (in_state (ask (wb_proc env))) (\<lambda>pw.
      gets (\<lambda>w.
       \<lparr>qr_status = ''up'', qr_time = time,
        qr_uptime = (case e_total_secs env time (w_started_at w) of None \<Rightarrow> Fin False 0 | Some d \<Rightarrow> d),
        qr_proc = io_process_new pw, qr_supported_features = ms_supported_features (r_machines (w_state w)),
        qr_build_count = length (r_builds s), qr_jobset_count = length (r_jobsets s),
        qr_step_count = n, qr_runnable_count = k,
        qr_queue_stats = map (\<lambda>(t, q). (t, io_queue_stats_from q)) (get_stats_per_queue (r_queues s)),
        qr_counters = pm_counters (w_metrics w)\<rparr>))))))"

definition status_get :: "'e web_env_scheme \<Rightarrow> http_response http" where
  "status_get env = answer env
     (bind (queue_runner_stats_new env) (\<lambda>queue_stats.
      bind (in_state (view_machines env)) (\<lambda>ms.
      bind (in_state (ask (wb_store_stats env))) (\<lambda>local_stats.
      gets (\<lambda>w. dump_response_new (e_nan_sign env) queue_stats ms
        (jobsets_clone_as_io (mem_jobsets (w_state w)) (r_jobsets (w_state w))) local_stats (w_stores w))))))"

definition status_machines :: "'e web_env_scheme \<Rightarrow> http_response http" where
  "status_machines env = answer env (bind (in_state (view_machines env)) (\<lambda>ms. ok (machines_response ms)))"

definition status_jobsets :: "'e web_env_scheme \<Rightarrow> http_response http" where
  "status_jobsets env = answer env (gets (\<lambda>w.
     jobsets_response (jobsets_clone_as_io (mem_jobsets (w_state w)) (r_jobsets (w_state w)))))"

definition status_builds :: "'e web_env_scheme \<Rightarrow> http_response http" where
  "status_builds env = answer env (gets (\<lambda>w.
     builds_response (builds_clone_as_io (mem_builds (w_state w)) (r_builds (w_state w)))))"

definition status_steps :: "'e web_env_scheme \<Rightarrow> http_response http" where
  "status_steps env = answer env (gets (\<lambda>w.
     steps_response (steps_clone_as_io (mem_steps (w_state w)) (r_steps (w_state w)))))"

definition status_runnable :: "'e web_env_scheme \<Rightarrow> http_response http" where
  "status_runnable env = answer env (gets (\<lambda>w.
     steps_response (clone_runnable_as_io (mem_steps (w_state w)) (r_steps (w_state w)))))"

definition status_queues :: "'e web_env_scheme \<Rightarrow> http_response http" where
  "status_queues env = answer env (gets (\<lambda>w. queue_response (queues_view (w_state w))))"

definition status_queue_jobs :: "'e web_env_scheme \<Rightarrow> http_response http" where
  "status_queue_jobs env = answer env (gets (\<lambda>w.
     step_info_response (queue_view (w_state w) (get_jobs (r_queues (w_state w))))))"

definition status_queue_scheduled :: "'e web_env_scheme \<Rightarrow> http_response http" where
  "status_queue_scheduled env = answer env (gets (\<lambda>w.
     step_info_response (queue_view (w_state w) (get_scheduled (r_queues (w_state w))))))"

definition status_queued_uploads :: "'e web_env_scheme \<Rightarrow> http_response http" where
  "status_queued_uploads env = answer env (gets (\<lambda>w. uploads_response (paths_in_queue (r_uploader (w_state w)))))"

definition status_active :: "'e web_env_scheme \<Rightarrow> string \<Rightarrow> http_response http" where
  "status_active env id_str =
     (case parse_i32 id_str of
        Inl _ \<Rightarrow> ok (Inl Err_NotFound)
      | Inr build_id \<Rightarrow>
          hbind (raising Err_Sqlx (db_get env)) (\<lambda>_.
          hbind (raising Err_Sqlx (get_not_finished_builds_fast env)) (\<lambda>rows.
          ok (construct_json_ok_response env (Active_Body (list_ex (\<lambda>b. bs_id b = build_id) rows))))))"

definition dump_status_post :: "'e web_env_scheme \<Rightarrow> http_response http" where
  "dump_status_post env =
     hbind (raising Err_Sqlx (db_get env)) (\<lambda>_.
     hbind (raising Err_Sqlx (transaction env (notify_dump_status env))) (\<lambda>_.
     ok (construct_json_ok_response env Empty_Body)))"

definition request_data :: "(string \<Rightarrow> error + 'a) \<Rightarrow> http_request \<Rightarrow> http_error + 'a" where
  "request_data parse req =
     (case rq_body req of
        Inl e \<Rightarrow> Inl (Err_Hyper e)
      | Inr s \<Rightarrow> (case parse s of Inl e \<Rightarrow> Inl (Err_SerdeJson e) | Inr a \<Rightarrow> Inr a))"

definition build_put :: "'e web_env_scheme \<Rightarrow> http_request \<Rightarrow> http_response http" where
  "build_put env req =
     hbind (ok (request_data (wb_build_payload env) req)) (\<lambda>data.
     hbind (raising Err_Anyhow (queue_one_build env (bp_jobset_id data) (store_path_new (e_nix_dir env) (bp_drv data)))) (\<lambda>_.
     ok (construct_json_ok_response env Empty_Body)))"

definition build_one_post :: "'e web_env_scheme \<Rightarrow> nat \<Rightarrow> nat \<Rightarrow> http_request \<Rightarrow> http_response http" where
  "build_one_post env step_fuel fuel req =
     hbind (ok (request_data (wb_build_one_payload env) req)) (\<lambda>data.
     hbind (raising Err_Anyhow (manually_add_queue_build env step_fuel fuel (bop_build_id data))) (\<lambda>found.
     ok (if found then construct_json_ok_response env Empty_Body else Inl Err_NotFound)))"

definition metrics_get :: "'e web_env_scheme \<Rightarrow> http_response http" where
  "metrics_get env =
     and_then (refresh_metrics env) (gets (\<lambda>w.
       case wb_encode_metrics env (w_metrics w) of
         Inl e \<Rightarrow> Inl (Err_Anyhow e)
       | Inr s \<Rightarrow> Inr \<lparr>hr_status = 200, hr_content_type = ''text/plain; version=0.0.4; charset=utf-8'', hr_body = s\<rparr>))"

subsection \<open>Routes\<close>

definition strip_suffix :: "string \<Rightarrow> string \<Rightarrow> string option" where
  "strip_suffix suffix s = map_option rev (strip_prefix (rev suffix) (rev s))"

definition ends_with :: "string \<Rightarrow> string \<Rightarrow> bool" where
  "ends_with suffix s \<longleftrightarrow> strip_suffix suffix s \<noteq> None"

definition is_at :: "string \<Rightarrow> string \<Rightarrow> bool" where
  "is_at route path \<longleftrightarrow> path = route \<or> path = route @ ''/''"

text \<open>The handler that the table selects; \<open>Inl\<close> is the error that leaves the router before it has an answer.\<close>

definition get_route :: "'e web_env_scheme \<Rightarrow> string \<Rightarrow> http_error + http_response http" where
  "get_route env path =
     (if is_at ''/status'' path then Inr (status_get env)
      else if is_at ''/status/machines'' path then Inr (status_machines env)
      else if is_at ''/status/jobsets'' path then Inr (status_jobsets env)
      else if is_at ''/status/builds'' path then Inr (status_builds env)
      else if is_at ''/status/steps'' path then Inr (status_steps env)
      else if is_at ''/status/runnable'' path then Inr (status_runnable env)
      else if is_at ''/status/queues'' path then Inr (status_queues env)
      else if is_at ''/status/queues/jobs'' path then Inr (status_queue_jobs env)
      else if is_at ''/status/queues/scheduled'' path then Inr (status_queue_scheduled env)
      else if is_at ''/status/uploads'' path then Inr (status_queued_uploads env)
      else if starts_with ''/status/build/'' path \<and> ends_with ''/active'' path
      then (case Option.bind (strip_prefix ''/status/build/'' path) (strip_suffix ''/active'') of
              None \<Rightarrow> Inl Err_NotFound
            | Some id_str \<Rightarrow> Inr (status_active env id_str))
      else if is_at ''/metrics'' path then Inr (metrics_get env)
      else Inr (ok (Inl Err_NotFound)))"

definition route :: "'e web_env_scheme \<Rightarrow> nat \<Rightarrow> nat \<Rightarrow> http_request \<Rightarrow> http_error + http_response http" where
  "route env step_fuel fuel req =
     (if rq_method req = ''GET'' then get_route env (rq_path req)
      else if rq_method req = ''POST'' \<and> is_at ''/dump_status'' (rq_path req) then Inr (dump_status_post env)
      else if rq_method req = ''PUT'' \<and> is_at ''/build'' (rq_path req) then Inr (build_put env req)
      else if rq_method req = ''POST'' \<and> is_at ''/build_one'' (rq_path req) then Inr (build_one_post env step_fuel fuel req)
      else Inr (ok (Inl Err_NotFound)))"

definition router :: "'e web_env_scheme \<Rightarrow> nat \<Rightarrow> nat \<Rightarrow> http_request \<Rightarrow> http_response http" where
  "router env step_fuel fuel req =
     (case route env step_fuel fuel req of
        Inl e \<Rightarrow> ok (Inl e)
      | Inr handler \<Rightarrow>
          bind handler (\<lambda>r. ok (case r of
            Inl e \<Rightarrow> construct_json_response env (get_status e) (get_body env e)
          | Inr resp \<Rightarrow> Inr resp)))"

end
