(* ===== verification/Http_Facts.thy ===== *)
theory Http_Facts
  imports Http Runner_Fail
begin

text \<open>
  What the HTTP server promises: every request that ends is answered, except one path that makes the router give
  up; no GET request changes what the runner works on; the question whether a build is active is answered from the
  unfinished rows of the database.
\<close>

subsection \<open>Every request is answered\<close>

definition calm :: "('s, 'a) io \<Rightarrow> bool" where
  "calm m \<longleftrightarrow> (\<forall>w. ends m (\<lambda>e _. fatal e) (\<lambda>_ _. True) w)"

named_theorems calm_rules \<open>code that only fails by a panic or by not ending\<close>

lemma calm_basic [calm_rules]: "calm (ok a)" "calm (gets f)" "calm (update_st g)" "calm (now_io env)" "calm (ask h)"
  by (simp_all add: calm_def ends_def wp_def now_io_def ask_def)

lemma calm_bind [calm_rules]: "calm m \<Longrightarrow> (\<And>a. calm (k a)) \<Longrightarrow> calm (bind m k)"
  by (fastforce simp: calm_def ends_def wp_def bind_def split: prod.splits sum.splits)

lemma calm_and_then [calm_rules]: "calm m \<Longrightarrow> calm k \<Longrightarrow> calm (and_then m k)"
  by (simp add: and_then_def calm_bind)

lemma calm_in_state [calm_rules]: "calm m \<Longrightarrow> calm (in_state m)"
  by (auto simp: calm_def ends_def wp_def in_state_def split: prod.splits sum.splits)

lemma calm_attempt [calm_rules]: "calm (attempt m)"
  by (auto simp: calm_def ends_def wp_def attempt_def split: prod.splits sum.splits)

lemma calm_raising [calm_rules]: "calm (raising f m)"
  unfolding raising_def by (intro calm_rules)

lemma calm_case [calm_rules]:
  "(\<And>a. calm (f a)) \<Longrightarrow> (\<And>b. calm (g b)) \<Longrightarrow> calm (case r of Inl a \<Rightarrow> f a | Inr b \<Rightarrow> g b)"
  "(\<And>a b. calm (h a b)) \<Longrightarrow> calm (case p of (a, b) \<Rightarrow> h a b)"
  by (auto split: sum.splits prod.splits)

lemma calm_hbind [calm_rules]: "calm m \<Longrightarrow> (\<And>a. calm (k a)) \<Longrightarrow> calm (hbind m k)"
  unfolding hbind_def by (intro calm_rules)

lemma calm_view_machines [calm_rules]: "calm (view_machines env)"
proof -
  have raw: "calm (\<lambda>w. case upgrade (mem_machines w) r of None \<Rightarrow> (Inr None, w) | Some m \<Rightarrow> (Inr (f m w), g m w))" for r f g
    by (simp add: calm_def ends_def wp_def split: option.splits)
  have one: "calm (view_machine env r)" for r
    unfolding view_machine_def Let_def split_beta by (intro calm_bind calm_basic raw)
  have "calm (view_machines_from env rs acc)" for rs acc
    by (induction rs arbitrary: acc) (auto intro!: calm_rules one)
  then show ?thesis unfolding view_machines_def by (intro calm_rules)
qed

lemma calm_count_steps [calm_rules]: "calm count_steps"
  by (simp add: calm_def ends_def wp_def count_steps_def steps_len_def steps_len_runnable_def Let_def)

lemma calm_queue_runner_stats [calm_rules]: "calm (queue_runner_stats_new env)" "calm (refresh_metrics env)"
  unfolding queue_runner_stats_new_def refresh_metrics_def by (intro calm_rules)+

lemmas handler_defs = status_get_def status_machines_def status_jobsets_def status_builds_def status_steps_def
  status_runnable_def status_queues_def status_queue_jobs_def status_queue_scheduled_def status_queued_uploads_def
  status_active_def dump_status_post_def build_put_def build_one_post_def metrics_get_def answer_def

text \<open>The path for which the router has no answer: the end of the pattern overlaps with its start.\<close>

lemma strip_suffix_iff: "strip_suffix p s = Some r \<longleftrightarrow> s = r @ p"
  by (auto simp: strip_suffix_def strip_prefix_iff rev_swap)

lemma overlap:
  assumes "p @ x = y @ s" and "\<And>z. x \<noteq> z @ s"
  shows "\<exists>k. 0 < k \<and> k \<le> length s \<and> take (length p - k) p @ take k s = p \<and> x = drop k s"
proof -
  obtain us where us: "p = y @ us" "s = us @ x"
    using assms by (auto simp: append_eq_append_conv2)
  moreover have "us \<noteq> []" using us(2) assms(2) [of "[]"] by auto
  ultimately show ?thesis by (intro exI [of _ "length us"]) auto
qed

lemma overlapping_path:
  "starts_with ''/status/build/'' path \<and> ends_with ''/active'' path \<and>
     Option.bind (strip_prefix ''/status/build/'' path) (strip_suffix ''/active'') = None \<longleftrightarrow>
   path = ''/status/build/active''" (is "?l \<longleftrightarrow> ?r")
proof
  define p where "p = ''/status/build/''"
  define s where "s = ''/active''"
  assume "?l"
  then have "starts_with p path" "ends_with s path" and none: "Option.bind (strip_prefix p path) (strip_suffix s) = None"
    by (simp_all only: p_def s_def)
  then obtain x where x: "path = p @ x" by (auto simp: starts_with_def strip_prefix_iff)
  obtain y where y: "path = y @ s"
    using \<open>ends_with s path\<close> by (auto simp: ends_with_def strip_suffix_iff)
  have "x \<noteq> z @ s" for z using none strip_suffix_iff [of s x z] by (simp add: x)
  with overlap [of p x y s] x y obtain k where k: "0 < k" "k \<le> length s" "take (length p - k) p @ take k s = p" "x = drop k s"
    by auto
  have "\<forall>k \<in> {2, 3, 4, 5, 6, 7}. take (length p - k) p @ take k s \<noteq> p" unfolding p_def s_def by code_simp
  with k(1-3) have "k = 1" by (cases "k \<in> {2, 3, 4, 5, 6, 7}") (auto simp: s_def)
  with x k(4) show ?r by (simp add: p_def s_def)
next
  assume ?r
  then show ?l by (simp add: starts_with_def ends_with_def strip_suffix_def)
qed

lemma calm_handlers:
  "calm (status_get env)" "calm (status_machines env)" "calm (status_jobsets env)" "calm (status_builds env)"
  "calm (status_steps env)" "calm (status_runnable env)" "calm (status_queues env)" "calm (status_queue_jobs env)"
  "calm (status_queue_scheduled env)" "calm (status_queued_uploads env)" "calm (status_active env i)"
  "calm (metrics_get env)" "calm (dump_status_post env)" "calm (build_put env req)" "calm (build_one_post env n k req)"
  unfolding handler_defs by (intro calm_rules)+

lemma calm_route: "route env n k req = Inr h \<Longrightarrow> calm h"
  by (auto simp: route_def get_route_def calm_handlers calm_basic split: if_splits option.splits)

lemma ok_response: "construct_json_ok_response env b = Inr x \<Longrightarrow> hr_status x = 200"
  by (auto simp: construct_json_ok_response_def construct_json_response_def split: sum.splits)

lemma run_hbind [run_rules]:
  "hbind m k w = (Inr (Inr x), w') \<longleftrightarrow> (\<exists>a w1. m w = (Inr (Inr a), w1) \<and> k a w1 = (Inr (Inr x), w'))"
  by (auto simp: hbind_def bind_def ok_def split: prod.splits sum.splits)

lemma handlers_ok:
  "answer env m w = (Inr (Inr x), w') \<Longrightarrow> hr_status x = 200"
  "status_active env i w = (Inr (Inr x), w') \<Longrightarrow> hr_status x = 200"
  "metrics_get env w = (Inr (Inr x), w') \<Longrightarrow> hr_status x = 200"
  "dump_status_post env w = (Inr (Inr x), w') \<Longrightarrow> hr_status x = 200"
  "build_put env req w = (Inr (Inr x), w') \<Longrightarrow> hr_status x = 200"
  "build_one_post env n k req w = (Inr (Inr x), w') \<Longrightarrow> hr_status x = 200"
proof -
  show "answer env m w = (Inr (Inr x), w') \<Longrightarrow> hr_status x = 200"
    unfolding answer_def run_rules by (metis ok_response)
  show "status_active env i w = (Inr (Inr x), w') \<Longrightarrow> hr_status x = 200"
    unfolding status_active_def by (auto simp: run_rules dest!: sym [of "Inr x"] ok_response split: sum.splits)
  show "metrics_get env w = (Inr (Inr x), w') \<Longrightarrow> hr_status x = 200"
    unfolding metrics_get_def run_rules by (auto split: sum.splits)
  show "dump_status_post env w = (Inr (Inr x), w') \<Longrightarrow> hr_status x = 200"
    unfolding dump_status_post_def run_rules by (metis ok_response)
  show "build_put env req w = (Inr (Inr x), w') \<Longrightarrow> hr_status x = 200"
    unfolding build_put_def run_rules by (metis ok_response)
  show "build_one_post env n k req w = (Inr (Inr x), w') \<Longrightarrow> hr_status x = 200"
    unfolding build_one_post_def run_rules by (metis ok_response Inr_not_Inl)
qed

lemma route_ok: "route env n k req = Inr h \<Longrightarrow> h w = (Inr (Inr x), w') \<Longrightarrow> hr_status x = 200"
  by (auto simp: route_def get_route_def status_get_def status_machines_def status_jobsets_def status_builds_def
      status_steps_def status_runnable_def status_queues_def status_queue_jobs_def status_queue_scheduled_def
      status_queued_uploads_def run_rules split: if_splits option.splits dest: handlers_ok)

lemma route_none:
  "(\<exists>e. route env n k req = Inl e) \<longleftrightarrow> rq_method req = ''GET'' \<and> rq_path req = ''/status/build/active''"
proof -
  have "path = ''/status/build/active''" if "get_route env path = Inl e" for path e
    using that overlapping_path [of path] unfolding get_route_def by (simp split: if_split_asm option.split_asm)
  moreover have "get_route env ''/status/build/active'' = Inl Err_NotFound"
    using overlapping_path [of "''/status/build/active''"] unfolding get_route_def is_at_def by simp
  ultimately have get: "(\<exists>e. get_route env path = Inl e) \<longleftrightarrow> path = ''/status/build/active''" for path by blast
  show ?thesis
  proof (cases "rq_method req = ''GET''")
    case True
    then show ?thesis unfolding route_def by (simp only: if_True get simp_thms)
  qed (auto simp: route_def split: if_splits)
qed

text \<open>
  C35: the router answers every request that ends, in any state and with any failures of the database, the store and
  the requests: with status 200 when the handler succeeds, and else with 404 or 500 and the text of the error. The
  exception is a GET request for \<^verbatim>\<open>/status/build/active\<close>: the error for it leaves the router itself instead of becoming an
  answer, and the connection is closed.
\<close>

theorem router_answers:
  assumes "\<And>b. \<exists>s. wb_json env b = Inr s" and "router env n k req w = (r, w')"
  shows "case r of
      Inl e \<Rightarrow> fatal e
    | Inr (Inl e) \<Rightarrow> rq_method req = ''GET'' \<and> rq_path req = ''/status/build/active'' \<and> w' = w
    | Inr (Inr x) \<Rightarrow> hr_status x \<in> {200, 404, 500} \<and>
        \<not> (rq_method req = ''GET'' \<and> rq_path req = ''/status/build/active'')"
proof (cases "route env n k req")
  case (Inl e)
  with assms(2) route_none [of env n k req] show ?thesis by (auto simp: router_def ok_def)
next
  case (Inr h)
  have calm: "ends h (\<lambda>e _. fatal e) (\<lambda>_ _. True) w" using calm_route [OF Inr] by (simp add: calm_def)
  have path: "\<not> (rq_method req = ''GET'' \<and> rq_path req = ''/status/build/active'')"
    using route_none [of env n k req] Inr by auto
  obtain q w1 where run: "h w = (q, w1)" by fastforce
  note q = ends_run [OF calm run]
  have json: "\<exists>x. construct_json_response env status b = Inr x \<and> hr_status x = status" for status b
    using assms(1) [of b] by (auto simp: construct_json_response_def)
  have status: "get_status e \<in> {404, 500}" for e by (cases e) (simp_all add: get_status_def)
  show ?thesis
  proof (cases q)
    case (Inl e)
    with assms(2) Inr run q show ?thesis by (auto simp: router_def bind_def)
  next
    case (Inr res)
    show ?thesis
    proof (cases res)
      case (Inl e)
      obtain x where "construct_json_response env (get_status e) (get_body env e) = Inr x" "hr_status x = get_status e"
        using json by blast
      with assms(2) \<open>route env n k req = Inr h\<close> run Inr Inl status [of e] path show ?thesis
        by (auto simp: router_def bind_def ok_def)
    next
      case (Inr x)
      with assms(2) \<open>route env n k req = Inr h\<close> run \<open>q = Inr res\<close> path route_ok [of env n k req h w x w1] show ?thesis
        by (auto simp: router_def bind_def ok_def)
    qed
  qed
qed

definition ex_web :: web_env where
  "ex_web = runner_env.extend ex_world
     (web_env.fields (\<lambda>_. Inr ''{}'') (\<lambda>_. Inl (Parse_Error ''json'')) (\<lambda>_. Inl (Parse_Error ''json'')) (\<lambda>_. Inr [])
        (\<lambda>_. ''e'') (\<lambda>_. Inl Store_Error)
        (\<lambda>_. \<lparr>pw_myself = None, pw_page_size = 4096, pw_read = (\<lambda>_. Inl Store_Error), pw_exists = (\<lambda>_. False)\<rparr>))"

definition ex_web_state :: web where
  "ex_web_state = \<lparr>w_state = ex_runner, w_metrics = prom_metrics_new, w_started_at = 0, w_stores = []\<rparr>"

theorem router_answers_witness:
  "\<exists>x w'. router ex_web 0 0 \<lparr>rq_method = ''GET'', rq_path = ''/nowhere'', rq_body = Inr []\<rparr> ex_web_state = (Inr (Inr x), w') \<and>
     hr_status x \<in> {200, 404, 500}"
proof -
  let ?q = "\<lparr>rq_method = ''GET'', rq_path = ''/nowhere'', rq_body = Inr []\<rparr> :: http_request"
  have json: "\<exists>s. wb_json ex_web b = Inr s" for b by (simp add: ex_web_def web_env.defs runner_env.defs)
  have "route ex_web 0 0 ?q = Inr (ok (Inl Err_NotFound))"
    by (simp add: route_def get_route_def is_at_def starts_with_def)
  then have run: "router ex_web 0 0 ?q ex_web_state = (Inr (construct_json_response ex_web 404 (get_body ex_web Err_NotFound)), ex_web_state)"
    by (simp add: router_def bind_def ok_def get_status_def)
  moreover obtain x where "construct_json_response ex_web 404 (get_body ex_web Err_NotFound) = Inr x"
    using json [of "get_body ex_web Err_NotFound"] by (auto simp: construct_json_response_def)
  ultimately show ?thesis using router_answers [OF json run] by auto
qed

subsection \<open>Looking changes nothing\<close>

text \<open>
  \<open>same_work s s'\<close>: the two states differ at most in the clock, in the window of recent jobs of the machines,
  and in entries of steps that are gone.
\<close>

definition without_window :: "machine \<Rightarrow> machine" where
  "without_window m = m\<lparr>m_stats_of := (m_stats_of m)\<lparr>jobs_in_last_30s_start := 0, jobs_in_last_30s_count := 0\<rparr>\<rparr>"

definition same_work :: "state \<Rightarrow> state \<Rightarrow> bool" where
  "same_work s s' \<longleftrightarrow>
     s'\<lparr>tick := tick s, mem_machines := mem_machines s, r_steps := r_steps s\<rparr> = s \<and>
     (\<forall>r. map_option without_window (upgrade (mem_machines s') r) = map_option without_window (upgrade (mem_machines s) r)) \<and>
     steps_retain (mem_steps s) (r_steps s') = steps_retain (mem_steps s) (r_steps s)"

lemma same_work_refl: "same_work s s"
  by (simp add: same_work_def)

lemma keeps_in_state: "keeps I m \<Longrightarrow> keeps (\<lambda>w. I (w_state w)) (in_state m)"
  by (auto simp: keeps_def in_state_def split: prod.splits)

lemma keeps_same_tick:
  "keeps (same_work s) (now_io env)" "keeps (same_work s) (ask h)"
  by (auto simp: keeps_def now_io_def ask_def same_work_def)

lemma keeps_select: "keeps (same_work s) (sql env (select f))" "keeps (same_work s) (db_get env)"
  by (auto simp: keeps_def sql_def select_def execute_def db_get_def same_work_def Let_def split: option.splits)

lemma steps_retain_twice: "steps_retain sh (steps_retain sh reg) = steps_retain sh reg"
  by (simp add: steps_retain_def)

lemma same_work_retain:
  assumes "same_work s w"
  shows "same_work s (w\<lparr>r_steps := steps_retain (mem_steps w) (r_steps w)\<rparr>)"
proof -
  have "mem_steps w = mem_steps s" using assms by (auto simp: same_work_def dest!: arg_cong [where f = mem_steps])
  with assms show ?thesis by (simp add: same_work_def steps_retain_twice)
qed

lemma keeps_count_steps: "keeps (same_work s) count_steps"
  by (auto simp: keeps_def count_steps_def steps_len_def steps_len_runnable_def Let_def steps_retain_twice same_work_retain)

lemma without_window_capacity: "has_capacity now f m = (m', b) \<Longrightarrow> without_window m' = without_window m"
  by (drule has_capacity_frame) (auto simp: without_window_def)

lemma keeps_view_machines: "keeps (same_work s) (view_machines env)"
proof -
  have raw: "same_work s (w\<lparr>mem_machines := modify (mem_machines w) r (\<lambda>_. m')\<rparr>)"
    if "same_work s w" "upgrade (mem_machines w) r = Some m" "without_window m' = without_window m" for w r m m'
    using that by (auto simp: same_work_def) (metis option.map(2))
  have one: "keeps (same_work s) (view_machine env r)" for r
    unfolding view_machine_def
  proof (intro keeps_bind keeps_same_tick)
    fix time now
    show "keeps (same_work s) (\<lambda>w. case upgrade (mem_machines w) r of None \<Rightarrow> (Inr None, w)
       | Some m \<Rightarrow> (let (v, m') = from_state env (cfg_machine_sort_fn (config w)) (cfg_machine_free_fn (config w)) time (as_second now) m
            in (Inr (Some (hostname m, v)), w\<lparr>mem_machines := modify (mem_machines w) r (\<lambda>_. m')\<rparr>)))"
      unfolding keeps_def
      by (auto simp: from_state_def Let_def split: option.splits prod.splits intro!: raw without_window_capacity)
  qed
  have "keeps (same_work s) (view_machines_from env rs acc)" for rs acc
    by (induction rs arbitrary: acc) (auto intro!: keeps_rules one)
  then show ?thesis unfolding view_machines_def by (intro keeps_rules)
qed

lemma keeps_refresh_metrics: "keeps (\<lambda>w. same_work s (w_state w)) (refresh_metrics env)"
proof -
  have "keeps (\<lambda>w. same_work s (w_state w)) (update_st (\<lambda>w.
      let (p, s') = refresh_dynamic_metrics env (w_stores w) stats (w_started_at w) now (w_metrics w) (w_state w)
      in w\<lparr>w_metrics := p, w_state := s'\<rparr>))" for stats now
    by (rule keeps_update)
      (simp add: refresh_dynamic_metrics_def refresh_counts_def steps_len_def steps_len_runnable_def Let_def
        steps_retain_twice same_work_retain split: prod.splits)
  then show ?thesis
    unfolding refresh_metrics_def by (intro keeps_rules keeps_in_state keeps_same_tick)
qed

lemma keeps_case_sum:
  "(\<And>a. keeps I (f a)) \<Longrightarrow> (\<And>b. keeps I (g b)) \<Longrightarrow> keeps I (case r of Inl a \<Rightarrow> f a | Inr b \<Rightarrow> g b)"
  "(\<And>a b. keeps I (h a b)) \<Longrightarrow> keeps I (case p of (a, b) \<Rightarrow> h a b)"
  by (auto split: sum.splits prod.splits)

lemmas keeps_looking = keeps_rules keeps_in_state keeps_same_tick keeps_select keeps_count_steps keeps_view_machines
  keeps_refresh_metrics keeps_case_sum

lemma keeps_get_handlers:
  fixes s defines "I \<equiv> \<lambda>w. same_work s (w_state w)"
  shows "keeps I (status_get env)" "keeps I (status_machines env)" "keeps I (status_jobsets env)"
    "keeps I (status_builds env)" "keeps I (status_steps env)" "keeps I (status_runnable env)"
    "keeps I (status_queues env)" "keeps I (status_queue_jobs env)" "keeps I (status_queue_scheduled env)"
    "keeps I (status_queued_uploads env)" "keeps I (status_active env i)" "keeps I (metrics_get env)"
  unfolding I_def handler_defs queue_runner_stats_new_def raising_def hbind_def get_not_finished_builds_fast_def
  by (intro keeps_looking)+

text \<open>
  C36: looking at the runner changes nothing that it works on. A GET request, for whichever path and with whatever
  failures, leaves the database, the registries, the queues, the steps, builds and jobsets, the uploads and the machines
  with their jobs as they were; only the metrics are refreshed, the entries of steps that are gone are dropped, and
  the window of recent jobs of a machine may be reset.
\<close>

theorem get_requests_read_only:
  assumes "rq_method req = ''GET''" and "router env n k req w = (r, w')"
  shows "same_work (w_state w) (w_state w')"
proof -
  have "keeps (\<lambda>v. same_work (w_state w) (w_state v)) h" if "get_route env path = Inr h" for path h
    using that by (auto simp: get_route_def keeps_get_handlers keeps_basic split: if_splits option.splits)
  then have "keeps (\<lambda>v. same_work (w_state w) (w_state v)) (router env n k req)"
    using assms(1) unfolding router_def route_def
    by (auto intro!: keeps_rules split: sum.split)
  then show ?thesis using assms(2) same_work_refl by (auto dest: keepsD)
qed

theorem get_requests_read_only_witness:
  "same_work (w_state ex_web_state)
     (w_state (snd (router ex_web 0 0 \<lparr>rq_method = ''GET'', rq_path = ''/status'', rq_body = Inr []\<rparr> ex_web_state)))"
  by (rule get_requests_read_only [OF _ prod.collapse [symmetric]]) simp

subsection \<open>Active builds\<close>

lemma ends_with_append: "ends_with s (a @ x @ s)"
  unfolding ends_with_def using strip_suffix_iff [of s "a @ x @ s" "a @ x"] by simp

lemma active_route:
  "get_route env (''/status/build/'' @ id_str @ ''/active'') = Inr (status_active env id_str)"
proof -
  have "strip_suffix ''/active'' (id_str @ ''/active'') = Some id_str" by (simp only: strip_suffix_iff)
  moreover have "ends_with ''/active'' (''/status/build/'' @ id_str @ ''/active'')"
    by (rule ends_with_append)
  moreover have "starts_with ''/status/build/'' (''/status/build/'' @ id_str @ ''/active'')"
    unfolding starts_with_def strip_prefix_append by simp
  moreover have "strip_prefix ''/status/build/'' (''/status/build/'' @ id_str @ ''/active'') = Some (id_str @ ''/active'')"
    by (rule strip_prefix_append)
  moreover have "\<not> is_at route (''/status/build/'' @ id_str @ ''/active'')"
    if "route \<in> {''/status'', ''/status/machines'', ''/status/jobsets'', ''/status/builds'', ''/status/steps'', ''/status/runnable'',
        ''/status/queues'', ''/status/queues/jobs'', ''/status/queues/scheduled'', ''/status/uploads'', ''/metrics''}" for route
    using that by (auto simp: is_at_def)
  ultimately show ?thesis unfolding get_route_def by simp
qed

text \<open>
  a build counts as active exactly when the database has an unfinished row with its number. When the database
  answers, a request for \<^verbatim>\<open>/status/build/<id>/active\<close> is answered from its rows; when the identifier is not a number
  the answer is 404 and the database is not asked; when the database fails, it is 500.
\<close>

theorem active_build_exact:
  assumes "rq_method req = ''GET''" and "rq_path req = ''/status/build/'' @ id_str @ ''/active''"
    and "\<And>t e. e_fault env t = Some e \<Longrightarrow> \<not> fatal e" and "\<And>b. \<exists>s. wb_json env b = Inr s"
  shows "\<exists>w'. router env n k req w = (Inr (case parse_i32 id_str of
      Inl _ \<Rightarrow> construct_json_response env 404 (Error_Body ''Not found'')
    | Inr i \<Rightarrow>
        (case (e_fault env (tick (w_state w)), e_fault env (Suc (tick (w_state w)))) of
           (None, None) \<Rightarrow> construct_json_response env 200
             (Active_Body (\<exists>row \<in> set (t_builds (db (w_state w))). br_id row = i \<and> br_finished row = 0))
         | (Some e, _) \<Rightarrow> construct_json_response env 500 (get_body env (Err_Sqlx e))
         | (None, Some e) \<Rightarrow> construct_json_response env 500 (get_body env (Err_Sqlx e)))), w')"
proof -
  have route: "route env n k req = Inr (status_active env id_str)"
    using assms(1,2) active_route [of env id_str] by (simp add: route_def)
  have rows: "list_ex (\<lambda>b. bs_id b = i) (map (\<lambda>r. \<lparr>bs_id = br_id r, bs_globalpriority = br_globalpriority r\<rparr>)
      (filter (\<lambda>r. br_finished r = 0) rs)) \<longleftrightarrow> (\<exists>row \<in> set rs. br_id row = i \<and> br_finished row = 0)" for i rs
    by (auto simp: list_ex_iff)
  have json: "construct_json_response env status b \<noteq> Inl e" for status b e
    using assms(4) [of b] by (auto simp: construct_json_response_def)
  have body: "get_body env Err_NotFound = Error_Body ''Not found''" by (simp add: get_body_def)
  show ?thesis
    using assms(3)
    by (auto simp: router_def route status_active_def bind_def ok_def hbind_def raising_def attempt_def in_state_def
        db_get_def sql_def execute_def get_not_finished_builds_fast_def select_def Let_def rows get_status_def body json
        construct_json_ok_response_def split: sum.splits option.splits)
qed

theorem active_build_exact_witness:
  "\<exists>w'. router ex_web 0 0 \<lparr>rq_method = ''GET'', rq_path = ''/status/build/7/active'', rq_body = Inr []\<rparr> ex_web_state =
     (Inr (construct_json_response ex_web 200 (Active_Body True)), w')"
proof -
  have env: "e_fault ex_web = (\<lambda>_. None)" "\<exists>s. wb_json ex_web b = Inr s" for b
    by (simp_all add: ex_web_def web_env.defs runner_env.defs ex_world_def db_env.defs ex_env_def)
  have "parse_i32 ''7'' = Inr 7" by code_simp
  moreover have "\<exists>row \<in> set (t_builds (db (w_state ex_web_state))). br_id row = 7 \<and> br_finished row = 0"
    by (simp add: ex_web_state_def ex_runner_def state_new_def ex_build_row_def)
  ultimately show ?thesis
    using active_build_exact [of "\<lparr>rq_method = ''GET'', rq_path = ''/status/build/7/active'', rq_body = Inr []\<rparr>" "''7''" ex_web 0 0
      ex_web_state] env by simp
qed

end
