(* ===== verification/Spec2Isabelle.thy ===== *)
theory Spec2Isabelle
  imports Runner_Success Runner_Queues Runner_Safe Cache_Facts Builder_Active Builder_Wire Http_Facts
begin

text \<open>
  A verification of hydra-queue-runner: the queue runner of Hydra, its builders and the crates they share.

  \<^bold>\<open>The program.\<close> The runner (src/queue-runner) loads unfinished builds from the database, breaks them into a graph of
  steps, keeps the runnable steps in one queue per system, chooses a machine for each, and handles the reports of success
  and failure that the builders send. Builders (src/builder) connect by gRPC, announce themselves, receive build requests,
  fetch what a build needs, build, upload the outputs and report. Outputs go into binary caches (src/crates/binary-cache),
  uploaded by the runner or by the builders through presigned URLs. The crates db, nix-utils and shared hold the
  statements on the database, the wrapper of the Nix store and the parser of the files in \<^verbatim>\<open>nix-support\<close>. The runner shows
  its state over HTTP.

  \<^bold>\<open>Foundations.\<close> \<open>Prelude\<close>: integers at their width, orderings and the stable sort, shared objects as arenas of cells
  (\<^verbatim>\<open>Arc\<close> and \<^verbatim>\<open>Weak\<close>), hash maps as association lists, and the locales that the components interpret: lawful orderings,
  memories with owners, systems with an invariant (and in \<open>Queue_Inv\<close> the contract of the function that dispatches a job). \<open>Rust_Float\<close>: \<^verbatim>\<open>f32\<close> and \<^verbatim>\<open>f64\<close> as rationals with rounding. \<open>Rust_Str\<close>: what the
  sources use of strings and paths. \<open>Io\<close>: fallible stateful code, with weakest preconditions, kept invariants, and loops
  that may not end.

  \<^bold>\<open>The data of the runner\<close> (src/queue-runner/src/state).
  \<^item> \<open>Jobset\<close> (jobset.rs): the scheduling window and the shares of a jobset; the published total is the sum over the window.
  \<^item> \<open>Derivation\<close> (nix-utils: store_path.rs, drv.rs, hash.rs, realise.rs): store paths, derivations, build options.
  \<^item> \<open>Step\<close>, \<open>Step_Graph\<close> (step.rs): steps, their dependencies in both directions, the registry; the traversals end and
    find exactly what is reachable, a finished step unblocks exactly its dependents, runnable steps have no dependency left.
  \<^item> \<open>Step_Info\<close> (step_info.rs), \<open>Queue\<close>, \<open>Queue_Inv\<close> (queue.rs): queue entries, their orders, the queues and the scheduled
    jobs; in every reachable state the maps, flags and counters agree.
  \<^item> \<open>Models\<close>, \<open>Db\<close>, \<open>Db_Facts\<close> (crates/db): the rows, each statement as a function on the tables that may fail, transactions;
    a transaction is all or nothing, step numbers are fresh, builds are marked exactly.
  \<^item> \<open>Build\<close> (build.rs): builds, priorities and their propagation, results.
  \<^item> \<open>Machine\<close>, \<open>Machine_Life\<close>, \<open>Machines\<close> (machine.rs): statistics, jobs and messages of a builder, its capacity, the registry
    and the choice of a machine.
  \<^item> \<open>Config\<close> (config.rs, server/grpc.rs): the prepared configuration and the check of tokens. \<open>Uploader\<close> (uploader.rs,
    inspectable_channel.rs): the upload queue; no wake-up is lost. \<open>Fod_Checker\<close> (fod_checker.rs): the walk of closures.

  \<^bold>\<open>The handlers of the runner\<close> (state/mod.rs). \<open>Runner\<close> is the state and the ownership of steps and builds;
  \<open>Runner_Jobs\<close> the end of a job (\<^verbatim>\<open>succeed_step\<close>, \<^verbatim>\<open>fail_step\<close>, \<^verbatim>\<open>inner_fail_job\<close>); \<open>Runner_Load\<close> loading builds
  (\<^verbatim>\<open>create_build\<close>, \<^verbatim>\<open>create_step\<close>, \<^verbatim>\<open>process_queue_change\<close>); \<open>Runner_Dispatch\<close> the dispatcher, machines that join and leave,
  reloading. \<open>Runner_Facts\<close>, \<open>Runner_Fail\<close>, \<open>Runner_Report\<close>, \<open>Runner_Success\<close>, \<open>Runner_Keeps\<close>, \<open>Runner_Queues\<close> and \<open>Runner_Safe\<close> show
  that failing a step ends and fails every dependent build, when a step is retried and when given up, what success leaves, that
  a pass of the dispatcher keeps the queues consistent, and that no sequence of handlers changes a finished build.

  \<^bold>\<open>The servers.\<close> \<open>Grpc\<close> (server/grpc.rs): the requests of the builders and the tunnel with its messages. \<open>Grpc_Tunnels\<close>: an
  abstract set of connected machines is refined by the tunnels together with all handlers of the runner. \<open>Grpc_Facts\<close>: logs
  and reports. \<open>Stats\<close>, \<open>Views\<close>, \<open>Metrics\<close>, \<open>Http\<close>, \<open>Http_Facts\<close> (server/http.rs, io, state/metrics.rs): the figures, the
  documents, the gauges, the routes; which requests are answered, and that a GET request changes nothing the runner works on.

  \<^bold>\<open>Binary caches.\<close> \<open>Nix_Store\<close> (nix-utils/src/lib.rs, realisation.rs), \<open>Nar_Info\<close> (narinfo.rs, compression.rs), \<open>Cache_Config\<close>
  (cfg.rs), \<open>S3_Cache\<close> (lib.rs, debug_info.rs, streaming_hash.rs), \<open>Presigned\<close> (presigned.rs), \<open>Cache_Facts\<close>: descriptions parse back
  and their signed text is injective, an upload in parts stores what a single request would, a published description can
  be downloaded, and which errors an upload hides.

  \<^bold>\<open>Builders.\<close> \<open>Nix_Support\<close> (crates/shared): products, metrics and release names. \<open>Builder_System\<close> (system.rs, metrics.rs,
  config.rs), \<open>Builder\<close> (state.rs, grpc.rs, main.rs), \<open>Builder_Task\<close> (state.rs): the machine description, the active builds
  and requests, one build from request to report. \<open>Builder_Facts\<close>: an import is complete. \<open>Builder_Active\<close>: how the end of a task is
  reported, one active build per derivation, and the build that stays active when its task ends too early. \<open>Builder_Wire\<close>: the
  description of an upload survives the way from the server to the builder and back.

  \<^bold>\<open>Conventions.\<close> Code outside the repository (PostgreSQL, the C++ store, object stores, HTTP clients, clocks, random numbers, JSON,
  TOML and URI parsers, procfs) answers through the fields of an environment record, which are arbitrary functions of the
  question and of the number of the call: equal questions may have different answers and every failing call may fail at any
  time. Where a property needs more, it says so in a hypothesis, and its witness gives an environment that satisfies it. A
  handler runs without interruption; what interleaves are whole handlers, turns of tunnels, and the steps of a builder
  between which its source gives up control. Futures of a buffered stream run one after the other. Texts are one-byte
  characters. Log lines are left out.

  \<^bold>\<open>Loops.\<close> Loops over finite data are structural or have a measure. The endless loops of the source are \<open>repeat_io\<close>, a
  partial function; the code that uses them is shown to end (failing a step, numbering a step). Loading builds recurses over a
  graph that the store answers step by step and may not be finite, so \<open>create_step\<close> and the loop over new builds have fuel, and
  running out of it is the error \<open>Diverges\<close>, which no handler catches; the properties of handlers that load builds hold for every
  amount of fuel.

  \<^bold>\<open>Not modelled.\<close> The start of the processes, sockets, TLS, signals and the lock file (main.rs, lock_file.rs, \<^verbatim>\<open>Server::run\<close>,
  \<^verbatim>\<open>init_client\<close>), tracing (crates/tracing), the registration of metrics under their names, the streams of archives between
  store and network (\<^verbatim>\<open>build_result\<close>, \<^verbatim>\<open>stream_file\<close>, \<^verbatim>\<open>stream_files\<close>), the foreign functions of the store and the
  delegating implementations of its trait: they are calls into libraries or the operating system without logic of their own.
\<close>

end
